(* ===== verification/GoBase.thy ===== *)
theory GoBase
  imports Complex_Main "HOL-Library.Word" "HOL-Library.AList"
begin

text \<open>
  The part of the Go language and of its standard library that the modelled
  packages use: 64-bit integers with wrap-around, the wall/monotonic clock
  readings of \<^verbatim>\<open>time.Time\<close>, byte strings and the \<^verbatim>\<open>strings\<close> and
  \<^verbatim>\<open>strconv\<close> functions, errors with their sentinels, maps that are iterated
  (association lists with distinct keys) and the symbolic form of formatted
  messages. The generic lemmas and the \<^theory_text>\<open>named_theorems\<close> collections
  shared by the component theories are here too.
\<close>

named_theorems go_simps \<open>characteristic equations of the Go library model\<close>
named_theorems go_bounds \<open>range facts about model values\<close>
named_theorems frame_simps \<open>which parts of a state an operation leaves alone\<close>

section \<open>Integers\<close>

text \<open>
  Go's \<^verbatim>\<open>int\<close>, \<^verbatim>\<open>int64\<close> and \<^verbatim>\<open>time.Duration\<close> are 64-bit two's complement.
  Values whose range the code checks are kept as \<^typ>\<open>int\<close>; where an
  unchecked product or sum can leave the range, \<open>wrap64\<close> is written out.
\<close>

definition wrap64 :: "int \<Rightarrow> int" where
  "wrap64 x = sint (word_of_int x :: 64 word)"

definition in_int64 :: "int \<Rightarrow> bool" where
  "in_int64 x \<longleftrightarrow> - (2 ^ 63) \<le> x \<and> x < 2 ^ 63"

lemma wrap64_eq: "wrap64 x = (x + 2 ^ 63) mod 2 ^ 64 - 2 ^ 63"
  by (simp add: wrap64_def sint_word_ariths(5) signed_take_bit_eq_take_bit_shift
      take_bit_eq_mod sint_sbintrunc' word_of_int_eq_iff)

lemma wrap64_range [go_bounds]: "in_int64 (wrap64 x)"
proof -
  have "0 \<le> (x + 2 ^ 63) mod 2 ^ 64" "(x + 2 ^ 63) mod 2 ^ 64 < (2 ^ 64 :: int)"
    by simp_all
  then show ?thesis by (simp add: wrap64_eq in_int64_def)
qed

lemma wrap64_id [go_simps]: "in_int64 x \<Longrightarrow> wrap64 x = x"
  by (simp add: wrap64_eq in_int64_def)

text \<open>Go's integer division truncates towards zero.\<close>

definition tquot :: "int \<Rightarrow> int \<Rightarrow> int" where
  "tquot a b = sgn a * sgn b * (\<bar>a\<bar> div \<bar>b\<bar>)"

definition trem :: "int \<Rightarrow> int \<Rightarrow> int" where
  "trem a b = a - b * tquot a b"

lemma tquot_nonneg [go_simps]: "0 \<le> a \<Longrightarrow> 0 < b \<Longrightarrow> tquot a b = a div b"
  by (cases "a = 0") (simp_all add: tquot_def)

lemma trem_nonneg [go_simps]: "0 \<le> a \<Longrightarrow> 0 < b \<Longrightarrow> trem a b = a mod b"
  by (simp add: trem_def tquot_nonneg minus_mult_div_eq_mod)

section \<open>Time\<close>

text \<open>
  A \<^verbatim>\<open>time.Time\<close> has a wall clock reading (nanoseconds since the Unix epoch)
  and, when it was read from the clock in this process, a monotonic reading.
  Comparisons and differences use the monotonic readings when both operands
  have one. Durations are nanoseconds. Instants are taken to be within the
  about 292 years around each other in which \<^verbatim>\<open>Time.Sub\<close> does not saturate.
\<close>

record gotime =
  wall :: int
  mono :: "int option"

type_synonym duration = int

definition Nanosecond :: duration where "Nanosecond = 1"
definition Millisecond :: duration where "Millisecond = 1000000"
definition Second :: duration where "Second = 1000000000"
definition Minute :: duration where "Minute = 60000000000"
definition Hour :: duration where "Hour = 3600000000000"

lemmas duration_units = Nanosecond_def Millisecond_def Second_def Minute_def Hour_def

definition Sub :: "gotime \<Rightarrow> gotime \<Rightarrow> duration" where
  "Sub a b = (case (mono a, mono b) of
      (Some x, Some y) \<Rightarrow> x - y
    | _ \<Rightarrow> wall a - wall b)"

definition Before :: "gotime \<Rightarrow> gotime \<Rightarrow> bool" where
  "Before a b \<longleftrightarrow> Sub a b < 0"

definition After :: "gotime \<Rightarrow> gotime \<Rightarrow> bool" where
  "After a b \<longleftrightarrow> Sub a b > 0"

definition Add :: "gotime \<Rightarrow> duration \<Rightarrow> gotime" where
  "Add t d = t\<lparr>wall := wall t + d, mono := map_option (\<lambda>m. m + d) (mono t)\<rparr>"

definition Unix :: "gotime \<Rightarrow> int" where
  "Unix t = wall t div Second"

lemma Sub_Add_same [go_simps]: "Sub (Add t d) t = d"
  by (simp add: Sub_def Add_def split: option.splits)

lemma Sub_Add_right [go_simps]: "Sub a (Add t d) = Sub a t - d"
  by (simp add: Sub_def Add_def split: option.splits)

lemma Sub_Add_left [go_simps]: "Sub (Add a d) t = Sub a t + d"
  by (simp add: Sub_def Add_def split: option.splits)

lemma Sub_self [simp]: "Sub t t = 0"
  by (simp add: Sub_def split: option.splits)

lemma Sub_neg: "Sub a b = - Sub b a"
  by (simp add: Sub_def split: option.splits)

lemma After_Before [go_simps]: "After a b \<longleftrightarrow> Before b a"
  using Sub_neg [of a b] by (auto simp: After_def Before_def)

text \<open>
  Instants read from the clock of one process all carry a monotonic reading,
  instants read from a file none: among either kind differences add up.
\<close>

definition same_clock :: "gotime \<Rightarrow> gotime \<Rightarrow> bool" where
  "same_clock a b \<longleftrightarrow> (mono a = None) = (mono b = None)"

lemma Sub_trans:
  "same_clock a b \<Longrightarrow> same_clock b c \<Longrightarrow> Sub a b + Sub b c = Sub a c"
  by (auto simp: Sub_def same_clock_def split: option.splits)

section \<open>Byte strings\<close>

text \<open>A Go string is a sequence of bytes, as a HOL \<^typ>\<open>string\<close> is.\<close>

definition HasPrefix :: "string \<Rightarrow> string \<Rightarrow> bool" where
  "HasPrefix s p \<longleftrightarrow> take (length p) s = p"

definition HasSuffix :: "string \<Rightarrow> string \<Rightarrow> bool" where
  "HasSuffix s p \<longleftrightarrow> length p \<le> length s \<and> drop (length s - length p) s = p"

definition TrimPrefix :: "string \<Rightarrow> string \<Rightarrow> string" where
  "TrimPrefix s p = (if HasPrefix s p then drop (length p) s else s)"

definition TrimSuffix :: "string \<Rightarrow> string \<Rightarrow> string" where
  "TrimSuffix s p = (if HasSuffix s p then take (length s - length p) s else s)"

fun Contains :: "string \<Rightarrow> string \<Rightarrow> bool" where
  "Contains [] p = (p = [])"
| "Contains (c # s) p = (HasPrefix (c # s) p \<or> Contains s p)"

fun Split :: "string \<Rightarrow> char \<Rightarrow> string list" where
  "Split [] sep = [[]]"
| "Split (c # s) sep =
     (if c = sep then [] # Split s sep
      else (case Split s sep of [] \<Rightarrow> [[c]] | w # ws \<Rightarrow> (c # w) # ws))"

fun Join :: "string list \<Rightarrow> string \<Rightarrow> string" where
  "Join [] sep = []"
| "Join [w] sep = w"
| "Join (w # v # ws) sep = w @ sep @ Join (v # ws) sep"

lemma Split_nonempty [simp]: "Split s sep \<noteq> []"
  by (induction s) (auto split: list.splits)

lemma Split_no_sep: "sep \<notin> set s \<Longrightarrow> Split s sep = [s]"
  by (induction s) auto

lemma Split_append: "sep \<notin> set w \<Longrightarrow> Split (w @ sep # s) sep = w # Split s sep"
  by (induction w) auto

lemma Split_pieces: "w \<in> set (Split s sep) \<Longrightarrow> sep \<notin> set w"
proof (induction s arbitrary: w)
  case Nil
  then show ?case by simp
next
  case (Cons c s)
  show ?case
  proof (cases "Split s sep")
    case Nil
    then show ?thesis by simp
  next
    case (Cons v vs)
    with Cons.prems Cons.IH show ?thesis
      by (auto split: if_splits)
  qed
qed

text \<open>Joining pieces without the separator and splitting again is the identity.\<close>

lemma Split_Join:
  "ws \<noteq> [] \<Longrightarrow> \<forall>w \<in> set ws. sep \<notin> set w \<Longrightarrow> Split (Join ws [sep]) sep = ws"
proof (induction ws "[sep]" rule: Join.induct)
  case 1
  then show ?case by simp
next
  case (2 w)
  then show ?case by (simp add: Split_no_sep)
next
  case (3 w v ws)
  then show ?case by (simp add: Split_append)
qed

subsection \<open>White space and letter case\<close>

text \<open>
  \<^verbatim>\<open>strings.TrimSpace\<close> removes the Unicode white space at both ends. The byte
  sequences below are the UTF-8 encodings of all code points with the
  White\_Space property that Go's \<^verbatim>\<open>unicode.IsSpace\<close> accepts.
\<close>

definition space_seqs :: "string list" where
  "space_seqs =
     [[CHR 0x09], [CHR 0x0A], [CHR 0x0B], [CHR 0x0C], [CHR 0x0D], [CHR 0x20],
      [CHR 0xC2, CHR 0x85], [CHR 0xC2, CHR 0xA0], [CHR 0xE1, CHR 0x9A, CHR 0x80],
      [CHR 0xE2, CHR 0x80, CHR 0x80], [CHR 0xE2, CHR 0x80, CHR 0x81],
      [CHR 0xE2, CHR 0x80, CHR 0x82], [CHR 0xE2, CHR 0x80, CHR 0x83],
      [CHR 0xE2, CHR 0x80, CHR 0x84], [CHR 0xE2, CHR 0x80, CHR 0x85],
      [CHR 0xE2, CHR 0x80, CHR 0x86], [CHR 0xE2, CHR 0x80, CHR 0x87],
      [CHR 0xE2, CHR 0x80, CHR 0x88], [CHR 0xE2, CHR 0x80, CHR 0x89],
      [CHR 0xE2, CHR 0x80, CHR 0x8A], [CHR 0xE2, CHR 0x80, CHR 0xA8],
      [CHR 0xE2, CHR 0x80, CHR 0xA9], [CHR 0xE2, CHR 0x80, CHR 0xAF],
      [CHR 0xE2, CHR 0x81, CHR 0x9F], [CHR 0xE3, CHR 0x80, CHR 0x80]]"

definition lead_space :: "string \<Rightarrow> nat" where
  "lead_space s = (case find (HasPrefix s) space_seqs of None \<Rightarrow> 0 | Some p \<Rightarrow> length p)"

definition tail_space :: "string \<Rightarrow> nat" where
  "tail_space s = (case find (HasSuffix s) space_seqs of None \<Rightarrow> 0 | Some p \<Rightarrow> length p)"

lemma lead_space_le: "lead_space s \<le> length s"
  by (auto simp: lead_space_def find_Some_iff HasPrefix_def split: option.splits)
     (metis length_take min.cobounded1 min.cobounded2)

lemma tail_space_le: "tail_space s \<le> length s"
  by (auto simp: tail_space_def find_Some_iff HasSuffix_def split: option.splits)

function trim_left :: "string \<Rightarrow> string" where
  "trim_left s = (if lead_space s = 0 then s else trim_left (drop (lead_space s) s))"
  by pat_completeness auto
termination
proof (relation "measure length")
  fix s assume "lead_space s \<noteq> 0"
  with lead_space_le [of s] show "(drop (lead_space s) s, s) \<in> measure length"
    by (simp add: lead_space_def)
qed simp

function trim_right :: "string \<Rightarrow> string" where
  "trim_right s =
     (if tail_space s = 0 then s else trim_right (take (length s - tail_space s) s))"
  by pat_completeness auto
termination
proof (relation "measure length")
  fix s assume "tail_space s \<noteq> 0"
  with tail_space_le [of s] show "(take (length s - tail_space s) s, s) \<in> measure length"
    by (simp add: tail_space_def)
qed simp

declare trim_left.simps [simp del] trim_right.simps [simp del]

definition TrimSpace :: "string \<Rightarrow> string" where
  "TrimSpace s = trim_right (trim_left s)"

lemma trim_left_suffix: "\<exists>p. s = p @ trim_left s"
proof (induction s rule: trim_left.induct)
  case (1 s)
  show ?case
  proof (cases "lead_space s = 0")
    case True
    then show ?thesis by (simp add: trim_left.simps [of s])
  next
    case False
    with 1 obtain p where "drop (lead_space s) s = p @ trim_left (drop (lead_space s) s)"
      by blast
    then have "s = (take (lead_space s) s @ p) @ trim_left s"
      using False by (metis append.assoc append_take_drop_id trim_left.simps)
    then show ?thesis by blast
  qed
qed

lemma trim_right_prefix: "\<exists>p. s = trim_right s @ p"
proof (induction s rule: trim_right.induct)
  case (1 s)
  let ?n = "length s - tail_space s"
  show ?case
  proof (cases "tail_space s = 0")
    case True
    then show ?thesis by (simp add: trim_right.simps [of s])
  next
    case False
    with 1 obtain p where "take ?n s = trim_right (take ?n s) @ p"
      by blast
    then have "s = trim_right s @ (p @ drop ?n s)"
      using False by (metis append.assoc append_take_drop_id trim_right.simps)
    then show ?thesis by blast
  qed
qed

lemma set_TrimSpace: "set (TrimSpace s) \<subseteq> set s"
proof -
  obtain p where p: "s = p @ trim_left s" using trim_left_suffix by blast
  obtain q where q: "trim_left s = trim_right (trim_left s) @ q"
    using trim_right_prefix by blast
  have "set (trim_right (trim_left s)) \<subseteq> set (trim_left s)"
    by (metis q set_append sup_ge1)
  moreover have "set (trim_left s) \<subseteq> set s"
    by (metis p set_append sup_ge2)
  ultimately show ?thesis by (simp add: TrimSpace_def)
qed

text \<open>
  \<^verbatim>\<open>strings.ToLower\<close> on ASCII letters. Of the non-ASCII code points only
  U+0130 and U+212A have an ASCII lower case; other non-ASCII letters are
  left as they are, which no comparison with an ASCII word can see.
\<close>

definition lower_char :: "char \<Rightarrow> char" where
  "lower_char c =
     (if 65 \<le> (of_char c :: nat) \<and> (of_char c :: nat) \<le> 90
      then char_of ((of_char c :: nat) + 32) else c)"

fun ToLower :: "string \<Rightarrow> string" where
  "ToLower [] = []"
| "ToLower (c # s) =
     (if HasPrefix (c # s) [CHR 0xC4, CHR 0xB0] then CHR ''i'' # ToLower (drop 1 s)
      else if HasPrefix (c # s) [CHR 0xE2, CHR 0x84, CHR 0xAA] then CHR ''k'' # ToLower (drop 2 s)
      else lower_char c # ToLower s)"

subsection \<open>Decimal numbers\<close>

definition is_digit :: "char \<Rightarrow> bool" where
  "is_digit c \<longleftrightarrow> 48 \<le> (of_char c :: nat) \<and> (of_char c :: nat) \<le> 57"

definition digit_val :: "char \<Rightarrow> int" where
  "digit_val c = int (of_char c :: nat) - 48"

definition digit_char :: "int \<Rightarrow> char" where
  "digit_char d = char_of (nat d + 48)"

definition digits_val :: "string \<Rightarrow> int" where
  "digits_val ds = foldl (\<lambda>n c. n * 10 + digit_val c) 0 ds"

text \<open>\<^verbatim>\<open>strconv.Atoi\<close>: an optional sign, at least one digit, the value in range.\<close>

definition Atoi :: "string \<Rightarrow> int option" where
  "Atoi s =
     (let neg = (s \<noteq> [] \<and> hd s = CHR ''-'');
          ds = (if s \<noteq> [] \<and> (hd s = CHR ''-'' \<or> hd s = CHR ''+'') then tl s else s)
      in if ds = [] \<or> \<not> list_all is_digit ds then None
         else let n = (if neg then - digits_val ds else digits_val ds)
              in if in_int64 n then Some n else None)"

function itoa_nonneg :: "int \<Rightarrow> string" where
  "itoa_nonneg n =
     (if n < 10 then [digit_char n] else itoa_nonneg (n div 10) @ [digit_char (n mod 10)])"
  by pat_completeness auto
termination
  by (relation "measure nat") auto

declare itoa_nonneg.simps [simp del]

definition Itoa :: "int \<Rightarrow> string" where
  "Itoa n = (if n < 0 then CHR ''-'' # itoa_nonneg (- n) else itoa_nonneg n)"

lemma digit_char_props:
  assumes "0 \<le> d" "d < 10"
  shows "is_digit (digit_char d)" "digit_val (digit_char d) = d"
proof -
  from assms have n: "nat d + 48 < 256" by simp
  then have eq: "(of_char (char_of (nat d + 48)) :: nat) = nat d + 48"
    by (simp add: of_char_of)
  with assms show "is_digit (digit_char d)"
    by (simp add: is_digit_def digit_char_def)
  from eq assms show "digit_val (digit_char d) = d"
    by (simp add: digit_val_def digit_char_def)
qed

lemma digits_val_snoc: "digits_val (ds @ [c]) = digits_val ds * 10 + digit_val c"
  by (simp add: digits_val_def)

lemma itoa_nonneg_ok:
  "0 \<le> n \<Longrightarrow> itoa_nonneg n \<noteq> [] \<and> list_all is_digit (itoa_nonneg n)
     \<and> digits_val (itoa_nonneg n) = n"
proof (induction n rule: itoa_nonneg.induct)
  case (1 n)
  show ?case
  proof (cases "n < 10")
    case True
    with 1 show ?thesis
      by (simp add: itoa_nonneg.simps [of n] digit_char_props digits_val_def)
  next
    case False
    with 1 have "list_all is_digit (itoa_nonneg (n div 10))"
      "digits_val (itoa_nonneg (n div 10)) = n div 10" by auto
    with False show ?thesis
      by (simp add: itoa_nonneg.simps [of n] digit_char_props digits_val_snoc)
  qed
qed

lemma digit_not_sign: "is_digit c \<Longrightarrow> c \<noteq> CHR ''-'' \<and> c \<noteq> CHR ''+''"
  by (auto simp: is_digit_def)

lemma Atoi_Itoa [go_simps]: "in_int64 n \<Longrightarrow> Atoi (Itoa n) = Some n"
proof (cases "n < 0")
  case True
  assume "in_int64 n"
  with True itoa_nonneg_ok [of "- n"] show ?thesis
    by (simp add: Atoi_def Itoa_def)
next
  case False
  assume "in_int64 n"
  moreover have "hd (itoa_nonneg n) \<noteq> CHR ''-''" "hd (itoa_nonneg n) \<noteq> CHR ''+''"
    using False itoa_nonneg_ok [of n] digit_not_sign
    by (cases "itoa_nonneg n"; auto)+
  ultimately show ?thesis
    using False itoa_nonneg_ok [of n] by (simp add: Atoi_def Itoa_def)
qed

lemma Atoi_range [go_bounds]: "Atoi s = Some n \<Longrightarrow> in_int64 n"
  by (auto simp: Atoi_def Let_def split: if_splits)

lemma Itoa_not_word: "Itoa n \<noteq> ''auto''" "Itoa n \<noteq> []"
proof -
  have *: "hd (itoa_nonneg m) \<noteq> CHR ''a''" "itoa_nonneg m \<noteq> []" if "0 \<le> m" for m
    using itoa_nonneg_ok [OF that] by (cases "itoa_nonneg m"; auto simp: is_digit_def)+
  show "Itoa n \<noteq> ''auto''" "Itoa n \<noteq> []"
    using * [of n] by (auto simp: Itoa_def)
qed

section \<open>Errors and messages\<close>

text \<open>
  An error value: its text and the sentinels \<^verbatim>\<open>errors.Is\<close> finds in its chain.
\<close>

datatype sentinel =
    ErrDCRMismatch | ErrVerify | ErrNoDevice | ErrImplausible | ErrMonitorOnly
  | ETIMEDOUT | EAGAIN | ENODATA | ENODEV | ErrNotExist

record goerror =
  err_text :: string
  err_chain :: "sentinel list"

definition errors_Is :: "goerror \<Rightarrow> sentinel \<Rightarrow> bool" where
  "errors_Is e s \<longleftrightarrow> s \<in> set (err_chain e)"

abbreviation mk_err :: "string \<Rightarrow> goerror" where
  "mk_err s \<equiv> \<lparr>err_text = s, err_chain = []\<rparr>"

text \<open>
  A formatted message is kept symbolic: the format string of the source and
  its arguments (integers, strings, temperatures in millidegrees, instants,
  nested messages). Equal arguments give equal text.
\<close>

datatype msg = Msg string "msgarg list"
  and msgarg = AI int | AS string | AT int | AE goerror | AC int | AM msg | AL "msg list"

section \<open>Maps that are iterated\<close>

text \<open>
  A Go map whose entries are counted or ranged over is an association list
  with distinct keys. Go leaves the order of a range open; the list order
  stands for it, and the theorems hold for every order.
\<close>

type_synonym ('k, 'v) gomap = "('k \<times> 'v) list"

definition wf_map :: "('k, 'v) gomap \<Rightarrow> bool" where
  "wf_map m \<longleftrightarrow> distinct (map fst m)"

lemma wf_map_update [simp]: "wf_map m \<Longrightarrow> wf_map (AList.update k v m)"
  by (simp add: wf_map_def distinct_update)

lemma wf_map_delete [simp]: "wf_map m \<Longrightarrow> wf_map (AList.delete k m)"
  by (simp add: wf_map_def distinct_delete)

lemma wf_map_filter [simp]: "wf_map m \<Longrightarrow> wf_map (filter P m)"
  by (simp add: wf_map_def distinct_map_filter)

lemma length_update_le: "length (AList.update k v m) \<le> Suc (length m)"
  by (induction m) auto

lemma length_update_eq:
  "length (AList.update k v m) = (if k \<in> fst ` set m then length m else Suc (length m))"
  by (induction m) auto

lemma length_delete_Some:
  "wf_map m \<Longrightarrow> map_of m k = Some v \<Longrightarrow> Suc (length (AList.delete k m)) = length m"
proof (induction m)
  case Nil
  then show ?case by simp
next
  case (Cons a m)
  then show ?case
    by (cases a) (auto simp: wf_map_def AList.delete_eq image_iff case_prod_beta
        filter_id_conv [THEN iffD2] split: if_splits)
qed

lemma map_of_filter_wf:
  "wf_map m \<Longrightarrow> map_of (filter P m) k =
     (case map_of m k of None \<Rightarrow> None | Some v \<Rightarrow> if P (k, v) then Some v else None)"
proof (induction m)
  case Nil
  then show ?case by simp
next
  case (Cons a m)
  obtain k' v' where a: "a = (k', v')" by (cases a)
  have none: "map_of m k' = None"
    using Cons.prems by (simp add: wf_map_def a map_of_eq_None_iff)
  show ?case
    using Cons none by (auto simp: a wf_map_def)
qed

section \<open>Loops over a slice of pointers\<close>

text \<open>
  \<^verbatim>\<open>for _, x := range xs { body }\<close> where the body changes \<open>x\<close> in place and the
  surrounding state: every element is replaced by its updated version (or by the
  value computed for it).
\<close>

fun for_each :: "('a \<Rightarrow> 's \<Rightarrow> 'b \<times> 's) \<Rightarrow> 'a list \<Rightarrow> 's \<Rightarrow> 'b list \<times> 's" where
  "for_each f [] s = ([], s)"
| "for_each f (x # xs) s =
     (let (x', s1) = f x s; (xs', s2) = for_each f xs s1 in (x' # xs', s2))"

lemma for_each_rel:
  assumes step: "\<And>x s x' s'. x \<in> set xs \<Longrightarrow> I s \<Longrightarrow> f x s = (x', s') \<Longrightarrow> Q x x' \<and> I s'"
    and I: "I s" and run: "for_each f xs s = (xs', s')"
  shows "list_all2 Q xs xs' \<and> I s'"
  using assms
proof (induction xs arbitrary: s xs' s')
  case Nil
  then show ?case by simp
next
  case (Cons x xs)
  obtain x1 s1 where f1: "f x s = (x1, s1)" by (cases "f x s")
  obtain xs2 s2 where f2: "for_each f xs s1 = (xs2, s2)" by (cases "for_each f xs s1")
  have hd: "Q x x1 \<and> I s1"
    using Cons.prems(1) [of x s x1 s1] Cons.prems(2) f1 by simp
  have "list_all2 Q xs xs2 \<and> I s2"
    using Cons.prems(1) hd f2 by (intro Cons.IH [of s1 xs2 s2]) auto
  with hd f1 f2 Cons.prems(3) show ?case by auto
qed

lemma for_each_fst_map:
  assumes "\<And>x s. fst (f x s) = g x"
  shows "fst (for_each f xs s) = map g xs"
proof (induction xs arbitrary: s)
  case (Cons x xs)
  then show ?case using assms [of x s]
    by (auto split: prod.splits) (metis fst_conv)
qed simp

text \<open>Every result of the loop is the body applied in a state that agrees on what the body keeps.\<close>

lemma for_each_all:
  assumes "\<And>x s. g (snd (f x s)) = g s"
  shows "list_all2 (\<lambda>x x'. \<exists>s'. g s' = g s \<and> x' = fst (f x s')) xs (fst (for_each f xs s))"
proof (induction xs arbitrary: s)
  case (Cons x xs)
  then show ?case using assms [of x s] Cons.IH [of "snd (f x s)"] by (auto simp: Let_def case_prod_beta)
qed simp

lemma for_each_mem:
  assumes "\<And>x s. g (snd (f x s)) = g s" "x' \<in> set (fst (for_each f xs s))"
  obtains x s' where "x \<in> set xs" "g s' = g s" "x' = fst (f x s')"
proof -
  note all = for_each_all [of g f s xs, OF assms(1)]
  obtain i where i: "i < length (fst (for_each f xs s))" "x' = fst (for_each f xs s) ! i"
    using assms(2) by (auto simp: in_set_conv_nth)
  with all have "i < length xs" by (simp add: list_all2_lengthD)
  with list_all2_nthD [OF all this] i show ?thesis using that [of "xs ! i"] by auto
qed

lemma for_each_length [simp]: "length (fst (for_each f xs s)) = length xs"
  by (induction xs arbitrary: s) (simp_all add: Let_def case_prod_beta)

lemma for_each_state:
  assumes "\<And>x s. g (snd (f x s)) = g s"
  shows "g (snd (for_each f xs s)) = g s"
  using assms by (induction xs arbitrary: s) (simp_all add: Let_def case_prod_beta)

lemma for_each_invariant:
  assumes "\<And>x s. g (snd (f x s)) = g s" "\<And>x s'. g s' = g s \<Longrightarrow> P x \<Longrightarrow> Q (fst (f x s'))" "list_all P xs"
  shows "list_all Q (fst (for_each f xs s))"
  unfolding list_all_iff
proof
  fix x' assume "x' \<in> set (fst (for_each f xs s))"
  then show "Q x'" using assms by (elim for_each_mem [where g = g, rotated]) (auto simp: list_all_iff)
qed

lemma for_each_cong:
  assumes "\<And>x s'. x \<in> set xs \<Longrightarrow> g s' = g s \<Longrightarrow> f x s' = f' x s'" "\<And>x s. g (snd (f x s)) = g s"
  shows "for_each f xs s = for_each f' xs s"
  using assms
proof (induction xs arbitrary: s)
  case (Cons x xs)
  have 1: "f x s = f' x s" using Cons.prems(1) [of x s] by simp
  have "g (snd (f x s)) = g s" by (rule Cons.prems(2))
  then have "for_each f xs (snd (f x s)) = for_each f' xs (snd (f x s))"
    by (intro Cons.IH Cons.prems) (simp_all add: Cons.prems(2))
  with 1 show ?case by (simp add: Let_def case_prod_beta)
qed simp

end
