(* ===== verification/Hwmon.thy ===== *)
theory Hwmon
  imports GoBase
begin

text \<open>
  Package \<^verbatim>\<open>internal/hwmon\<close>: sysfs attributes read as trimmed text and
  integers, and the verified write. The operating system is the parameter
  \<open>'w osys\<close>, a record of file operations on an arbitrary world \<open>'w\<close>; a file
  may change between two reads and a driver may answer a write with another
  value than the one written. Paths are absolute and clean, as
  \<^verbatim>\<open>FS.List\<close> returns them, so \<^verbatim>\<open>filepath.Join\<close> is concatenation with a slash.
\<close>

section \<open>The operating system\<close>

datatype write_result =
    WOpenErr goerror    \<comment> \<open>os.OpenFile failed\<close>
  | WWriteErr goerror   \<comment> \<open>WriteString failed\<close>
  | WCloseErr goerror   \<comment> \<open>Close failed\<close>
  | WDone

record 'w osys =
  os_ReadFile :: "string \<Rightarrow> 'w \<Rightarrow> (goerror + string) \<times> 'w"
  os_Stat :: "string \<Rightarrow> 'w \<Rightarrow> bool option \<times> 'w"   \<comment> \<open>\<open>None\<close>: error; \<open>Some d\<close>: exists, \<open>d\<close> for a directory\<close>
  os_ReadDir :: "string \<Rightarrow> 'w \<Rightarrow> (goerror + string list) \<times> 'w"
  os_Write :: "string \<Rightarrow> string \<Rightarrow> 'w \<Rightarrow> write_result \<times> 'w"

section \<open>Paths\<close>

record FS =
  Root :: string

definition path_Join :: "string \<Rightarrow> string \<Rightarrow> string" where
  "path_Join a b = a @ ''/'' @ b"

definition Abs :: "FS \<Rightarrow> string \<Rightarrow> string" where
  "Abs fs p = (if HasPrefix p ''/'' then p else path_Join (Root fs) p)"

definition ClassDir :: "FS \<Rightarrow> string" where
  "ClassDir fs = path_Join (path_Join (Root fs) ''class'') ''hwmon''"

section \<open>Reading\<close>

definition Exists :: "'w osys \<Rightarrow> FS \<Rightarrow> string \<Rightarrow> 'w \<Rightarrow> bool \<times> 'w" where
  "Exists os fs p w = (let (st, w') = os_Stat os (Abs fs p) w in (st \<noteq> None, w'))"

definition ReadString :: "'w osys \<Rightarrow> FS \<Rightarrow> string \<Rightarrow> 'w \<Rightarrow> (goerror + string) \<times> 'w" where
  "ReadString os fs p w = (case os_ReadFile os (Abs fs p) w of
      (Inl e, w') \<Rightarrow> (Inl \<lparr>err_text = ''hwmon: read '' @ p, err_chain = err_chain e\<rparr>, w')
    | (Inr b, w') \<Rightarrow> (Inr (TrimSpace b), w'))"

definition ReadInt :: "'w osys \<Rightarrow> FS \<Rightarrow> string \<Rightarrow> 'w \<Rightarrow> (goerror + int) \<times> 'w" where
  "ReadInt os fs p w = (case ReadString os fs p w of
      (Inl e, w') \<Rightarrow> (Inl e, w')
    | (Inr s, w') \<Rightarrow> (case Atoi s of
          None \<Rightarrow> (Inl (mk_err (''hwmon: '' @ p @ '': not an integer'')), w')
        | Some n \<Rightarrow> (Inr n, w')))"

section \<open>Verified writes\<close>

definition sameValue :: "string \<Rightarrow> string \<Rightarrow> bool" where
  "sameValue want got \<longleftrightarrow> want = got \<or>
     (case (Atoi want, Atoi got) of (Some a, Some b) \<Rightarrow> a = b | _ \<Rightarrow> False)"

definition VerifyValue :: "'w osys \<Rightarrow> FS \<Rightarrow> string \<Rightarrow> string \<Rightarrow> 'w \<Rightarrow> goerror option \<times> 'w" where
  "VerifyValue os fs p want w = (case ReadString os fs p w of
      (Inl e, w') \<Rightarrow> (Some \<lparr>err_text = ''hwmon: verify '' @ p, err_chain = err_chain e\<rparr>, w')
    | (Inr got, w') \<Rightarrow>
        if \<not> sameValue (TrimSpace want) got
        then (Some \<lparr>err_text = ''hwmon: read-back mismatch: '' @ p, err_chain = [ErrVerify]\<rparr>, w')
        else (None, w'))"

definition WriteVerify :: "'w osys \<Rightarrow> FS \<Rightarrow> string \<Rightarrow> string \<Rightarrow> 'w \<Rightarrow> goerror option \<times> 'w" where
  "WriteVerify os fs p v w = (case os_Write os (Abs fs p) v w of
      (WOpenErr e, w') \<Rightarrow> (Some \<lparr>err_text = ''hwmon: open '' @ p @ '' for write'', err_chain = err_chain e\<rparr>, w')
    | (WWriteErr e, w') \<Rightarrow> (Some \<lparr>err_text = ''hwmon: write to '' @ p, err_chain = err_chain e\<rparr>, w')
    | (WCloseErr e, w') \<Rightarrow> (Some \<lparr>err_text = ''hwmon: close '' @ p @ '' after write'', err_chain = err_chain e\<rparr>, w')
    | (WDone, w') \<Rightarrow> VerifyValue os fs (Abs fs p) v w')"

lemma Abs_idem [simp]: "HasPrefix p ''/'' \<Longrightarrow> Abs fs p = p"
  by (simp add: Abs_def)

section \<open>Enumerating devices\<close>

record Device =
  dev_Path :: string
  dev_Name :: string

definition hwmonIndex :: "string \<Rightarrow> int option" where
  "hwmonIndex name =
     (if \<not> HasPrefix name ''hwmon'' then None
      else case Atoi (drop (length ''hwmon'') name) of
          None \<Rightarrow> None
        | Some n \<Rightarrow> if n < 0 then None else Some n)"

fun list_entries :: "'w osys \<Rightarrow> FS \<Rightarrow> string \<Rightarrow> string list \<Rightarrow> 'w \<Rightarrow> (int \<times> Device) list \<times> 'w" where
  "list_entries os fs dir [] w = ([], w)"
| "list_entries os fs dir (e # es) w = (case hwmonIndex e of
      None \<Rightarrow> list_entries os fs dir es w
    | Some n \<Rightarrow>
        let p = path_Join dir e
        in case ReadString os fs (path_Join p ''name'') w of
             (Inl _, w1) \<Rightarrow> list_entries os fs dir es w1
           | (Inr name, w1) \<Rightarrow>
               let (found, w2) = list_entries os fs dir es w1
               in (if name = [] then found
                   else (n, \<lparr>dev_Path = p, dev_Name = name\<rparr>) # found, w2))"

definition List :: "'w osys \<Rightarrow> FS \<Rightarrow> 'w \<Rightarrow> (goerror + Device list) \<times> 'w" where
  "List os fs w = (case os_ReadDir os (ClassDir fs) w of
      (Inl e, w1) \<Rightarrow> (Inl \<lparr>err_text = ''hwmon: list'', err_chain = err_chain e\<rparr>, w1)
    | (Inr entries, w1) \<Rightarrow>
        let (found, w2) = list_entries os fs (ClassDir fs) entries w1
        in (Inr (map snd (sort_key fst found)), w2))"

text \<open>
  Two entries with the same index (\<^verbatim>\<open>hwmon1\<close>, \<^verbatim>\<open>hwmon01\<close>) keep their directory order
  here; the source's sort leaves that order open.
\<close>

definition FindByName :: "'w osys \<Rightarrow> FS \<Rightarrow> string \<Rightarrow> 'w \<Rightarrow> Device list \<times> 'w" where
  "FindByName os fs name w = (case List os fs w of
      (Inl _, w1) \<Rightarrow> ([], w1)
    | (Inr devs, w1) \<Rightarrow> (filter (\<lambda>d. dev_Name d = name) devs, w1))"

text \<open>A regular expression is given by the set of strings it matches.\<close>

definition FindByRegexp :: "'w osys \<Rightarrow> FS \<Rightarrow> (string \<Rightarrow> bool) \<Rightarrow> 'w \<Rightarrow> Device list \<times> 'w" where
  "FindByRegexp os fs re w = (case List os fs w of
      (Inl _, w1) \<Rightarrow> ([], w1)
    | (Inr devs, w1) \<Rightarrow> (filter (\<lambda>d. re (dev_Name d)) devs, w1))"

section \<open>Block devices\<close>

definition lower_alnum :: "char \<Rightarrow> bool" where
  "lower_alnum c \<longleftrightarrow> is_digit c \<or> 97 \<le> (of_char c :: nat) \<and> (of_char c :: nat) \<le> 122"

definition ValidBlockDev :: "string \<Rightarrow> bool" where
  "ValidBlockDev dev \<longleftrightarrow> 1 \<le> length dev \<and> length dev \<le> 32 \<and> list_all lower_alnum dev"

definition virtualBlock :: "string list" where
  "virtualBlock = [''zd'', ''loop'', ''dm-'', ''ram'', ''md'', ''nbd'', ''drbd'', ''rbd'', ''zram'', ''sr'', ''fd'']"

definition VirtualBlock :: "string \<Rightarrow> bool" where
  "VirtualBlock name \<longleftrightarrow> list_ex (HasPrefix name) virtualBlock"

text \<open>
  \<^verbatim>\<open>filepath.Glob\<close> of a pattern whose last element holds the only star: the
  names of the directory that match, in directory order; I/O errors read as
  no match.
\<close>

definition Glob :: "'w osys \<Rightarrow> string \<Rightarrow> (string \<Rightarrow> bool) \<Rightarrow> 'w \<Rightarrow> string list \<times> 'w" where
  "Glob os dir match w = (case os_ReadDir os dir w of
      (Inl _, w') \<Rightarrow> ([], w')
    | (Inr names, w') \<Rightarrow> (filter match names, w'))"

fun first_with_temp :: "'w osys \<Rightarrow> FS \<Rightarrow> string list \<Rightarrow> 'w \<Rightarrow> string option \<times> 'w" where
  "first_with_temp os fs [] w = (None, w)"
| "first_with_temp os fs (p # ps) w =
     (let (ok, w1) = Exists os fs (path_Join p ''temp1_input'') w
      in if ok then (Some p, w1) else first_with_temp os fs ps w1)"

definition indexed_dirs :: "string \<Rightarrow> string list \<Rightarrow> string list" where
  "indexed_dirs dir names =
     map snd (sort_key fst
       (List.map_filter (\<lambda>e. map_option (\<lambda>n. (n, path_Join dir e)) (hwmonIndex e)) names))"

fun disk_patterns :: "'w osys \<Rightarrow> FS \<Rightarrow> string list \<Rightarrow> 'w \<Rightarrow> string option \<times> 'w" where
  "disk_patterns os fs [] w = (None, w)"
| "disk_patterns os fs (dir # dirs) w =
     (let (names, w1) = Glob os dir (\<lambda>e. HasPrefix e ''hwmon'') w;
          (r, w2) = first_with_temp os fs (indexed_dirs dir names) w1
      in case r of Some p \<Rightarrow> (Some p, w2) | None \<Rightarrow> disk_patterns os fs dirs w2)"

definition DiskHwmon :: "'w osys \<Rightarrow> FS \<Rightarrow> string \<Rightarrow> 'w \<Rightarrow> (goerror + string) \<times> 'w" where
  "DiskHwmon os fs dev w =
     (if \<not> ValidBlockDev dev
      then (Inl \<lparr>err_text = ''hwmon: block device: invalid name'', err_chain = [ErrNotExist]\<rparr>, w)
      else let base = path_Join (path_Join (Root fs) ''block'') dev;
               (st, w1) = os_Stat os base w
           in if st \<noteq> Some True
              then (Inl \<lparr>err_text = ''hwmon: block device '' @ dev, err_chain = [ErrNotExist]\<rparr>, w1)
              else case disk_patterns os fs
                          [path_Join (path_Join base ''device'') ''hwmon'', path_Join base ''device''] w1 of
                     (Some p, w2) \<Rightarrow> (Inr p, w2)
                   | (None, w2) \<Rightarrow> (Inl (mk_err (''hwmon: block device '' @ dev @ '': no temperature sensor'')), w2))"

section \<open>What a verified write establishes\<close>

lemma VerifyValue_None:
  assumes "VerifyValue os fs p want w = (None, w')"
  obtains got where "ReadString os fs p w = (Inr got, w')" "sameValue (TrimSpace want) got"
  using assms by (auto simp: VerifyValue_def split: prod.splits sum.splits if_splits)

lemma WriteVerify_None:
  assumes "WriteVerify os fs p v w = (None, w')"
  obtains w1 got where "os_Write os (Abs fs p) v w = (WDone, w1)"
    "ReadString os fs (Abs fs p) w1 = (Inr got, w')" "sameValue (TrimSpace v) got"
proof -
  from assms obtain w1 where w1: "os_Write os (Abs fs p) v w = (WDone, w1)"
    and v: "VerifyValue os fs (Abs fs p) v w1 = (None, w')"
    by (auto simp: WriteVerify_def split: prod.splits write_result.splits)
  from v obtain got where "ReadString os fs (Abs fs p) w1 = (Inr got, w')"
    "sameValue (TrimSpace v) got" by (rule VerifyValue_None)
  with w1 show ?thesis by (rule that)
qed

lemma sameValue_Itoa:
  assumes "sameValue (Itoa n) got" "in_int64 n"
  shows "Atoi got = Some n"
  using assms by (auto simp: sameValue_def Atoi_Itoa split: option.splits)

lemma list_entries_named:
  "list_entries os fs dir es w = (found, w') \<Longrightarrow> (n, d) \<in> set found \<Longrightarrow> dev_Name d \<noteq> []"
  by (induction es arbitrary: w found w')
     (fastforce simp: Let_def split: option.splits prod.splits sum.splits if_splits)+

end
