(* ===== verification/SensorSrc.thy ===== *)
theory SensorSrc
  imports Hwmon
begin

text \<open>
  Package \<^verbatim>\<open>internal/sensor\<close>: the built-in ceilings per sensor kind
  (\<^verbatim>\<open>ceiling.go\<close>) and the temperature sources a sensor id resolves to
  (\<^verbatim>\<open>sensor.go\<close>): one input file, the maximum of several files, or the
  composite of up to four ids. Values are millidegrees Celsius.
\<close>

section \<open>Ceilings\<close>

definition CeilingCPU :: int where "CeilingCPU = 100"
definition CeilingSSD :: int where "CeilingSSD = 85"
definition CeilingHDD :: int where "CeilingHDD = 65"
definition CeilingDefault :: int where "CeilingDefault = 100"
definition MinCeiling :: int where "MinCeiling = 30"

lemmas ceiling_consts = CeilingCPU_def CeilingSSD_def CeilingHDD_def CeilingDefault_def MinCeiling_def

text \<open>\<^verbatim>\<open>diskKind\<close> may be nil in the source: \<open>None\<close> here.\<close>

type_synonym disk_kind = "(string \<Rightarrow> string) option"

definition singleCeiling :: "string \<Rightarrow> disk_kind \<Rightarrow> int" where
  "singleCeiling sid diskKind =
     (if sid = ''k10temp'' \<or> sid = ''coretemp'' \<or> sid = ''ec:cpu'' then CeilingCPU
      else if sid = ''nvme:max'' then CeilingSSD
      else if sid = ''drivetemp:max'' then CeilingHDD
      else if HasPrefix sid ''disk:'' then
        (case diskKind of
           None \<Rightarrow> CeilingDefault
         | Some kind \<Rightarrow>
             if kind (TrimPrefix sid ''disk:'') = ''ssd'' then CeilingSSD
             else if kind (TrimPrefix sid ''disk:'') = ''hdd'' then CeilingHDD
             else CeilingDefault)
      else if HasPrefix sid ''hwmon:'' \<and> Contains (ToLower sid) ''cpu'' then CeilingCPU
      else CeilingDefault)"

record PartCeiling =
  pc_ID :: string
  pc_Ceiling :: int

definition PartCeilings :: "string \<Rightarrow> int \<Rightarrow> disk_kind \<Rightarrow> PartCeiling list" where
  "PartCeilings sid configured diskKind =
     map (\<lambda>raw. let part = TrimSpace raw; c = singleCeiling part diskKind
                in \<lparr>pc_ID = part,
                    pc_Ceiling = (if configured > 0 \<and> configured < c then configured else c)\<rparr>)
         (Split sid (CHR '',''))"

text \<open>The loop \<^verbatim>\<open>if best == 0 || pc.Ceiling < best\<close> of \<^verbatim>\<open>BuiltinCeiling\<close> and \<^verbatim>\<open>ceilingOf\<close>.\<close>

definition lowest_ceiling :: "PartCeiling list \<Rightarrow> int" where
  "lowest_ceiling pcs =
     foldl (\<lambda>best pc. if best = 0 \<or> pc_Ceiling pc < best then pc_Ceiling pc else best) 0 pcs"

definition BuiltinCeiling :: "string \<Rightarrow> disk_kind \<Rightarrow> int" where
  "BuiltinCeiling sid diskKind =
     (let best = lowest_ceiling (PartCeilings sid 0 diskKind)
      in if best = 0 then CeilingDefault else best)"

definition EffectiveCeiling :: "string \<Rightarrow> int \<Rightarrow> disk_kind \<Rightarrow> int" where
  "EffectiveCeiling sid configured diskKind =
     (let c = BuiltinCeiling sid diskKind
      in if configured > 0 \<and> configured < c then configured else c)"

section \<open>Plausibility\<close>

definition MinPlausible :: int where "MinPlausible = -20000"
definition MaxPlausible :: int where "MaxPlausible = 120000"

definition Plausible :: "int \<Rightarrow> bool" where
  "Plausible milli \<longleftrightarrow> milli \<ge> MinPlausible \<and> milli \<le> MaxPlausible"

definition checkPlausible :: "string \<Rightarrow> int \<Rightarrow> goerror + int" where
  "checkPlausible sid v =
     (if \<not> Plausible v
      then Inl \<lparr>err_text = ''sensor: implausible reading: '' @ sid, err_chain = [ErrImplausible]\<rparr>
      else Inr v)"

section \<open>Sources\<close>

record Part =
  part_ID :: string
  part_Value :: int

datatype plain =
    Single string string           \<comment> \<open>id, path\<close>
  | Maximum string "string list"   \<comment> \<open>id, paths\<close>

text \<open>A composite: its id, the resolved parts with their ids, the parts of the last read.\<close>

datatype Source =
    Plain plain
  | Composite string "(string \<times> plain) list" "Part list"

fun ID :: "Source \<Rightarrow> string" where
  "ID (Plain (Single i _)) = i"
| "ID (Plain (Maximum i _)) = i"
| "ID (Composite i _ _) = i"

definition single_Read :: "'w osys \<Rightarrow> FS \<Rightarrow> string \<Rightarrow> string \<Rightarrow> 'w \<Rightarrow> (goerror + int) \<times> 'w" where
  "single_Read os fs sid path w = (case ReadInt os fs path w of
      (Inl e, w') \<Rightarrow> (Inl \<lparr>err_text = ''sensor '' @ sid, err_chain = err_chain e\<rparr>, w')
    | (Inr v, w') \<Rightarrow> (checkPlausible sid v, w'))"

text \<open>
  The loop of \<^verbatim>\<open>maximum.Read\<close> and \<^verbatim>\<open>composite.Read\<close>: \<open>best\<close> is the highest value so
  far (\<open>None\<close> while \<^verbatim>\<open>ok\<close> is false), the first error is kept.
\<close>

definition take_best :: "int \<Rightarrow> int option \<Rightarrow> int option" where
  "take_best v best = (case best of None \<Rightarrow> Some v | Some b \<Rightarrow> if v > b then Some v else Some b)"

definition first_error :: "goerror \<Rightarrow> goerror option \<Rightarrow> goerror option" where
  "first_error e err = (case err of None \<Rightarrow> Some e | Some e' \<Rightarrow> Some e')"

fun maximum_loop ::
  "'w osys \<Rightarrow> FS \<Rightarrow> string \<Rightarrow> string list \<Rightarrow> int option \<Rightarrow> goerror option \<Rightarrow> 'w
    \<Rightarrow> int option \<times> goerror option \<times> 'w" where
  "maximum_loop os fs sid [] best err w = (best, err, w)"
| "maximum_loop os fs sid (p # ps) best err w = (case ReadInt os fs p w of
      (Inl e, w') \<Rightarrow> maximum_loop os fs sid ps best (first_error e err) w'
    | (Inr v, w') \<Rightarrow> (case checkPlausible sid v of
          Inl e \<Rightarrow> maximum_loop os fs sid ps best (first_error e err) w'
        | Inr _ \<Rightarrow> maximum_loop os fs sid ps (take_best v best) err w'))"

definition maximum_Read :: "'w osys \<Rightarrow> FS \<Rightarrow> string \<Rightarrow> string list \<Rightarrow> 'w \<Rightarrow> (goerror + int) \<times> 'w" where
  "maximum_Read os fs sid paths w = (case maximum_loop os fs sid paths None None w of
      (Some best, _, w') \<Rightarrow> (Inr best, w')
    | (None, err, w') \<Rightarrow>
        (Inl \<lparr>err_text = ''sensor '' @ sid @ '': no readable input'',
              err_chain = (case err of None \<Rightarrow> [ErrNoDevice] | Some e \<Rightarrow> err_chain e)\<rparr>, w'))"

fun plain_Read :: "'w osys \<Rightarrow> FS \<Rightarrow> plain \<Rightarrow> 'w \<Rightarrow> (goerror + int) \<times> 'w" where
  "plain_Read os fs (Single sid path) w = single_Read os fs sid path w"
| "plain_Read os fs (Maximum sid paths) w = maximum_Read os fs sid paths w"

fun composite_loop ::
  "'w osys \<Rightarrow> FS \<Rightarrow> (string \<times> plain) list \<Rightarrow> Part list \<Rightarrow> int option \<Rightarrow> goerror option \<Rightarrow> 'w
    \<Rightarrow> Part list \<times> int option \<times> goerror option \<times> 'w" where
  "composite_loop os fs [] seen best err w = (seen, best, err, w)"
| "composite_loop os fs ((i, s) # ps) seen best err w = (case plain_Read os fs s w of
      (Inl e, w') \<Rightarrow> composite_loop os fs ps seen best (first_error e err) w'
    | (Inr v, w') \<Rightarrow>
        composite_loop os fs ps (seen @ [\<lparr>part_ID = i, part_Value = v\<rparr>]) (take_best v best) err w')"

definition composite_Read ::
  "'w osys \<Rightarrow> FS \<Rightarrow> string \<Rightarrow> (string \<times> plain) list \<Rightarrow> 'w \<Rightarrow> (goerror + int) \<times> Part list \<times> 'w" where
  "composite_Read os fs sid ps w = (case composite_loop os fs ps [] None None w of
      (seen, Some best, _, w') \<Rightarrow> (Inr best, seen, w')
    | (seen, None, err, w') \<Rightarrow>
        (Inl \<lparr>err_text = ''sensor '' @ sid @ '': no readable part'',
              err_chain = (case err of None \<Rightarrow> [] | Some e \<Rightarrow> err_chain e)\<rparr>, seen, w'))"

text \<open>\<^verbatim>\<open>Source.Read\<close>: the reading, and the source with the parts of this read.\<close>

fun Read :: "'w osys \<Rightarrow> FS \<Rightarrow> Source \<Rightarrow> 'w \<Rightarrow> (goerror + int) \<times> Source \<times> 'w" where
  "Read os fs (Plain p) w = (let (r, w') = plain_Read os fs p w in (r, Plain p, w'))"
| "Read os fs (Composite i ps seen) w =
     (let (r, seen', w') = composite_Read os fs i ps w in (r, Composite i ps seen', w'))"

text \<open>\<^verbatim>\<open>PartsReader.Parts\<close>; \<open>None\<close> for a source that is not made of parts.\<close>

fun Parts :: "Source \<Rightarrow> Part list option" where
  "Parts (Plain p) = None"
| "Parts (Composite i ps seen) = Some seen"

section \<open>Resolving ids\<close>

definition MinParts :: nat where "MinParts = 2"
definition MaxParts :: nat where "MaxParts = 4"

definition diskIDRe :: "string \<Rightarrow> string option" where
  "diskIDRe sid =
     (let dev = drop 5 sid
      in if HasPrefix sid ''disk:'' \<and> 1 \<le> length dev \<and> length dev \<le> 32 \<and>
            list_all lower_alnum dev
         then Some dev else None)"

text \<open>\<^verbatim>\<open>hwmonIDRe\<close>: name and index of \<^verbatim>\<open>hwmon:<name>:temp<N>\<close>, neither empty.\<close>

definition hwmonIDRe :: "string \<Rightarrow> (string \<times> string) option" where
  "hwmonIDRe sid = (case Split sid (CHR '':'') of
      [h, name, t] \<Rightarrow>
        (if h = ''hwmon'' \<and> name \<noteq> [] \<and> HasPrefix t ''temp'' \<and> drop 4 t \<noteq> []
            \<and> list_all is_digit (drop 4 t)
         then Some (name, drop 4 t) else None)
    | _ \<Rightarrow> None)"

text \<open>
  \<^verbatim>\<open>composite\<close> ids: the parts are trimmed, non-empty and distinct, two to four of
  them; \<open>None\<close> is the error return before any part is resolved.
\<close>

fun composite_ids :: "string list \<Rightarrow> string list \<Rightarrow> string list option" where
  "composite_ids [] seen = Some []"
| "composite_ids (raw # rs) seen =
     (let part = TrimSpace raw
      in if part = [] \<or> part \<in> set seen then None
         else map_option ((#) part) (composite_ids rs (part # seen)))"

definition composite_split :: "string \<Rightarrow> string list option" where
  "composite_split sid =
     (let raw = Split sid (CHR '','')
      in if length raw < MinParts \<or> length raw > MaxParts then None else composite_ids raw [])"

text \<open>
  Resolution of the parts of a composite by \<open>parse1\<close> (the resolution of one
  id): parts that do not resolve are skipped, the first error is kept, at
  least one part must resolve.
\<close>

fun resolve_parts ::
  "(string \<Rightarrow> 'w \<Rightarrow> (goerror + plain) \<times> 'w) \<Rightarrow> string list \<Rightarrow> goerror option \<Rightarrow> 'w
    \<Rightarrow> (string \<times> plain) list \<times> goerror option \<times> 'w" where
  "resolve_parts parse1 [] err w = ([], err, w)"
| "resolve_parts parse1 (i # is) err w = (case parse1 i w of
      (Inl e, w') \<Rightarrow> resolve_parts parse1 is (first_error e err) w'
    | (Inr s, w') \<Rightarrow>
        let (ps, err', w2) = resolve_parts parse1 is err w' in ((i, s) # ps, err', w2))"

definition parseComposite ::
  "(string \<Rightarrow> 'w \<Rightarrow> (goerror + plain) \<times> 'w) \<Rightarrow> string \<Rightarrow> 'w \<Rightarrow> (goerror + Source) \<times> 'w" where
  "parseComposite parse1 sid w = (case composite_split sid of
      None \<Rightarrow> (Inl (mk_err (''sensor: composite '' @ sid)), w)
    | Some ids \<Rightarrow> (case resolve_parts parse1 ids None w of
          ([], err, w') \<Rightarrow>
            (Inl \<lparr>err_text = ''sensor: composite '' @ Join ids '','' @ '': no part resolves'',
                  err_chain = (case err of None \<Rightarrow> [] | Some e \<Rightarrow> err_chain e)\<rparr>, w')
        | (ps, err, w') \<Rightarrow> (Inr (Composite (Join ids '','') ps []), w')))"

text \<open>
  The inputs \<^verbatim>\<open>tempN_input\<close> of a device directory, ordered by \<open>N\<close>.
\<close>

definition tempIndex :: "string \<Rightarrow> int option" where
  "tempIndex name =
     (let n = drop 4 (TrimSuffix name ''_input'')
      in if HasPrefix name ''temp'' \<and> HasSuffix name ''_input'' \<and> n \<noteq> [] \<and> list_all is_digit n
         then Some (case Atoi n of Some k \<Rightarrow> k | None \<Rightarrow> 2 ^ 63 - 1) else None)"

definition tempInputs :: "'w osys \<Rightarrow> string \<Rightarrow> 'w \<Rightarrow> string list \<times> 'w" where
  "tempInputs os devPath w =
     (let (names, w') = Glob os devPath (\<lambda>e. HasPrefix e ''temp'' \<and> HasSuffix e ''_input'') w
      in (map snd (sort_key fst
            (List.map_filter (\<lambda>e. map_option (\<lambda>n. (n, path_Join devPath e)) (tempIndex e)) names)), w'))"

fun allTempInputs :: "'w osys \<Rightarrow> Device list \<Rightarrow> 'w \<Rightarrow> string list \<times> 'w" where
  "allTempInputs os [] w = ([], w)"
| "allTempInputs os (d # ds) w =
     (let (ps, w1) = tempInputs os (dev_Path d) w; (qs, w2) = allTempInputs os ds w1
      in (ps @ qs, w2))"

definition listOrEmpty :: "'w osys \<Rightarrow> FS \<Rightarrow> 'w \<Rightarrow> Device list \<times> 'w" where
  "listOrEmpty os fs w = (case List os fs w of (Inl _, w') \<Rightarrow> ([], w') | (Inr ds, w') \<Rightarrow> (ds, w'))"

text \<open>The last element of a path.\<close>

definition path_Base :: "string \<Rightarrow> string" where
  "path_Base p = last (Split p (CHR ''/''))"

abbreviation no_device :: "goerror" where
  "no_device \<equiv> \<lparr>err_text = ''sensor: no matching hwmon device'', err_chain = [ErrNoDevice]\<rparr>"

text \<open>
  \<^verbatim>\<open>Parse\<close> for an id without a comma. \<open>extra\<close> is \<^verbatim>\<open>dev.ExtraTemps()\<close>; \<open>None\<close>
  when there is no device.
\<close>

definition Parse_single ::
  "'w osys \<Rightarrow> FS \<Rightarrow> (string \<rightharpoonup> string) option \<Rightarrow> string \<Rightarrow> 'w \<Rightarrow> (goerror + plain) \<times> 'w" where
  "Parse_single os fs extra sid w =
     (if HasPrefix sid ''disk:'' then
        (case diskIDRe sid of
           None \<Rightarrow> (Inl (mk_err ''sensor: malformed id (want disk:<dev>)''), w)
         | Some dev \<Rightarrow> (case DiskHwmon os fs dev w of
               (Inl e, w1) \<Rightarrow> (Inl no_device, w1)
             | (Inr p, w1) \<Rightarrow> (Inr (Single sid (path_Join p ''temp1_input'')), w1)))
      else if sid = ''k10temp'' then
        (case FindByName os fs ''k10temp'' w of
           ([], w1) \<Rightarrow> (Inl no_device, w1)
         | (d # _, w1) \<Rightarrow> (Inr (Single sid (path_Join (dev_Path d) ''temp1_input'')), w1))
      else if sid = ''coretemp'' then
        (let (ds, w1) = FindByName os fs ''coretemp'' w; (ps, w2) = allTempInputs os ds w1
         in if ps = [] then (Inl no_device, w2) else (Inr (Maximum sid ps), w2))
      else if sid = ''nvme:max'' \<or> sid = ''drivetemp:max'' then
        (let (ds, w1) = FindByName os fs (TrimSuffix sid '':max'') w;
             ps = map (\<lambda>d. path_Join (dev_Path d) ''temp1_input'') ds
         in if ps = [] then (Inl no_device, w1) else (Inr (Maximum sid ps), w1))
      else if HasPrefix sid ''hwmon:'' then
        (case hwmonIDRe sid of
           None \<Rightarrow> (Inl (mk_err ''sensor: malformed id (want hwmon:<name>:tempN)''), w)
         | Some (name, n) \<Rightarrow>
             let (ds, w1) = FindByName os fs name w;
                 (devs, w2) = (if ds \<noteq> [] then (ds, w1)
                               else let (all, wl) = listOrEmpty os fs w1
                                    in (filter (\<lambda>d. path_Base (dev_Path d) = name) all, wl))
             in case devs of
                  [] \<Rightarrow> (Inl no_device, w2)
                | d # _ \<Rightarrow>
                    let p = path_Join (dev_Path d) (''temp'' @ n @ ''_input'');
                        (ok, w3) = Exists os fs p w2
                    in if ok then (Inr (Single sid p), w3) else (Inl no_device, w3))
      else if HasPrefix sid ''ec:'' then
        (case extra of
           None \<Rightarrow> (Inl (mk_err ''sensor: needs a detected profile device''), w)
         | Some m \<Rightarrow> (case m sid of
               None \<Rightarrow> (Inl no_device, w)
             | Some p \<Rightarrow> (Inr (Single sid p), w)))
      else (Inl (mk_err (''sensor: unknown id '' @ sid)), w))"

definition Parse ::
  "'w osys \<Rightarrow> FS \<Rightarrow> (string \<rightharpoonup> string) option \<Rightarrow> string \<Rightarrow> 'w \<Rightarrow> (goerror + Source) \<times> 'w" where
  "Parse os fs extra raw w =
     (let sid = TrimSpace raw
      in if sid = [] then (Inl (mk_err ''sensor: empty id''), w)
         else if CHR '','' \<in> set sid then
           parseComposite (\<lambda>part. Parse_single os fs extra (TrimSpace part)) sid w
         else (case Parse_single os fs extra sid w of
                 (Inl e, w') \<Rightarrow> (Inl e, w')
               | (Inr p, w') \<Rightarrow> (Inr (Plain p), w')))"

text \<open>\<^verbatim>\<open>DiskKind\<close>: ssd for an NVMe name or a non-rotational queue, hdd for a rotational one.\<close>

definition DiskKind :: "'w osys \<Rightarrow> FS \<Rightarrow> string \<Rightarrow> 'w \<Rightarrow> string \<times> 'w" where
  "DiskKind os fs dev w =
     (if HasPrefix dev ''nvme'' then (''ssd'', w)
      else case ReadInt os fs (path_Join (path_Join (path_Join ''block'' dev) ''queue'') ''rotational'') w of
             (Inl _, w') \<Rightarrow> ([], w')
           | (Inr v, w') \<Rightarrow> (if v = 1 then ''hdd'' else if v = 0 then ''ssd'' else [], w'))"

section \<open>Ceiling facts\<close>

lemma singleCeiling_range [go_bounds]:
  "CeilingHDD \<le> singleCeiling sid k \<and> singleCeiling sid k \<le> CeilingDefault"
  by (auto simp: singleCeiling_def ceiling_consts split: option.splits)

lemma PartCeilings_nonempty [simp]: "PartCeilings sid c k \<noteq> []"
  by (simp add: PartCeilings_def)

lemma PartCeilings_memb:
  assumes "pc \<in> set (PartCeilings sid c k)"
  shows "pc_Ceiling pc \<le> singleCeiling (pc_ID pc) k"
    and "c > 0 \<Longrightarrow> pc_Ceiling pc \<le> c"
    and "0 < pc_Ceiling pc"
    and "c \<le> 0 \<Longrightarrow> pc_Ceiling pc = singleCeiling (pc_ID pc) k"
proof -
  from assms obtain raw where
    pc: "pc_ID pc = TrimSpace raw"
      "pc_Ceiling pc = (if c > 0 \<and> c < singleCeiling (TrimSpace raw) k then c
        else singleCeiling (TrimSpace raw) k)"
    by (auto simp: PartCeilings_def Let_def)
  have "0 < singleCeiling (TrimSpace raw) k"
    using singleCeiling_range [of "TrimSpace raw" k] by (simp add: ceiling_consts)
  with pc show "pc_Ceiling pc \<le> singleCeiling (pc_ID pc) k"
    "c > 0 \<Longrightarrow> pc_Ceiling pc \<le> c" "0 < pc_Ceiling pc"
    "c \<le> 0 \<Longrightarrow> pc_Ceiling pc = singleCeiling (pc_ID pc) k" by auto
qed

lemma lowest_ceiling_snoc:
  "lowest_ceiling (pcs @ [pc]) =
     (if lowest_ceiling pcs = 0 \<or> pc_Ceiling pc < lowest_ceiling pcs
      then pc_Ceiling pc else lowest_ceiling pcs)"
  by (simp add: lowest_ceiling_def)

lemma lowest_ceiling_Min:
  "pcs \<noteq> [] \<Longrightarrow> \<forall>pc \<in> set pcs. 0 < pc_Ceiling pc \<Longrightarrow>
     lowest_ceiling pcs = Min (pc_Ceiling ` set pcs) \<and> 0 < lowest_ceiling pcs"
proof (induction pcs rule: rev_induct)
  case (snoc pc pcs)
  show ?case
  proof (cases "pcs = []")
    case True
    with snoc.prems show ?thesis by (simp add: lowest_ceiling_def)
  next
    case False
    with snoc have "lowest_ceiling pcs = Min (pc_Ceiling ` set pcs)" "0 < lowest_ceiling pcs"
      by auto
    moreover have "Min (pc_Ceiling ` set (pcs @ [pc])) = min (pc_Ceiling pc) (Min (pc_Ceiling ` set pcs))"
      using False by simp
    moreover have "0 < pc_Ceiling pc" using snoc.prems by simp
    ultimately show ?thesis
      by (simp add: lowest_ceiling_snoc min_def del: set_append Min_insert)
  qed
qed simp

lemma PartCeilings_Min:
  "lowest_ceiling (PartCeilings sid c k) = Min (pc_Ceiling ` set (PartCeilings sid c k))"
  "0 < lowest_ceiling (PartCeilings sid c k)"
  using lowest_ceiling_Min [of "PartCeilings sid c k"] PartCeilings_memb(3) by auto

lemma Min_min_image:
  fixes f :: "'a \<Rightarrow> int"
  assumes "finite A" "A \<noteq> {}"
  shows "Min ((\<lambda>x. min c (f x)) ` A) = min c (Min (f ` A))"
proof (rule Min_eqI)
  obtain a where a: "a \<in> A" "f a = Min (f ` A)"
    using assms Min_in [of "f ` A"] by fastforce
  then show "min c (Min (f ` A)) \<in> (\<lambda>x. min c (f x)) ` A"
    by (metis imageI)
  fix y assume "y \<in> (\<lambda>x. min c (f x)) ` A"
  then obtain x where "x \<in> A" "y = min c (f x)" by blast
  moreover have "Min (f ` A) \<le> f x" using assms \<open>x \<in> A\<close> by simp
  ultimately show "min c (Min (f ` A)) \<le> y" by simp
qed (use assms in simp)

text \<open>
  The ceiling reported for a channel (the lowest part ceiling) is the
  effective ceiling of the whole id: lowering every part by the configured
  value is lowering the lowest built-in ceiling by it.
\<close>

lemma lowest_is_effective:
  "lowest_ceiling (PartCeilings sid c k) = EffectiveCeiling sid c k"
proof -
  let ?R = "set (Split sid (CHR '',''))" and ?f = "\<lambda>raw. singleCeiling (TrimSpace raw) k"
  have built: "BuiltinCeiling sid k = Min (?f ` ?R)"
  proof -
    have "BuiltinCeiling sid k = lowest_ceiling (PartCeilings sid 0 k)"
      using PartCeilings_Min(2) [of sid 0 k]
      by (simp only: BuiltinCeiling_def Let_def less_irrefl if_False split: if_splits) simp
    moreover have "pc_Ceiling ` set (PartCeilings sid 0 k) = ?f ` ?R"
      by (simp add: PartCeilings_def Let_def image_image)
    ultimately show ?thesis by (simp add: PartCeilings_Min(1))
  qed
  show ?thesis
  proof (cases "c > 0")
    case True
    have "pc_Ceiling ` set (PartCeilings sid c k) = (\<lambda>raw. min c (?f raw)) ` ?R"
      unfolding PartCeilings_def Let_def set_map image_image
      using True by (intro image_cong) (auto simp: min_def)
    then have "lowest_ceiling (PartCeilings sid c k) = min c (Min (?f ` ?R))"
      by (simp add: PartCeilings_Min(1) Min_min_image)
    moreover have "EffectiveCeiling sid c k = min c (BuiltinCeiling sid k)"
      using True by (simp add: EffectiveCeiling_def Let_def min_def)
    ultimately show ?thesis by (simp only: built)
  next
    case False
    then have "pc_Ceiling ` set (PartCeilings sid c k) = ?f ` ?R"
      by (simp add: PartCeilings_def Let_def image_image)
    with False show ?thesis
      by (simp add: PartCeilings_Min(1) EffectiveCeiling_def built Let_def)
  qed
qed

lemma EffectiveCeiling_le: "EffectiveCeiling sid c k \<le> BuiltinCeiling sid k"
  by (simp add: EffectiveCeiling_def Let_def)

section \<open>What a read returns\<close>

lemma checkPlausible_Inr: "checkPlausible sid v = Inr u \<longleftrightarrow> Plausible v \<and> u = v"
  by (auto simp: checkPlausible_def)

lemma take_best_max: "take_best v best = Some (case best of None \<Rightarrow> v | Some b \<Rightarrow> max b v)"
  by (simp add: take_best_def max_def split: option.splits)

lemma maximum_loop_Some:
  "maximum_loop os fs sid ps best err w = (Some v, e', w') \<Longrightarrow>
     (\<forall>b. best = Some b \<longrightarrow> Plausible b) \<Longrightarrow> Plausible v \<and> (\<forall>b. best = Some b \<longrightarrow> b \<le> v)"
proof (induction os fs sid ps best err w rule: maximum_loop.induct)
  case (1 os fs sid best err w)
  then show ?case by simp
next
  case (2 os fs sid p ps best err w)
  obtain r w1 where r: "ReadInt os fs p w = (r, w1)" by (cases "ReadInt os fs p w")
  show ?case
  proof (cases r)
    case (Inl e)
    with 2(1) [OF r [symmetric] Inl] 2(4,5) r show ?thesis by simp
  next
    case (Inr u)
    show ?thesis
    proof (cases "checkPlausible sid u")
      case bad: (Inl e)
      with 2(2) [OF r [symmetric] Inr bad] 2(4,5) r Inr show ?thesis by simp
    next
      case ok: (Inr u')
      then have "Plausible u" by (simp add: checkPlausible_Inr)
      with 2(3) [OF r [symmetric] Inr ok] 2(4,5) r Inr ok show ?thesis
        by (auto simp: take_best_max max_def split: option.splits if_splits)
    qed
  qed
qed

lemma plain_Read_plausible: "plain_Read os fs s w = (Inr v, w') \<Longrightarrow> Plausible v"
proof (cases s)
  case (Single i p)
  assume "plain_Read os fs s w = (Inr v, w')"
  with Single show ?thesis
    by (auto simp: single_Read_def checkPlausible_Inr split: prod.splits sum.splits)
next
  case (Maximum i ps)
  assume "plain_Read os fs s w = (Inr v, w')"
  with Maximum show ?thesis
    by (auto simp: maximum_Read_def split: prod.splits option.splits dest: maximum_loop_Some)
qed

definition parts_best :: "Part list \<Rightarrow> int option \<Rightarrow> bool" where
  "parts_best ps best \<longleftrightarrow> (\<forall>p \<in> set ps. Plausible (part_Value p)) \<and>
     best = (if ps = [] then None else Some (Max (part_Value ` set ps)))"

lemma parts_best_snoc:
  "parts_best ps best \<Longrightarrow> Plausible v \<Longrightarrow>
     parts_best (ps @ [\<lparr>part_ID = i, part_Value = v\<rparr>]) (take_best v best)"
  by (auto simp: parts_best_def take_best_max max.commute)

lemma composite_loop_parts:
  "composite_loop os fs ps seen best err w = (seen', best', err', w') \<Longrightarrow>
     parts_best seen best \<Longrightarrow> parts_best seen' best'"
proof (induction os fs ps seen best err w rule: composite_loop.induct)
  case (1 os fs seen best err w)
  then show ?case by simp
next
  case (2 os fs i s ps seen best err w)
  obtain r w1 where r: "plain_Read os fs s w = (r, w1)" by (cases "plain_Read os fs s w")
  show ?case
  proof (cases r)
    case (Inl e)
    with 2 r show ?thesis by simp
  next
    case (Inr v)
    with r have "Plausible v" by (blast intro: plain_Read_plausible)
    with 2 r Inr show ?thesis by (simp add: parts_best_snoc)
  qed
qed

text \<open>
  The contract of a temperature source towards the controller: a successful
  read is plausible, and for a source made of parts it is the maximum of the
  parts it reports, at least one of them, all plausible.
\<close>

lemma Read_contract:
  assumes "Read os fs s w = (Inr v, s', w')"
  shows "Plausible v"
    and "Parts s' = Some ps \<Longrightarrow> parts_best ps (Some v)"
proof -
  have c: "parts_best seen (Some v)" if "composite_Read os fs i qs w = (Inr v, seen, w')" for i qs seen
    using that
    by (auto simp: composite_Read_def split: prod.splits option.splits
        dest!: composite_loop_parts simp: parts_best_def)
  have p: "parts_best qs (Some v)" if "Parts s' = Some qs" for qs
    using assms that by (cases s) (auto split: prod.splits intro: c)
  then show "parts_best ps (Some v)" if "Parts s' = Some ps" using that .
  show "Plausible v"
  proof (cases s)
    case (Plain p)
    with assms show ?thesis by (auto split: prod.splits dest: plain_Read_plausible)
  next
    case (Composite i qs seen)
    with assms obtain seen' where "Parts s' = Some seen'" by (auto split: prod.splits)
    from p [OF this] show ?thesis
      by (auto simp: parts_best_def split: if_splits)
         (metis (mono_tags, lifting) Max_in finite_imageI finite_set image_iff image_is_empty set_empty)
  qed
qed

end
