(* ===== verification/ConfigTypes.thy ===== *)
theory ConfigTypes
  imports SensorSrc
begin

text \<open>
  Package \<^verbatim>\<open>internal/config\<close>, the data: the sections of the configuration file
  as records, the limits and built-in defaults, and the helpers that need no
  TOML decoder (\<^verbatim>\<open>StopDuty\<close>, \<^verbatim>\<open>DefaultStop\<close>, \<^verbatim>\<open>JoinSensors\<close>,
  \<^verbatim>\<open>ValidateCurve\<close>), with the well-formedness predicates the parser
  establishes and the controller relies on.
\<close>

section \<open>Limits\<close>

definition MinInterval :: duration where "MinInterval = 2 * Second"
definition MaxInterval :: duration where "MaxInterval = 30 * Second"
definition MinCurvePts :: nat where "MinCurvePts = 2"
definition MaxCurvePts :: nat where "MaxCurvePts = 8"
definition MinCurveTemp :: int where "MinCurveTemp = -20"
definition MaxCurveTemp :: int where "MaxCurveTemp = 120"
definition MaxCritical :: int where "MaxCritical = 150"
definition MaxPWM :: int where "MaxPWM = 8"
definition MaxStallCycle :: int where "MaxStallCycle = 20"
definition MinStaleCycle :: int where "MinStaleCycle = 6"
definition MaxStaleCycle :: int where "MaxStaleCycle = 600"
definition MinCooldown :: duration where "MinCooldown = Minute"
definition MaxCooldown :: duration where "MaxCooldown = 24 * Hour"
definition MinFixedStop :: int where "MinFixedStop = 60"
definition HDDStop :: string where "HDDStop = ''140''"
definition HysteresisMax :: int where "HysteresisMax = 10"
definition MinOnMax :: duration where "MinOnMax = Hour"
definition MaxSensorParts :: nat where "MaxSensorParts = 4"
definition MaxEmergencyCycles :: int where "MaxEmergencyCycles = 60"
definition DefaultEmergencyCycles :: int where "DefaultEmergencyCycles = 6"
definition MaxDashboardSensors :: nat where "MaxDashboardSensors = 8"
definition MaxSchedules :: nat where "MaxSchedules = 16"
definition DefaultLogFile :: string where "DefaultLogFile = ''/var/log/n5-fangov/n5-fangov.log''"
definition MinLogSizeMB :: int where "MinLogSizeMB = 1"
definition MaxLogSizeMB :: int where "MaxLogSizeMB = 100"
definition MinLogFiles :: int where "MinLogFiles = 1"
definition MaxLogFiles :: int where "MaxLogFiles = 20"

lemmas config_limits =
  MinInterval_def MaxInterval_def MinCurvePts_def MaxCurvePts_def MinCurveTemp_def MaxCurveTemp_def
  MaxCritical_def MaxPWM_def MaxStallCycle_def MinStaleCycle_def MaxStaleCycle_def MinCooldown_def
  MaxCooldown_def MinFixedStop_def HysteresisMax_def MinOnMax_def MaxSensorParts_def
  MaxEmergencyCycles_def DefaultEmergencyCycles_def MaxDashboardSensors_def MaxSchedules_def
  MinLogSizeMB_def MaxLogSizeMB_def MinLogFiles_def MaxLogFiles_def

definition Profiles :: "string list" where
  "Profiles = [''auto'', ''n5pro'', ''nct67xx'', ''it87xx'', ''monitor'']"

definition DayNames :: "string list" where
  "DayNames = [''mon'', ''tue'', ''wed'', ''thu'', ''fri'', ''sat'', ''sun'']"

section \<open>Sections\<close>

type_synonym curve = "(int \<times> int) list"

record Daemon =
  d_Interval :: duration
  d_StepUp :: int
  d_StepDown :: int
  d_StallMinDuty :: int
  d_StallCycles :: int
  d_StaleCycles :: int
  d_AlertCooldown :: duration
  d_LogEvery :: int
  d_Emergency :: bool
  d_EmergencyCycles :: int
  d_Profile :: string

record Log =
  l_File :: string
  l_MaxSizeMB :: int
  l_MaxFiles :: int

record Channel =
  ch_Name :: string
  ch_PWM :: int
  ch_Sensor :: string
  ch_Curve :: curve
  ch_Critical :: int
  ch_Stop :: string
  ch_Hysteresis :: int
  ch_MinOn :: duration
  ch_Ceiling :: int
  ch_PostSet :: bool

record Schedule =
  s_Preset :: string
  s_From :: string
  s_To :: string
  s_Days :: "string list"

record Web =
  w_Listen :: string
  w_Auth :: string
  w_User :: string
  w_PasswordHash :: string
  w_AllowedHosts :: "string list"
  w_TLS :: string
  w_CertFile :: string
  w_KeyFile :: string
  w_BehindTLSProxy :: bool

record Alert =
  a_Transport :: string
  a_MailTo :: string
  a_WebhookURL :: string
  a_WebhookFormat :: string

text \<open>The section \<^verbatim>\<open>Dashboard\<close> is its one field \<^verbatim>\<open>Sensors\<close>.\<close>

record Config =
  c_Daemon :: Daemon
  c_Web :: Web
  c_Log :: Log
  c_Alert :: Alert
  c_Sensors :: "string list"
  c_Channels :: "Channel list"
  c_Schedules :: "Schedule list"

definition DefaultDaemon :: Daemon where
  "DefaultDaemon = \<lparr>
     d_Interval = 10 * Second, d_StepUp = 40, d_StepDown = 15, d_StallMinDuty = 60,
     d_StallCycles = 2, d_StaleCycles = 18, d_AlertCooldown = 30 * Minute, d_LogEvery = 30,
     d_Emergency = False, d_EmergencyCycles = DefaultEmergencyCycles, d_Profile = ''auto''\<rparr>"

definition DefaultLog :: Log where
  "DefaultLog = \<lparr>l_File = DefaultLogFile, l_MaxSizeMB = 5, l_MaxFiles = 5\<rparr>"

definition DefaultWeb :: Web where
  "DefaultWeb = \<lparr>w_Listen = ''127.0.0.1:8010'', w_Auth = ''none'', w_User = [], w_PasswordHash = [],
     w_AllowedHosts = [], w_TLS = ''off'', w_CertFile = [], w_KeyFile = [], w_BehindTLSProxy = False\<rparr>"

definition DefaultMailTo :: string where "DefaultMailTo = ''root''"
definition DefaultWebhookFormat :: string where "DefaultWebhookFormat = ''json''"

definition DefaultAlert :: Alert where
  "DefaultAlert = \<lparr>a_Transport = ''auto'', a_MailTo = DefaultMailTo, a_WebhookURL = [],
     a_WebhookFormat = DefaultWebhookFormat\<rparr>"

definition Default :: Config where
  "Default = \<lparr>c_Daemon = DefaultDaemon, c_Web = DefaultWeb, c_Log = DefaultLog, c_Alert = DefaultAlert,
     c_Sensors = [], c_Channels = [], c_Schedules = []\<rparr>"

definition DefaultCurve :: curve where
  "DefaultCurve = [(45, 85), (80, 255)]"

text \<open>
  \<^verbatim>\<open>N5ProChannels\<close>: the built-in preset n5pro-balanced (the embedded TOML and the
  literal fallback hold the same three channels).
\<close>

definition N5ProChannels :: "Channel list" where
  "N5ProChannels = [
     \<lparr>ch_Name = ''cpu'', ch_PWM = 1, ch_Sensor = ''k10temp'', ch_Curve = [(35, 60), (60, 150), (80, 255)],
      ch_Critical = 88, ch_Stop = ''auto'', ch_Hysteresis = 0, ch_MinOn = 0, ch_Ceiling = 0, ch_PostSet = False\<rparr>,
     \<lparr>ch_Name = ''ssd'', ch_PWM = 2, ch_Sensor = ''nvme:max'', ch_Curve = [(35, 74), (55, 160), (68, 255)],
      ch_Critical = 72, ch_Stop = ''auto'', ch_Hysteresis = 0, ch_MinOn = 0, ch_Ceiling = 0, ch_PostSet = False\<rparr>,
     \<lparr>ch_Name = ''hdd'', ch_PWM = 3, ch_Sensor = ''drivetemp:max'',
      ch_Curve = [(30, 87), (42, 140), (50, 200), (55, 255)],
      ch_Critical = 60, ch_Stop = ''140'', ch_Hysteresis = 0, ch_MinOn = 0, ch_Ceiling = 0, ch_PostSet = False\<rparr>]"

definition Fallback :: "Schedule \<Rightarrow> bool" where
  "Fallback s \<longleftrightarrow> s_From s = [] \<and> s_To s = []"

section \<open>Stop values\<close>

text \<open>\<^verbatim>\<open>Channel.StopDuty\<close>: the fixed stop duty, \<open>None\<close> for auto (or an unreadable value).\<close>

definition StopDuty :: "Channel \<Rightarrow> int option" where
  "StopDuty ch = (if ch_Stop ch = ''auto'' \<or> ch_Stop ch = [] then None else Atoi (ch_Stop ch))"

definition Sensors :: "string \<Rightarrow> string list" where
  "Sensors sensor = (if sensor = [] then [] else Split sensor (CHR '',''))"

definition DefaultStop :: "string \<Rightarrow> string" where
  "DefaultStop sensor =
     (if list_ex (\<lambda>part. TrimSpace part = ''drivetemp:max'') (Sensors sensor) then HDDStop else ''auto'')"

section \<open>Composite sensor ids\<close>

fun join_parts :: "nat \<Rightarrow> string list \<Rightarrow> string list \<Rightarrow> msg + string list" where
  "join_parts i seen [] = Inr []"
| "join_parts i seen (raw # rs) =
     (let part = TrimSpace raw
      in if part = [] then Inl (Msg ''sensor id %d is empty'' [AI (int i + 1)])
         else if CHR '','' \<in> set part then Inl (Msg ''sensor id %q contains a comma'' [AS part])
         else if part \<in> set seen then Inl (Msg ''sensor id %q listed twice'' [AS part])
         else case join_parts (Suc i) (part # seen) rs of
                Inl e \<Rightarrow> Inl e
              | Inr ps \<Rightarrow> Inr (part # ps))"

definition JoinSensors :: "string list \<Rightarrow> msg + string" where
  "JoinSensors parts =
     (if parts = [] then Inl (Msg ''no sensor id'' [])
      else if length parts > MaxSensorParts
        then Inl (Msg ''%d sensor ids, at most %d'' [AI (int (length parts)), AI (int MaxSensorParts)])
      else case join_parts 0 [] parts of Inl e \<Rightarrow> Inl e | Inr ps \<Rightarrow> Inr (Join ps '',''))"

section \<open>Curves\<close>

fun validate_points :: "nat \<Rightarrow> (int \<times> int) option \<Rightarrow> int list list \<Rightarrow> msg + curve" where
  "validate_points i prev [] = Inr []"
| "validate_points i prev (pt # pts) = (case pt of
      [t, d] \<Rightarrow>
        if t < MinCurveTemp \<or> t > MaxCurveTemp
        then Inl (Msg ''point %d temp %d outside %d..%d'' [AI (int i), AI t, AI MinCurveTemp, AI MaxCurveTemp])
        else if d < 0 \<or> d > 255
        then Inl (Msg ''point %d duty %d outside 0..255'' [AI (int i), AI d])
        else if (case prev of None \<Rightarrow> False | Some (pt0, _) \<Rightarrow> t \<le> pt0)
        then Inl (Msg ''point %d temp %d not above previous %d'' [AI (int i), AI t])
        else if (case prev of None \<Rightarrow> False | Some (_, pd) \<Rightarrow> d < pd)
        then Inl (Msg ''point %d duty %d below previous %d'' [AI (int i), AI d])
        else (case validate_points (Suc i) (Some (t, d)) pts of
                Inl e \<Rightarrow> Inl e
              | Inr out \<Rightarrow> Inr ((t, d) # out))
    | _ \<Rightarrow> Inl (Msg ''point %d has %d values, need [temp, duty]'' [AI (int i), AI (int (length pt))]))"

definition ValidateCurve :: "int list list \<Rightarrow> msg + curve" where
  "ValidateCurve pts =
     (if length pts < MinCurvePts \<or> length pts > MaxCurvePts
      then Inl (Msg ''%d points, need %d..%d'' [AI (int (length pts)), AI (int MinCurvePts), AI (int MaxCurvePts)])
      else validate_points 0 None pts)"

section \<open>Well-formedness\<close>

text \<open>Neighbouring points: temperatures strictly ascending, duties non-decreasing.\<close>

definition point_le :: "int \<times> int \<Rightarrow> int \<times> int \<Rightarrow> bool" where
  "point_le p q \<longleftrightarrow> fst p < fst q \<and> snd p \<le> snd q"

definition curve_shape :: "curve \<Rightarrow> bool" where
  "curve_shape c \<longleftrightarrow> sorted_wrt point_le c \<and>
     (\<forall>p \<in> set c. MinCurveTemp \<le> fst p \<and> fst p \<le> MaxCurveTemp \<and> 0 \<le> snd p \<and> snd p \<le> 255)"

definition curve_ok :: "curve \<Rightarrow> bool" where
  "curve_ok c \<longleftrightarrow> MinCurvePts \<le> length c \<and> length c \<le> MaxCurvePts \<and> curve_shape c"

definition stop_ok :: "string \<Rightarrow> bool" where
  "stop_ok s \<longleftrightarrow> s = ''auto'' \<or>
     (\<exists>n. s = Itoa n \<and> MinFixedStop \<le> n \<and> n \<le> 255)"

definition channel_ok :: "Channel \<Rightarrow> bool" where
  "channel_ok ch \<longleftrightarrow>
     curve_ok (ch_Curve ch) \<and> fst (last (ch_Curve ch)) < ch_Critical ch \<and> ch_Critical ch \<le> MaxCritical
   \<and> stop_ok (ch_Stop ch) \<and> 1 \<le> ch_PWM ch \<and> ch_PWM ch \<le> MaxPWM
   \<and> 0 \<le> ch_Hysteresis ch \<and> ch_Hysteresis ch \<le> HysteresisMax
   \<and> 0 \<le> ch_MinOn ch \<and> ch_MinOn ch \<le> MinOnMax
   \<and> (ch_Ceiling ch = 0 \<or> MinCeiling \<le> ch_Ceiling ch \<and> ch_Ceiling ch \<le> BuiltinCeiling (ch_Sensor ch) None)"

definition channels_ok :: "Channel list \<Rightarrow> bool" where
  "channels_ok chs \<longleftrightarrow> list_all channel_ok chs \<and> distinct (map ch_Name chs) \<and> distinct (map ch_PWM chs)"

definition daemon_ok :: "Daemon \<Rightarrow> bool" where
  "daemon_ok d \<longleftrightarrow>
     MinInterval \<le> d_Interval d \<and> d_Interval d \<le> MaxInterval
   \<and> 1 \<le> d_StepUp d \<and> d_StepUp d \<le> 255 \<and> 1 \<le> d_StepDown d \<and> d_StepDown d \<le> 255
   \<and> 1 \<le> d_StallMinDuty d \<and> d_StallMinDuty d \<le> 255
   \<and> 1 \<le> d_StallCycles d \<and> d_StallCycles d \<le> MaxStallCycle
   \<and> MinStaleCycle \<le> d_StaleCycles d \<and> d_StaleCycles d \<le> MaxStaleCycle
   \<and> MinCooldown \<le> d_AlertCooldown d \<and> d_AlertCooldown d \<le> MaxCooldown
   \<and> 0 \<le> d_LogEvery d \<and> d_LogEvery d \<le> 1000000
   \<and> 1 \<le> d_EmergencyCycles d \<and> d_EmergencyCycles d \<le> MaxEmergencyCycles
   \<and> d_Profile d \<in> set Profiles"

section \<open>Facts about the helpers\<close>

lemma stop_ok_StopDuty:
  "stop_ok (ch_Stop ch) \<Longrightarrow> StopDuty ch = Some n \<Longrightarrow> MinFixedStop \<le> n \<and> n \<le> 255"
  by (auto simp: stop_ok_def StopDuty_def config_limits Atoi_Itoa in_int64_def split: if_splits)

lemma stop_ok_auto_iff: "stop_ok (ch_Stop ch) \<Longrightarrow> StopDuty ch = None \<longleftrightarrow> ch_Stop ch = ''auto''"
  by (auto simp: stop_ok_def StopDuty_def config_limits Atoi_Itoa in_int64_def Itoa_not_word
      Itoa_not_word(2) [symmetric])

lemma join_parts_ok:
  "join_parts i seen rs = Inr ps \<Longrightarrow>
     ps = map TrimSpace rs \<and> distinct ps \<and> set ps \<inter> set seen = {} \<and> (\<forall>p \<in> set ps. p \<noteq> [] \<and> CHR '','' \<notin> set p)"
proof (induction i seen rs arbitrary: ps rule: join_parts.induct)
  case (1 i seen)
  then show ?case by simp
next
  case (2 i seen raw rs)
  from 2(2) obtain qs where qs: "ps = TrimSpace raw # qs" "TrimSpace raw \<noteq> []"
    "CHR '','' \<notin> set (TrimSpace raw)" "TrimSpace raw \<notin> set seen"
    "join_parts (Suc i) (TrimSpace raw # seen) rs = Inr qs"
    by (auto simp: Let_def split: if_splits sum.splits)
  from 2(1) [OF refl qs(2,3,4,5)] have
    "qs = map TrimSpace rs" "distinct qs" "set qs \<inter> set (TrimSpace raw # seen) = {}"
    "\<forall>p \<in> set qs. p \<noteq> [] \<and> CHR '','' \<notin> set p" by blast+
  with qs show ?case by (simp add: disjoint_iff) blast
qed

lemma join_parts_complete:
  "distinct (map TrimSpace rs) \<Longrightarrow> set (map TrimSpace rs) \<inter> set seen = {} \<Longrightarrow>
   \<forall>r \<in> set rs. TrimSpace r \<noteq> [] \<and> CHR '','' \<notin> set (TrimSpace r) \<Longrightarrow>
   join_parts i seen rs = Inr (map TrimSpace rs)"
  by (induction rs arbitrary: i seen) (auto simp: Let_def)

lemma validate_points_sound:
  "validate_points i prev pts = Inr c \<Longrightarrow>
     pts = map (\<lambda>(t, d). [t, d]) c \<and> curve_shape c \<and>
     (\<forall>p. prev = Some p \<longrightarrow> (\<forall>q \<in> set c. point_le p q))"
proof (induction i prev pts arbitrary: c rule: validate_points.induct)
  case (1 i prev)
  then show ?case by (simp add: curve_shape_def)
next
  case (2 i prev pt pts)
  from 2(2) obtain t d out where
    pt: "pt = [t, d]" and c: "c = (t, d) # out"
    and rng: "MinCurveTemp \<le> t" "t \<le> MaxCurveTemp" "0 \<le> d" "d \<le> 255"
    and prev: "\<forall>p. prev = Some p \<longrightarrow> point_le p (t, d)"
    and rest: "validate_points (Suc i) (Some (t, d)) pts = Inr out"
    by (auto simp: point_le_def split: list.splits if_splits sum.splits option.splits)
  have "pts = map (\<lambda>(t, d). [t, d]) out \<and> curve_shape out \<and> (\<forall>q \<in> set out. point_le (t, d) q)"
    using 2(1) [OF pt refl refl] 2(2) rest
    by (auto simp: pt split: if_splits option.splits sum.splits)
  then show ?case
    using pt c rng prev by (fastforce simp: curve_shape_def point_le_def)
qed

lemma validate_points_complete:
  "curve_shape c \<Longrightarrow> (\<forall>p. prev = Some p \<longrightarrow> (\<forall>q \<in> set c. point_le p q)) \<Longrightarrow>
     validate_points i prev (map (\<lambda>(t, d). [t, d]) c) = Inr c"
proof (induction c arbitrary: i prev)
  case (Cons p c)
  obtain t d where p: "p = (t, d)" by (cases p)
  have "validate_points (Suc i) (Some (t, d)) (map (\<lambda>(t, d). [t, d]) c) = Inr c"
    using Cons.prems by (intro Cons.IH) (auto simp: curve_shape_def p)
  with Cons.prems show ?case
    by (auto simp: p curve_shape_def point_le_def not_less not_le split: option.splits)
qed simp

end
