(* ===== verification/GoFloat.thy ===== *)
theory GoFloat
  imports GoBase "HOL-Library.Log_Nat"
begin

text \<open>
  Go's \<^verbatim>\<open>float64\<close> arithmetic (IEEE 754 binary64, round to nearest, ties to
  even), as exact rational arithmetic followed by the rounding \<open>rnd64\<close>. The
  model covers finite results; the modelled code never comes near the
  overflow threshold. What the curve code needs of a rounding is the locale
  \<open>go_rounding\<close> (monotone, exact on small integers and half-integers);
  \<open>rnd64\<close> is its interpretation.
\<close>

section \<open>Binary exponent\<close>

definition ilog2 :: "rat \<Rightarrow> int" where
  "ilog2 x = (let (p, q) = quotient_of x; d = bitlen p - bitlen q
     in if 2 powi d \<le> x then d else d - 1)"

lemma bitlen_powi_bounds:
  assumes "0 < n"
  shows "(2::rat) powi (bitlen n - 1) \<le> of_int n" "of_int n < (2::rat) powi (bitlen n)"
proof -
  have b: "2 ^ nat (bitlen n - 1) \<le> n" "n < 2 ^ nat (bitlen n)"
    using bitlen_bounds [OF assms] by simp_all
  have pos: "0 < bitlen n"
    using assms bitlen_nonneg [of n] bitlen_eq_zero_iff [of n] by linarith
  have "(2::rat) powi (bitlen n - 1) = of_int (2 ^ nat (bitlen n - 1))"
    using pos by (simp add: power_int_def)
  also have "\<dots> \<le> of_int n" using b(1) by (simp only: of_int_le_iff)
  finally show "(2::rat) powi (bitlen n - 1) \<le> of_int n" .
  have "of_int n < (of_int (2 ^ nat (bitlen n)) :: rat)" using b(2) by (simp only: of_int_less_iff)
  also have "\<dots> = 2 powi (bitlen n)" using pos by (simp add: power_int_def)
  finally show "of_int n < (2::rat) powi (bitlen n)" .
qed

lemma ilog2_bounds:
  assumes x: "0 < x"
  shows "2 powi (ilog2 x) \<le> x" "x < 2 powi (ilog2 x + 1)"
proof -
  obtain p q where pq: "quotient_of x = (p, q)" by (cases "quotient_of x")
  have q: "0 < q" using pq by (rule quotient_of_denom_pos)
  have xe: "x = of_int p / of_int q" using pq by (rule quotient_of_div)
  have p: "0 < p" using x q by (simp add: xe zero_less_divide_iff)
  let ?d = "bitlen p - bitlen q"
  note bp = bitlen_powi_bounds [OF p] and bq = bitlen_powi_bounds [OF q]
  have rq: "(0::rat) < of_int q" using q by simp
  have lo: "2 powi (?d - 1) \<le> x"
  proof -
    have "2 powi (?d - 1) * of_int q \<le> 2 powi (?d - 1) * (2::rat) powi (bitlen q)"
      using bq(2) by (intro mult_left_mono) (auto simp: less_imp_le)
    also have "\<dots> = 2 powi (bitlen p - 1)"
      by (simp flip: power_int_add)
    also have "\<dots> \<le> of_int p" by (rule bp(1))
    finally show ?thesis using rq by (simp add: xe pos_le_divide_eq)
  qed
  have hi: "x < 2 powi (?d + 1)"
  proof -
    have "of_int p < (2::rat) powi (bitlen p)" by (rule bp(2))
    also have "\<dots> = 2 powi (?d + 1) * 2 powi (bitlen q - 1)"
      by (simp flip: power_int_add)
    also have "\<dots> \<le> 2 powi (?d + 1) * of_int q"
      using bq(1) by (intro mult_left_mono) auto
    finally show ?thesis using rq by (simp add: xe pos_divide_less_eq)
  qed
  have il: "ilog2 x = (if 2 powi ?d \<le> x then ?d else ?d - 1)"
    by (simp add: ilog2_def pq)
  show "2 powi (ilog2 x) \<le> x" using lo by (simp add: il)
  show "x < 2 powi (ilog2 x + 1)" using hi by (auto simp: il)
qed

lemma powi2_less_iff [simp]: "(2::rat) powi a < 2 powi b \<longleftrightarrow> a < b"
  using power_int_strict_increasing [of a b "2::rat"] power_int_increasing [of b a "2::rat"]
  by (metis linorder_not_le one_less_numeral_iff semiring_norm(76) order_less_imp_le)

lemma ilog2_mono: "0 < x \<Longrightarrow> x \<le> y \<Longrightarrow> ilog2 x \<le> ilog2 y"
proof -
  assume x: "0 < x" and xy: "x \<le> y"
  have "2 powi (ilog2 x) \<le> x" "y < 2 powi (ilog2 y + 1)"
    using ilog2_bounds [of x] ilog2_bounds [of y] x xy by auto
  with xy have "(2::rat) powi (ilog2 x) < 2 powi (ilog2 y + 1)" by linarith
  then show ?thesis by simp
qed

lemma ilog2_less: "0 < x \<Longrightarrow> x < 2 powi k \<Longrightarrow> ilog2 x < k"
  using ilog2_bounds(1) [of x] by (metis order_le_less_trans powi2_less_iff)

section \<open>Rounding\<close>

definition round_even :: "rat \<Rightarrow> int" where
  "round_even x = (let f = \<lfloor>x\<rfloor>; r = x - of_int f
     in if r < 1/2 then f else if r > 1/2 then f + 1 else if even f then f else f + 1)"

lemma round_even_int [simp]: "round_even (of_int k) = k"
  by (simp add: round_even_def)

lemma round_even_mono:
  assumes "x \<le> y"
  shows "round_even x \<le> round_even y"
proof -
  have f: "\<lfloor>x\<rfloor> \<le> \<lfloor>y\<rfloor>" using assms by (rule floor_mono)
  show ?thesis
  proof (cases "\<lfloor>x\<rfloor> = \<lfloor>y\<rfloor>")
    case True
    with assms show ?thesis by (auto simp: round_even_def Let_def)
  next
    case False
    with f have "\<lfloor>x\<rfloor> + 1 \<le> \<lfloor>y\<rfloor>" by simp
    then show ?thesis by (auto simp: round_even_def Let_def)
  qed
qed

lemma floor_minus_frac:
  fixes x :: rat
  assumes "x \<noteq> of_int \<lfloor>x\<rfloor>"
  shows "\<lfloor>- x\<rfloor> = - \<lfloor>x\<rfloor> - 1"
proof (rule floor_unique)
  have "of_int \<lfloor>x\<rfloor> < x" "x < of_int \<lfloor>x\<rfloor> + 1"
    using assms of_int_floor_le [of x] by linarith+
  then show "of_int (- \<lfloor>x\<rfloor> - 1) \<le> - x" "- x < of_int (- \<lfloor>x\<rfloor> - 1) + 1" by simp_all
qed

lemma round_even_minus: "round_even (- x) = - round_even x"
proof (cases "x = of_int \<lfloor>x\<rfloor>")
  case True
  then show ?thesis by (metis of_int_minus round_even_int)
next
  case False
  have fl: "\<lfloor>- x\<rfloor> = - \<lfloor>x\<rfloor> - 1" using False by (rule floor_minus_frac)
  show ?thesis by (auto simp: round_even_def Let_def fl)
qed

definition ulp64 :: "rat \<Rightarrow> rat" where
  "ulp64 x = 2 powi (max (ilog2 \<bar>x\<bar>) (- 1022) - 52)"

definition rnd64 :: "rat \<Rightarrow> rat" where
  "rnd64 x = (if x = 0 then 0 else of_int (round_even (x / ulp64 x)) * ulp64 x)"

lemma ulp64_pos [simp]: "0 < ulp64 x"
  by (simp add: ulp64_def)

lemma rnd64_minus: "rnd64 (- x) = - rnd64 x"
proof -
  have "ulp64 (- x) = ulp64 x" by (simp add: ulp64_def)
  then show ?thesis
    using round_even_minus [of "x / ulp64 x"] by (simp add: rnd64_def)
qed

lemma rnd64_nonneg: "0 \<le> x \<Longrightarrow> 0 \<le> rnd64 x"
proof -
  assume "0 \<le> x"
  then have "0 \<le> x / ulp64 x" by (simp add: less_imp_le)
  then have "0 \<le> round_even (x / ulp64 x)"
    using round_even_mono [of 0 "x / ulp64 x"] round_even_int [of 0] by simp
  then show ?thesis by (simp add: rnd64_def less_imp_le)
qed

text \<open>A positive value rounds into the binade of its exponent, both ends included.\<close>

lemma rnd64_upper:
  assumes "0 < x" "x \<le> 2 powi k" "- 1022 < k"
  shows "rnd64 x \<le> 2 powi k"
proof -
  let ?u = "ulp64 x"
  let ?e = "max (ilog2 \<bar>x\<bar>) (- 1022) - 52"
  have "ilog2 x \<le> k"
    using assms ilog2_bounds(1) [of x] by (meson order_trans linorder_not_le powi2_less_iff)
  then have ek: "?e \<le> k" using assms by simp
  define j where "j = nat (k - ?e)"
  have kj: "2 powi k = of_int (2 ^ j) * ?u"
    using ek by (simp add: j_def ulp64_def flip: power_int_of_nat power_int_add)
  have "x / ?u \<le> of_int (2 ^ j)"
    using assms(2) by (simp add: pos_divide_le_eq kj)
  then have "round_even (x / ?u) \<le> 2 ^ j"
    using round_even_mono [of "x / ?u" "of_int (2 ^ j)"] by (simp only: round_even_int)
  then have "of_int (round_even (x / ?u)) \<le> (of_int (2 ^ j) :: rat)"
    by (simp only: of_int_le_iff)
  then show ?thesis
    using assms(1) by (simp add: rnd64_def kj mult_right_mono less_imp_le)
qed

lemma rnd64_lower:
  assumes "2 powi k \<le> x" "ilog2 x = k" "- 1022 \<le> k"
  shows "2 powi k \<le> rnd64 x"
proof -
  have x: "0 < x" using assms(1) by (meson order_less_le_trans zero_less_numeral zero_less_power_int)
  let ?u = "ulp64 x"
  have u: "?u = 2 powi (k - 52)" using assms x by (simp add: ulp64_def)
  have "(2::rat) powi k = 2 powi (52 + (k - 52))" by simp
  also have "\<dots> = 2 powi 52 * 2 powi (k - 52)" by (rule power_int_add) simp
  finally have kj: "2 powi k = of_int (2 ^ 52) * ?u"
    by (simp add: u)
  have "of_int (2 ^ 52) \<le> x / ?u"
    using assms(1) by (simp add: pos_le_divide_eq kj)
  then have "2 ^ 52 \<le> round_even (x / ?u)"
    using round_even_mono [of "of_int (2 ^ 52)" "x / ?u"] by (simp only: round_even_int)
  then have "(of_int (2 ^ 52) :: rat) \<le> of_int (round_even (x / ?u))"
    by (simp only: of_int_le_iff)
  then show ?thesis
    using x by (simp add: rnd64_def kj mult_right_mono less_imp_le)
qed

lemma rnd64_mono_pos:
  assumes x: "0 < x" and xy: "x \<le> y"
  shows "rnd64 x \<le> rnd64 y"
proof -
  let ?ex = "max (ilog2 x) (- 1022)" and ?ey = "max (ilog2 y) (- 1022)"
  have y: "0 < y" using x xy by simp
  have ee: "ilog2 x \<le> ilog2 y" using x xy by (rule ilog2_mono)
  show ?thesis
  proof (cases "?ex = ?ey")
    case True
    then have u: "ulp64 x = ulp64 y" using x y by (simp add: ulp64_def)
    have "x / ulp64 y \<le> y / ulp64 y" using xy by (simp add: divide_right_mono less_imp_le)
    then have "of_int (round_even (x / ulp64 y)) \<le> (of_int (round_even (y / ulp64 y)) :: rat)"
      by (simp add: round_even_mono)
    then show ?thesis
      using x y by (simp add: rnd64_def u mult_right_mono less_imp_le)
  next
    case False
    with ee have lt: "?ex < ilog2 y" by linarith
    have "x < 2 powi (ilog2 x + 1)" by (rule ilog2_bounds(2) [OF x])
    also have "\<dots> \<le> 2 powi (ilog2 y)"
      using lt by (intro power_int_increasing) auto
    finally have "rnd64 x \<le> 2 powi (ilog2 y)"
      using x lt by (intro rnd64_upper) auto
    also have "\<dots> \<le> rnd64 y"
      using lt ilog2_bounds(1) [OF y] by (intro rnd64_lower) auto
    finally show ?thesis .
  qed
qed

lemma rnd64_mono:
  assumes "x \<le> y"
  shows "rnd64 x \<le> rnd64 y"
proof -
  consider "0 < x" | "x \<le> 0" "0 \<le> y" | "y < 0" by linarith
  then show ?thesis
  proof cases
    case 1
    then show ?thesis using assms by (rule rnd64_mono_pos)
  next
    case 2
    have "rnd64 x \<le> 0" using rnd64_nonneg [of "- x"] 2 by (simp add: rnd64_minus)
    also have "0 \<le> rnd64 y" using 2 by (simp add: rnd64_nonneg)
    finally show ?thesis .
  next
    case 3
    then have "rnd64 (- y) \<le> rnd64 (- x)" using assms by (intro rnd64_mono_pos) auto
    then show ?thesis by (simp add: rnd64_minus)
  qed
qed

text \<open>A multiple of \<open>2\<^sup>-\<^sup>j\<close> below \<open>2\<^sup>5\<^sup>3\<^sup>-\<^sup>j\<close> is representable.\<close>

lemma rnd64_exact:
  assumes k: "x * 2 ^ j = of_int k" and b: "\<bar>x\<bar> < 2 powi (53 - int j)" and j: "j \<le> 1000"
  shows "rnd64 x = x"
proof (cases "x = 0")
  case False
  let ?e = "max (ilog2 \<bar>x\<bar>) (- 1022)"
  have "ilog2 \<bar>x\<bar> < 53 - int j" using False b by (intro ilog2_less) auto
  with j have e: "?e \<le> 52 - int j" by simp
  define m where "m = nat (52 - int j - ?e)"
  have "x / ulp64 x = x * 2 powi (52 - ?e)"
    by (simp add: ulp64_def divide_inverse flip: power_int_minus)
  also have "(2::rat) powi (52 - ?e) = 2 ^ j * 2 ^ m"
    using e by (simp add: m_def flip: power_int_of_nat power_int_add)
  also have "x * (2 ^ j * 2 ^ m) = of_int (k * 2 ^ m)"
    by (simp add: k flip: mult.assoc)
  finally have q: "x / ulp64 x = of_int (k * 2 ^ m)" .
  have "rnd64 x = of_int (round_even (x / ulp64 x)) * ulp64 x" using False by (simp add: rnd64_def)
  also have "\<dots> = (x / ulp64 x) * ulp64 x" by (simp only: q round_even_int)
  also have "\<dots> = x" using ulp64_pos [of x] by (simp add: less_imp_neq [symmetric])
  finally show ?thesis .
qed (simp add: rnd64_def)

section \<open>The rounding interface\<close>

locale go_rounding =
  fixes rnd :: "rat \<Rightarrow> rat"
  assumes rnd_mono: "x \<le> y \<Longrightarrow> rnd x \<le> rnd y"
    and rnd_int: "\<bar>k\<bar> < 2 ^ 52 \<Longrightarrow> rnd (of_int k) = of_int k"
    and rnd_half: "\<bar>k\<bar> < 2 ^ 51 \<Longrightarrow> rnd (of_int k + 1/2) = of_int k + 1/2"
begin

lemma rnd_between:
  "of_int a \<le> x \<Longrightarrow> x \<le> of_int b \<Longrightarrow> \<bar>a\<bar> < 2 ^ 52 \<Longrightarrow> \<bar>b\<bar> < 2 ^ 52 \<Longrightarrow>
    of_int a \<le> rnd x \<and> rnd x \<le> of_int b"
  by (metis rnd_int rnd_mono)

lemma rnd_nonneg: "0 \<le> x \<Longrightarrow> 0 \<le> rnd x"
  using rnd_mono [of 0 x] rnd_int [of 0] by simp

end

lemma powi2_bound:
  fixes x :: rat
  assumes "\<bar>k\<bar> < 2 ^ n" "x = of_int k"
  shows "\<bar>x\<bar> < 2 ^ n"
  using assms by (metis of_int_abs of_int_less_iff of_int_numeral of_int_power)

interpretation f64: go_rounding rnd64
proof unfold_locales
  fix x y :: rat assume "x \<le> y" then show "rnd64 x \<le> rnd64 y" by (rule rnd64_mono)
next
  fix k :: int assume k: "\<bar>k\<bar> < 2 ^ 52"
  have "\<bar>of_int k\<bar> < (2::rat) ^ 52" using k by (intro powi2_bound) auto
  then show "rnd64 (of_int k) = of_int k"
    by (intro rnd64_exact [of _ 0 k]) auto
next
  fix k :: int assume k: "\<bar>k\<bar> < 2 ^ 51"
  let ?x = "of_int k + 1/2 :: rat"
  have "?x * 2 ^ 1 = of_int (2 * k + 1)" by simp
  moreover have "\<bar>2 * k + 1\<bar> < 2 ^ 53" using k by simp
  then have "\<bar>of_int (2 * k + 1)\<bar> < (2::rat) ^ 53" by (intro powi2_bound) auto
  then have "\<bar>?x\<bar> < 2 ^ 52" by simp
  ultimately show "rnd64 ?x = ?x"
    by (intro rnd64_exact [of _ 1 "2 * k + 1"]) auto
qed

section \<open>Operations\<close>

definition f_int :: "int \<Rightarrow> rat" where "f_int k = rnd64 (of_int k)"
definition f_add :: "rat \<Rightarrow> rat \<Rightarrow> rat" where "f_add x y = rnd64 (x + y)"
definition f_sub :: "rat \<Rightarrow> rat \<Rightarrow> rat" where "f_sub x y = rnd64 (x - y)"
definition f_mul :: "rat \<Rightarrow> rat \<Rightarrow> rat" where "f_mul x y = rnd64 (x * y)"
definition f_div :: "rat \<Rightarrow> rat \<Rightarrow> rat" where "f_div x y = rnd64 (x / y)"

text \<open>The conversion \<^verbatim>\<open>int(x)\<close> truncates towards zero.\<close>

definition f_trunc :: "rat \<Rightarrow> int" where
  "f_trunc x = (if 0 \<le> x then \<lfloor>x\<rfloor> else - \<lfloor>- x\<rfloor>)"

lemma f_trunc_mono: "x \<le> y \<Longrightarrow> f_trunc x \<le> f_trunc y"
proof -
  assume xy: "x \<le> y"
  consider "0 \<le> x" | "x < 0" "0 \<le> y" | "y < 0" by linarith
  then show ?thesis
  proof cases
    case 2
    then have "0 \<le> \<lfloor>- x\<rfloor>" "0 \<le> \<lfloor>y\<rfloor>" by simp_all
    then have "- \<lfloor>- x\<rfloor> \<le> \<lfloor>y\<rfloor>" by linarith
    with 2 show ?thesis by (simp add: f_trunc_def del: floor_less_zero zero_le_floor)
  next
    case 3
    with xy have "\<lfloor>- y\<rfloor> \<le> \<lfloor>- x\<rfloor>" by (intro floor_mono) simp
    with 3 xy show ?thesis by (simp add: f_trunc_def)
  qed (use xy in \<open>simp add: f_trunc_def floor_mono\<close>)
qed

text \<open>\<^verbatim>\<open>Duration.Seconds\<close>: whole seconds plus the float fraction.\<close>

definition dur_Seconds :: "duration \<Rightarrow> rat" where
  "dur_Seconds d = f_add (f_int (tquot d Second)) (f_div (f_int (trem d Second)) (f_int Second))"

end
