(* ===== verification/ControlTypes.thy ===== *)
theory ControlTypes
  imports ConfigTypes GoFloat
begin

text \<open>
  Package \<^verbatim>\<open>internal/control\<close>, the data (\<^verbatim>\<open>types.go\<close>, the declarations of
  \<^verbatim>\<open>controller.go\<close>, \<^verbatim>\<open>readerr.go\<close>, \<^verbatim>\<open>watched.go\<close>): modes, statuses, the runtime
  state of a channel, the snapshot, and the constants of the regulation loop.
  A sensor reader is an opaque handle \<open>'r\<close>.
\<close>

section \<open>Constants\<close>

definition MinHDDOverride :: int where "MinHDDOverride = 60"
definition deviceLostCycles :: int where "deviceLostCycles = 6"
definition staleSensor :: string where "staleSensor = ''k10temp''"
definition rewriteEvery :: int where "rewriteEvery = 6"
definition historySaveEvery :: duration where "historySaveEvery = 10 * Minute"
definition resolveEvery :: int where "resolveEvery = 60"
definition stallRecoverCycles :: int where "stallRecoverCycles = 3"
definition ceilingRecover :: int where "ceilingRecover = 3"
definition HookOutputMax :: nat where "HookOutputMax = 4096"
definition writeErrorsBeforeFailsafe :: int where "writeErrorsBeforeFailsafe = 2"
definition ReadErrInterval :: duration where "ReadErrInterval = 5 * Minute"
definition DCRWarnInterval :: duration where "DCRWarnInterval = ReadErrInterval"
definition AlertConfigChannels :: string where "AlertConfigChannels = ''config-channels''"

lemmas control_consts = MinHDDOverride_def deviceLostCycles_def rewriteEvery_def resolveEvery_def
  stallRecoverCycles_def ceilingRecover_def writeErrorsBeforeFailsafe_def

section \<open>Modes and statuses\<close>

datatype Mode = ModeAuto | ModeManual | ModeCritical | ModeStall | ModeSensor | ModeFailsafe

datatype Status = StatusStarting | StatusOK | StatusWriteError | StatusSensorError | StatusDryRun

primrec Mode_text :: "Mode \<Rightarrow> string" where
  "Mode_text ModeAuto = ''auto''"
| "Mode_text ModeManual = ''manual''"
| "Mode_text ModeCritical = ''critical''"
| "Mode_text ModeStall = ''stall''"
| "Mode_text ModeSensor = ''sensor-error''"
| "Mode_text ModeFailsafe = ''failsafe''"

section \<open>A channel at run time\<close>

record 'r channel =
  cfg :: Channel
  hasTach :: bool
  sensor :: "'r option"
  cur :: int
  written :: bool
  regDuty :: int
  regAt :: gotime
  regPending :: bool
  rpm :: int
  temp :: int
  tempOK :: bool
  target :: int
  mode :: Mode
  sensorBad :: bool
  sensorErr :: msg
  stallCnt :: int
  stalled :: bool
  recov :: int
  ceiling :: int
  partCeil :: "PartCeiling list"
  parts :: "Part list"
  ceilHit :: bool
  ceilPart :: string
  ceilPartTemp :: int
  ceilPartCeil :: int
  ceilCycles :: int
  emergencyFired :: bool
  held :: int
  heldOK :: bool
  lastCurve :: int
  haveCurve :: bool
  holding :: bool
  holdTarget :: int
  holdStart :: gotime
  holdUntil :: gotime

definition zeroTime :: gotime where
  "zeroTime = \<lparr>wall = - 62135596800 * Second, mono = None\<rparr>"

definition emptyMsg :: msg where "emptyMsg = Msg [] []"

text \<open>
  A channel as \<^verbatim>\<open>buildChannels\<close> allocates it: the named fields of the literal, Go's
  zero values in the others.
\<close>

definition newChannel :: "Channel \<Rightarrow> bool \<Rightarrow> 'r channel" where
  "newChannel cc tach = \<lparr>
     cfg = cc, hasTach = tach, sensor = None, cur = 255, written = False, regDuty = 0,
     regAt = zeroTime, regPending = False, rpm = -1, temp = 0, tempOK = False, target = 255,
     mode = ModeAuto, sensorBad = False, sensorErr = emptyMsg, stallCnt = 0, stalled = False,
     recov = 0, ceiling = 0, partCeil = [], parts = [], ceilHit = False, ceilPart = [],
     ceilPartTemp = 0, ceilPartCeil = 0, ceilCycles = 0, emergencyFired = False, held = 0,
     heldOK = False, lastCurve = 0, haveCurve = False, holding = False, holdTarget = 0,
     holdStart = zeroTime, holdUntil = zeroTime\<rparr>"

section \<open>Snapshot\<close>

record ChannelState =
  cs_Name :: string
  cs_PWM :: int
  cs_Sensor :: string
  cs_Temp :: rat
  cs_Duty :: int
  cs_Target :: int
  cs_RPM :: int
  cs_Mode :: Mode
  cs_HeldTemp :: rat
  cs_HoldUntil :: int
  cs_Ceiling :: int
  cs_CeilingHit :: bool

record Snapshot =
  sn_TS :: int
  sn_Status :: Status
  sn_Profile :: string
  sn_Verified :: bool
  sn_HWStatus :: string
  sn_HwmonPath :: string
  sn_DryRun :: bool
  sn_Channels :: "ChannelState list"
  sn_ExtraTemps :: "(string \<times> rat) list"
  sn_Watched :: "(string \<times> rat) list"
  sn_Alerts :: "string \<rightharpoonup> int"
  sn_Uptime :: int

section \<open>Rate limiting of read errors\<close>

record readErrState =
  re_last :: "gotime option"   \<comment> \<open>\<open>None\<close>: the zero time\<close>
  re_suppressed :: int

record 'r watchedSensor =
  ws_id :: string
  ws_sensor :: "'r option"

end
