(* ===== verification/Curve.thy ===== *)
theory Curve
  imports ControlTypes
begin

text \<open>
  The curve and its post-processing (\<^verbatim>\<open>controller.go\<close>: \<^verbatim>\<open>Interpolate\<close>,
  \<^verbatim>\<open>heldTemp\<close>, \<^verbatim>\<open>minOnHold\<close>, \<^verbatim>\<open>Slew\<close>, \<^verbatim>\<open>clampDuty\<close>). \<^verbatim>\<open>Interpolate\<close> computes in
  \<^verbatim>\<open>float64\<close>; its model rounds after every operation, and its properties
  (exact at the points, monotone, within the end duties) follow from the laws
  of the rounding interface alone.
\<close>

section \<open>Definitions\<close>

definition clampDuty :: "int \<Rightarrow> int" where
  "clampDuty d = (if d < 0 then 0 else if d > 255 then 255 else d)"

text \<open>The value of one segment, for a rounding \<open>rnd\<close> applied after every operation.\<close>

definition seg_duty :: "(rat \<Rightarrow> rat) \<Rightarrow> rat \<Rightarrow> int \<times> int \<Rightarrow> int \<times> int \<Rightarrow> int" where
  "seg_duty rnd t p q =
     (let t0 = rnd (of_int (fst p)); d0 = rnd (of_int (snd p));
          t1 = rnd (of_int (fst q)); d1 = rnd (of_int (snd q))
      in if t1 = t0 then f_trunc d1
         else let v = rnd (d0 + rnd (rnd (rnd (t - t0) * rnd (d1 - d0)) / rnd (t1 - t0)))
              in clampDuty (f_trunc (rnd (v + 1/2))))"

fun interp_loop :: "(rat \<Rightarrow> rat) \<Rightarrow> rat \<Rightarrow> int \<Rightarrow> curve \<Rightarrow> int" where
  "interp_loop rnd t ld (p # q # c) =
     (if t \<le> rnd (of_int (fst q)) then seg_duty rnd t p q else interp_loop rnd t ld (q # c))"
| "interp_loop rnd t ld c = ld"

definition interpolate_with :: "(rat \<Rightarrow> rat) \<Rightarrow> curve \<Rightarrow> int \<Rightarrow> int" where
  "interpolate_with rnd curve tempMilli =
     (if curve = [] then 255
      else let t = rnd (rnd (of_int tempMilli) / 1000); lst = last curve
           in if t \<le> rnd (of_int (fst (hd curve))) then snd (hd curve)
              else if t \<ge> rnd (of_int (fst lst)) then snd lst
              else interp_loop rnd t (snd lst) curve)"

definition Interpolate :: "curve \<Rightarrow> int \<Rightarrow> int" where
  "Interpolate = interpolate_with rnd64"

text \<open>\<^verbatim>\<open>heldTemp\<close>: the held temperature and the channel with it.\<close>

definition heldTemp :: "'r channel \<Rightarrow> int \<times> 'r channel" where
  "heldTemp ch =
     (let n = ch_Hysteresis (cfg ch)
      in if n \<le> 0 \<or> \<not> heldOK ch
         then (temp ch, ch\<lparr>held := temp ch, heldOK := True\<rparr>)
         else let d = temp ch - held ch
              in if d \<ge> n * 1000 \<or> - d \<ge> n * 1000
                 then (temp ch, ch\<lparr>held := temp ch\<rparr>)
                 else (held ch, ch))"

definition minOnHold :: "'r channel \<Rightarrow> int \<Rightarrow> gotime \<Rightarrow> int \<times> 'r channel" where
  "minOnHold ch0 curve now =
     (let d = ch_MinOn (cfg ch0); prev = lastCurve ch0; havePrev = haveCurve ch0;
          ch1 = ch0\<lparr>lastCurve := curve, haveCurve := True\<rparr>
      in if d \<le> 0 then (curve, ch1\<lparr>holding := False\<rparr>)
         else let ch2 = (if holding ch1 \<and> \<not> Before now (holdUntil ch1)
                         then ch1\<lparr>holding := False\<rparr> else ch1);
                  ch3 = (if havePrev \<and> curve > prev \<and> (\<not> holding ch2 \<or> curve > holdTarget ch2)
                         then ch2\<lparr>holding := True, holdTarget := curve, holdStart := now,
                                  holdUntil := Add now d\<rparr>
                         else ch2)
              in if holding ch3 \<and> holdTarget ch3 > curve then (holdTarget ch3, ch3) else (curve, ch3))"

definition Slew :: "int \<Rightarrow> int \<Rightarrow> int \<Rightarrow> int \<Rightarrow> int" where
  "Slew current tgt stepUp stepDown =
     (if tgt > current + stepUp then current + stepUp
      else if tgt < current - stepDown then current - stepDown
      else tgt)"

section \<open>Interpolation over the rounding interface\<close>

lemma clampDuty_range [go_bounds]: "0 \<le> clampDuty d \<and> clampDuty d \<le> 255"
  by (simp add: clampDuty_def)

lemma clampDuty_mono: "a \<le> b \<Longrightarrow> clampDuty a \<le> clampDuty b"
  by (simp add: clampDuty_def)

lemma clampDuty_id: "0 \<le> d \<Longrightarrow> d \<le> 255 \<Longrightarrow> clampDuty d = d"
  by (simp add: clampDuty_def)

lemma f_trunc_half: "0 \<le> k \<Longrightarrow> f_trunc (of_int k + 1/2) = k"
proof -
  assume "0 \<le> k"
  moreover have "\<lfloor>of_int k + 1/2 :: rat\<rfloor> = k" by (rule floor_unique) simp_all
  ultimately show ?thesis by (simp only: f_trunc_def) simp
qed

definition pt_ok :: "int \<times> int \<Rightarrow> bool" where
  "pt_ok p \<longleftrightarrow> MinCurveTemp \<le> fst p \<and> fst p \<le> MaxCurveTemp \<and> 0 \<le> snd p \<and> snd p \<le> 255"

lemma curve_shape_Cons:
  "curve_shape (p # c) \<longleftrightarrow> pt_ok p \<and> (\<forall>q \<in> set c. point_le p q) \<and> curve_shape c"
  by (auto simp: curve_shape_def pt_ok_def)

context go_rounding
begin

lemma rnd_temp: "pt_ok p \<Longrightarrow> rnd (of_int (fst p)) = of_int (fst p)"
  by (intro rnd_int) (auto simp: pt_ok_def config_limits)

lemma rnd_duty: "pt_ok p \<Longrightarrow> rnd (of_int (snd p)) = of_int (snd p)"
  by (intro rnd_int) (auto simp: pt_ok_def config_limits)

lemma rnd_diff_temp:
  "pt_ok p \<Longrightarrow> pt_ok q \<Longrightarrow> rnd (of_int (fst q) - of_int (fst p)) = of_int (fst q - fst p)"
proof -
  assume "pt_ok p" "pt_ok q"
  then have "\<bar>fst q - fst p\<bar> < 2 ^ 52" by (auto simp: pt_ok_def config_limits abs_if)
  from rnd_int [OF this] show ?thesis by simp
qed

lemma rnd_diff_duty:
  "pt_ok p \<Longrightarrow> pt_ok q \<Longrightarrow> rnd (of_int (snd q) - of_int (snd p)) = of_int (snd q - snd p)"
proof -
  assume "pt_ok p" "pt_ok q"
  then have "\<bar>snd q - snd p\<bar> < 2 ^ 52" by (auto simp: pt_ok_def config_limits abs_if)
  from rnd_int [OF this] show ?thesis by simp
qed

text \<open>A segment with the roundings of the exact operations removed.\<close>

lemma seg_duty_eq:
  assumes "pt_ok p" "pt_ok q" "point_le p q"
  shows "seg_duty rnd t p q =
    clampDuty (f_trunc (rnd (rnd (of_int (snd p) +
      rnd (rnd (rnd (t - of_int (fst p)) * of_int (snd q - snd p)) / of_int (fst q - fst p))) + 1/2)))"
  using assms
  by (simp add: seg_duty_def Let_def rnd_temp rnd_duty rnd_diff_temp rnd_diff_duty point_le_def)

lemma seg_duty_mono:
  assumes "pt_ok p" "pt_ok q" "point_le p q" "t \<le> t'"
  shows "seg_duty rnd t p q \<le> seg_duty rnd t' p q"
proof -
  have dd: "(0::rat) \<le> of_int (snd q - snd p)" and tt: "(0::rat) \<le> of_int (fst q - fst p)"
    using assms(3) by (simp_all add: point_le_def)
  have "rnd (t - of_int (fst p)) \<le> rnd (t' - of_int (fst p))"
    using assms(4) by (intro rnd_mono) simp
  then have "rnd (rnd (t - of_int (fst p)) * of_int (snd q - snd p))
      \<le> rnd (rnd (t' - of_int (fst p)) * of_int (snd q - snd p))"
    using dd by (intro rnd_mono [of "_ * _"] mult_right_mono)
  then have "rnd (rnd (rnd (t - of_int (fst p)) * of_int (snd q - snd p)) / of_int (fst q - fst p))
      \<le> rnd (rnd (rnd (t' - of_int (fst p)) * of_int (snd q - snd p)) / of_int (fst q - fst p))"
    using tt by (intro rnd_mono [of "_ / _"] divide_right_mono)
  then show ?thesis
    unfolding seg_duty_eq [OF assms(1-3)]
    by (intro clampDuty_mono f_trunc_mono rnd_mono [of "_ + _"] add_right_mono add_left_mono)
qed

lemma seg_duty_finish:
  assumes "pt_ok r"
  shows "clampDuty (f_trunc (rnd (rnd (of_int (snd r)) + 1/2))) = snd r"
proof -
  have r: "0 \<le> snd r" "snd r \<le> 255" using assms by (simp_all add: pt_ok_def)
  then have "rnd (of_int (snd r) + 1/2) = of_int (snd r) + 1/2" by (intro rnd_half) auto
  with assms r show ?thesis by (simp add: rnd_duty f_trunc_half clampDuty_id)
qed

text \<open>At its end points a segment yields the configured duties exactly.\<close>

lemma seg_duty_left:
  assumes "pt_ok p" "pt_ok q" "point_le p q"
  shows "seg_duty rnd (of_int (fst p)) p q = snd p"
  using seg_duty_finish [OF assms(1)] rnd_int [of 0]
  unfolding seg_duty_eq [OF assms] by simp

lemma seg_duty_right:
  assumes "pt_ok p" "pt_ok q" "point_le p q"
  shows "seg_duty rnd (of_int (fst q)) p q = snd q"
proof -
  have tt: "0 < fst q - fst p" "fst q - fst p \<le> 140" and dd: "0 \<le> snd q - snd p" "snd q - snd p \<le> 255"
    using assms by (simp_all add: point_le_def pt_ok_def config_limits)
  have "(fst q - fst p) * (snd q - snd p) \<le> 140 * 255"
    using tt dd by (intro mult_mono) auto
  then have "\<bar>(fst q - fst p) * (snd q - snd p)\<bar> < 2 ^ 52"
    using tt dd by (simp add: abs_mult)
  from rnd_int [OF this]
  have prod: "rnd (rnd (of_int (fst q) - of_int (fst p)) * of_int (snd q - snd p))
      = of_int ((fst q - fst p) * (snd q - snd p))"
    using assms by (simp add: rnd_diff_temp)
  have quot: "of_int ((fst q - fst p) * (snd q - snd p)) / of_int (fst q - fst p)
      = (of_int (snd q - snd p) :: rat)"
    using tt by simp
  have "rnd (of_int (snd q - snd p)) = of_int (snd q - snd p)"
    using dd by (intro rnd_int) auto
  then show ?thesis
    unfolding seg_duty_eq [OF assms] prod quot using seg_duty_finish [OF assms(2)] by simp
qed

lemma seg_duty_bounds:
  assumes "pt_ok p" "pt_ok q" "point_le p q" "of_int (fst p) \<le> t" "t \<le> of_int (fst q)"
  shows "snd p \<le> seg_duty rnd t p q \<and> seg_duty rnd t p q \<le> snd q"
  using seg_duty_mono [OF assms(1-3) assms(4)] seg_duty_mono [OF assms(1-3) assms(5)]
    seg_duty_left [OF assms(1-3)] seg_duty_right [OF assms(1-3)] by simp

lemma interp_loop_bounds:
  "curve_shape c \<Longrightarrow> c \<noteq> [] \<Longrightarrow> of_int (fst (hd c)) \<le> t \<Longrightarrow>
     snd (hd c) \<le> interp_loop rnd t (snd (last c)) c \<and>
     interp_loop rnd t (snd (last c)) c \<le> snd (last c)"
proof (induction c rule: induct_list012)
  case (3 p q c)
  have ok: "pt_ok p" "pt_ok q" "point_le p q" "curve_shape (q # c)"
    using 3(3) by (auto simp: curve_shape_Cons)
  have "\<forall>x \<in> set (q # c). snd q \<le> snd x"
    using ok(4) by (auto simp: curve_shape_Cons point_le_def)
  then have qle: "snd q \<le> snd (last (q # c))"
    using last_in_set [of "q # c"] by blast
  have pq: "snd p \<le> snd q" using ok(3) by (simp add: point_le_def)
  show ?case
  proof (cases "t \<le> of_int (fst q)")
    case True
    with seg_duty_bounds [OF ok(1-3), of t] 3(5) qle show ?thesis
      by (simp add: rnd_temp ok(2))
  next
    case False
    with 3(2) [OF ok(4)] pq show ?thesis by (simp add: rnd_temp ok(2))
  qed
qed (auto simp: curve_shape_Cons)

lemma interp_loop_mono:
  "curve_shape c \<Longrightarrow> c \<noteq> [] \<Longrightarrow> of_int (fst (hd c)) \<le> t \<Longrightarrow> t \<le> t' \<Longrightarrow>
     interp_loop rnd t (snd (last c)) c \<le> interp_loop rnd t' (snd (last c)) c"
proof (induction c rule: induct_list012)
  case (3 p q c)
  have ok: "pt_ok p" "pt_ok q" "point_le p q" "curve_shape (q # c)"
    using 3(3) by (auto simp: curve_shape_Cons)
  consider "t' \<le> of_int (fst q)" | "t \<le> of_int (fst q)" "of_int (fst q) < t'" | "of_int (fst q) < t"
    by linarith
  then show ?case
  proof cases
    case 1
    with 3(6) seg_duty_mono [OF ok(1-3), of t t'] show ?thesis by (simp add: rnd_temp ok(2))
  next
    case 2
    then have "seg_duty rnd t p q \<le> snd q"
      using seg_duty_bounds [OF ok(1-3), of t] 3(5) by simp
    also have "snd q \<le> interp_loop rnd t' (snd (last (q # c))) (q # c)"
      using interp_loop_bounds [OF ok(4), of t'] 2 by simp
    finally show ?thesis using 2 by (simp add: rnd_temp ok(2))
  next
    case 3
    with "3.IH"(2) [OF ok(4)] \<open>t \<le> t'\<close> show ?thesis by (simp add: rnd_temp ok(2))
  qed
qed auto

text \<open>At a curve point that is not the first the loop returns its duty.\<close>

lemma interp_loop_point:
  "curve_shape c \<Longrightarrow> r \<in> set (tl c) \<Longrightarrow>
     interp_loop rnd (of_int (fst r)) (snd (last c)) c = snd r"
proof (induction c rule: induct_list012)
  case (3 p q c)
  have ok: "pt_ok p" "pt_ok q" "point_le p q" "curve_shape (q # c)"
    using 3(3) by (auto simp: curve_shape_Cons)
  show ?case
  proof (cases "r = q")
    case True
    then show ?thesis by (simp add: rnd_temp ok(2) seg_duty_right [OF ok(1-3)])
  next
    case False
    with 3(4) have r: "r \<in> set c" by simp
    with ok(4) have "fst q < fst r" by (auto simp: curve_shape_Cons point_le_def)
    with 3(2) [OF ok(4)] r show ?thesis by (simp add: rnd_temp ok(2))
  qed
qed auto

lemma curve_ends:
  assumes "curve_shape c" "c \<noteq> []"
  shows "pt_ok (hd c)" "pt_ok (last c)" "snd (hd c) \<le> snd (last c)"
proof -
  obtain p c' where c: "c = p # c'" using assms by (cases c) auto
  have all: "\<forall>q \<in> set c. pt_ok q" using assms by (auto simp: curve_shape_def pt_ok_def)
  then show "pt_ok (hd c)" "pt_ok (last c)" using assms(2) by auto
  have "\<forall>q \<in> set c. snd p \<le> snd q"
    using assms(1) by (auto simp: c curve_shape_Cons point_le_def)
  then show "snd (hd c) \<le> snd (last c)" using assms(2) by (simp add: c)
qed

lemma interpolate_bounds:
  assumes "curve_shape c" "c \<noteq> []"
  shows "snd (hd c) \<le> interpolate_with rnd c m \<and> interpolate_with rnd c m \<le> snd (last c)"
  using interp_loop_bounds [OF assms] curve_ends [OF assms] assms(2)
  by (auto simp: interpolate_with_def Let_def rnd_temp not_le less_imp_le)

lemma interpolate_mono:
  assumes c: "curve_shape c" "c \<noteq> []" and m: "m \<le> m'"
  shows "interpolate_with rnd c m \<le> interpolate_with rnd c m'"
proof -
  let ?t = "rnd (rnd (of_int m) / 1000)" and ?t' = "rnd (rnd (of_int m') / 1000)"
  have t: "?t \<le> ?t'"
    using m by (intro rnd_mono divide_right_mono) auto
  note e = curve_ends [OF c]
  consider "?t \<le> of_int (fst (hd c))" | "?t' \<ge> of_int (fst (last c))"
    | "of_int (fst (hd c)) < ?t" "?t' < of_int (fst (last c))" by linarith
  then show ?thesis
  proof cases
    case 1
    then have "interpolate_with rnd c m = snd (hd c)"
      using e c(2) by (simp add: interpolate_with_def Let_def rnd_temp)
    then show ?thesis using interpolate_bounds [OF c] by simp
  next
    case 2
    show ?thesis
    proof (cases "?t' \<le> of_int (fst (hd c))")
      case True
      with t have "?t \<le> of_int (fst (hd c))" by simp
      with True show ?thesis using e c(2) by (simp add: interpolate_with_def Let_def rnd_temp)
    next
      case False
      then have "interpolate_with rnd c m' = snd (last c)"
        using 2 e c(2) by (simp add: interpolate_with_def Let_def rnd_temp)
      then show ?thesis using interpolate_bounds [OF c] by simp
    qed
  next
    case 3
    with t interp_loop_mono [OF c, of ?t ?t'] e c(2) show ?thesis
      by (auto simp: interpolate_with_def Let_def rnd_temp)
  qed
qed

lemma rnd_milli: "pt_ok r \<Longrightarrow> rnd (rnd (of_int (1000 * fst r)) / 1000) = of_int (fst r)"
proof -
  assume r: "pt_ok r"
  then have "\<bar>1000 * fst r\<bar> < 2 ^ 52" by (auto simp: pt_ok_def config_limits abs_if)
  from rnd_int [OF this] r show ?thesis by (simp add: rnd_temp)
qed

lemma interpolate_point:
  assumes c: "curve_shape c" and r: "r \<in> set c"
  shows "interpolate_with rnd c (1000 * fst r) = snd r"
proof -
  obtain p c' where pc: "c = p # c'" using r by (cases c) auto
  have c0: "c \<noteq> []" by (simp add: pc)
  have ok: "pt_ok r" using c r by (auto simp: curve_shape_def pt_ok_def)
  note e = curve_ends [OF c c0]
  have uniq: "q = r" if "q \<in> set c" "fst q = fst r" for q
    using c r that unfolding curve_shape_def sorted_wrt_iff_nth_less in_set_conv_nth
    by (metis linorder_neqE_nat order_less_irrefl point_le_def)
  have fst_le: "fst (hd c) \<le> fst r" "fst r = fst (hd c) \<Longrightarrow> r = hd c"
    using c r uniq [of "hd c"] by (auto simp: pc curve_shape_Cons point_le_def)
  have last_le: "fst r \<ge> fst (last c) \<Longrightarrow> r = last c"
  proof -
    assume ge: "fst r \<ge> fst (last c)"
    have "c = butlast c @ [last c]" using c0 by simp
    then have "\<forall>q \<in> set (butlast c). point_le q (last c)"
      using c unfolding curve_shape_def by (metis sorted_wrt_append list.set_intros(1))
    with ge r show ?thesis
      by (metis \<open>c = butlast c @ [last c]\<close> append_butlast_last_id c0 linorder_not_le point_le_def
          set_ConsD Un_iff set_append empty_iff list.set(1))
  qed
  show ?thesis
  proof (cases "r = hd c")
    case True
    then show ?thesis using e c0 rnd_milli [OF ok]
      by (simp add: interpolate_with_def Let_def rnd_temp)
  next
    case False
    then have "\<not> fst r \<le> fst (hd c)" "r \<in> set (tl c)" using fst_le r by (auto simp: pc)
    with interp_loop_point [OF c] last_le e c0 rnd_milli [OF ok] show ?thesis
      by (auto simp: interpolate_with_def Let_def rnd_temp)
  qed
qed

end

section \<open>Post-processing facts\<close>

lemma heldTemp_held: "heldTemp ch = (h, ch') \<Longrightarrow> h = held ch' \<and> heldOK ch'"
  by (auto simp: heldTemp_def Let_def split: if_splits)

lemma heldTemp_near:
  assumes "heldTemp ch = (h, ch')"
  shows "h = temp ch \<or> \<bar>temp ch - h\<bar> < ch_Hysteresis (cfg ch) * 1000"
  using assms by (auto simp: heldTemp_def Let_def split: if_splits)

lemma heldTemp_frame [frame_simps]:
  assumes "heldTemp ch = (h, ch')"
  shows "ch' = ch\<lparr>held := held ch', heldOK := True\<rparr>"
  using assms by (auto simp: heldTemp_def Let_def split: if_splits)

lemma minOnHold_ge: "minOnHold ch v now = (r, ch') \<Longrightarrow> v \<le> r"
  by (auto simp: minOnHold_def Let_def split: if_splits)

lemma minOnHold_range:
  assumes "minOnHold ch v now = (r, ch')" "holding ch \<Longrightarrow> P (holdTarget ch)" "P v"
  shows "P r \<and> (holding ch' \<longrightarrow> P (holdTarget ch'))"
  using assms by (auto simp: minOnHold_def Let_def split: if_splits)

lemma minOnHold_frame [frame_simps]:
  assumes "minOnHold ch v now = (r, ch')"
  shows "ch' = ch\<lparr>lastCurve := v, haveCurve := True, holding := holding ch',
    holdTarget := holdTarget ch', holdStart := holdStart ch', holdUntil := holdUntil ch'\<rparr>"
  using assms by (auto simp: minOnHold_def Let_def split: if_splits)

lemma Slew_step:
  assumes "0 \<le> u" "0 \<le> d"
  shows "c - d \<le> Slew c t u d \<and> Slew c t u d \<le> c + u"
  using assms by (auto simp: Slew_def)

lemma Slew_between:
  assumes "0 \<le> u" "0 \<le> d"
  shows "min c t \<le> Slew c t u d \<and> Slew c t u d \<le> max c t"
  using assms by (auto simp: Slew_def)

section \<open>Properties\<close>

text \<open>
  C8: the duty the curve yields is within the duties of its first and last
  point and never falls when the temperature rises, in spite of the rounding
  of every float64 operation.
\<close>

theorem Interpolate_monotone:
  assumes "curve_ok c" "m \<le> m'"
  shows "snd (hd c) \<le> Interpolate c m \<and> Interpolate c m \<le> Interpolate c m' \<and>
    Interpolate c m' \<le> snd (last c)"
proof -
  have c: "curve_shape c" "c \<noteq> []" using assms(1) by (auto simp: curve_ok_def config_limits)
  show ?thesis
    using f64.interpolate_bounds [OF c, of m] f64.interpolate_bounds [OF c, of m']
      f64.interpolate_mono [OF c assms(2)]
    by (simp add: Interpolate_def)
qed

theorem Interpolate_monotone_witness:
  "curve_ok [(35, 60), (60, 150), (80, 255)] \<and> (41234::int) \<le> 59999 \<and>
   60 \<le> Interpolate [(35, 60), (60, 150), (80, 255)] 41234 \<and>
   Interpolate [(35, 60), (60, 150), (80, 255)] 41234 \<le> Interpolate [(35, 60), (60, 150), (80, 255)] 59999 \<and>
   Interpolate [(35, 60), (60, 150), (80, 255)] 59999 \<le> 255"
proof -
  have ok: "curve_ok [(35, 60), (60, 150), (80, 255)]"
    by (simp add: curve_ok_def curve_shape_def point_le_def config_limits)
  then show ?thesis using Interpolate_monotone [OF ok, of 41234 59999] by simp
qed

text \<open>
  at the temperature of a configured point the curve yields exactly the
  configured duty.
\<close>

theorem Interpolate_exact_at_points:
  assumes "curve_ok c" "(t, d) \<in> set c"
  shows "Interpolate c (1000 * t) = d"
  using f64.interpolate_point [of c "(t, d)"] assms by (simp add: curve_ok_def Interpolate_def)

theorem Interpolate_exact_at_points_witness:
  "curve_ok [(30, 87), (42, 140), (50, 200), (55, 255)] \<and>
   (42, 140) \<in> set [(30::int, 87::int), (42, 140), (50, 200), (55, 255)] \<and>
   Interpolate [(30, 87), (42, 140), (50, 200), (55, 255)] (1000 * 42) = 140"
proof -
  have ok: "curve_ok [(30, 87), (42, 140), (50, 200), (55, 255)]"
    by (simp add: curve_ok_def curve_shape_def point_le_def config_limits)
  then show ?thesis using Interpolate_exact_at_points [OF ok, of 42 140] by simp
qed

text \<open>Cycles of one channel: the curve value and the clock reading of each.\<close>

fun run_hold :: "'r channel \<Rightarrow> (int \<times> gotime) list \<Rightarrow> int list" where
  "run_hold ch [] = []"
| "run_hold ch ((v, now) # rest) = (let (r, ch') = minOnHold ch v now in r # run_hold ch' rest)"

lemma run_hold_ge:
  assumes "holding ch" "v \<le> holdTarget ch" "ch_MinOn (cfg ch) > 0"
    and "\<forall>(u, t) \<in> set steps. Sub t start < D"
    and "D \<le> Sub (holdUntil ch) start" "same_clock start (holdUntil ch)"
    and "\<forall>(u, t) \<in> set steps. same_clock t start \<and> 0 \<le> Sub t start"
    and "ch_MinOn (cfg ch) = D"
  shows "\<forall>r \<in> set (run_hold ch steps). v \<le> r"
  using assms
proof (induction steps arbitrary: ch)
  case (Cons st steps)
  obtain u t where st: "st = (u, t)" by (cases st)
  define r ch' where rc: "r = fst (minOnHold ch u t)" "ch' = snd (minOnHold ch u t)"
  have sc: "same_clock t start" "0 \<le> Sub t start" "Sub t start < D"
    using Cons.prems(4,7) by (auto simp: st)
  have "Sub t (holdUntil ch) = Sub t start + Sub start (holdUntil ch)"
    using Sub_trans [OF sc(1) Cons.prems(6)] by simp
  then have run: "Before t (holdUntil ch)"
    using sc Cons.prems(5) Sub_neg [of start "holdUntil ch"] by (simp add: Before_def)
  have addt: "Sub (Add t D) start = Sub t start + D" by (rule Sub_Add_left)
  have scadd: "same_clock start (Add t D)" using sc(1) by (simp add: same_clock_def Add_def)
  have next_ok: "holding ch'" "v \<le> holdTarget ch'" "cfg ch' = cfg ch" "v \<le> r"
    "D \<le> Sub (holdUntil ch') start" "same_clock start (holdUntil ch')"
    using run Cons.prems(1,2,3,5,6,8) sc addt scadd
    unfolding rc by (simp_all add: minOnHold_def Let_def)
  have "\<forall>x \<in> set (run_hold ch' steps). v \<le> x"
    using next_ok Cons.prems(3,4,7,8) by (intro Cons.IH) auto
  with next_ok(4) show ?case by (simp add: st rc case_prod_beta Let_def)
qed simp

text \<open>
  a rise of the curve output is held for the configured minimum on-time: in
  every later cycle whose clock reading is less than \<^verbatim>\<open>min_on\<close> after the rise, the
  target is at least the risen value, whatever the curve yields meanwhile
  (as long as neither an override nor a sensor error ends the hold).
\<close>

theorem minOnHold_keeps_rise:
  assumes rise: "haveCurve ch" "v > lastCurve ch" "\<not> holding ch \<or> v > holdTarget ch"
    and d: "ch_MinOn (cfg ch) = D" "D > 0"
    and later: "\<forall>(u, t) \<in> set steps. same_clock t now \<and> 0 \<le> Sub t now \<and> Sub t now < D"
  shows "\<forall>r \<in> set (run_hold ch ((v, now) # steps)). v \<le> r"
proof -
  define r ch' where rc: "r = fst (minOnHold ch v now)" "ch' = snd (minOnHold ch v now)"
  have post: "holding ch'" "holdTarget ch' = v" "holdUntil ch' = Add now D" "cfg ch' = cfg ch" "v \<le> r"
    using rise d unfolding rc by (auto simp: minOnHold_def Let_def)
  have "same_clock now (Add now D)" by (simp add: same_clock_def Add_def)
  then have "\<forall>x \<in> set (run_hold ch' steps). v \<le> x"
    using post d later by (intro run_hold_ge [where D = D and start = now])
      (auto simp: Sub_Add_same)
  with post show ?thesis by (simp add: rc case_prod_beta Let_def)
qed

theorem minOnHold_keeps_rise_witness:
  "let ch = (newChannel ((hd N5ProChannels)\<lparr>ch_MinOn := 60 * Second\<rparr>) True :: unit channel)\<lparr>haveCurve := True, lastCurve := 80\<rparr>;
       t0 = \<lparr>wall = 0, mono = Some 0\<rparr>; t1 = \<lparr>wall = 10 * Second, mono = Some (10 * Second)\<rparr>
   in haveCurve ch \<and> 120 > lastCurve ch \<and> \<not> holding ch \<and> ch_MinOn (cfg ch) = 60 * Second \<and> Sub t1 t0 < 60 * Second \<and>
      (\<forall>r \<in> set (run_hold ch [(120, t0), (70, t1)]). 120 \<le> r)"
proof -
  let ?ch = "(newChannel ((hd N5ProChannels)\<lparr>ch_MinOn := 60 * Second\<rparr>) True :: unit channel)\<lparr>haveCurve := True, lastCurve := 80\<rparr>"
  let ?t0 = "\<lparr>wall = 0, mono = Some 0\<rparr>" and ?t1 = "\<lparr>wall = 10 * Second, mono = Some (10 * Second)\<rparr>"
  have pre: "haveCurve ?ch" "120 > lastCurve ?ch" "\<not> holding ?ch \<or> 120 > holdTarget ?ch" "ch_MinOn (cfg ?ch) = 60 * Second"
    "0 < 60 * Second" by (simp_all add: newChannel_def duration_units)
  have later: "\<forall>(u, t) \<in> set [(70, ?t1)]. same_clock t ?t0 \<and> 0 \<le> Sub t ?t0 \<and> Sub t ?t0 < 60 * Second"
    by (simp add: same_clock_def Sub_def duration_units)
  have sub: "Sub ?t1 ?t0 < 60 * Second" by (simp add: Sub_def duration_units)
  have nh: "\<not> holding ?ch" by (simp add: newChannel_def)
  from minOnHold_keeps_rise [OF pre later] pre nh sub show ?thesis by (simp only: Let_def) blast
qed

text \<open>
  C9: the slew limiter moves a duty by at most the configured steps, never
  past the target, and repeated cycles with the same target reach it after
  finitely many cycles.
\<close>

theorem Slew_converges:
  assumes u: "1 \<le> u" and d: "1 \<le> d" and n: "\<bar>t - c\<bar> \<le> int n * min u d"
  shows "c - d \<le> Slew c t u d \<and> Slew c t u d \<le> c + u \<and>
    min c t \<le> Slew c t u d \<and> Slew c t u d \<le> max c t \<and> ((\<lambda>x. Slew x t u d) ^^ n) c = t"
proof -
  have "((\<lambda>x. Slew x t u d) ^^ n) c = t"
    using n
  proof (induction n arbitrary: c)
    case 0
    then show ?case by simp
  next
    case (Suc n)
    have "\<bar>t - Slew c t u d\<bar> \<le> int n * min u d"
      using Suc.prems u d by (auto simp: Slew_def algebra_simps min_def split: if_splits)
    from Suc.IH [OF this] show ?case by (simp only: funpow_Suc_right o_def)
  qed
  then show ?thesis using Slew_step [of u d c t] Slew_between [of u d c t] u d by simp
qed

theorem Slew_converges_witness:
  "\<bar>255 - 60 :: int\<bar> \<le> int 13 * min 40 15 \<and> Slew 60 255 40 15 = 100 \<and>
   ((\<lambda>x. Slew x 255 40 15) ^^ 13) 60 = 255"
proof -
  have n: "\<bar>255 - 60 :: int\<bar> \<le> int 13 * min 40 15" by simp
  have "Slew 60 255 40 15 = 100" by (simp add: Slew_def)
  then show ?thesis using Slew_converges [OF _ _ n] by simp
qed

end
