(* ===== verification/Profile.thy ===== *)
theory Profile
  imports Hwmon
begin

text \<open>
  Package \<^verbatim>\<open>internal/profile\<close>: the PWM device behind the controller. The
  interface the controller calls (\<^verbatim>\<open>profile.Device\<close> with the optional
  \<^verbatim>\<open>enableReader\<close> and \<^verbatim>\<open>RegisterVerifier\<close>) is the record \<open>'w devops\<close>; the shared
  implementation \<^verbatim>\<open>pwmDevice\<close> over sysfs (\<^verbatim>\<open>device.go\<close>), the n5pro and generic
  profiles' parameters and the monitor device provide it. The laws the
  controller relies on are the locale \<open>fan_device\<close>, interpreted for the
  sysfs device and the monitor device.
\<close>

section \<open>The device interface\<close>

record ProfileChannel =
  p_Index :: int
  p_Label :: string
  p_HasTach :: bool

record 'w register_ops =
  VerifyRegister :: "int \<Rightarrow> int \<Rightarrow> 'w \<Rightarrow> goerror option \<times> 'w"
  RegisterSettle :: "int \<Rightarrow> duration"

record 'w devops =
  dv_Profile :: string
  dv_HwmonPath :: string
  dv_Channels :: "ProfileChannel list"
  dv_ReadRPM :: "int \<Rightarrow> 'w \<Rightarrow> (goerror + int) \<times> 'w"
  dv_ReadDuty :: "int \<Rightarrow> 'w \<Rightarrow> (goerror + int) \<times> 'w"
  dv_EnterManual :: "int \<Rightarrow> 'w \<Rightarrow> goerror option \<times> 'w"
  dv_WriteDuty :: "int \<Rightarrow> int \<Rightarrow> 'w \<Rightarrow> goerror option \<times> 'w"
  dv_SafeStop :: "int \<Rightarrow> string \<Rightarrow> 'w \<Rightarrow> goerror option \<times> 'w"
  dv_ExtraTemps :: "(string, string) gomap"
  dv_ReadEnable :: "(int \<Rightarrow> 'w \<Rightarrow> (goerror + string) \<times> 'w) option"
  dv_Register :: "'w register_ops option"

section \<open>The sysfs PWM device\<close>

record 'w pwmDevice =
  pd_prof :: string
  pd_path :: string
  pd_chans :: "ProfileChannel list"
  pd_extra :: "(string, string) gomap"
  pd_autoValue :: "int \<Rightarrow> string"
  pd_hwVerify :: "(int \<Rightarrow> int \<Rightarrow> 'w \<Rightarrow> goerror option \<times> 'w) option"
  pd_settle :: "(int \<Rightarrow> duration) option"

definition attr :: "'w pwmDevice \<Rightarrow> string \<Rightarrow> string" where
  "attr d name = path_Join (pd_path d) name"

definition pwm_attr :: "'w pwmDevice \<Rightarrow> int \<Rightarrow> string" where
  "pwm_attr d ch = attr d (''pwm'' @ Itoa ch)"

definition enable_attr :: "'w pwmDevice \<Rightarrow> int \<Rightarrow> string" where
  "enable_attr d ch = attr d (''pwm'' @ Itoa ch @ ''_enable'')"

definition find_channel :: "'w pwmDevice \<Rightarrow> int \<Rightarrow> goerror + ProfileChannel" where
  "find_channel d ch = (case find (\<lambda>c. p_Index c = ch) (pd_chans d) of
      Some c \<Rightarrow> Inr c
    | None \<Rightarrow> Inl (mk_err (''profile '' @ pd_prof d @ '': no channel pwm'' @ Itoa ch)))"

definition ReadRPM :: "'w osys \<Rightarrow> FS \<Rightarrow> 'w pwmDevice \<Rightarrow> int \<Rightarrow> 'w \<Rightarrow> (goerror + int) \<times> 'w" where
  "ReadRPM os fs d ch w = (case find_channel d ch of
      Inl e \<Rightarrow> (Inl e, w)
    | Inr c \<Rightarrow> if \<not> p_HasTach c then (Inr (-1), w)
               else ReadInt os fs (attr d (''fan'' @ Itoa ch @ ''_input'')) w)"

definition ReadDuty :: "'w osys \<Rightarrow> FS \<Rightarrow> 'w pwmDevice \<Rightarrow> int \<Rightarrow> 'w \<Rightarrow> (goerror + int) \<times> 'w" where
  "ReadDuty os fs d ch w = (case find_channel d ch of
      Inl e \<Rightarrow> (Inl e, w) | Inr c \<Rightarrow> ReadInt os fs (pwm_attr d ch) w)"

definition ReadEnable :: "'w osys \<Rightarrow> FS \<Rightarrow> 'w pwmDevice \<Rightarrow> int \<Rightarrow> 'w \<Rightarrow> (goerror + string) \<times> 'w" where
  "ReadEnable os fs d ch w = (case find_channel d ch of
      Inl e \<Rightarrow> (Inl e, w) | Inr c \<Rightarrow> ReadString os fs (enable_attr d ch) w)"

definition EnterManual :: "'w osys \<Rightarrow> FS \<Rightarrow> 'w pwmDevice \<Rightarrow> int \<Rightarrow> 'w \<Rightarrow> goerror option \<times> 'w" where
  "EnterManual os fs d ch w = (case ReadEnable os fs d ch w of
      (Inl e, w') \<Rightarrow> (Some e, w')
    | (Inr cu, w') \<Rightarrow> if cu = ''1'' then (None, w')
                      else WriteVerify os fs (enable_attr d ch) ''1'' w')"

definition WriteDuty :: "'w osys \<Rightarrow> FS \<Rightarrow> 'w pwmDevice \<Rightarrow> int \<Rightarrow> int \<Rightarrow> 'w \<Rightarrow> goerror option \<times> 'w" where
  "WriteDuty os fs d ch duty w =
     (if duty < 0 \<or> duty > 255
      then (Some (mk_err (''profile '' @ pd_prof d @ '': duty out of range 0..255'')), w)
      else case EnterManual os fs d ch w of
             (Some e, w') \<Rightarrow> (Some e, w')
           | (None, w') \<Rightarrow> WriteVerify os fs (pwm_attr d ch) (Itoa duty) w')"

definition SafeStop :: "'w osys \<Rightarrow> FS \<Rightarrow> 'w pwmDevice \<Rightarrow> int \<Rightarrow> string \<Rightarrow> 'w \<Rightarrow> goerror option \<times> 'w" where
  "SafeStop os fs d ch stop w = (case find_channel d ch of
      Inl e \<Rightarrow> (Some e, w)
    | Inr _ \<Rightarrow>
        if stop = ''auto'' then WriteVerify os fs (enable_attr d ch) (pd_autoValue d ch) w
        else case Atoi stop of
               None \<Rightarrow> (Some (mk_err (''profile '' @ pd_prof d @ '': invalid stop value'')), w)
             | Some duty \<Rightarrow>
                 if duty < 0 \<or> duty > 255
                 then (Some (mk_err (''profile '' @ pd_prof d @ '': invalid stop value'')), w)
                 else WriteDuty os fs d ch duty w)"

definition dev_VerifyRegister :: "'w pwmDevice \<Rightarrow> int \<Rightarrow> int \<Rightarrow> 'w \<Rightarrow> goerror option \<times> 'w" where
  "dev_VerifyRegister d ch duty w = (case pd_hwVerify d of None \<Rightarrow> (None, w) | Some f \<Rightarrow> f ch duty w)"

definition dev_RegisterSettle :: "'w pwmDevice \<Rightarrow> int \<Rightarrow> duration" where
  "dev_RegisterSettle d ch = (case (pd_hwVerify d, pd_settle d) of
      (Some _, Some f) \<Rightarrow> f ch | _ \<Rightarrow> 0)"

definition pwm_ops :: "'w osys \<Rightarrow> FS \<Rightarrow> 'w pwmDevice \<Rightarrow> 'w devops" where
  "pwm_ops os fs d = \<lparr>
     dv_Profile = pd_prof d, dv_HwmonPath = pd_path d, dv_Channels = pd_chans d,
     dv_ReadRPM = ReadRPM os fs d, dv_ReadDuty = ReadDuty os fs d,
     dv_EnterManual = EnterManual os fs d, dv_WriteDuty = WriteDuty os fs d,
     dv_SafeStop = SafeStop os fs d, dv_ExtraTemps = pd_extra d,
     dv_ReadEnable = Some (ReadEnable os fs d),
     dv_Register = Some \<lparr>VerifyRegister = dev_VerifyRegister d, RegisterSettle = dev_RegisterSettle d\<rparr>\<rparr>"

text \<open>
  \<^verbatim>\<open>WaitRegister\<close> polls until the register shows the duty or the deadline has passed;
  \<open>None\<close>: it never returns (a clock that stands still).
\<close>

definition RegisterPoll :: duration where "RegisterPoll = 200 * Millisecond"

partial_function (option) WaitRegister ::
  "'w register_ops \<Rightarrow> int \<Rightarrow> int \<Rightarrow> gotime \<Rightarrow> ('w \<Rightarrow> gotime \<times> 'w) \<Rightarrow> (duration \<Rightarrow> 'w \<Rightarrow> 'w) \<Rightarrow> 'w
    \<Rightarrow> (goerror option \<times> 'w) option" where
  "WaitRegister v ch duty deadline now sleep w =
     (let (err, w1) = VerifyRegister v ch duty w
      in if err = None then Some (None, w1)
         else let (t, w2) = now w1
              in if \<not> Before t deadline then Some (err, w2)
                 else WaitRegister v ch duty deadline now sleep (sleep RegisterPoll w2))"

section \<open>Profiles\<close>

definition n5proChannels :: "ProfileChannel list" where
  "n5proChannels = [
     \<lparr>p_Index = 1, p_Label = ''CPU Fan'', p_HasTach = True\<rparr>,
     \<lparr>p_Index = 2, p_Label = ''SSD Fan'', p_HasTach = True\<rparr>,
     \<lparr>p_Index = 3, p_Label = ''HDD Fan'', p_HasTach = True\<rparr>,
     \<lparr>p_Index = 4, p_Label = ''PCIe Fan'', p_HasTach = False\<rparr>]"

definition N5ProSettleHDD :: duration where "N5ProSettleHDD = 5 * Second"
definition N5ProSettle :: duration where "N5ProSettle = 2 * Second"

definition n5proSettle :: "int \<Rightarrow> duration" where
  "n5proSettle ch = (if ch = 3 then N5ProSettleHDD else N5ProSettle)"

text \<open>
  \<^verbatim>\<open>verifyDCR\<close>: the optional comparison of the EC register; \<open>dcr\<close> is the register
  dump read through debugfs (\<open>None\<close>: absent or unreadable, or no register for the
  channel).
\<close>

definition verifyDCR :: "(int \<Rightarrow> 'w \<Rightarrow> int option \<times> 'w) \<Rightarrow> int \<Rightarrow> int \<Rightarrow> 'w \<Rightarrow> goerror option \<times> 'w" where
  "verifyDCR dcr ch duty w = (case dcr ch w of
      (None, w') \<Rightarrow> (None, w')
    | (Some v, w') \<Rightarrow>
        if v = duty then (None, w')
        else (Some \<lparr>err_text = ''EC duty register differs from the written duty'',
                    err_chain = [ErrDCRMismatch]\<rparr>, w'))"

text \<open>The device \<^verbatim>\<open>n5pro.Detect\<close> returns for the hwmon directory \<open>path\<close>.\<close>

definition n5pro_device ::
  "string \<Rightarrow> (string, string) gomap \<Rightarrow> (int \<Rightarrow> 'w \<Rightarrow> int option \<times> 'w) \<Rightarrow> 'w pwmDevice" where
  "n5pro_device path extra dcr = \<lparr>
     pd_prof = ''n5pro'', pd_path = path, pd_chans = n5proChannels, pd_extra = extra,
     pd_autoValue = (\<lambda>_. ''2''), pd_hwVerify = Some (verifyDCR dcr), pd_settle = Some n5proSettle\<rparr>"

text \<open>
  \<^verbatim>\<open>generic.Detect\<close> keeps the \<^verbatim>\<open>pwmN_enable\<close> values found at detection and hands a
  channel back to them, unless the channel was already in manual mode.
\<close>

definition generic_autoValue :: "(int \<rightharpoonup> string) \<Rightarrow> string \<Rightarrow> int \<Rightarrow> string" where
  "generic_autoValue original fallback ch = (case original ch of
      Some v \<Rightarrow> if v \<noteq> ''1'' then v else fallback
    | None \<Rightarrow> fallback)"

definition generic_device ::
  "string \<Rightarrow> string \<Rightarrow> string \<Rightarrow> ProfileChannel list \<Rightarrow> (int \<rightharpoonup> string) \<Rightarrow> 'w pwmDevice" where
  "generic_device name fallback path chans original = \<lparr>
     pd_prof = name, pd_path = path, pd_chans = chans, pd_extra = [],
     pd_autoValue = generic_autoValue original fallback, pd_hwVerify = None, pd_settle = None\<rparr>"

definition monitor_error :: goerror where
  "monitor_error = \<lparr>err_text = ''profile: monitoring only, no fan control'', err_chain = [ErrMonitorOnly]\<rparr>"

definition monitor_ops :: "string \<Rightarrow> 'w devops" where
  "monitor_ops path = \<lparr>
     dv_Profile = ''monitor'', dv_HwmonPath = path, dv_Channels = [],
     dv_ReadRPM = (\<lambda>ch w. (Inl monitor_error, w)), dv_ReadDuty = (\<lambda>ch w. (Inl monitor_error, w)),
     dv_EnterManual = (\<lambda>ch w. (Some monitor_error, w)),
     dv_WriteDuty = (\<lambda>ch duty w. (Some monitor_error, w)),
     dv_SafeStop = (\<lambda>ch stop w. (Some monitor_error, w)),
     dv_ExtraTemps = [], dv_ReadEnable = None, dv_Register = None\<rparr>"

section \<open>The laws of a device\<close>

text \<open>
  What the controller relies on: a duty outside 0..255 and a stop value that is
  neither auto nor a duty are refused before the hardware is touched, and so is
  a channel the device does not have.
\<close>

locale fan_device =
  fixes dev :: "'w devops"
  assumes write_range: "duty < 0 \<or> duty > 255 \<Longrightarrow> \<exists>e. dv_WriteDuty dev ch duty w = (Some e, w)"
    and stop_range: "stop \<noteq> ''auto'' \<Longrightarrow> (\<And>n. Atoi stop = Some n \<Longrightarrow> n < 0 \<or> n > 255) \<Longrightarrow>
      \<exists>e. dv_SafeStop dev ch stop w = (Some e, w)"
    and stop_unknown: "ch \<notin> p_Index ` set (dv_Channels dev) \<Longrightarrow>
      \<exists>e. dv_SafeStop dev ch stop w = (Some e, w)"
begin

lemma write_accepted: "dv_WriteDuty dev ch duty w = (None, w') \<Longrightarrow> 0 \<le> duty \<and> duty \<le> 255"
  using write_range [of duty ch w] by force

lemma stop_accepted:
  assumes "dv_SafeStop dev ch stop w = (None, w')"
  shows "ch \<in> p_Index ` set (dv_Channels dev)"
    and "stop = ''auto'' \<or> (\<exists>n. Atoi stop = Some n \<and> 0 \<le> n \<and> n \<le> 255)"
  using stop_unknown [of ch stop w] stop_range [of stop ch w] assms
  by (force, metis Pair_inject linorder_not_le option.distinct(1))

end

lemma find_channel_Inr: "find_channel d ch = Inr c \<Longrightarrow> c \<in> set (pd_chans d) \<and> p_Index c = ch"
  by (auto simp: find_channel_def find_Some_iff split: option.splits)

lemma find_channel_Inl: "ch \<notin> p_Index ` set (pd_chans d) \<Longrightarrow> \<exists>e. find_channel d ch = Inl e"
  by (auto simp: find_channel_def find_None_iff find_Some_iff image_iff split: option.splits)

interpretation pwm: fan_device "pwm_ops os fs d" for os fs d
proof unfold_locales
  fix duty ch w assume "duty < 0 \<or> (255::int) < duty"
  then show "\<exists>e. dv_WriteDuty (pwm_ops os fs d) ch duty w = (Some e, w)"
    by (auto simp: pwm_ops_def WriteDuty_def)
next
  fix stop ch w
  assume "stop \<noteq> ''auto''" "\<And>n. Atoi stop = Some n \<Longrightarrow> n < 0 \<or> 255 < n"
  then show "\<exists>e. dv_SafeStop (pwm_ops os fs d) ch stop w = (Some e, w)"
    by (auto simp: pwm_ops_def SafeStop_def split: sum.splits option.splits)
next
  fix ch stop w assume "ch \<notin> p_Index ` set (dv_Channels (pwm_ops os fs d))"
  then obtain e where "find_channel d ch = Inl e"
    using find_channel_Inl [of ch d] by (auto simp: pwm_ops_def)
  then show "\<exists>e. dv_SafeStop (pwm_ops os fs d) ch stop w = (Some e, w)"
    by (auto simp: pwm_ops_def SafeStop_def)
qed

interpretation monitor: fan_device "monitor_ops path" for path
  by unfold_locales (auto simp: monitor_ops_def)

section \<open>What a successful write establishes\<close>

text \<open>
  Assumptions on the driver behind sysfs under which the final state of the
  attributes is known: reading an attribute changes nothing, and writing one
  attribute does not change what another one reads.
\<close>

definition pure_reads :: "'w osys \<Rightarrow> bool" where
  "pure_reads os \<longleftrightarrow> (\<forall>p w. snd (os_ReadFile os p w) = w)"

definition separate_attrs :: "'w osys \<Rightarrow> bool" where
  "separate_attrs os \<longleftrightarrow> (\<forall>p q v w. p \<noteq> q \<longrightarrow>
     fst (os_ReadFile os q (snd (os_Write os p v w))) = fst (os_ReadFile os q w))"

lemma ReadString_pure: "pure_reads os \<Longrightarrow> snd (ReadString os fs p w) = w"
  by (auto simp: pure_reads_def ReadString_def split: prod.splits sum.splits) (metis snd_conv)+

lemma ReadString_cong:
  "fst (os_ReadFile os (Abs fs p) w) = fst (os_ReadFile os (Abs fs p) w') \<Longrightarrow>
     fst (ReadString os fs p w) = fst (ReadString os fs p w')"
  by (auto simp: ReadString_def split: prod.splits sum.splits)

lemma WriteVerify_pure:
  assumes "pure_reads os" "WriteVerify os fs p v w = (None, w')" "HasPrefix p ''/''"
  shows "w' = snd (os_Write os p v w)"
    and "\<exists>got. fst (ReadString os fs p w') = Inr got \<and> sameValue (TrimSpace v) got"
proof -
  from assms(2) obtain w1 got where w1: "os_Write os (Abs fs p) v w = (WDone, w1)"
    and rd: "ReadString os fs (Abs fs p) w1 = (Inr got, w')" and got: "sameValue (TrimSpace v) got"
    by (rule WriteVerify_None)
  have "w' = w1" using ReadString_pure [OF assms(1), of fs "Abs fs p" w1] rd by simp
  with w1 rd got assms(3) show "w' = snd (os_Write os p v w)"
    "\<exists>got. fst (ReadString os fs p w') = Inr got \<and> sameValue (TrimSpace v) got" by auto
qed

lemma char_not_space:
  assumes "c \<notin> hd ` set space_seqs" "c \<notin> last ` set space_seqs"
  shows "lead_space (c # s) = 0" "tail_space (s @ [c]) = 0"
proof -
  have ne: "p \<noteq> []" if "p \<in> set space_seqs" for p
    using that by (auto simp: space_seqs_def)
  have "find (HasPrefix (c # s)) space_seqs = None"
    using assms(1) ne by (force simp: find_None_iff HasPrefix_def image_iff neq_Nil_conv)
  then show "lead_space (c # s) = 0" by (simp add: lead_space_def)
  have "find (HasSuffix (s @ [c])) space_seqs = None"
  proof -
    have "\<not> HasSuffix (s @ [c]) p" if "p \<in> set space_seqs" for p
    proof
      assume suf: "HasSuffix (s @ [c]) p"
      have "last p = last (s @ [c])"
        using suf ne [OF that] unfolding HasSuffix_def
        by (metis append_is_Nil_conv last_drop length_drop length_greater_0_conv not_Cons_self2
            zero_less_diff)
      with assms(2) that show False by (auto simp: image_iff)
    qed
    then show ?thesis by (auto simp: find_None_iff)
  qed
  then show "tail_space (s @ [c]) = 0" by (simp add: tail_space_def)
qed

lemma TrimSpace_no_space:
  assumes "s \<noteq> []" "list_all (\<lambda>c. is_digit c \<or> c = CHR ''-'') s"
  shows "TrimSpace s = s"
proof -
  have ok: "c \<notin> hd ` set space_seqs \<and> c \<notin> last ` set space_seqs" if "is_digit c \<or> c = CHR ''-''" for c
    using that by (auto simp: space_seqs_def is_digit_def)
  obtain c cs where c: "s = c # cs" using assms(1) by (cases s) auto
  have "lead_space s = 0" using assms(2) ok [of c] by (simp add: c char_not_space)
  then have l: "trim_left s = s" by (simp add: trim_left.simps [of s])
  have "s = butlast s @ [last s]" "is_digit (last s) \<or> last s = CHR ''-''"
    using assms by (auto simp: list_all_iff)
  then have "tail_space s = 0" using ok [of "last s"] char_not_space(2) [of "last s" "butlast s"] by metis
  then show ?thesis using l by (simp add: TrimSpace_def trim_right.simps [of s])
qed

lemma TrimSpace_Itoa [simp]: "TrimSpace (Itoa n) = Itoa n"
proof (rule TrimSpace_no_space)
  show "Itoa n \<noteq> []" by (rule Itoa_not_word(2))
  have "list_all is_digit (itoa_nonneg \<bar>n\<bar>)" using itoa_nonneg_ok [of "\<bar>n\<bar>"] by simp
  then have "list_all (\<lambda>c. is_digit c \<or> c = CHR ''-'') (itoa_nonneg \<bar>n\<bar>)"
    by (simp add: list_all_iff)
  then show "list_all (\<lambda>c. is_digit c \<or> c = CHR ''-'') (Itoa n)"
    by (simp add: Itoa_def abs_if split: if_splits)
qed

lemma path_parts_differ: "pwm_attr d ch \<noteq> enable_attr d ch"
  by (simp add: pwm_attr_def enable_attr_def attr_def path_Join_def)

lemma EnterManual_manual:
  assumes "pure_reads os" "HasPrefix (pd_path d) ''/''" "EnterManual os fs d ch w = (None, w')"
  shows "\<exists>got. fst (ReadString os fs (enable_attr d ch) w') = Inr got \<and> sameValue ''1'' got"
proof -
  let ?p = "enable_attr d ch"
  have abs: "HasPrefix ?p ''/''"
    using assms(2) by (cases "pd_path d") (auto simp: enable_attr_def attr_def path_Join_def HasPrefix_def)
  have one: "TrimSpace ''1'' = ''1''" by (intro TrimSpace_no_space) (simp_all add: is_digit_def)
  from assms(3) obtain cu w1 where rd: "ReadEnable os fs d ch w = (Inr cu, w1)"
    by (auto simp: EnterManual_def split: prod.splits sum.splits)
  then have rs: "ReadString os fs ?p w = (Inr cu, w1)"
    by (auto simp: ReadEnable_def split: sum.splits)
  show ?thesis
  proof (cases "cu = ''1''")
    case True
    then have "w' = w1" using assms(3) rd by (simp add: EnterManual_def)
    moreover have "w1 = w" using ReadString_pure [OF assms(1), of fs ?p w] rs by simp
    ultimately show ?thesis using rs True by (simp add: sameValue_def)
  next
    case False
    then have "WriteVerify os fs ?p ''1'' w1 = (None, w')"
      using assms(3) rd by (simp add: EnterManual_def)
    from WriteVerify_pure(2) [OF assms(1) this abs] one show ?thesis by simp
  qed
qed

text \<open>
  Rules 2 and 3 of the design. When the device accepts a duty write, the duty was
  in range, the attribute reads that duty back, and the channel is in manual
  mode: \<^verbatim>\<open>pwmN_enable\<close> reads 1. Assumed of the driver: reading changes nothing and
  the two attributes are separate.
\<close>

theorem WriteDuty_verified:
  assumes "pure_reads os" "separate_attrs os" "HasPrefix (pd_path d) ''/''"
    and ok: "WriteDuty os fs d ch duty w = (None, w')"
  shows "0 \<le> duty \<and> duty \<le> 255 \<and>
    fst (ReadInt os fs (pwm_attr d ch) w') = Inr duty \<and>
    (\<exists>en. fst (ReadString os fs (enable_attr d ch) w') = Inr en \<and> sameValue ''1'' en)"
proof -
  have rng: "0 \<le> duty" "duty \<le> 255" using pwm.write_accepted [of os fs d ch duty w w'] ok
    by (simp_all add: pwm_ops_def)
  then obtain w1 where em: "EnterManual os fs d ch w = (None, w1)"
    and wv: "WriteVerify os fs (pwm_attr d ch) (Itoa duty) w1 = (None, w')"
    using ok by (auto simp: WriteDuty_def split: prod.splits option.splits)
  have abs: "HasPrefix (pwm_attr d ch) ''/''" "HasPrefix (enable_attr d ch) ''/''"
    using assms(3) by (cases "pd_path d";
        auto simp: pwm_attr_def enable_attr_def attr_def path_Join_def HasPrefix_def)+
  note v = WriteVerify_pure [OF assms(1) wv abs(1)]
  obtain got where got: "fst (ReadString os fs (pwm_attr d ch) w') = Inr got" "sameValue (Itoa duty) got"
    using v(2) by auto
  have "Atoi got = Some duty"
    using sameValue_Itoa [OF got(2)] rng by (simp add: in_int64_def)
  with got(1) have rd: "fst (ReadInt os fs (pwm_attr d ch) w') = Inr duty"
    by (auto simp: ReadInt_def split: prod.splits)
  have "fst (os_ReadFile os (enable_attr d ch) w') = fst (os_ReadFile os (enable_attr d ch) w1)"
    using assms(2) path_parts_differ [of d ch] by (simp add: separate_attrs_def v(1))
  then have "fst (ReadString os fs (enable_attr d ch) w') = fst (ReadString os fs (enable_attr d ch) w1)"
    using abs(2) by (intro ReadString_cong) simp
  with EnterManual_manual [OF assms(1,3) em] rng rd show ?thesis by simp
qed

text \<open>A concrete driver: the attributes are a map, a write to an existing one stores the text.\<close>

definition map_os :: "(string \<rightharpoonup> string) osys" where
  "map_os = \<lparr>
     os_ReadFile = (\<lambda>p w. (case w p of None \<Rightarrow> Inl (mk_err ''no such file'') | Some s \<Rightarrow> Inr s, w)),
     os_Stat = (\<lambda>p w. (map_option (\<lambda>_. False) (w p), w)),
     os_ReadDir = (\<lambda>p w. (Inr [], w)),
     os_Write = (\<lambda>p v w. case w p of None \<Rightarrow> (WOpenErr (mk_err ''no such file''), w)
                         | Some _ \<Rightarrow> (WDone, w(p \<mapsto> v)))\<rparr>"

definition demo_tree :: "string \<rightharpoonup> string" where
  "demo_tree = [''/s/h/pwm1'' \<mapsto> ''128'', ''/s/h/pwm1_enable'' \<mapsto> ''2'']"

definition demo_device :: "(string \<rightharpoonup> string) pwmDevice" where
  "demo_device = n5pro_device ''/s/h'' [] (\<lambda>_ w. (None, w))"

lemma map_os_laws: "pure_reads map_os" "separate_attrs map_os"
  by (auto simp: pure_reads_def separate_attrs_def map_os_def split: option.splits)

theorem WriteDuty_verified_witness:
  "let r = WriteDuty map_os \<lparr>Root = ''/s''\<rparr> demo_device 1 200 demo_tree in
   pure_reads map_os \<and> separate_attrs map_os \<and> fst r = None \<and>
   fst (ReadInt map_os \<lparr>Root = ''/s''\<rparr> (pwm_attr demo_device 1) (snd r)) = Inr 200 \<and>
   (\<exists>en. fst (ReadString map_os \<lparr>Root = ''/s''\<rparr> (enable_attr demo_device 1) (snd r)) = Inr en \<and> sameValue ''1'' en)"
proof -
  have n: "fst (WriteDuty map_os \<lparr>Root = ''/s''\<rparr> demo_device 1 200 demo_tree) = None" by code_simp
  have p: "HasPrefix (pd_path demo_device) ''/''" by code_simp
  from n obtain w' where w': "WriteDuty map_os \<lparr>Root = ''/s''\<rparr> demo_device 1 200 demo_tree = (None, w')"
    by (cases "WriteDuty map_os \<lparr>Root = ''/s''\<rparr> demo_device 1 200 demo_tree") auto
  show ?thesis
    using WriteDuty_verified [OF map_os_laws p w'] map_os_laws by (simp add: w' Let_def)
qed

text \<open>
  A safe stop touches the hardware only for a channel the device has and with a stop
  value that is auto or a duty within 0..255; everything else is an error that
  leaves the hardware alone.
\<close>

theorem SafeStop_guarded:
  assumes "snd (SafeStop os fs d ch stop w) \<noteq> w"
  shows "ch \<in> p_Index ` set (pd_chans d) \<and>
    (stop = ''auto'' \<or> (\<exists>n. Atoi stop = Some n \<and> 0 \<le> n \<and> n \<le> 255))"
proof -
  have "ch \<in> p_Index ` set (pd_chans d)"
    using pwm.stop_unknown [of ch os fs d stop w] assms by (force simp: pwm_ops_def)
  moreover have "stop = ''auto'' \<or> (\<exists>n. Atoi stop = Some n \<and> 0 \<le> n \<and> n \<le> 255)"
  proof (rule ccontr)
    assume "\<not> ?thesis"
    then have "\<exists>e. SafeStop os fs d ch stop w = (Some e, w)"
      using pwm.stop_range [of stop os fs d ch w] by (force simp: pwm_ops_def not_le)
    with assms show False by auto
  qed
  ultimately show ?thesis ..
qed

theorem SafeStop_guarded_witness:
  "snd (SafeStop map_os \<lparr>Root = ''/s''\<rparr> demo_device 1 ''140'' demo_tree) \<noteq> demo_tree \<and>
   1 \<in> p_Index ` set (pd_chans demo_device)"
proof -
  have "snd (SafeStop map_os \<lparr>Root = ''/s''\<rparr> demo_device 1 ''140'' demo_tree) ''/s/h/pwm1'' \<noteq> demo_tree ''/s/h/pwm1''"
    by code_simp
  then have "snd (SafeStop map_os \<lparr>Root = ''/s''\<rparr> demo_device 1 ''140'' demo_tree) \<noteq> demo_tree" by auto
  with SafeStop_guarded [OF this] show ?thesis by simp
qed

end
