(* ===== verification/Controller.thy ===== *)
theory Controller
  imports Curve Profile
begin

text \<open>
  Package \<^verbatim>\<open>internal/control\<close>, the controller (\<^verbatim>\<open>controller.go\<close>, \<^verbatim>\<open>dcr.go\<close>,
  \<^verbatim>\<open>readerr.go\<close>, \<^verbatim>\<open>watched.go\<close>): its state as a record, one definition per
  method, composed as the source composes them. The environment (clock, sensor
  factory and readers, fan device, run directory, alert sink, emergency hook) is
  the parameter \<open>('r, 'w) env\<close>, a record of operations on a world \<open>'w\<close> the state
  carries. Goroutines the source starts are appended to \<open>jobs\<close> and run by
  \<open>run_job\<close>. Log lines are kept, newest first, with their format strings.
  This theory holds definitions only; \<^verbatim>\<open>ControllerProps\<close> proves their properties.
\<close>

section \<open>Environment and state\<close>

datatype runfile = RText string | RState Snapshot

datatype exec_result = ExOK | ExTimeout | ExExit int | ExErr string

record HookState =
  hook_OK :: bool
  hook_State :: string

record ('r, 'w) env =
  e_Now :: "'w \<Rightarrow> gotime \<times> 'w"
  e_newS :: "string \<Rightarrow> 'w \<Rightarrow> (goerror + 'r) \<times> 'w"
  e_Read :: "'r \<Rightarrow> 'w \<Rightarrow> (goerror + int) \<times> 'r \<times> 'w"
  e_Parts :: "'r \<Rightarrow> Part list option"
  e_dev :: "'w devops"
  e_DiskKind :: "'w \<Rightarrow> disk_kind"
  e_ReadFile :: "string \<Rightarrow> 'w \<Rightarrow> (goerror + string) \<times> 'w"
  e_WriteRun :: "string \<Rightarrow> runfile \<Rightarrow> 'w \<Rightarrow> goerror option \<times> 'w"
  e_RemoveRun :: "string \<Rightarrow> 'w \<Rightarrow> goerror option \<times> 'w"
  e_ReadRun :: "string \<Rightarrow> 'w \<Rightarrow> (goerror + string) \<times> 'w"
  e_ListRun :: "'w \<Rightarrow> (goerror + string list) \<times> 'w"
  e_MkRun :: "'w \<Rightarrow> goerror option \<times> 'w"
  e_HookCheck :: "string \<Rightarrow> 'w \<Rightarrow> HookState \<times> 'w"
  e_Exec :: "string \<Rightarrow> (string \<times> msgarg) list \<Rightarrow> 'w \<Rightarrow> (string \<times> exec_result) \<times> 'w"
  e_Alert :: "string \<Rightarrow> msg \<Rightarrow> 'w \<Rightarrow> 'w"
  e_Notify :: "'w \<Rightarrow> 'w"
  e_Status :: "Status \<Rightarrow> msg \<Rightarrow> 'w \<Rightarrow> 'w"
  e_Wait :: "duration \<Rightarrow> 'w \<Rightarrow> bool \<times> 'w"
  e_SaveHistory :: "'w \<Rightarrow> 'w"

record Options =
  o_DryRun :: bool
  o_RunDir :: bool             \<comment> \<open>a run directory is configured and usable\<close>
  o_SyncAlerts :: bool
  o_EmergencyHook :: string
  o_HWStatus :: string

record HistoryPoint =
  hp_TS :: int
  hp_Temp :: "(string \<times> rat) list"
  hp_Duty :: "(string \<times> int) list"
  hp_RPM :: "(string \<times> int) list"
  hp_Extra :: "(string \<times> rat) list"

datatype job =
    JDeliver string msg                                            \<comment> \<open>\<^verbatim>\<open>go c.deliver(kind, msg)\<close>\<close>
  | JHook string int string string "(string \<times> msgarg) list"       \<comment> \<open>\<^verbatim>\<open>go run()\<close> of the emergency hook\<close>

record ('r, 'w) Controller =
  opts :: Options
  config :: Config
  chans :: "'r channel list"
  overrides :: "string \<rightharpoonup> int"
  snap :: "Snapshot option"
  pushed :: "HistoryPoint list"          \<comment> \<open>points handed to the history store, newest first\<close>
  histInterval :: duration
  alerts :: "string \<rightharpoonup> int"
  alertAt :: "string \<rightharpoonup> gotime"
  pending :: "Config option"
  watched :: "'r watchedSensor list"
  watchDirty :: bool
  lastMsg :: "string \<rightharpoonup> msg"
  readErrs :: "string \<rightharpoonup> readErrState"
  stopped :: bool
  stopOnce :: bool
  lastCycle :: int                        \<comment> \<open>\<^verbatim>\<open>UnixNano\<close> of the last finished cycle, 0 before the first\<close>
  cyc :: int                              \<comment> \<open>the field \<^verbatim>\<open>n\<close>\<close>
  wrErr :: int
  fsFail :: int
  lastRaw :: int
  sameRaw :: int
  haveRaw :: bool
  started :: gotime
  lastSave :: gotime
  logs :: "msg list"
  jobs :: "job list"
  world :: 'w

section \<open>Access to the environment\<close>

definition Now :: "('r, 'w) env \<Rightarrow> ('r, 'w) Controller \<Rightarrow> gotime \<times> ('r, 'w) Controller" where
  "Now env c = (let (t, w) = e_Now env (world c) in (t, c\<lparr>world := w\<rparr>))"

definition logf :: "string \<Rightarrow> msgarg list \<Rightarrow> ('r, 'w) Controller \<Rightarrow> ('r, 'w) Controller" where
  "logf f args c = c\<lparr>logs := Msg f args # logs c\<rparr>"

definition logOnce :: "string \<Rightarrow> string \<Rightarrow> msgarg list \<Rightarrow> ('r, 'w) Controller \<Rightarrow> ('r, 'w) Controller" where
  "logOnce key f args c =
     (let m = Msg f args; same = (lastMsg c key = Some m); c1 = c\<lparr>lastMsg := (lastMsg c)(key \<mapsto> m)\<rparr>
      in if same then c1 else c1\<lparr>logs := m # logs c1\<rparr>)"

definition logClear :: "string \<Rightarrow> ('r, 'w) Controller \<Rightarrow> ('r, 'w) Controller" where
  "logClear key c = c\<lparr>lastMsg := (lastMsg c)(key := None)\<rparr>"

section \<open>Alerts\<close>

definition alert_suppressed :: "Daemon \<Rightarrow> string \<Rightarrow> gotime \<Rightarrow> ('r, 'w) Controller \<Rightarrow> bool" where
  "alert_suppressed d kind now c = (case alertAt c kind of
      Some t0 \<Rightarrow> (let el = Sub now t0 in el \<ge> 0 \<and> el < d_AlertCooldown d)
    | None \<Rightarrow> (case alerts c kind of
          Some ts \<Rightarrow> (let el = Unix now - ts
                        in el \<ge> 0 \<and> el < f_trunc (dur_Seconds (d_AlertCooldown d)))
        | None \<Rightarrow> False))"

definition raise_alert :: "('r, 'w) env \<Rightarrow> string \<Rightarrow> msg \<Rightarrow> ('r, 'w) Controller \<Rightarrow> ('r, 'w) Controller" where
  "raise_alert env kind m c0 =
     (let (now, c) = Now env c0
      in if alert_suppressed (c_Daemon (config c)) kind now c then c
         else let c1 = c\<lparr>alerts := (alerts c)(kind \<mapsto> Unix now), alertAt := (alertAt c)(kind \<mapsto> now)\<rparr>;
                  c2 = (if o_RunDir (opts c1)
                        then (let (err, w) = e_WriteRun env (''alert.'' @ kind) (RText (Itoa (Unix now) @ [CHR 0x0A])) (world c1);
                                  c1' = c1\<lparr>world := w\<rparr>
                              in case err of
                                   Some e \<Rightarrow> logOnce (''stamp.'' @ kind) ''alert stamp %s: %v (cooldown kept in memory only)'' [AS kind, AE e] c1'
                                 | None \<Rightarrow> logClear (''stamp.'' @ kind) c1')
                        else c1);
                  c3 = logf ''%sALERT[%s]: %s'' [AS kind, AM m] c2
              in if o_SyncAlerts (opts c3) then c3\<lparr>world := e_Alert env kind m (world c3)\<rparr>
                 else c3\<lparr>jobs := jobs c3 @ [JDeliver kind m]\<rparr>)"

definition reportNotes :: "('r, 'w) env \<Rightarrow> string \<Rightarrow> msg list \<Rightarrow> ('r, 'w) Controller \<Rightarrow> ('r, 'w) Controller" where
  "reportNotes env what notes c =
     (if notes = [] then c
      else raise_alert env AlertConfigChannels (Msg what [AL notes])
             (foldl (\<lambda>c n. logf ''config: %s'' [AM n] c) c notes))"

section \<open>Driver read errors\<close>

definition driverErrno :: "goerror \<Rightarrow> string option" where
  "driverErrno err = map_option snd (find (\<lambda>(s, _). errors_Is err s)
     [(ETIMEDOUT, ''ETIMEDOUT''), (EAGAIN, ''EAGAIN''), (ENODATA, ''ENODATA''), (ENODEV, ''ENODEV'')])"

text \<open>
  The rate limit shared by \<^verbatim>\<open>noteReadErr\<close> and \<^verbatim>\<open>dcrDeviation\<close>: within the interval of
  the last line the occurrence is counted, otherwise a line is logged.
\<close>

definition limited_warn ::
  "duration \<Rightarrow> string \<Rightarrow> string \<Rightarrow> msgarg list \<Rightarrow> gotime \<Rightarrow> ('r, 'w) Controller \<Rightarrow> ('r, 'w) Controller" where
  "limited_warn interval key f args now c =
     (let st = (case readErrs c key of None \<Rightarrow> \<lparr>re_last = None, re_suppressed = 0\<rparr> | Some st \<Rightarrow> st)
      in if (case re_last st of None \<Rightarrow> False | Some l \<Rightarrow> Sub now l < interval)
         then c\<lparr>readErrs := (readErrs c)(key \<mapsto> st\<lparr>re_suppressed := re_suppressed st + 1\<rparr>)\<rparr>
         else logf f (args @ [AI (re_suppressed st)])
                (c\<lparr>readErrs := (readErrs c)(key \<mapsto> \<lparr>re_last = Some now, re_suppressed = 0\<rparr>)\<rparr>))"

definition noteReadErr :: "('r, 'w) env \<Rightarrow> string \<Rightarrow> goerror \<Rightarrow> ('r, 'w) Controller \<Rightarrow> ('r, 'w) Controller" where
  "noteReadErr env source err c = (case driverErrno err of
      None \<Rightarrow> c
    | Some name \<Rightarrow>
        (let (now, c1) = Now env c
         in limited_warn ReadErrInterval source ''%sdriver read error: %s: %s%s: %v''
              [AS source, AS name, AE err] now c1))"

definition noteReadOK :: "('r, 'w) env \<Rightarrow> string \<Rightarrow> ('r, 'w) Controller \<Rightarrow> ('r, 'w) Controller" where
  "noteReadOK env source c0 =
     (let (now, c) = Now env c0
      in case readErrs c source of
           None \<Rightarrow> c
         | Some st \<Rightarrow>
             if re_suppressed st = 0 \<or> (case re_last st of None \<Rightarrow> False | Some l \<Rightarrow> Sub now l < ReadErrInterval)
             then c
             else logf ''%sdriver read recovered: %s: %d more error(s) since %s were not logged''
                    [AS source, AI (re_suppressed st)]
                    (c\<lparr>readErrs := (readErrs c)(source \<mapsto> \<lparr>re_last = Some now, re_suppressed = 0\<rparr>)\<rparr>))"

text \<open>
  \<^verbatim>\<open>dcrDeviation\<close>: a register mismatch is logged (rate-limited) and is no write error;
  every other result is returned unchanged.
\<close>

definition dcrDeviation ::
  "('r, 'w) env \<Rightarrow> string \<Rightarrow> goerror option \<Rightarrow> ('r, 'w) Controller \<Rightarrow> goerror option \<times> ('r, 'w) Controller" where
  "dcrDeviation env name err c = (case err of
      None \<Rightarrow> (None, c)
    | Some e \<Rightarrow>
        if \<not> errors_Is e ErrDCRMismatch then (Some e, c)
        else (let (now, c1) = Now env c
              in (None, limited_warn DCRWarnInterval (''dcr '' @ name)
                    ''%sEC register deviation: %s: %v%s; regulation continues (debug_regs is for maintenance windows only)''
                    [AS name, AE e] now c1)))"

section \<open>Channels\<close>

definition ceilingOf :: "disk_kind \<Rightarrow> Channel \<Rightarrow> int \<times> PartCeiling list" where
  "ceilingOf kind cc =
     (let pcs = PartCeilings (ch_Sensor cc) (ch_Ceiling cc) kind; low = lowest_ceiling pcs
      in (if low = 0 then CeilingDefault else low, pcs))"

definition set_ceiling :: "disk_kind \<Rightarrow> 'r channel \<Rightarrow> 'r channel" where
  "set_ceiling kind ch = (let (low, pcs) = ceilingOf kind (cfg ch) in ch\<lparr>ceiling := low, partCeil := pcs\<rparr>)"

definition resolveSensor ::
  "('r, 'w) env \<Rightarrow> Channel \<Rightarrow> ('r, 'w) Controller \<Rightarrow> 'r option \<times> ('r, 'w) Controller" where
  "resolveSensor env cc c = (case e_newS env (ch_Sensor cc) (world c) of
      (Inl e, w) \<Rightarrow> (None, logOnce (''resolve.'' @ ch_Name cc) ''sensor %q for channel %q: %v''
                             [AS (ch_Sensor cc), AS (ch_Name cc), AE e] (c\<lparr>world := w\<rparr>))
    | (Inr s, w) \<Rightarrow> (Some s, logClear (''resolve.'' @ ch_Name cc) (c\<lparr>world := w\<rparr>)))"

text \<open>\<^verbatim>\<open>if s := c.resolveSensor(ch.cfg); s != nil\<close>: install the reader and follow its ceiling.\<close>

definition resolve_again ::
  "('r, 'w) env \<Rightarrow> 'r channel \<Rightarrow> ('r, 'w) Controller \<Rightarrow> 'r channel \<times> ('r, 'w) Controller" where
  "resolve_again env ch c = (case resolveSensor env (cfg ch) c of
      (None, c1) \<Rightarrow> (ch, c1)
    | (Some s, c1) \<Rightarrow> (set_ceiling (e_DiskKind env (world c1)) (ch\<lparr>sensor := Some s\<rparr>), c1))"

definition reresolve :: "('r, 'w) env \<Rightarrow> ('r, 'w) Controller \<Rightarrow> ('r, 'w) Controller" where
  "reresolve env c = (let (chs, c1) = for_each (resolve_again env) (chans c) c in c1\<lparr>chans := chs\<rparr>)"

definition safeDuty :: "'r channel \<Rightarrow> int" where
  "safeDuty ch = (case StopDuty (cfg ch) of Some d \<Rightarrow> d | None \<Rightarrow> 255)"

definition safeDutyWhy :: "'r channel \<Rightarrow> string" where
  "safeDutyWhy ch = (case StopDuty (cfg ch) of Some _ \<Rightarrow> ''configured stop duty'' | None \<Rightarrow> ''full speed'')"

definition partsOf :: "('r, 'w) env \<Rightarrow> 'r \<Rightarrow> string \<Rightarrow> int \<Rightarrow> Part list" where
  "partsOf env s sid v = (case e_Parts env s of
      Some ps \<Rightarrow> if ps \<noteq> [] then ps else [\<lparr>part_ID = sid, part_Value = v\<rparr>]
    | None \<Rightarrow> [\<lparr>part_ID = sid, part_Value = v\<rparr>])"

section \<open>Reading the sensors\<close>

text \<open>The first loop of \<^verbatim>\<open>readSensors\<close>: one channel.\<close>

definition read_channel ::
  "('r, 'w) env \<Rightarrow> 'r channel \<Rightarrow> ('r, 'w) Controller \<Rightarrow> 'r channel \<times> ('r, 'w) Controller" where
  "read_channel env ch0 c0 =
     (let ch1 = ch0\<lparr>tempOK := False, sensorErr := emptyMsg\<rparr>;
          (ch, c) = (if sensor ch1 = None then resolve_again env ch1 c0 else (ch1, c0));
          name = ch_Name (cfg ch); sid = ch_Sensor (cfg ch)
      in case sensor ch of
           None \<Rightarrow> (ch\<lparr>sensorErr := Msg ''unresolved'' []\<rparr>, c)
         | Some s \<Rightarrow>
             let (r, s', w) = e_Read env s (world c); c1 = c\<lparr>world := w\<rparr>; ch2 = ch\<lparr>sensor := Some s'\<rparr>;
                 src = ''sensor '' @ sid @ '' (channel '' @ name @ '')''
             in case r of
                  Inl e \<Rightarrow>
                    (ch2\<lparr>sensorErr := Msg ''read: %v'' [AE e]\<rparr>,
                     logOnce (''read.'' @ name) ''sensor %s (%s): %s'' [AS sid, AS name, AM (Msg ''read: %v'' [AE e])]
                       (noteReadErr env src e c1))
                | Inr v \<Rightarrow>
                    if \<not> Plausible v
                    then (ch2\<lparr>sensorErr := Msg ''implausible %d mdegC'' [AI v]\<rparr>,
                          logOnce (''read.'' @ name) ''sensor %s (%s): %s''
                            [AS sid, AS name, AM (Msg ''implausible %d mdegC'' [AI v])] (noteReadOK env src c1))
                    else (ch2\<lparr>temp := v, tempOK := True, parts := partsOf env s' sid v\<rparr>,
                          logClear (''read.'' @ name) (noteReadOK env src c1)))"

text \<open>Stale detection on the first channel, only for k10temp.\<close>

definition check_stale :: "Daemon \<Rightarrow> ('r, 'w) Controller \<Rightarrow> ('r, 'w) Controller" where
  "check_stale d c = (case chans c of
      [] \<Rightarrow> c
    | ch # rest \<Rightarrow>
        if \<not> (tempOK ch \<and> ch_Sensor (cfg ch) = staleSensor) then c
        else let raw = temp ch;
                 c1 = c\<lparr>sameRaw := (if haveRaw c \<and> raw = lastRaw c then sameRaw c + 1 else 0),
                        lastRaw := raw, haveRaw := True\<rparr>
             in if sameRaw c1 \<ge> d_StaleCycles d
                then let m = Msg ''unchanged for %s or longer (%d mdegC) -> frozen?'' [AI (d_StaleCycles d * d_Interval d), AI raw]
                     in logOnce ''stale'' ''sensor %s (%s): %s'' [AS (ch_Sensor (cfg ch)), AS (ch_Name (cfg ch)), AM m]
                          (c1\<lparr>chans := ch\<lparr>tempOK := False, sensorErr := m\<rparr> # rest\<rparr>)
                else logClear ''stale'' c1)"

text \<open>The second loop: a bad channel's sensor is resolved again, a recovered one logged.\<close>

definition judge_channel ::
  "('r, 'w) env \<Rightarrow> 'r channel \<Rightarrow> ('r, 'w) Controller \<Rightarrow> 'r channel \<times> ('r, 'w) Controller" where
  "judge_channel env ch c =
     (if \<not> tempOK ch
      then let (ch1, c1) = (if sensor ch \<noteq> None then resolve_again env ch c else (ch, c))
           in (ch1\<lparr>sensorBad := True\<rparr>, c1)
      else (ch\<lparr>sensorBad := False\<rparr>,
            if sensorBad ch
            then logf ''%s: sensor %s readable again, regulation resumed''
                   [AS (ch_Name (cfg ch)), AS (ch_Sensor (cfg ch))] c
            else c))"

definition read_rpm ::
  "('r, 'w) env \<Rightarrow> 'r channel \<Rightarrow> ('r, 'w) Controller \<Rightarrow> 'r channel \<times> ('r, 'w) Controller" where
  "read_rpm env ch0 c0 =
     (let ch = ch0\<lparr>rpm := -1\<rparr>; pwm = ch_PWM (cfg ch); name = ch_Name (cfg ch)
      in if \<not> hasTach ch then (ch, c0)
         else let (r, w) = dv_ReadRPM (e_dev env) pwm (world c0); c = c0\<lparr>world := w\<rparr>;
                  src = ''fan'' @ Itoa pwm @ ''_input (channel '' @ name @ '')''
              in case r of
                   Inl e \<Rightarrow> (ch, logOnce (''rpm.'' @ name) ''%s: fan%d_input unreadable (%v), stall detection inactive''
                                   [AS name, AI pwm, AE e] (noteReadErr env src e c))
                 | Inr v \<Rightarrow> (if v \<ge> 0 then ch\<lparr>rpm := v\<rparr> else ch,
                             logClear (''rpm.'' @ name) (noteReadOK env src c)))"

fun readExtra ::
  "('r, 'w) env \<Rightarrow> (string, string) gomap \<Rightarrow> ('r, 'w) Controller \<Rightarrow> (string \<times> rat) list \<times> ('r, 'w) Controller" where
  "readExtra env [] c = ([], c)"
| "readExtra env ((sid, path) # ex) c = (case e_ReadFile env path (world c) of
      (Inl e, w) \<Rightarrow> readExtra env ex (noteReadErr env (''sensor '' @ sid) e (c\<lparr>world := w\<rparr>))
    | (Inr b, w) \<Rightarrow>
        let c1 = noteReadOK env (''sensor '' @ sid) (c\<lparr>world := w\<rparr>); (out, c2) = readExtra env ex c1
        in case Atoi (TrimSpace b) of
             None \<Rightarrow> (out, c2)
           | Some v \<Rightarrow> (if Plausible v then (sid, f_div (f_int v) 1000) # out else out, c2))"

definition resolveWatched ::
  "('r, 'w) env \<Rightarrow> string \<Rightarrow> ('r, 'w) Controller \<Rightarrow> 'r option \<times> ('r, 'w) Controller" where
  "resolveWatched env sid c = (case e_newS env sid (world c) of
      (Inl e, w) \<Rightarrow> (None, logOnce (''watch.'' @ sid) ''dashboard sensor %q: %v (skipped, retried periodically)''
                             [AS sid, AE e] (c\<lparr>world := w\<rparr>))
    | (Inr s, w) \<Rightarrow> (Some s, logClear (''watch.'' @ sid) (c\<lparr>world := w\<rparr>)))"

fun buildWatched ::
  "('r, 'w) env \<Rightarrow> string list \<Rightarrow> ('r, 'w) Controller \<Rightarrow> 'r watchedSensor list \<times> ('r, 'w) Controller" where
  "buildWatched env [] c = ([], c)"
| "buildWatched env (sid # ids) c =
     (let (s, c1) = resolveWatched env sid c; (ws, c2) = buildWatched env ids c1
      in (\<lparr>ws_id = sid, ws_sensor = s\<rparr> # ws, c2))"

text \<open>One watched sensor: its value of this cycle, if any, and the watched entry.\<close>

definition read_watched1 ::
  "('r, 'w) env \<Rightarrow> int \<Rightarrow> 'r watchedSensor \<Rightarrow> ('r, 'w) Controller
    \<Rightarrow> rat option \<times> 'r watchedSensor \<times> ('r, 'w) Controller" where
  "read_watched1 env n ws0 c0 =
     (let (ws, c) = (if ws_sensor ws0 = None \<and> n \<noteq> 0 \<and> n mod resolveEvery = 0
                     then (let (s, c1) = resolveWatched env (ws_id ws0) c0 in (ws0\<lparr>ws_sensor := s\<rparr>, c1))
                     else (ws0, c0))
      in case ws_sensor ws of
           None \<Rightarrow> (None, ws, c)
         | Some s \<Rightarrow>
             let (r, s', w) = e_Read env s (world c); c1 = c\<lparr>world := w\<rparr>; ws1 = ws\<lparr>ws_sensor := Some s'\<rparr>
             in case r of
                  Inl e \<Rightarrow> (None, ws1, c1)
                | Inr v \<Rightarrow> (if v < MinPlausible \<or> v > MaxPlausible then None
                            else Some (f_div (f_int v) 1000), ws1, c1))"

fun readWatched ::
  "('r, 'w) env \<Rightarrow> int \<Rightarrow> 'r watchedSensor list \<Rightarrow> ('r, 'w) Controller
    \<Rightarrow> (string \<times> rat) list \<times> 'r watchedSensor list \<times> ('r, 'w) Controller" where
  "readWatched env n [] c = ([], [], c)"
| "readWatched env n (ws # rest) c =
     (let (v, ws1, c1) = read_watched1 env n ws c; (out, rest1, c2) = readWatched env n rest c1
      in (case v of None \<Rightarrow> out | Some x \<Rightarrow> (ws_id ws, x) # out, ws1 # rest1, c2))"

text \<open>\<^verbatim>\<open>sensorClass\<close> and \<^verbatim>\<open>sensorSummary\<close>, on the symbolic error text.\<close>

definition sensorClass :: "msg \<Rightarrow> string" where
  "sensorClass m = (case m of Msg f _ \<Rightarrow>
     if f = [] then ''unknown''
     else if f = ''unresolved'' then ''unresolved''
     else if HasPrefix f ''read: '' then ''read error''
     else if HasPrefix f ''implausible'' then ''implausible''
     else if Contains f ''frozen'' then ''frozen''
     else ''error'')"

definition sensorSummary :: "'r channel list \<Rightarrow> msg" where
  "sensorSummary chs = Msg ''summary'' (map (\<lambda>ch. AM (Msg ''%s=%s''
     [AS (ch_Name (cfg ch)), AS (sensorClass (sensorErr ch))])) (filter (\<lambda>ch. \<not> tempOK ch) chs))"

definition sensor_alert :: "'r channel list \<Rightarrow> nat \<Rightarrow> nat \<Rightarrow> msg" where
  "sensor_alert newlyBad nBad nAll = Msg ''sensor error: %s; %s (journalctl -u n5-fangov)''
     [AL (map (\<lambda>ch. Msg ''channel %q: sensor %s %s -> duty %d (%s)''
            [AS (ch_Name (cfg ch)), AS (ch_Sensor (cfg ch)), AM (sensorErr ch), AI (safeDuty ch), AS (safeDutyWhy ch)])
          newlyBad),
      AS (if nBad = nAll then ''ALL channels affected, nothing is regulated''
          else ''the other channels keep regulating'')]"

record cycleState =
  k_n :: int
  k_d :: Daemon
  k_ovr :: "string \<rightharpoonup> int"
  k_nBad :: nat
  k_extra :: "(string \<times> rat) list"
  k_watched :: "(string \<times> rat) list"

definition readSensors ::
  "('r, 'w) env \<Rightarrow> cycleState \<Rightarrow> ('r, 'w) Controller \<Rightarrow> cycleState \<times> ('r, 'w) Controller" where
  "readSensors env k c0 =
     (let (chs1, c1) = for_each (read_channel env) (chans c0) c0;
          c2 = check_stale (k_d k) (c1\<lparr>chans := chs1\<rparr>);
          nBad = length (filter (\<lambda>ch. \<not> tempOK ch) (chans c2));
          newlyBad = filter (\<lambda>ch. \<not> tempOK ch \<and> \<not> sensorBad ch) (chans c2);
          (chs3, c3) = for_each (judge_channel env) (chans c2) c2;
          (extra, c4) = readExtra env (dv_ExtraTemps (e_dev env)) (c3\<lparr>chans := chs3\<rparr>);
          (wv, ws, c5) = readWatched env (k_n k) (watched c4) c4;
          c6 = c5\<lparr>watched := ws\<rparr>;
          (chs7, c7) = for_each (read_rpm env) (chans c6) c6;
          c8 = c7\<lparr>chans := chs7\<rparr>;
          c9 = (if newlyBad \<noteq> [] then raise_alert env ''sensor'' (sensor_alert newlyBad nBad (length chs7)) c8 else c8);
          c10 = (if nBad > 0
                 then logOnce ''sensor'' ''sensor error -> %d of %d channel(s) at safe duty (%s)''
                        [AI (int nBad), AI (int (length chs7)), AM (sensorSummary (chans c9))] c9
                 else logClear ''sensor'' c9)
      in (k\<lparr>k_nBad := nBad, k_extra := extra, k_watched := wv\<rparr>, c10))"

section \<open>Ceiling and emergency\<close>

definition partCeiling :: "'r channel \<Rightarrow> string \<Rightarrow> int" where
  "partCeiling ch sid = (case find (\<lambda>pc. pc_ID pc = sid) (partCeil ch) of
      Some pc \<Rightarrow> pc_Ceiling pc | None \<Rightarrow> ceiling ch)"

text \<open>\<^verbatim>\<open>hottestPart\<close>: the part furthest above its ceiling with that ceiling, and whether all recovered.\<close>

fun hottest_loop :: "'r channel \<Rightarrow> Part list \<Rightarrow> (Part \<times> int \<times> int) option \<Rightarrow> bool \<Rightarrow> (Part \<times> int \<times> int) option \<times> bool" where
  "hottest_loop ch [] best allBelow = (best, allBelow)"
| "hottest_loop ch (p # ps) best allBelow =
     (let limit = partCeiling ch (part_ID p) * 1000;
          allBelow' = (if part_Value p \<ge> limit - ceilingRecover * 1000 then False else allBelow);
          best' = (if part_Value p \<ge> limit \<and>
                      (case best of None \<Rightarrow> True | Some (_, _, excess) \<Rightarrow> part_Value p - limit > excess)
                   then Some (p, tquot limit 1000, part_Value p - limit) else best)
      in hottest_loop ch ps best' allBelow')"

definition hottestPart :: "'r channel \<Rightarrow> (Part \<times> int) option \<times> bool" where
  "hottestPart ch = (let (best, allBelow) = hottest_loop ch (parts ch) None True
     in (map_option (\<lambda>(p, ceil, _). (p, ceil)) best, allBelow))"

definition partLabel :: "'r channel \<Rightarrow> string \<Rightarrow> string" where
  "partLabel ch sid = (if sid = ch_Sensor (cfg ch) \<or> sid = [] then ch_Sensor (cfg ch)
     else sid @ '' of '' @ ch_Sensor (cfg ch))"

text \<open>The run of the hook: its output is logged line by line, capped, and one alert names the outcome.\<close>

definition run_hook ::
  "('r, 'w) env \<Rightarrow> string \<Rightarrow> int \<Rightarrow> string \<Rightarrow> string \<Rightarrow> (string \<times> msgarg) list
    \<Rightarrow> ('r, 'w) Controller \<Rightarrow> ('r, 'w) Controller" where
  "run_hook env name cycles reason path hookEnv c =
     (let ((out, res), w) = e_Exec env path hookEnv (world c);
          out' = (if length out > HookOutputMax
                  then take HookOutputMax out @ [CHR 0x0A] @ ''... output truncated at 4 KiB'' @ [CHR 0x0A] else out);
          c1 = foldl (\<lambda>c line. if line \<noteq> [] then logf ''emergency[%s]: %s'' [AS name, AS line] c else c)
                 (c\<lparr>world := w\<rparr>) (Split out' (CHR 0x0A));
          status = (case res of
              ExOK \<Rightarrow> Msg ''0'' []
            | ExTimeout \<Rightarrow> Msg ''timeout after %s'' []
            | ExExit k \<Rightarrow> Msg ''%d'' [AI k]
            | ExErr t \<Rightarrow> Msg ''%s'' [AS t])
      in raise_alert env ''emergency''
           (Msg ''%s: emergency action after %d cycles at the ceiling (%s): hook exited %s''
              [AS name, AI cycles, AS reason, AM status]) c1)"

definition emergency_reason :: "'r channel \<Rightarrow> Daemon \<Rightarrow> string option" where
  "emergency_reason ch d =
     (if hasTach ch \<and> stalled ch \<and> ceilCycles ch \<ge> d_EmergencyCycles d then Some ''fan reports 0 RPM''
      else if ceilCycles ch \<ge> 3 * d_EmergencyCycles d then Some ''cooling ineffective''
      else None)"

definition emergency ::
  "('r, 'w) env \<Rightarrow> Daemon \<Rightarrow> 'r channel \<Rightarrow> ('r, 'w) Controller \<Rightarrow> 'r channel \<times> ('r, 'w) Controller" where
  "emergency env d ch0 c =
     (if emergencyFired ch0 \<or> \<not> d_Emergency d \<or> d_EmergencyCycles d \<le> 0 then (ch0, c)
      else case emergency_reason ch0 d of
        None \<Rightarrow> (ch0, c)
      | Some reason \<Rightarrow>
          let ch = ch0\<lparr>emergencyFired := True\<rparr>; name = ch_Name (cfg ch); cycles = ceilCycles ch;
              path = o_EmergencyHook (opts c); (st, w) = e_HookCheck env path (world c); c1 = c\<lparr>world := w\<rparr>
          in if \<not> hook_OK st
             then (ch, logf ''%s%s: emergency action after %d cycles at the ceiling (%s): hook %s %s, nothing runs''
                         [AS name, AI cycles, AS reason, AS path, AS (hook_State st)] c1)
             else let (part, partTemp, partC) =
                        (if ceilPart ch = [] then (ch_Sensor (cfg ch), temp ch, ceiling ch)
                         else (ceilPart ch, ceilPartTemp ch, ceilPartCeil ch));
                      hookEnv = [(''N5_CHANNEL'', AS name), (''N5_SENSOR'', AS (ch_Sensor (cfg ch))),
                             (''N5_PART'', AS part), (''N5_TEMP'', AT partTemp), (''N5_CEILING'', AI partC),
                             (''N5_RPM'', AI (rpm ch)), (''N5_CYCLES'', AI cycles)];
                      c2 = logf ''%s%s: emergency action after %d cycles at the ceiling (%s): running %s''
                             [AS name, AI cycles, AS reason, AS path] c1
                  in (ch, if o_SyncAlerts (opts c2) then run_hook env name cycles reason path hookEnv c2
                          else c2\<lparr>jobs := jobs c2 @ [JHook name cycles reason path hookEnv]\<rparr>))"

definition applyCeiling ::
  "('r, 'w) env \<Rightarrow> Daemon \<Rightarrow> 'r channel \<Rightarrow> ('r, 'w) Controller \<Rightarrow> 'r channel \<times> ('r, 'w) Controller" where
  "applyCeiling env d ch0 c0 =
     (let (found, allBelow) = hottestPart ch0;
          ch1 = (case found of
                   Some (hot, hotCeil) \<Rightarrow> ch0\<lparr>ceilPart := part_ID hot, ceilPartTemp := part_Value hot, ceilPartCeil := hotCeil\<rparr>
                 | None \<Rightarrow> ch0);
          (ch2, c2) =
            (if \<not> ceilHit ch1 \<and> found \<noteq> None
             then (ch1\<lparr>ceilHit := True, ceilCycles := 0\<rparr>,
                   raise_alert env ''ceiling'' (Msg ''%s: %s at %s reached the ceiling %dC (critical %dC) -> 255''
                     [AS (ch_Name (cfg ch1)), AS (partLabel ch1 (ceilPart ch1)), AT (ceilPartTemp ch1),
                      AI (ceilPartCeil ch1), AI (ch_Critical (cfg ch1))]) c0)
             else if ceilHit ch1 \<and> allBelow
             then (ch1\<lparr>ceilHit := False, ceilCycles := 0, emergencyFired := False\<rparr>,
                   logf ''%s: %s below the ceiling again (%s < %dC), regulation resumed''
                     [AS (ch_Name (cfg ch1)), AS (partLabel ch1 (ceilPart ch1)), AT (temp ch1),
                      AI (ceilPartCeil ch1 - ceilingRecover)] c0)
             else (ch1, c0))
      in if \<not> ceilHit ch2 then (ch2, c2)
         else emergency env d (ch2\<lparr>target := 255, mode := ModeCritical, holding := False,
                                   ceilCycles := ceilCycles ch2 + 1\<rparr>) c2)"

section \<open>Targets\<close>

definition target_unknown :: "'r channel \<Rightarrow> 'r channel" where
  "target_unknown ch = ch\<lparr>heldOK := False, haveCurve := False, holding := False,
     target := (if ceilHit ch then 255 else safeDuty ch), mode := ModeSensor\<rparr>"

definition target_known :: "(string \<rightharpoonup> int) \<Rightarrow> gotime \<Rightarrow> 'r channel \<Rightarrow> 'r channel" where
  "target_known ovr now ch0 =
     (let (h, ch1) = heldTemp (ch0\<lparr>mode := ModeAuto\<rparr>);
          (t, ch2) = minOnHold ch1 (Interpolate (ch_Curve (cfg ch1)) h) now;
          ch3 = ch2\<lparr>target := t\<rparr>;
          ch4 = (case ovr (ch_Name (cfg ch3)) of
                   Some v \<Rightarrow> ch3\<lparr>holding := False, target := v, mode := ModeManual\<rparr>
                 | None \<Rightarrow> ch3)
      in if temp ch4 \<ge> ch_Critical (cfg ch4) * 1000 then ch4\<lparr>target := 255, mode := ModeCritical\<rparr> else ch4)"

definition target_channel ::
  "('r, 'w) env \<Rightarrow> cycleState \<Rightarrow> gotime \<Rightarrow> 'r channel \<Rightarrow> ('r, 'w) Controller \<Rightarrow> 'r channel \<times> ('r, 'w) Controller" where
  "target_channel env k now ch c =
     (if \<not> tempOK ch then (target_unknown ch, c)
      else applyCeiling env (k_d k) (target_known (k_ovr k) now ch) c)"

definition at_critical :: "'r channel \<Rightarrow> bool" where
  "at_critical ch \<longleftrightarrow> tempOK ch \<and> temp ch \<ge> ch_Critical (cfg ch) * 1000"

definition computeTargets ::
  "('r, 'w) env \<Rightarrow> cycleState \<Rightarrow> ('r, 'w) Controller \<Rightarrow> ('r, 'w) Controller" where
  "computeTargets env k c0 =
     (let (now, c1) = Now env c0;
          (chs, c2) = for_each (target_channel env k now) (chans c1) c1;
          c3 = c2\<lparr>chans := chs\<rparr>
      in if list_ex at_critical chs
         then raise_alert env ''temp'' (Msg ''critical temperature reached: %s -> 255''
                [AL (map (\<lambda>ch. Msg ''%s=%s'' [AS (ch_Name (cfg ch)), AT (temp ch)]) (filter tempOK chs))]) c3
         else c3)"

section \<open>Stall detection\<close>

definition stall_channel ::
  "('r, 'w) env \<Rightarrow> Daemon \<Rightarrow> 'r channel \<Rightarrow> ('r, 'w) Controller \<Rightarrow> 'r channel \<times> ('r, 'w) Controller" where
  "stall_channel env d ch c =
     (if \<not> hasTach ch then (ch, c)
      else if stalled ch then
        let ch1 = ch\<lparr>target := 255, mode := ModeStall, recov := (if rpm ch > 0 then recov ch + 1 else 0)\<rparr>
        in if recov ch1 \<ge> stallRecoverCycles
           then (ch1\<lparr>stalled := False, stallCnt := 0, recov := 0\<rparr>,
                 logf ''%s: fan spinning again (%d RPM), regulation resumed'' [AS (ch_Name (cfg ch1)), AI (rpm ch1)] c)
           else (ch1, c)
      else if rpm ch = 0 \<and> written ch \<and> cur ch \<ge> d_StallMinDuty d then
        let ch1 = ch\<lparr>stallCnt := stallCnt ch + 1\<rparr>
        in if stallCnt ch1 \<ge> d_StallCycles d
           then (ch1\<lparr>stalled := True, target := 255, mode := ModeStall\<rparr>,
                 raise_alert env ''stall'' (Msg ''%s: fan stopped (0 RPM at duty %d) -> channel at 255. Check fan/cable.''
                   [AS (ch_Name (cfg ch1)), AI (cur ch1)]) c)
           else (ch1, c)
      else (ch\<lparr>stallCnt := 0\<rparr>, c))"

definition checkStall ::
  "('r, 'w) env \<Rightarrow> cycleState \<Rightarrow> ('r, 'w) Controller \<Rightarrow> ('r, 'w) Controller" where
  "checkStall env k c = (let (chs, c1) = for_each (stall_channel env (k_d k)) (chans c) c in c1\<lparr>chans := chs\<rparr>)"

section \<open>Register comparison\<close>

definition noteRegisterWrite ::
  "('r, 'w) env \<Rightarrow> 'r channel \<Rightarrow> int \<Rightarrow> ('r, 'w) Controller \<Rightarrow> 'r channel \<times> ('r, 'w) Controller" where
  "noteRegisterWrite env ch duty c = (case dv_Register (e_dev env) of
      None \<Rightarrow> (ch, c)
    | Some rv \<Rightarrow>
        if RegisterSettle rv (ch_PWM (cfg ch)) \<le> 0 then (ch, c)
        else if regPending ch \<and> regDuty ch = duty then (ch, c)
        else let (now, c1) = Now env c in (ch\<lparr>regDuty := duty, regAt := now, regPending := True\<rparr>, c1))"

definition check_register1 ::
  "('r, 'w) env \<Rightarrow> 'w register_ops \<Rightarrow> gotime \<Rightarrow> 'r channel \<Rightarrow> ('r, 'w) Controller \<Rightarrow> 'r channel \<times> ('r, 'w) Controller" where
  "check_register1 env rv now ch c =
     (if \<not> regPending ch \<or> Sub now (regAt ch) < RegisterSettle rv (ch_PWM (cfg ch)) then (ch, c)
      else let (err, w) = VerifyRegister rv (ch_PWM (cfg ch)) (regDuty ch) (world c)
           in (ch\<lparr>regPending := False\<rparr>, snd (dcrDeviation env (ch_Name (cfg ch)) err (c\<lparr>world := w\<rparr>))))"

definition checkRegisters :: "('r, 'w) env \<Rightarrow> ('r, 'w) Controller \<Rightarrow> ('r, 'w) Controller" where
  "checkRegisters env c = (case dv_Register (e_dev env) of
      None \<Rightarrow> c
    | Some rv \<Rightarrow>
        if o_DryRun (opts c) then c
        else let (now, c1) = Now env c; (chs, c2) = for_each (check_register1 env rv now) (chans c1) c1
             in c2\<lparr>chans := chs\<rparr>)"

section \<open>Writing\<close>

text \<open>An enable file that is not 1 any more is reported once per occurrence.\<close>

definition note_enable :: "('r, 'w) env \<Rightarrow> 'r channel \<Rightarrow> int \<Rightarrow> ('r, 'w) Controller \<Rightarrow> ('r, 'w) Controller" where
  "note_enable env ch n c = (case dv_ReadEnable (e_dev env) of
      None \<Rightarrow> c
    | Some rd \<Rightarrow>
        if n > 0 \<and> written ch
        then (case rd (ch_PWM (cfg ch)) (world c) of
                (Inl _, w) \<Rightarrow> c\<lparr>world := w\<rparr>
              | (Inr en, w) \<Rightarrow>
                  if en \<noteq> ''1''
                  then logOnce (''enable.'' @ ch_Name (cfg ch))
                         ''%s: pwm%d_enable was %q, re-asserting manual mode (external interference?)''
                         [AS (ch_Name (cfg ch)), AI (ch_PWM (cfg ch)), AS en] (c\<lparr>world := w\<rparr>)
                  else logClear (''enable.'' @ ch_Name (cfg ch)) (c\<lparr>world := w\<rparr>))
        else c)"

definition ctl_write ::
  "('r, 'w) env \<Rightarrow> 'r channel \<Rightarrow> int \<Rightarrow> int \<Rightarrow> ('r, 'w) Controller
    \<Rightarrow> goerror option \<times> 'r channel \<times> ('r, 'w) Controller" where
  "ctl_write env ch duty n c =
     (if o_DryRun (opts c) then (None, ch, c)
      else let c1 = note_enable env ch n c;
               (werr, w) = dv_WriteDuty (e_dev env) (ch_PWM (cfg ch)) duty (world c1);
               (err, c2) = dcrDeviation env (ch_Name (cfg ch)) werr (c1\<lparr>world := w\<rparr>)
           in case err of
                Some e \<Rightarrow> (Some e, ch, c2)
              | None \<Rightarrow> let (ch', c3) = noteRegisterWrite env ch duty c2 in (None, ch', c3))"

text \<open>The duty a channel is driven to next: its target, slewed in regular regulation.\<close>

definition next_duty :: "Daemon \<Rightarrow> int \<Rightarrow> 'r channel \<Rightarrow> int" where
  "next_duty d n ch =
     (if n > 0 \<and> mode ch = ModeAuto \<and> cur ch \<ge> 0
      then Slew (cur ch) (target ch) (d_StepUp d) (d_StepDown d) else target ch)"

text \<open>The body of the loop of \<^verbatim>\<open>writePhase\<close>; the state carries the results \<open>(werr, wrote)\<close>.\<close>

definition write_channel ::
  "('r, 'w) env \<Rightarrow> Daemon \<Rightarrow> int \<Rightarrow> 'r channel \<Rightarrow> (bool \<times> bool) \<times> ('r, 'w) Controller
    \<Rightarrow> 'r channel \<times> (bool \<times> bool) \<times> ('r, 'w) Controller" where
  "write_channel env d n ch st = (case st of ((werr, wrote), c) \<Rightarrow>
     if o_DryRun (opts c)
     then (case dv_ReadDuty (e_dev env) (ch_PWM (cfg ch)) (world c) of
             (Inr v, w) \<Rightarrow> (if 0 \<le> v \<and> v \<le> 255 then ch\<lparr>cur := v\<rparr> else ch, (werr, wrote), c\<lparr>world := w\<rparr>)
           | (Inl _, w) \<Rightarrow> (ch, (werr, wrote), c\<lparr>world := w\<rparr>))
     else let nxt = next_duty d n ch
          in if nxt \<noteq> cur ch \<or> n mod rewriteEvery = 0
             then (case ctl_write env ch nxt n c of
                     (Some e, ch', c') \<Rightarrow>
                       (ch'\<lparr>cur := -1\<rparr>, (True, wrote),
                        logf ''%s: write pwm%d=%d failed: %v''
                          [AS (ch_Name (cfg ch)), AI (ch_PWM (cfg ch)), AI nxt, AE e] c')
                   | (None, ch', c') \<Rightarrow> (ch'\<lparr>cur := nxt, written := True\<rparr>, (werr, True), c'))
             else (ch, st))"

definition writePhase ::
  "('r, 'w) env \<Rightarrow> Daemon \<Rightarrow> int \<Rightarrow> ('r, 'w) Controller \<Rightarrow> (bool \<times> bool) \<times> ('r, 'w) Controller" where
  "writePhase env d n c =
     (if stopped c then ((False, False), c)
      else let c1 = checkRegisters env c;
               (chs, (res, c2)) = for_each (write_channel env d n) (chans c1) ((False, False), c1)
           in (res, c2\<lparr>chans := chs\<rparr>))"

section \<open>Failsafe after write errors\<close>

text \<open>\<^verbatim>\<open>noteFailsafe\<close>: \<open>True\<close> is the error \<^verbatim>\<open>ErrDeviceLost\<close>.\<close>

definition noteFailsafe :: "('r, 'w) env \<Rightarrow> bool \<Rightarrow> ('r, 'w) Controller \<Rightarrow> bool \<times> ('r, 'w) Controller" where
  "noteFailsafe env allFailed c =
     (if \<not> allFailed then (False, c\<lparr>fsFail := 0\<rparr>)
      else let c1 = c\<lparr>fsFail := fsFail c + 1\<rparr>
           in if fsFail c1 < deviceLostCycles then (False, c1)
              else (True, raise_alert env ''device''
                      (Msg ''fan controller at %s unreachable for %d cycles, daemon restarts to re-detect it''
                         [AS (dv_HwmonPath (e_dev env)), AI (fsFail c1)])
                      (logf ''device unreachable: failsafe could not write any channel for %d cycles'' [AI (fsFail c1)] c1)))"

definition failsafe_channel ::
  "('r, 'w) env \<Rightarrow> Mode \<Rightarrow> 'r channel \<Rightarrow> bool \<times> ('r, 'w) Controller \<Rightarrow> 'r channel \<times> bool \<times> ('r, 'w) Controller" where
  "failsafe_channel env m ch0 st = (case st of (allFailed, c) \<Rightarrow>
     let ch = ch0\<lparr>mode := m, target := 255\<rparr>
     in case ctl_write env ch 255 (cyc c) c of
          (Some e, ch', c') \<Rightarrow>
            (ch'\<lparr>cur := -1\<rparr>, allFailed,
             logf ''%s: failsafe write pwm%d=255 failed: %v'' [AS (ch_Name (cfg ch)), AI (ch_PWM (cfg ch)), AE e] c')
        | (None, ch', c') \<Rightarrow>
            (if \<not> o_DryRun (opts c') then ch'\<lparr>cur := 255, written := True\<rparr> else ch', False, c'))"

definition failsafeAll :: "('r, 'w) env \<Rightarrow> Mode \<Rightarrow> ('r, 'w) Controller \<Rightarrow> bool \<times> ('r, 'w) Controller" where
  "failsafeAll env m c =
     (if stopped c \<or> chans c = [] then (False, c)
      else let (chs, (allFailed, c1)) = for_each (failsafe_channel env m) (chans c) (True, c)
           in (allFailed, c1\<lparr>chans := chs\<rparr>))"

section \<open>Snapshot, history, state file\<close>

definition Valid :: "string \<Rightarrow> bool" where
  "Valid s \<longleftrightarrow> s \<in> {''validated'', ''tested'', ''experimental'', ''unknown''}"

definition Verified :: "string \<Rightarrow> bool" where
  "Verified s \<longleftrightarrow> s = ''validated'' \<or> s = ''tested''"

definition hwStatus :: "('r, 'w) Controller \<Rightarrow> string" where
  "hwStatus c = (if Valid (o_HWStatus (opts c)) then o_HWStatus (opts c) else ''unknown'')"

definition channel_state :: "'r channel \<Rightarrow> ChannelState" where
  "channel_state ch = \<lparr>
     cs_Name = ch_Name (cfg ch), cs_PWM = ch_PWM (cfg ch), cs_Sensor = ch_Sensor (cfg ch),
     cs_Temp = (if tempOK ch then f_div (f_int (temp ch)) 1000 else -999),
     cs_Duty = cur ch, cs_Target = target ch, cs_RPM = rpm ch, cs_Mode = mode ch,
     cs_HeldTemp = (if tempOK ch \<and> ch_Hysteresis (cfg ch) > 0 \<and> heldOK ch \<and> held ch \<noteq> temp ch
                    then f_div (f_int (held ch)) 1000 else 0),
     cs_HoldUntil = (if holding ch \<and> mode ch = ModeAuto then Unix (holdUntil ch) else 0),
     cs_Ceiling = ceiling ch, cs_CeilingHit = ceilHit ch\<rparr>"

definition buildSnapshotLocked ::
  "('r, 'w) env \<Rightarrow> Status \<Rightarrow> (string \<times> rat) list \<Rightarrow> (string \<times> rat) list \<Rightarrow> gotime \<Rightarrow> ('r, 'w) Controller \<Rightarrow> Snapshot" where
  "buildSnapshotLocked env status extra watchedVals now c = \<lparr>
     sn_TS = Unix now, sn_Status = status, sn_Profile = dv_Profile (e_dev env),
     sn_Verified = Verified (hwStatus c), sn_HWStatus = hwStatus c,
     sn_HwmonPath = dv_HwmonPath (e_dev env), sn_DryRun = o_DryRun (opts c),
     sn_Channels = map channel_state (chans c), sn_ExtraTemps = extra, sn_Watched = watchedVals,
     sn_Alerts = alerts c, sn_Uptime = f_trunc (dur_Seconds (Sub now (started c)))\<rparr>"

definition history_point :: "'r channel list \<Rightarrow> (string \<times> rat) list \<Rightarrow> gotime \<Rightarrow> HistoryPoint" where
  "history_point chs watchedVals now = \<lparr>
     hp_TS = Unix now,
     hp_Temp = map (\<lambda>ch. (ch_Name (cfg ch), f_div (f_int (temp ch)) 1000)) (filter tempOK chs),
     hp_Duty = map (\<lambda>ch. (ch_Name (cfg ch), cur ch)) chs,
     hp_RPM = map (\<lambda>ch. (ch_Name (cfg ch), rpm ch)) (filter (\<lambda>ch. rpm ch \<ge> 0) chs),
     hp_Extra = watchedVals\<rparr>"

definition pushHistoryLocked :: "(string \<times> rat) list \<Rightarrow> gotime \<Rightarrow> ('r, 'w) Controller \<Rightarrow> ('r, 'w) Controller" where
  "pushHistoryLocked watchedVals now c = c\<lparr>pushed := history_point (chans c) watchedVals now # pushed c\<rparr>"

definition writeState :: "('r, 'w) env \<Rightarrow> Snapshot \<Rightarrow> ('r, 'w) Controller \<Rightarrow> ('r, 'w) Controller" where
  "writeState env s c =
     (if \<not> o_RunDir (opts c) \<or> stopped c then c
      else let (err, w) = e_WriteRun env ''state.json'' (RState s) (world c); c1 = c\<lparr>world := w\<rparr>
           in case err of
                Some e \<Rightarrow> logOnce ''state'' ''state.json: %v'' [AE e] c1
              | None \<Rightarrow> logClear ''state'' c1)"

definition statusLine :: "'r channel list \<Rightarrow> msg" where
  "statusLine chs = Msg ''%s  rpm=%s''
     [AL (map (\<lambda>ch. Msg ''%s=%s->pwm%d=%d(%s)''
        [AS (ch_Name (cfg ch)), if tempOK ch then AT (temp ch) else AS ''n/a'', AI (ch_PWM (cfg ch)), AI (cur ch),
         AS (Mode_text (mode ch))]) chs),
      AL (map (\<lambda>ch. Msg ''%d'' [AI (rpm ch)]) chs)]"

definition finishCycle ::
  "('r, 'w) env \<Rightarrow> (string \<times> rat) list \<Rightarrow> (string \<times> rat) list \<Rightarrow> Status \<Rightarrow> Daemon
    \<Rightarrow> ('r, 'w) Controller \<Rightarrow> ('r, 'w) Controller" where
  "finishCycle env extra watchedVals status0 d c0 =
     (let status = (if o_DryRun (opts c0) \<and> status0 = StatusOK then StatusDryRun else status0);
          (now, c1) = Now env c0;
          s = buildSnapshotLocked env status extra watchedVals now c1;
          c2 = pushHistoryLocked watchedVals now (c1\<lparr>snap := Some s\<rparr>);
          c3 = writeState env s c2;
          c4 = c3\<lparr>cyc := cyc c3 + 1, lastCycle := wall now\<rparr>;
          line = statusLine (chans c4);
          c5 = c4\<lparr>world := e_Status env status line (world c4)\<rparr>
      in if d_LogEvery d > 0 \<and> (cyc c5 - 1) mod d_LogEvery d = 0 then logf ''%s'' [AM line] c5 else c5)"

definition writeAndFinish ::
  "('r, 'w) env \<Rightarrow> cycleState \<Rightarrow> ('r, 'w) Controller \<Rightarrow> bool \<times> ('r, 'w) Controller" where
  "writeAndFinish env k c0 =
     (let ((werr, wrote), c1) = writePhase env (k_d k) (k_n k) c0;
          (lost, status, c2) =
            (if werr then
               let c1a = c1\<lparr>wrErr := wrErr c1 + 1\<rparr>;
                   c1b = logf ''pwm write error (%d consecutive)'' [AI (wrErr c1a)] c1a
               in if wrErr c1b \<ge> writeErrorsBeforeFailsafe
                  then let c1c = raise_alert env ''write''
                             (Msg ''repeated pwm write errors -> all channels 255; check driver/EC (dmesg, journalctl -u n5-fangov)'' []) c1b;
                           (allFailed, c1d) = failsafeAll env ModeFailsafe (reresolve env c1c);
                           (l, c1e) = noteFailsafe env allFailed c1d
                       in (l, StatusWriteError, c1e)
                  else (False, StatusWriteError, c1b)
             else (False, StatusOK, if wrote then c1\<lparr>fsFail := 0, wrErr := 0\<rparr> else c1\<lparr>fsFail := 0\<rparr>));
          status' = (if k_nBad k > 0 \<and> k_nBad k = length (chans c2) then StatusSensorError else status)
      in (lost, finishCycle env (k_extra k) (k_watched k) status' (k_d k) c2))"

end
