(* ===== verification/Service.thy ===== *)
theory Service
  imports Controller
begin

text \<open>
  Package \<^verbatim>\<open>internal/control\<close>, the rest of \<^verbatim>\<open>controller.go\<close> and \<^verbatim>\<open>watched.go\<close>: building a
  controller (\<^verbatim>\<open>New\<close>), one regulation cycle (\<^verbatim>\<open>cycle\<close>) and the loop (\<^verbatim>\<open>Run\<close>), the service
  calls that run beside it (\<^verbatim>\<open>SetOverride\<close>, \<^verbatim>\<open>ClearOverride\<close>, \<^verbatim>\<open>Apply\<close>, \<^verbatim>\<open>SetWatched\<close>,
  \<^verbatim>\<open>Stop\<close>) and the commands without a controller (\<^verbatim>\<open>Failsafe\<close>, \<^verbatim>\<open>FullSpeed\<close>).
\<close>

section \<open>Channel-set corrections\<close>

text \<open>
  \<^verbatim>\<open>SanitizeChannels\<close>: the loop over the built-in channels. \<open>byPWM\<close> holds the index of
  the last configured channel of each pwm number; it is not extended by additions.
\<close>

fun sanitize_loop ::
  "(int \<rightharpoonup> nat) \<Rightarrow> Channel list \<Rightarrow> string list \<Rightarrow> Channel list \<Rightarrow> msg list \<Rightarrow> Channel list \<times> msg list" where
  "sanitize_loop byPWM [] names out notes = (out, notes)"
| "sanitize_loop byPWM (def # defs) names out notes = (case byPWM (ch_PWM def) of
      None \<Rightarrow>
        let def' = (if ch_Name def \<in> set names then def\<lparr>ch_Name := ''pwm'' @ Itoa (ch_PWM def)\<rparr> else def)
        in sanitize_loop byPWM defs (ch_Name def' # names) (out @ [def'])
             (notes @ [Msg ''n5pro: pwm%d (%s) not in config, built-in channel %q added (sensor %s, stop %s)''
                [AI (ch_PWM def'), AS (ch_Name def'), AS (ch_Name def'), AS (ch_Sensor def'), AS (ch_Stop def')]])
    | Some i \<Rightarrow>
        if ch_PWM def = 3 \<and> ch_Stop (out ! i) = ''auto''
        then sanitize_loop byPWM defs names (out[i := (out ! i)\<lparr>ch_Stop := HDDStop\<rparr>])
               (notes @ [Msg ''n5pro: channel %q (pwm3) has stop=auto; fixed stop=%s used''
                  [AS (ch_Name (out ! i)), AS HDDStop]])
        else sanitize_loop byPWM defs names out notes)"

definition pwm_index :: "Channel list \<Rightarrow> int \<rightharpoonup> nat" where
  "pwm_index chs = map_of (rev (zip (map ch_PWM chs) [0..<length chs]))"

definition SanitizeChannels :: "string \<Rightarrow> Channel list \<Rightarrow> Channel list \<times> msg list" where
  "SanitizeChannels profileName chs =
     (if profileName \<noteq> ''n5pro'' then (chs, [])
      else sanitize_loop (pwm_index chs) N5ProChannels (map ch_Name chs) chs [])"

definition name_pwm :: "Channel list \<Rightarrow> string \<rightharpoonup> int" where
  "name_pwm chs = map_of (rev (map (\<lambda>ch. (ch_Name ch, ch_PWM ch)) chs))"

definition sameChannelSet :: "Channel list \<Rightarrow> Channel list \<Rightarrow> bool" where
  "sameChannelSet a b \<longleftrightarrow> length a = length b \<and>
     list_all (\<lambda>ch. name_pwm a (ch_Name ch) = Some (ch_PWM ch)) b"

definition hddLike :: "('r, 'w) env \<Rightarrow> Channel \<Rightarrow> bool" where
  "hddLike env cc \<longleftrightarrow> StopDuty cc \<noteq> None \<or> dv_Profile (e_dev env) = ''n5pro'' \<and> ch_PWM cc = 3"

definition findLocked :: "('r, 'w) Controller \<Rightarrow> string \<Rightarrow> 'r channel option" where
  "findLocked c name = find (\<lambda>ch. ch_Name (cfg ch) = name) (chans c)"

section \<open>Run-directory files\<close>

definition removeRunFile :: "('r, 'w) env \<Rightarrow> string \<Rightarrow> string \<Rightarrow> ('r, 'w) Controller \<Rightarrow> ('r, 'w) Controller" where
  "removeRunFile env name what c =
     (if \<not> o_RunDir (opts c) then c
      else let (err, w) = e_RemoveRun env name (world c); c1 = c\<lparr>world := w\<rparr>
           in case err of
                Some e \<Rightarrow> if errors_Is e ErrNotExist then c1 else logf ''%s: remove: %v'' [AS what, AE e] c1
              | None \<Rightarrow> c1)"

text \<open>\<^verbatim>\<open>loadOverrides\<close>: one channel; a file with an inadmissible value is removed.\<close>

definition load_override ::
  "('r, 'w) env \<Rightarrow> 'r channel \<Rightarrow> ('r, 'w) Controller \<Rightarrow> ('r, 'w) Controller" where
  "load_override env ch c =
     (let name = ch_Name (cfg ch); (r, w) = e_ReadRun env (''override.'' @ name) (world c); c1 = c\<lparr>world := w\<rparr>
      in case r of
           Inl _ \<Rightarrow> c1
         | Inr b \<Rightarrow>
             (case Atoi (TrimSpace b) of
                Some v \<Rightarrow>
                  if 0 \<le> v \<and> v \<le> 255 \<and> \<not> (hddLike env (cfg ch) \<and> v < MinHDDOverride)
                  then logf ''%s: manual override %d restored from %s'' [AS name, AI v]
                         (c1\<lparr>overrides := (overrides c1)(name \<mapsto> v)\<rparr>)
                  else removeRunFile env (''override.'' @ name) (name @ '': override file'')
                         (logf ''%s: override file invalid (%q), removed'' [AS name, AS (TrimSpace b)] c1)
              | None \<Rightarrow>
                  removeRunFile env (''override.'' @ name) (name @ '': override file'')
                    (logf ''%s: override file invalid (%q), removed'' [AS name, AS (TrimSpace b)] c1)))"

definition loadOverrides :: "('r, 'w) env \<Rightarrow> ('r, 'w) Controller \<Rightarrow> ('r, 'w) Controller" where
  "loadOverrides env c = foldl (\<lambda>c ch. load_override env ch c) c (chans c)"

definition load_stamp :: "('r, 'w) env \<Rightarrow> string \<Rightarrow> ('r, 'w) Controller \<Rightarrow> ('r, 'w) Controller" where
  "load_stamp env name c =
     (if \<not> HasPrefix name ''alert.'' then c
      else let (r, w) = e_ReadRun env name (world c); c1 = c\<lparr>world := w\<rparr>
           in case r of
                Inl _ \<Rightarrow> c1
              | Inr b \<Rightarrow> (case Atoi (TrimSpace b) of
                    None \<Rightarrow> c1
                  | Some ts \<Rightarrow> c1\<lparr>alerts := (alerts c1)(TrimPrefix name ''alert.'' \<mapsto> ts)\<rparr>))"

definition loadAlertStamps :: "('r, 'w) env \<Rightarrow> ('r, 'w) Controller \<Rightarrow> ('r, 'w) Controller" where
  "loadAlertStamps env c = (case e_ListRun env (world c) of
      (Inl _, w) \<Rightarrow> c\<lparr>world := w\<rparr>
    | (Inr names, w) \<Rightarrow> foldl (\<lambda>c name. load_stamp env name c) (c\<lparr>world := w\<rparr>) names)"

section \<open>Building a controller\<close>

definition device_channel :: "'w devops \<Rightarrow> int \<Rightarrow> ProfileChannel option" where
  "device_channel dev i = map_of (rev (map (\<lambda>dc. (p_Index dc, dc)) (dv_Channels dev))) i"

text \<open>One channel of \<^verbatim>\<open>buildChannels\<close>: the duty the chip shows, 255 when it is unreadable.\<close>

definition build_channel ::
  "('r, 'w) env \<Rightarrow> ProfileChannel \<Rightarrow> Channel \<Rightarrow> ('r, 'w) Controller \<Rightarrow> 'r channel \<times> ('r, 'w) Controller" where
  "build_channel env dc cc c0 =
     (let ch0 = set_ceiling (e_DiskKind env (world c0)) (newChannel cc (p_HasTach dc));
          (r, w) = dv_ReadDuty (e_dev env) (ch_PWM cc) (world c0); c1 = c0\<lparr>world := w\<rparr>;
          (ch1, c2) = (case r of
             Inl e \<Rightarrow> (ch0, logf ''%s: pwm%d not readable at start (%v), assuming 255''
                              [AS (ch_Name cc), AI (ch_PWM cc), AE e] c1)
           | Inr v \<Rightarrow>
               if v < 0 \<or> v > 255
               then (ch0, logf ''%s: pwm%d reads %d at start (outside 0..255), assuming 255''
                            [AS (ch_Name cc), AI (ch_PWM cc), AI v] c1)
               else (ch0\<lparr>cur := v\<rparr>, c1));
          (s, c3) = resolveSensor env cc c2
      in (ch1\<lparr>sensor := s\<rparr>, c3))"

fun buildChannels ::
  "('r, 'w) env \<Rightarrow> Channel list \<Rightarrow> ('r, 'w) Controller \<Rightarrow> 'r channel list \<times> msg list \<times> ('r, 'w) Controller" where
  "buildChannels env [] c = ([], [], c)"
| "buildChannels env (cc # ccs) c = (case device_channel (e_dev env) (ch_PWM cc) of
      None \<Rightarrow>
        let (out, dropped, c') = buildChannels env ccs c
        in (out, Msg ''channel %q uses pwm%d which the %s profile does not provide; channel ignored''
                   [AS (ch_Name cc), AI (ch_PWM cc), AS (dv_Profile (e_dev env))] # dropped, c')
    | Some dc \<Rightarrow>
        let (ch, c1) = build_channel env dc cc c; (out, dropped, c') = buildChannels env ccs c1
        in (ch # out, dropped, c'))"

definition init_controller :: "Config \<Rightarrow> Options \<Rightarrow> 'w \<Rightarrow> ('r, 'w) Controller" where
  "init_controller cf opt w = \<lparr>
     opts = opt, config = cf, chans = [], overrides = Map.empty, snap = None, pushed = [],
     histInterval = d_Interval (c_Daemon cf), alerts = Map.empty, alertAt = Map.empty, pending = None,
     watched = [], watchDirty = False, lastMsg = Map.empty, readErrs = Map.empty, stopped = False,
     stopOnce = False, lastCycle = 0, cyc = 0, wrErr = 0, fsFail = 0, lastRaw = 0, sameRaw = 0,
     haveRaw = False, started = zeroTime, lastSave = zeroTime, logs = [], jobs = [], world = w\<rparr>"

definition open_run_dir :: "('r, 'w) env \<Rightarrow> ('r, 'w) Controller \<Rightarrow> ('r, 'w) Controller" where
  "open_run_dir env c =
     (if \<not> o_RunDir (opts c) then c
      else let (err, w) = e_MkRun env (world c); c1 = c\<lparr>world := w\<rparr>
           in case err of
                Some e \<Rightarrow> logf ''control: run dir %s: %v (state files disabled)'' [AE e]
                            (c1\<lparr>opts := (opts c1)\<lparr>o_RunDir := False\<rparr>\<rparr>)
              | None \<Rightarrow> loadAlertStamps env c1)"

definition New :: "('r, 'w) env \<Rightarrow> Config \<Rightarrow> Options \<Rightarrow> 'w \<Rightarrow> ('r, 'w) Controller" where
  "New env cf opt w =
     (let c1 = open_run_dir env (init_controller cf opt w);
          (chs, notes) = SanitizeChannels (dv_Profile (e_dev env)) (c_Channels (config c1));
          c2 = c1\<lparr>config := (config c1)\<lparr>c_Channels := chs\<rparr>\<rparr>;
          (rchs, dropped, c3) = buildChannels env chs c2;
          c4 = reportNotes env ''config corrected at start'' (notes @ dropped) (c3\<lparr>chans := rchs\<rparr>);
          (ws, c5) = buildWatched env (c_Sensors (config c4)) c4;
          c6 = c5\<lparr>watched := ws\<rparr>;
          c7 = (if o_RunDir (opts c6) then loadOverrides env c6 else c6);
          (t, c8) = Now env c7;
          c9 = c8\<lparr>started := t, lastSave := t\<rparr>;
          (t', c10) = Now env c9
      in c10\<lparr>snap := Some (buildSnapshotLocked env StatusStarting [] [] t' c10)\<rparr>)"

section \<open>Service calls\<close>

datatype svc_error =
    DutyRange int | UnknownChannel string | DutyBelowMinimum string | ErrRestartRequired

definition SetOverride ::
  "('r, 'w) env \<Rightarrow> string \<Rightarrow> int \<Rightarrow> ('r, 'w) Controller \<Rightarrow> svc_error option \<times> ('r, 'w) Controller" where
  "SetOverride env name duty c =
     (if duty < 0 \<or> duty > 255 then (Some (DutyRange duty), c)
      else case findLocked c name of
             None \<Rightarrow> (Some (UnknownChannel name), c)
           | Some ch \<Rightarrow>
               if hddLike env (cfg ch) \<and> duty < MinHDDOverride then (Some (DutyBelowMinimum name), c)
               else let c1 = logf ''%s: manual override %d'' [AS name, AI duty]
                               (c\<lparr>overrides := (overrides c)(name \<mapsto> duty)\<rparr>)
                    in (None,
                        if o_RunDir (opts c1)
                        then (case e_WriteRun env (''override.'' @ name) (RText (Itoa duty @ [CHR 0x0A])) (world c1) of
                                (Some e, w) \<Rightarrow> logf ''%s: override file: %v'' [AS name, AE e] (c1\<lparr>world := w\<rparr>)
                              | (None, w) \<Rightarrow> c1\<lparr>world := w\<rparr>)
                        else c1))"

definition ClearOverride ::
  "('r, 'w) env \<Rightarrow> string \<Rightarrow> ('r, 'w) Controller \<Rightarrow> svc_error option \<times> ('r, 'w) Controller" where
  "ClearOverride env name c = (case findLocked c name of
      None \<Rightarrow> (Some (UnknownChannel name), c)
    | Some _ \<Rightarrow>
        (None, removeRunFile env (''override.'' @ name) (name @ '': override file'')
                 (logf ''%s: override cleared, back to curve'' [AS name]
                    (c\<lparr>overrides := (overrides c)(name := None)\<rparr>))))"

definition Apply :: "('r, 'w) env \<Rightarrow> Config \<Rightarrow> ('r, 'w) Controller \<Rightarrow> svc_error option \<times> ('r, 'w) Controller" where
  "Apply env cf0 c =
     (let (chs, notes) = SanitizeChannels (dv_Profile (e_dev env)) (c_Channels cf0);
          cf = cf0\<lparr>c_Channels := chs\<rparr>;
          base = (case pending c of Some p \<Rightarrow> p | None \<Rightarrow> config c)
      in if d_Profile (c_Daemon cf) \<noteq> d_Profile (c_Daemon base) \<or> \<not> sameChannelSet (c_Channels cf) (c_Channels base)
         then (Some ErrRestartRequired, c)
         else (None, reportNotes env ''config corrected on reload'' notes
                 (logf ''config reload accepted (interval=%s, %d channels), applied on next cycle''
                    [AI (d_Interval (c_Daemon cf)), AI (int (length chs))] (c\<lparr>pending := Some cf\<rparr>))))"

text \<open>\<^verbatim>\<open>Reload\<close>: \<open>parse\<close> is \<^verbatim>\<open>config.Parse\<close> on the raw file.\<close>

definition Reload ::
  "('r, 'w) env \<Rightarrow> (string \<Rightarrow> goerror + Config \<times> msg list) \<Rightarrow> string \<Rightarrow> ('r, 'w) Controller
    \<Rightarrow> (goerror + svc_error) option \<times> ('r, 'w) Controller" where
  "Reload env parse raw c = (case parse raw of
      Inl e \<Rightarrow> (Some (Inl e), c)
    | Inr (cf, warns) \<Rightarrow>
        let (r, c') = Apply env cf (foldl (\<lambda>c wn. logf ''reload: config warning: %s'' [AM wn] c) c warns)
        in (map_option Inr r, c'))"

fun clean_ids :: "string list \<Rightarrow> string list \<Rightarrow> string list" where
  "clean_ids seen [] = []"
| "clean_ids seen (sid0 # ids) =
     (let sid = TrimSpace sid0
      in if sid = [] \<or> sid \<in> set seen then clean_ids seen ids else sid # clean_ids (sid # seen) ids)"

definition SetWatched :: "string list \<Rightarrow> ('r, 'w) Controller \<Rightarrow> ('r, 'w) Controller" where
  "SetWatched ids c =
     (let clean = clean_ids [] ids
      in logf ''dashboard sensors: %s (applied on next cycle)'' (map AS clean)
           (c\<lparr>config := (config c)\<lparr>c_Sensors := clean\<rparr>,
              pending := map_option (\<lambda>p. p\<lparr>c_Sensors := clean\<rparr>) (pending c), watchDirty := True\<rparr>))"

section \<open>Swapping in an accepted configuration\<close>

record 'r chanUpdate =
  cu_cfg :: Channel
  cu_sensor :: "'r option"
  cu_newSensor :: bool
  cu_ceiling :: int
  cu_partCeil :: "PartCeiling list"
  cu_oldMinOn :: duration

definition zeroChannel :: Channel where
  "zeroChannel = \<lparr>ch_Name = [], ch_PWM = 0, ch_Sensor = [], ch_Curve = [], ch_Critical = 0, ch_Stop = [],
     ch_Hysteresis = 0, ch_MinOn = 0, ch_Ceiling = 0, ch_PostSet = False\<rparr>"

definition by_name :: "Channel list \<Rightarrow> string \<Rightarrow> Channel" where
  "by_name chs name = (case map_of (rev (map (\<lambda>cc. (ch_Name cc, cc)) chs)) name of
      Some cc \<Rightarrow> cc | None \<Rightarrow> zeroChannel)"

text \<open>A changed sensor is resolved before the swap; \<open>cu_oldMinOn\<close> is the value before it.\<close>

definition prepare_update ::
  "('r, 'w) env \<Rightarrow> Channel list \<Rightarrow> 'r channel \<Rightarrow> ('r, 'w) Controller \<Rightarrow> 'r chanUpdate \<times> ('r, 'w) Controller" where
  "prepare_update env chs ch c =
     (let cc = by_name chs (ch_Name (cfg ch)); (low, pcs) = ceilingOf (e_DiskKind env (world c)) cc;
          u = \<lparr>cu_cfg = cc, cu_sensor = None, cu_newSensor = False, cu_ceiling = low, cu_partCeil = pcs,
               cu_oldMinOn = ch_MinOn (cfg ch)\<rparr>
      in if ch_Sensor cc \<noteq> ch_Sensor (cfg ch)
         then let (s, c1) = resolveSensor env cc c in (u\<lparr>cu_sensor := s, cu_newSensor := True\<rparr>, c1)
         else (u, c))"

definition swapChannelConfig :: "'r chanUpdate \<Rightarrow> 'r channel \<Rightarrow> 'r channel" where
  "swapChannelConfig u ch =
     (let ch1 = (if cu_newSensor u
                 then ch\<lparr>sensor := cu_sensor u, heldOK := False, haveCurve := False, holding := False,
                         ceilHit := False, ceilCycles := 0, emergencyFired := False, parts := [], ceilPart := []\<rparr>
                 else ch)
      in ch1\<lparr>cfg := cu_cfg u, ceiling := cu_ceiling u, partCeil := cu_partCeil u\<rparr>)"

definition retimeHolds :: "gotime \<Rightarrow> 'r chanUpdate \<Rightarrow> 'r channel \<Rightarrow> 'r channel" where
  "retimeHolds now u ch =
     (if \<not> holding ch \<or> ch_MinOn (cfg ch) = cu_oldMinOn u then ch
      else if ch_MinOn (cfg ch) \<le> 0 then ch\<lparr>holding := False\<rparr>
      else let until = Add (holdStart ch) (ch_MinOn (cfg ch))
           in ch\<lparr>holdUntil := (if After until now then until else now)\<rparr>)"

definition applyPendingLocked :: "('r, 'w) env \<Rightarrow> ('r, 'w) Controller \<Rightarrow> ('r, 'w) Controller" where
  "applyPendingLocked env c0 = (case pending c0 of
      None \<Rightarrow> c0
    | Some cf \<Rightarrow>
        let old = config c0;
            c1 = c0\<lparr>pending := None, config := cf\<rparr>;
            (ups, c2) = for_each (prepare_update env (c_Channels cf)) (chans c1) c1;
            c3 = c2\<lparr>chans := map2 swapChannelConfig ups (chans c2)\<rparr>;
            (now, c4) = Now env c3;
            c5 = c4\<lparr>chans := map2 (retimeHolds now) ups (chans c4)\<rparr>;
            c6 = (if (case ups of [] \<Rightarrow> False | u # _ \<Rightarrow> cu_newSensor u)
                  then c5\<lparr>haveRaw := False, sameRaw := 0\<rparr> else c5);
            c7 = (if c_Sensors cf \<noteq> c_Sensors old then c6\<lparr>watchDirty := True\<rparr> else c6);
            c8 = (if d_Interval (c_Daemon cf) \<noteq> d_Interval (c_Daemon old)
                  then c7\<lparr>histInterval := d_Interval (c_Daemon cf)\<rparr> else c7)
        in logf ''config applied'' [] c8)"

section \<open>Cycle and loop\<close>

text \<open>The part of \<^verbatim>\<open>cycle\<close> before \<^verbatim>\<open>readSensors\<close>: what is taken under the lock, and the periodic re-resolution.\<close>

definition cycle_begin :: "('r, 'w) env \<Rightarrow> ('r, 'w) Controller \<Rightarrow> cycleState \<times> ('r, 'w) Controller" where
  "cycle_begin env c0 =
     (let n = cyc c0;
          c1 = applyPendingLocked env (c0\<lparr>world := e_Notify env (world c0)\<rparr>);
          c2 = (if watchDirty c1
                then (let (ws, c) = buildWatched env (c_Sensors (config c1)) c1
                      in c\<lparr>watched := ws, watchDirty := False\<rparr>)
                else c1);
          c3 = (if n > 0 \<and> n mod resolveEvery = 0 then reresolve env c2 else c2)
      in (\<lparr>k_n = n, k_d = c_Daemon (config c2), k_ovr = overrides c2, k_nBad = 0, k_extra = [], k_watched = []\<rparr>, c3))"

definition cycle :: "('r, 'w) env \<Rightarrow> ('r, 'w) Controller \<Rightarrow> bool \<times> ('r, 'w) Controller" where
  "cycle env c0 =
     (let (k, c1) = cycle_begin env c0;
          (k1, c2) = readSensors env k c1
      in writeAndFinish env k1 (checkStall env k1 (computeTargets env k1 c2)))"

definition saveHistory :: "('r, 'w) env \<Rightarrow> ('r, 'w) Controller \<Rightarrow> ('r, 'w) Controller" where
  "saveHistory env c0 =
     (let (now, c) = Now env c0
      in if Sub now (lastSave c) < historySaveEvery then c
         else c\<lparr>lastSave := now, world := e_SaveHistory env (world c)\<rparr>)"

definition safe_stop_channel :: "('r, 'w) env \<Rightarrow> 'r channel \<Rightarrow> ('r, 'w) Controller \<Rightarrow> ('r, 'w) Controller" where
  "safe_stop_channel env ch c =
     (let (serr, w) = dv_SafeStop (e_dev env) (ch_PWM (cfg ch)) (ch_Stop (cfg ch)) (world c);
          (err, c1) = dcrDeviation env (ch_Name (cfg ch)) serr (c\<lparr>world := w\<rparr>)
      in case err of
           None \<Rightarrow> c1
         | Some e \<Rightarrow> logf ''%s: safe stop (%s) failed: %v'' [AS (ch_Name (cfg ch)), AS (ch_Stop (cfg ch)), AE e] c1)"

definition safeStopLocked :: "('r, 'w) env \<Rightarrow> ('r, 'w) Controller \<Rightarrow> ('r, 'w) Controller" where
  "safeStopLocked env c =
     (let c1 = logf ''stop: safe state %s''
                 (map (\<lambda>ch. AM (Msg ''%s=%s'' [AS (ch_Name (cfg ch)), AS (ch_Stop (cfg ch))])) (chans c)) c;
          c2 = (if o_DryRun (opts c1) then c1 else foldl (\<lambda>c ch. safe_stop_channel env ch c) c1 (chans c1))
      in removeRunFile env ''state.json'' ''state.json'' c2)"

definition Stop :: "('r, 'w) env \<Rightarrow> ('r, 'w) Controller \<Rightarrow> ('r, 'w) Controller" where
  "Stop env c =
     (if stopOnce c then c
      else let c1 = safeStopLocked env (c\<lparr>stopOnce := True, stopped := True\<rparr>)
           in c1\<lparr>world := e_SaveHistory env (world c1)\<rparr>)"

datatype run_result = RunDeviceLost | RunCancelled

text \<open>The loop of \<^verbatim>\<open>Run\<close>; \<open>None\<close>: it never ends (the context is never cancelled).\<close>

partial_function (option) run_loop ::
  "('r, 'w) env \<Rightarrow> ('r, 'w) Controller \<Rightarrow> (run_result \<times> ('r, 'w) Controller) option" where
  "run_loop env c =
     (let (lost, c1) = cycle env c
      in if lost then Some (RunDeviceLost, c1)
         else let c2 = saveHistory env c1;
                  (go, w) = e_Wait env (d_Interval (c_Daemon (config c2))) (world c2);
                  c3 = c2\<lparr>world := w\<rparr>
              in if \<not> go then Some (RunCancelled, c3) else run_loop env c3)"

definition Run :: "('r, 'w) env \<Rightarrow> ('r, 'w) Controller \<Rightarrow> (run_result \<times> ('r, 'w) Controller) option" where
  "Run env c = map_option (\<lambda>(r, c'). (r, Stop env c'))
     (run_loop env (logf ''start: profile=%s hwmon=%s channels=%s interval=%s dryrun=%v''
        [AS (dv_Profile (e_dev env)), AS (dv_HwmonPath (e_dev env)), AI (d_Interval (c_Daemon (config c)))] c))"

text \<open>A goroutine the controller started, when it runs.\<close>

primrec run_job :: "('r, 'w) env \<Rightarrow> job \<Rightarrow> ('r, 'w) Controller \<Rightarrow> ('r, 'w) Controller" where
  "run_job env (JDeliver kind m) c = c\<lparr>world := e_Alert env kind m (world c)\<rparr>"
| "run_job env (JHook name cycles reason path hookEnv) c = run_hook env name cycles reason path hookEnv c"

definition LastCycle :: "('r, 'w) Controller \<Rightarrow> gotime" where
  "LastCycle c = (if lastCycle c = 0 then zeroTime else \<lparr>wall = lastCycle c, mono = None\<rparr>)"

section \<open>Commands without a controller\<close>

text \<open>
  \<^verbatim>\<open>Failsafe\<close>: one channel. The result collects the errors, the channels with a fixed
  stop duty written, and the log lines.
\<close>

record failsafe_state =
  ff_errs :: "goerror list"
  ff_fixed :: "Channel list"
  ff_log :: "msg list"

definition failsafe_stop :: "'w devops \<Rightarrow> Channel \<Rightarrow> failsafe_state \<times> 'w \<Rightarrow> failsafe_state \<times> 'w" where
  "failsafe_stop dev ch st = (case st of (f, w) \<Rightarrow>
     if ch_PWM ch \<notin> p_Index ` set (dv_Channels dev)
     then (f\<lparr>ff_log := Msg ''failsafe: %s: pwm%d not exposed by %s, skipped''
                          [AS (ch_Name ch), AI (ch_PWM ch), AS (dv_Profile dev)] # ff_log f\<rparr>, w)
     else case dv_SafeStop dev (ch_PWM ch) (ch_Stop ch) w of
            (Some e, w') \<Rightarrow>
              if errors_Is e ErrDCRMismatch
              then (f\<lparr>ff_log := Msg ''failsafe: %s: pwm%d stop=%s written, EC register differs: %v''
                          [AS (ch_Name ch), AI (ch_PWM ch), AS (ch_Stop ch), AE e] # ff_log f\<rparr>, w')
              else (f\<lparr>ff_errs := ff_errs f @ [e],
                      ff_log := Msg ''failsafe: %s: pwm%d stop=%s FAILED: %v''
                          [AS (ch_Name ch), AI (ch_PWM ch), AS (ch_Stop ch), AE e] # ff_log f\<rparr>, w')
          | (None, w') \<Rightarrow>
              (f\<lparr>ff_fixed := (if StopDuty ch \<noteq> None then ff_fixed f @ [ch] else ff_fixed f),
                 ff_log := Msg ''failsafe: %s: pwm%d stop=%s ok''
                          [AS (ch_Name ch), AI (ch_PWM ch), AS (ch_Stop ch)] # ff_log f\<rparr>, w'))"

fun failsafe_registers ::
  "'w register_ops \<Rightarrow> gotime \<Rightarrow> ('w \<Rightarrow> gotime \<times> 'w) \<Rightarrow> (duration \<Rightarrow> 'w \<Rightarrow> 'w) \<Rightarrow> Channel list
    \<Rightarrow> failsafe_state \<times> 'w \<Rightarrow> (failsafe_state \<times> 'w) option" where
  "failsafe_registers rv start now sleep [] st = Some st"
| "failsafe_registers rv start now sleep (ch # chs) (f, w) =
     (let duty = (case StopDuty ch of Some d \<Rightarrow> d | None \<Rightarrow> 0); settle = RegisterSettle rv (ch_PWM ch)
      in if settle \<le> 0 then failsafe_registers rv start now sleep chs (f, w)
         else case WaitRegister rv (ch_PWM ch) duty (Add start settle) now sleep w of
                None \<Rightarrow> None
              | Some (err, w') \<Rightarrow>
                  failsafe_registers rv start now sleep chs
                    (case err of
                       None \<Rightarrow> f
                     | Some e \<Rightarrow> f\<lparr>ff_log := Msg ''failsafe: %s: pwm%d stop=%s written, EC register differs after %s: %v''
                          [AS (ch_Name ch), AI (ch_PWM ch), AS (ch_Stop ch), AI settle, AE e] # ff_log f\<rparr>, w'))"

definition failsafeRegisters ::
  "'w devops \<Rightarrow> ('w \<Rightarrow> gotime \<times> 'w) \<Rightarrow> (duration \<Rightarrow> 'w \<Rightarrow> 'w) \<Rightarrow> failsafe_state \<times> 'w
    \<Rightarrow> (failsafe_state \<times> 'w) option" where
  "failsafeRegisters dev now sleep st = (case (dv_Register dev, ff_fixed (fst st)) of
      (None, _) \<Rightarrow> Some st
    | (Some _, []) \<Rightarrow> Some st
    | (Some rv, fixed) \<Rightarrow> let (start, w) = now (snd st) in failsafe_registers rv start now sleep fixed (fst st, w))"

definition Failsafe ::
  "'w devops \<Rightarrow> ('w \<Rightarrow> gotime \<times> 'w) \<Rightarrow> (duration \<Rightarrow> 'w \<Rightarrow> 'w) \<Rightarrow> Config \<Rightarrow> 'w
    \<Rightarrow> (failsafe_state \<times> 'w) option" where
  "Failsafe dev now sleep cf w =
     (let (chs, notes) = SanitizeChannels (dv_Profile dev) (c_Channels cf);
          f0 = \<lparr>ff_errs = [], ff_fixed = [], ff_log = rev (map (\<lambda>n. Msg ''failsafe: config: %s'' [AM n]) notes)\<rparr>
      in failsafeRegisters dev now sleep (foldl (\<lambda>st ch. failsafe_stop dev ch st) (f0, w) chs))"

fun FullSpeed :: "'w devops \<Rightarrow> Channel list \<Rightarrow> 'w \<Rightarrow> goerror list \<times> 'w" where
  "FullSpeed dev [] w = ([], w)"
| "FullSpeed dev (ch # chs) w = (case dv_EnterManual dev (ch_PWM ch) w of
      (Some e, w1) \<Rightarrow> (let (es, w2) = FullSpeed dev chs w1 in (e # es, w2))
    | (None, w1) \<Rightarrow> (case dv_WriteDuty dev (ch_PWM ch) 255 w1 of
          (Some e, w2) \<Rightarrow> (let (es, w3) = FullSpeed dev chs w2 in (e # es, w3))
        | (None, w2) \<Rightarrow> FullSpeed dev chs w2))"

end
