(* ===== verification/Frames.thy ===== *)
theory Frames
  imports Service
begin

text \<open>
  What the operations of the controller leave alone. \<open>core\<close> collects the fields that
  logging, alerts, rate limits and environment access never touch; every
  helper keeps it, and \<open>core_fields\<close> turns that into one rewrite rule per field. The
  per-channel steps are described by relations that the loops lift to the
  channel list.
\<close>

section \<open>The core of the state\<close>

definition core :: "('r, 'w) Controller \<Rightarrow> _" where
  "core c = ((opts c, config c, chans c, overrides c, snap c, pushed c, histInterval c, pending c),
     (watched c, watchDirty c, stopped c, stopOnce c, lastCycle c, cyc c, wrErr c, fsFail c),
     (lastRaw c, sameRaw c, haveRaw c, started c, lastSave c))"

lemma core_fields:
  assumes "core c' = core c"
  shows "opts c' = opts c" "config c' = config c" "chans c' = chans c" "overrides c' = overrides c"
    "snap c' = snap c" "pushed c' = pushed c" "histInterval c' = histInterval c" "pending c' = pending c"
    "watched c' = watched c" "watchDirty c' = watchDirty c" "stopped c' = stopped c" "stopOnce c' = stopOnce c"
    "lastCycle c' = lastCycle c" "cyc c' = cyc c" "wrErr c' = wrErr c" "fsFail c' = fsFail c"
    "lastRaw c' = lastRaw c" "sameRaw c' = sameRaw c" "haveRaw c' = haveRaw c" "started c' = started c"
    "lastSave c' = lastSave c"
  using assms by (simp_all add: core_def)

lemma core_env [simp]:
  "core (c\<lparr>world := w\<rparr>) = core c" "core (c\<lparr>logs := l\<rparr>) = core c" "core (c\<lparr>jobs := j\<rparr>) = core c"
  "core (c\<lparr>lastMsg := m\<rparr>) = core c" "core (c\<lparr>readErrs := r\<rparr>) = core c"
  "core (c\<lparr>alerts := a\<rparr>) = core c" "core (c\<lparr>alertAt := t\<rparr>) = core c"
  by (simp_all add: core_def)

lemma core_logging [simp]:
  "core (logf f a c) = core c" "core (logOnce key f a c) = core c" "core (logClear key c) = core c"
  "core (snd (Now env c)) = core c"
  by (simp_all add: logf_def logOnce_def logClear_def Now_def Let_def case_prod_beta)

lemma core_raise [simp]: "core (raise_alert env kind m c) = core c"
  by (simp add: raise_alert_def Let_def case_prod_beta split: option.split)

lemma core_fold:
  assumes "\<And>x c. core (f c x) = core c"
  shows "core (foldl f c xs) = core c"
  by (induction xs arbitrary: c) (simp_all add: assms)

lemma core_reportNotes [simp]: "core (reportNotes env what notes c) = core c"
  by (simp add: reportNotes_def core_fold)

lemma core_limited [simp]: "core (limited_warn i key f a now c) = core c"
  by (simp add: limited_warn_def Let_def split: option.split)

lemma core_notes [simp]:
  "core (noteReadErr env src e c) = core c" "core (noteReadOK env src c) = core c"
  "core (snd (dcrDeviation env name err c)) = core c"
  by (simp_all add: noteReadErr_def noteReadOK_def dcrDeviation_def Let_def case_prod_beta split: option.split)

lemma core_resolve [simp]:
  "core (snd (resolveSensor env cc c)) = core c" "core (snd (resolve_again env ch c)) = core c"
  "core (snd (resolveWatched env sid c)) = core c"
proof -
  show 1: "core (snd (resolveSensor env cc c)) = core c" for cc
    by (simp add: resolveSensor_def split: prod.split sum.split)
  show "core (snd (resolve_again env ch c)) = core c"
    using 1 [of "cfg ch"] by (auto simp: resolve_again_def split: prod.split option.split)
  show "core (snd (resolveWatched env sid c)) = core c"
    by (simp add: resolveWatched_def split: prod.split sum.split)
qed

lemma core_buildWatched [simp]: "core (snd (buildWatched env ids c)) = core c"
  by (induction ids arbitrary: c) (simp_all add: Let_def case_prod_beta)

lemma core_read [simp]:
  "core (snd (read_channel env ch c)) = core c" "core (snd (judge_channel env ch c)) = core c"
  "core (snd (read_rpm env ch c)) = core c"
  by (auto simp: read_channel_def judge_channel_def read_rpm_def Let_def case_prod_beta split: option.split sum.split)

lemma core_readExtra [simp]: "core (snd (readExtra env ex c)) = core c"
proof (induction ex arbitrary: c)
  case (Cons p ex)
  then show ?case by (cases p) (auto simp: Let_def case_prod_beta split: prod.split sum.split option.split)
qed simp

lemma core_readWatched [simp]: "core (snd (snd (readWatched env n ws c))) = core c"
proof (induction ws arbitrary: c)
  case (Cons w ws)
  have "core (snd (snd (read_watched1 env n w c))) = core c"
    by (auto simp: read_watched1_def Let_def case_prod_beta split: option.split sum.split)
  with Cons show ?case by (simp add: Let_def case_prod_beta)
qed simp

lemma core_run_hook [simp]: "core (run_hook env name cycles reason path he c) = core c"
  by (simp add: run_hook_def Let_def case_prod_beta core_fold)

lemma core_emergency [simp]: "core (snd (emergency env d ch c)) = core c"
  by (simp add: emergency_def Let_def case_prod_beta split: option.split)

lemma core_applyCeiling [simp]: "core (snd (applyCeiling env d ch c)) = core c"
  by (simp add: applyCeiling_def Let_def case_prod_beta)

lemma core_target [simp]: "core (snd (target_channel env k now ch c)) = core c"
  by (simp add: target_channel_def)

lemma core_stall [simp]: "core (snd (stall_channel env d ch c)) = core c"
  by (simp add: stall_channel_def Let_def)

lemma core_register [simp]:
  "core (snd (noteRegisterWrite env ch duty c)) = core c"
  "core (snd (check_register1 env rv now ch c)) = core c"
  by (simp_all add: noteRegisterWrite_def check_register1_def Let_def case_prod_beta split: option.split)

lemma core_write [simp]: "core (snd (snd (ctl_write env ch duty n c))) = core c"
proof -
  have "core (note_enable env ch n c) = core c" for c
    by (simp add: note_enable_def split: option.split prod.split sum.split)
  then show ?thesis
    by (simp add: ctl_write_def Let_def case_prod_beta split: option.split)
qed

lemma core_write_channel: "core (snd (snd (write_channel env d n ch st))) = core (snd st)"
  by (simp add: write_channel_def Let_def case_prod_beta split: sum.split option.split)

lemma core_failsafe_channel: "core (snd (snd (failsafe_channel env m ch st))) = core (snd st)"
  by (simp add: failsafe_channel_def Let_def case_prod_beta split: option.split)

lemma core_writeState [simp]: "core (writeState env s c) = core c"
  by (simp add: writeState_def Let_def case_prod_beta split: option.split)

lemma core_prepare [simp]: "core (snd (prepare_update env chs ch c)) = core c"
  by (simp add: prepare_update_def Let_def case_prod_beta)

lemma core_removeRunFile [simp]: "core (removeRunFile env name what c) = core c"
  by (simp add: removeRunFile_def Let_def case_prod_beta split: option.split)

lemma core_safe_stop [simp]: "core (safe_stop_channel env ch c) = core c"
  by (simp add: safe_stop_channel_def Let_def case_prod_beta split: option.split)

lemma core_run_job [simp]: "core (run_job env j c) = core c"
  by (cases j) simp_all

text \<open>One rewrite rule per field for every helper.\<close>

lemmas frames [simp] =
  core_fields [OF core_logging(1)] core_fields [OF core_logging(2)] core_fields [OF core_logging(3)]
  core_fields [OF core_logging(4)]
  core_fields [OF core_raise] core_fields [OF core_reportNotes] core_fields [OF core_notes(1)]
  core_fields [OF core_notes(2)] core_fields [OF core_notes(3)] core_fields [OF core_resolve(1)]
  core_fields [OF core_resolve(2)] core_fields [OF core_resolve(3)] core_fields [OF core_buildWatched]
  core_fields [OF core_read(1)] core_fields [OF core_read(2)] core_fields [OF core_read(3)]
  core_fields [OF core_readExtra] core_fields [OF core_readWatched] core_fields [OF core_run_hook]
  core_fields [OF core_emergency] core_fields [OF core_applyCeiling] core_fields [OF core_target]
  core_fields [OF core_stall] core_fields [OF core_register(1)] core_fields [OF core_register(2)]
  core_fields [OF core_write] core_fields [OF core_writeState] core_fields [OF core_prepare]
  core_fields [OF core_removeRunFile] core_fields [OF core_safe_stop] core_fields [OF core_run_job]

section \<open>Loops and phases\<close>

lemma core_loops [simp]:
  "core (snd (for_each (read_channel env) chs c)) = core c"
  "core (snd (for_each (judge_channel env) chs c)) = core c"
  "core (snd (for_each (read_rpm env) chs c)) = core c"
  "core (snd (for_each (target_channel env k now) chs c)) = core c"
  "core (snd (for_each (stall_channel env d) chs c)) = core c"
  "core (snd (for_each (prepare_update env ccs) chs c)) = core c"
  by (rule for_each_state; simp)+

lemmas loop_frames [simp] =
  core_fields [OF core_loops(1)] core_fields [OF core_loops(2)] core_fields [OF core_loops(3)]
  core_fields [OF core_loops(4)] core_fields [OF core_loops(5)] core_fields [OF core_loops(6)]

text \<open>The fields the phases of a cycle never change.\<close>

definition steady :: "('r, 'w) Controller \<Rightarrow> _" where
  "steady c = (opts c, overrides c, stopped c, stopOnce c, cyc c, wrErr c, fsFail c)"

lemma steady_fields:
  assumes "steady c' = steady c"
  shows "opts c' = opts c" "overrides c' = overrides c" "stopped c' = stopped c" "stopOnce c' = stopOnce c"
    "cyc c' = cyc c" "wrErr c' = wrErr c" "fsFail c' = fsFail c"
  using assms by (simp_all add: steady_def)

lemma steady_update [simp]:
  "steady (c\<lparr>chans := x\<rparr>) = steady c" "steady (c\<lparr>watched := y\<rparr>) = steady c" "steady (c\<lparr>sameRaw := i\<rparr>) = steady c"
  "steady (c\<lparr>lastRaw := i\<rparr>) = steady c" "steady (c\<lparr>haveRaw := b\<rparr>) = steady c" "steady (c\<lparr>watchDirty := b\<rparr>) = steady c"
  "steady (c\<lparr>pending := p\<rparr>) = steady c" "steady (c\<lparr>config := cf\<rparr>) = steady c"
  "steady (c\<lparr>histInterval := i\<rparr>) = steady c" "steady (c\<lparr>world := w\<rparr>) = steady c"
  by (simp_all add: steady_def)

lemma steady_core: "core c' = core c \<Longrightarrow> steady c' = steady c"
  by (simp add: core_def steady_def)

lemma check_stale_fields [simp]:
  "steady (check_stale d c) = steady c" "config (check_stale d c) = config c" "pending (check_stale d c) = pending c"
  by (simp_all add: check_stale_def Let_def steady_def split: list.split)

lemmas steady_frames [simp] =
  steady_core [OF core_logging(1)] steady_core [OF core_logging(2)] steady_core [OF core_logging(3)]
  steady_core [OF core_logging(4)] steady_core [OF core_raise] steady_core [OF core_reportNotes]
  steady_core [OF core_readExtra] steady_core [OF core_readWatched] steady_core [OF core_buildWatched]
  steady_core [OF core_loops(1)] steady_core [OF core_loops(2)] steady_core [OF core_loops(3)]
  steady_core [OF core_loops(4)] steady_core [OF core_loops(5)] steady_core [OF core_loops(6)]

lemma steady_readSensors [simp]: "steady (snd (readSensors env k c)) = steady c"
  by (simp add: readSensors_def Let_def case_prod_beta)

lemma steady_computeTargets [simp]: "steady (computeTargets env k c) = steady c"
  by (simp add: computeTargets_def Let_def case_prod_beta)

lemma steady_checkStall [simp]: "steady (checkStall env k c) = steady c"
  by (simp add: checkStall_def Let_def case_prod_beta)

lemma steady_reresolve [simp]: "steady (reresolve env c) = steady c"
proof -
  have "core (snd (for_each (resolve_again env) (chans c) c)) = core c" by (rule for_each_state) simp
  from steady_core [OF this] show ?thesis by (simp add: reresolve_def Let_def case_prod_beta)
qed

lemma steady_applyPending [simp]: "steady (applyPendingLocked env c) = steady c"
  by (simp add: applyPendingLocked_def Let_def case_prod_beta split: option.split)

lemma steady_cycle_begin [simp]: "steady (snd (cycle_begin env c)) = steady c"
  by (simp add: cycle_begin_def Let_def case_prod_beta)

lemma cycle_begin_fields [simp]: "k_n (fst (cycle_begin env c)) = cyc c" "k_ovr (fst (cycle_begin env c)) = overrides c"
proof -
  show "k_n (fst (cycle_begin env c)) = cyc c" by (simp add: cycle_begin_def Let_def case_prod_beta)
  have "overrides (applyPendingLocked env c') = overrides c'" for c'
    using steady_fields [OF steady_applyPending] by blast
  then show "k_ovr (fst (cycle_begin env c)) = overrides c"
    by (simp add: cycle_begin_def Let_def case_prod_beta)
qed

lemma readSensors_k [simp]:
  "k_n (fst (readSensors env k c)) = k_n k" "k_d (fst (readSensors env k c)) = k_d k"
  "k_ovr (fst (readSensors env k c)) = k_ovr k"
  by (simp_all add: readSensors_def Let_def case_prod_beta)

text \<open>The state in which \<^verbatim>\<open>cycle\<close> enters \<^verbatim>\<open>writeAndFinish\<close>, and what it hands over.\<close>

definition cycle_k :: "('r, 'w) env \<Rightarrow> ('r, 'w) Controller \<Rightarrow> cycleState" where
  "cycle_k env c = (let (k, c1) = cycle_begin env c in fst (readSensors env k c1))"

definition cycle_targets :: "('r, 'w) env \<Rightarrow> ('r, 'w) Controller \<Rightarrow> ('r, 'w) Controller" where
  "cycle_targets env c =
     (let (k, c1) = cycle_begin env c; (k1, c2) = readSensors env k c1
      in checkStall env k1 (computeTargets env k1 c2))"

lemma cycle_split: "cycle env c = writeAndFinish env (cycle_k env c) (cycle_targets env c)"
  by (simp add: cycle_def cycle_k_def cycle_targets_def Let_def case_prod_beta)

lemma steady_cycle_targets [simp]: "steady (cycle_targets env c) = steady c"
  by (simp add: cycle_targets_def Let_def case_prod_beta)

lemma cycle_targets_mem:
  assumes "ch \<in> set (chans (cycle_targets env c))"
  shows "ch \<in> set (chans (checkStall env (cycle_k env c)
    (computeTargets env (cycle_k env c) (snd (readSensors env (fst (cycle_begin env c)) (snd (cycle_begin env c)))))))"
  using assms by (simp add: cycle_targets_def cycle_k_def Let_def case_prod_beta)

end
