(* ===== verification/Demo.thy ===== *)
theory Demo
  imports Service
begin

text \<open>
  A concrete environment on which the witnesses evaluate the model: a clock that
  advances by one second per reading, one temperature, one tachometer value, a
  device that records the duties and stop values it is given and can be made to
  fail. A sensor handle is the sensor id.
\<close>

record demo_world =
  dw_clock :: int
  dw_temp :: int
  dw_rpm :: int
  dw_fail :: bool
  dw_writes :: "(int \<times> int) list"
  dw_stops :: "(int \<times> string) list"
  dw_alerts :: "string list"
  dw_files :: "(string, string) gomap"

definition demo_world0 :: demo_world where
  "demo_world0 = \<lparr>dw_clock = 1700000000, dw_temp = 50000, dw_rpm = 900, dw_fail = False,
     dw_writes = [], dw_stops = [], dw_alerts = [], dw_files = []\<rparr>"

definition demo_now :: "demo_world \<Rightarrow> gotime \<times> demo_world" where
  "demo_now w = (\<lparr>wall = dw_clock w * Second, mono = Some (dw_clock w * Second)\<rparr>, w\<lparr>dw_clock := dw_clock w + 1\<rparr>)"

definition demo_dev :: "string \<Rightarrow> ProfileChannel list \<Rightarrow> demo_world devops" where
  "demo_dev prof chs = \<lparr>
     dv_Profile = prof, dv_HwmonPath = ''/sys/class/hwmon/hwmon3'', dv_Channels = chs,
     dv_ReadRPM = (\<lambda>ch w. (Inr (dw_rpm w), w)), dv_ReadDuty = (\<lambda>ch w. (Inr 100, w)),
     dv_EnterManual = (\<lambda>ch w. (None, w)),
     dv_WriteDuty = (\<lambda>ch d w. if dw_fail w then (Some (mk_err ''write''), w)
        else (None, w\<lparr>dw_writes := dw_writes w @ [(ch, d)]\<rparr>)),
     dv_SafeStop = (\<lambda>ch s w. (None, w\<lparr>dw_stops := dw_stops w @ [(ch, s)]\<rparr>)),
     dv_ExtraTemps = [], dv_ReadEnable = None, dv_Register = None\<rparr>"

definition demo_env :: "string \<Rightarrow> ProfileChannel list \<Rightarrow> (string, demo_world) env" where
  "demo_env prof chs = \<lparr>
     e_Now = demo_now, e_newS = (\<lambda>sid w. (Inr sid, w)),
     e_Read = (\<lambda>r w. (Inr (dw_temp w), r, w)), e_Parts = (\<lambda>r. None),
     e_dev = demo_dev prof chs, e_DiskKind = (\<lambda>w. None),
     e_ReadFile = (\<lambda>p w. (Inl (mk_err ''none''), w)),
     e_WriteRun = (\<lambda>n f w. (None, w)),
     e_RemoveRun = (\<lambda>n w. (None, w)),
     e_ReadRun = (\<lambda>n w. (case map_of (dw_files w) n of None \<Rightarrow> (Inl (mk_err ''none''), w) | Some s \<Rightarrow> (Inr s, w))),
     e_ListRun = (\<lambda>w. (Inr (map fst (dw_files w)), w)),
     e_MkRun = (\<lambda>w. (None, w)),
     e_HookCheck = (\<lambda>p w. (\<lparr>hook_OK = True, hook_State = ''ok''\<rparr>, w)),
     e_Exec = (\<lambda>p ev w. ((''done'', ExOK), w)),
     e_Alert = (\<lambda>k m w. w\<lparr>dw_alerts := dw_alerts w @ [k]\<rparr>),
     e_Notify = (\<lambda>w. w), e_Status = (\<lambda>s m w. w), e_Wait = (\<lambda>d w. (True, w)), e_SaveHistory = (\<lambda>w. w)\<rparr>"

definition demo_tach :: "ProfileChannel list" where
  "demo_tach = [\<lparr>p_Index = 1, p_Label = ''PWM 1'', p_HasTach = True\<rparr>]"

definition demo_channel :: Channel where
  "demo_channel = \<lparr>ch_Name = ''case'', ch_PWM = 1, ch_Sensor = ''k10temp'', ch_Curve = [(35, 60), (60, 150), (80, 255)],
     ch_Critical = 88, ch_Stop = ''auto'', ch_Hysteresis = 0, ch_MinOn = 0, ch_Ceiling = 0, ch_PostSet = False\<rparr>"

definition demo_config :: Config where
  "demo_config = Default\<lparr>c_Channels := [demo_channel]\<rparr>"

definition demo_options :: Options where
  "demo_options = \<lparr>o_DryRun = False, o_RunDir = False, o_SyncAlerts = True, o_EmergencyHook = ''/etc/hook'',
     o_HWStatus = ''tested''\<rparr>"

text \<open>A controller on one fan, in a world given by its temperature, tachometer and health.\<close>

definition demo_start :: "int \<Rightarrow> int \<Rightarrow> bool \<Rightarrow> (string, demo_world) Controller" where
  "demo_start t r f = (init_controller demo_config demo_options
       (demo_world0\<lparr>dw_temp := t, dw_rpm := r, dw_fail := f\<rparr>))
     \<lparr>chans := [set_ceiling None (newChannel demo_channel True)]\<rparr>"

definition demo_cycle :: "(string \<rightharpoonup> int) \<Rightarrow> cycleState" where
  "demo_cycle ovr = \<lparr>k_n = 1, k_d = DefaultDaemon, k_ovr = ovr, k_nBad = 0, k_extra = [], k_watched = []\<rparr>"

text \<open>What the witnesses look at in a channel.\<close>

definition probe :: "'r channel \<Rightarrow> (bool \<times> int \<times> int) \<times> int \<times> int \<times> bool \<times> bool" where
  "probe ch = ((tempOK ch, temp ch, ch_Critical (cfg ch)), target ch, cur ch, ceilHit ch, stalled ch)"

abbreviation demo :: "(string, demo_world) env" where
  "demo \<equiv> demo_env ''it87xx'' demo_tach"

end
