(* ===== verification/Targets.thy ===== *)
theory Targets
  imports Frames Demo
begin

text \<open>
  The regulation step of one channel and of the channel list: what
  \<^verbatim>\<open>computeTargets\<close>, \<^verbatim>\<open>checkStall\<close> and \<^verbatim>\<open>writePhase\<close> do with an overheated, a stalled
  and an unreadable channel, and what a whole \<^verbatim>\<open>cycle\<close> leaves in the channels.
\<close>

section \<open>Ceilings\<close>

definition over_ceiling :: "'r channel \<Rightarrow> Part \<Rightarrow> bool" where
  "over_ceiling ch p \<longleftrightarrow> part_Value p \<ge> partCeiling ch (part_ID p) * 1000"

lemma hottest_loop_found:
  "fst (hottest_loop ch ps best a) = None \<longleftrightarrow> best = None \<and> (\<forall>p \<in> set ps. \<not> over_ceiling ch p)"
  by (induction ch ps best a rule: hottest_loop.induct)
    (auto simp: Let_def over_ceiling_def split: option.splits if_splits prod.splits)

lemma hottest_loop_recovered:
  "snd (hottest_loop ch ps best a) \<longleftrightarrow>
     a \<and> (\<forall>p \<in> set ps. part_Value p < (partCeiling ch (part_ID p) - ceilingRecover) * 1000)"
  by (induction ch ps best a rule: hottest_loop.induct)
    (auto simp: Let_def algebra_simps split: option.splits if_splits prod.splits)

lemma hottestPart_none: "fst (hottestPart ch) = None \<longleftrightarrow> (\<forall>p \<in> set (parts ch). \<not> over_ceiling ch p)"
  using hottest_loop_found [of ch "parts ch" None True]
  by (auto simp: hottestPart_def case_prod_beta)

lemma hottestPart_all: "snd (hottestPart ch) \<longleftrightarrow>
    (\<forall>p \<in> set (parts ch). part_Value p < (partCeiling ch (part_ID p) - ceilingRecover) * 1000)"
  by (simp add: hottestPart_def case_prod_beta hottest_loop_recovered)

lemma emergency_fields [simp]:
  "ceilHit (fst (emergency env d ch c)) = ceilHit ch"
  "target (fst (emergency env d ch c)) = target ch"
  "mode (fst (emergency env d ch c)) = mode ch"
  "holding (fst (emergency env d ch c)) = holding ch"
  "cfg (fst (emergency env d ch c)) = cfg ch"
  "hasTach (fst (emergency env d ch c)) = hasTach ch"
  "cur (fst (emergency env d ch c)) = cur ch"
  "written (fst (emergency env d ch c)) = written ch"
  "temp (fst (emergency env d ch c)) = temp ch"
  "tempOK (fst (emergency env d ch c)) = tempOK ch"
  "stalled (fst (emergency env d ch c)) = stalled ch"
  "rpm (fst (emergency env d ch c)) = rpm ch"
  "parts (fst (emergency env d ch c)) = parts ch"
  "partCeil (fst (emergency env d ch c)) = partCeil ch"
  "ceiling (fst (emergency env d ch c)) = ceiling ch"
  "holdTarget (fst (emergency env d ch c)) = holdTarget ch"
  "stallCnt (fst (emergency env d ch c)) = stallCnt ch"
  "recov (fst (emergency env d ch c)) = recov ch"
  "sensor (fst (emergency env d ch c)) = sensor ch"
  "ceilCycles (fst (emergency env d ch c)) = ceilCycles ch"
  "sensorBad (fst (emergency env d ch c)) = sensorBad ch"
  "held (fst (emergency env d ch c)) = held ch"
  "heldOK (fst (emergency env d ch c)) = heldOK ch"
  by (simp_all add: emergency_def Let_def case_prod_beta split: option.split)

text \<open>
  \<^verbatim>\<open>applyCeiling\<close> on a channel: in an episode the channel is forced to full speed, and
  an episode starts as soon as one part reaches its ceiling.
\<close>

lemma applyCeiling_fields [simp]:
  "cfg (fst (applyCeiling env d ch c)) = cfg ch"
  "hasTach (fst (applyCeiling env d ch c)) = hasTach ch"
  "cur (fst (applyCeiling env d ch c)) = cur ch"
  "written (fst (applyCeiling env d ch c)) = written ch"
  "temp (fst (applyCeiling env d ch c)) = temp ch"
  "tempOK (fst (applyCeiling env d ch c)) = tempOK ch"
  "stalled (fst (applyCeiling env d ch c)) = stalled ch"
  "rpm (fst (applyCeiling env d ch c)) = rpm ch"
  "parts (fst (applyCeiling env d ch c)) = parts ch"
  "partCeil (fst (applyCeiling env d ch c)) = partCeil ch"
  "ceiling (fst (applyCeiling env d ch c)) = ceiling ch"
  "holdTarget (fst (applyCeiling env d ch c)) = holdTarget ch"
  "stallCnt (fst (applyCeiling env d ch c)) = stallCnt ch"
  "recov (fst (applyCeiling env d ch c)) = recov ch"
  "sensor (fst (applyCeiling env d ch c)) = sensor ch"
  "sensorBad (fst (applyCeiling env d ch c)) = sensorBad ch"
  by (simp_all add: applyCeiling_def Let_def case_prod_beta split: option.split)

lemma applyCeiling_forced:
  "ceilHit (fst (applyCeiling env d ch c)) \<Longrightarrow> target (fst (applyCeiling env d ch c)) = 255 \<and>
     mode (fst (applyCeiling env d ch c)) = ModeCritical \<and> \<not> holding (fst (applyCeiling env d ch c))"
  "\<not> ceilHit (fst (applyCeiling env d ch c)) \<Longrightarrow> target (fst (applyCeiling env d ch c)) = target ch \<and>
     mode (fst (applyCeiling env d ch c)) = mode ch \<and> holding (fst (applyCeiling env d ch c)) = holding ch"
  by (simp_all add: applyCeiling_def Let_def case_prod_beta split: option.splits if_splits)

lemma applyCeiling_starts:
  assumes "p \<in> set (parts ch)" "over_ceiling ch p"
  shows "ceilHit (fst (applyCeiling env d ch c))"
proof -
  have 1: "fst (hottestPart ch) \<noteq> None" using assms by (auto simp: hottestPart_none)
  have 2: "\<not> snd (hottestPart ch)"
    using assms by (force simp: hottestPart_all over_ceiling_def ceilingRecover_def)
  from 1 2 show ?thesis
    by (auto simp: applyCeiling_def Let_def case_prod_beta split: option.split)
qed

section \<open>Targets\<close>

text \<open>The reasons to run a channel at full speed whatever its curve or an override says.\<close>

definition overheated :: "'r channel \<Rightarrow> bool" where
  "overheated ch \<longleftrightarrow> tempOK ch \<and>
     (temp ch \<ge> ch_Critical (cfg ch) * 1000 \<or> (\<exists>p \<in> set (parts ch). over_ceiling ch p))"

lemma heldTemp_fields [simp]:
  "cfg (snd (heldTemp ch)) = cfg ch" "temp (snd (heldTemp ch)) = temp ch" "parts (snd (heldTemp ch)) = parts ch"
  "partCeil (snd (heldTemp ch)) = partCeil ch" "ceiling (snd (heldTemp ch)) = ceiling ch"
  "hasTach (snd (heldTemp ch)) = hasTach ch" "tempOK (snd (heldTemp ch)) = tempOK ch"
  "mode (snd (heldTemp ch)) = mode ch" "holding (snd (heldTemp ch)) = holding ch"
  "holdTarget (snd (heldTemp ch)) = holdTarget ch" "stalled (snd (heldTemp ch)) = stalled ch"
  "cur (snd (heldTemp ch)) = cur ch" "rpm (snd (heldTemp ch)) = rpm ch" "recov (snd (heldTemp ch)) = recov ch"
  "stallCnt (snd (heldTemp ch)) = stallCnt ch" "ceilHit (snd (heldTemp ch)) = ceilHit ch"
  by (simp_all add: heldTemp_def Let_def)

lemma minOnHold_fields [simp]:
  "cfg (snd (minOnHold ch v now)) = cfg ch" "temp (snd (minOnHold ch v now)) = temp ch"
  "parts (snd (minOnHold ch v now)) = parts ch" "partCeil (snd (minOnHold ch v now)) = partCeil ch"
  "ceiling (snd (minOnHold ch v now)) = ceiling ch" "hasTach (snd (minOnHold ch v now)) = hasTach ch"
  "tempOK (snd (minOnHold ch v now)) = tempOK ch" "mode (snd (minOnHold ch v now)) = mode ch"
  "stalled (snd (minOnHold ch v now)) = stalled ch" "cur (snd (minOnHold ch v now)) = cur ch"
  "rpm (snd (minOnHold ch v now)) = rpm ch" "recov (snd (minOnHold ch v now)) = recov ch"
  "stallCnt (snd (minOnHold ch v now)) = stallCnt ch" "ceilHit (snd (minOnHold ch v now)) = ceilHit ch"
  by (simp_all add: minOnHold_def Let_def)

lemma target_known_fields [simp]:
  "cfg (target_known ovr now ch) = cfg ch"
  "temp (target_known ovr now ch) = temp ch"
  "parts (target_known ovr now ch) = parts ch"
  "partCeil (target_known ovr now ch) = partCeil ch"
  "ceiling (target_known ovr now ch) = ceiling ch"
  "hasTach (target_known ovr now ch) = hasTach ch"
  "tempOK (target_known ovr now ch) = tempOK ch"
  "stalled (target_known ovr now ch) = stalled ch"
  "cur (target_known ovr now ch) = cur ch"
  "rpm (target_known ovr now ch) = rpm ch"
  "recov (target_known ovr now ch) = recov ch"
  "stallCnt (target_known ovr now ch) = stallCnt ch"
  "ceilHit (target_known ovr now ch) = ceilHit ch"
  by (simp_all add: target_known_def Let_def case_prod_beta split: option.split)

lemma target_channel_fields [simp]:
  "cfg (fst (target_channel env k now ch c)) = cfg ch"
  "temp (fst (target_channel env k now ch c)) = temp ch"
  "parts (fst (target_channel env k now ch c)) = parts ch"
  "partCeil (fst (target_channel env k now ch c)) = partCeil ch"
  "ceiling (fst (target_channel env k now ch c)) = ceiling ch"
  "hasTach (fst (target_channel env k now ch c)) = hasTach ch"
  "tempOK (fst (target_channel env k now ch c)) = tempOK ch"
  "stalled (fst (target_channel env k now ch c)) = stalled ch"
  "cur (fst (target_channel env k now ch c)) = cur ch"
  "rpm (fst (target_channel env k now ch c)) = rpm ch"
  "recov (fst (target_channel env k now ch c)) = recov ch"
  "stallCnt (fst (target_channel env k now ch c)) = stallCnt ch"
  by (simp_all add: target_channel_def target_unknown_def)

lemma over_ceiling_cong:
  "partCeil ch' = partCeil ch \<Longrightarrow> ceiling ch' = ceiling ch \<Longrightarrow> over_ceiling ch' = over_ceiling ch"
  by (simp add: over_ceiling_def partCeiling_def fun_eq_iff split: option.split)

lemma target_channel_hot:
  assumes "overheated ch \<or> ceilHit (fst (target_channel env k now ch c))"
  shows "target (fst (target_channel env k now ch c)) = 255" (is ?t)
    and "mode (fst (target_channel env k now ch c)) \<notin> {ModeAuto, ModeManual}" (is ?m)
proof -
  let ?k = "target_known (k_ovr k) now ch"
  have crit: "temp ch \<ge> ch_Critical (cfg ch) * 1000 \<Longrightarrow> target ?k = 255 \<and> mode ?k = ModeCritical"
    by (simp add: target_known_def Let_def case_prod_beta split: option.split)
  have ceil: "ceilHit (fst (applyCeiling env (k_d k) ?k c))" if "p \<in> set (parts ch)" "over_ceiling ch p" for p
    using applyCeiling_starts [of p ?k] that by (simp add: over_ceiling_cong [of ?k ch])
  show ?t ?m
    using assms crit ceil applyCeiling_forced [of env "k_d k" ?k c]
    by (cases "ceilHit (fst (applyCeiling env (k_d k) ?k c))";
        auto simp: target_channel_def target_unknown_def overheated_def split: if_splits)+
qed

lemma target_channel_unknown:
  "\<not> tempOK ch \<Longrightarrow> mode (fst (target_channel env k now ch c)) = ModeSensor \<and>
     target (fst (target_channel env k now ch c)) = (if ceilHit ch then 255 else safeDuty ch)"
  by (simp add: target_channel_def target_unknown_def safeDuty_def)

section \<open>Stall detection\<close>

lemma stall_channel_fields [simp]:
  "cfg (fst (stall_channel env d ch c)) = cfg ch"
  "temp (fst (stall_channel env d ch c)) = temp ch"
  "parts (fst (stall_channel env d ch c)) = parts ch"
  "partCeil (fst (stall_channel env d ch c)) = partCeil ch"
  "ceiling (fst (stall_channel env d ch c)) = ceiling ch"
  "hasTach (fst (stall_channel env d ch c)) = hasTach ch"
  "tempOK (fst (stall_channel env d ch c)) = tempOK ch"
  "cur (fst (stall_channel env d ch c)) = cur ch"
  "rpm (fst (stall_channel env d ch c)) = rpm ch"
  "ceilHit (fst (stall_channel env d ch c)) = ceilHit ch"
  "written (fst (stall_channel env d ch c)) = written ch"
  "holding (fst (stall_channel env d ch c)) = holding ch"
  "holdTarget (fst (stall_channel env d ch c)) = holdTarget ch"
  "sensor (fst (stall_channel env d ch c)) = sensor ch"
  by (simp_all add: stall_channel_def Let_def)

lemma stall_channel_target:
  "target (fst (stall_channel env d ch c)) = target ch \<and> mode (fst (stall_channel env d ch c)) = mode ch \<or>
   target (fst (stall_channel env d ch c)) = 255 \<and> mode (fst (stall_channel env d ch c)) = ModeStall"
  by (simp add: stall_channel_def Let_def)

lemma stall_channel_stalled:
  "hasTach ch \<Longrightarrow> stalled (fst (stall_channel env d ch c)) \<or> stalled ch \<Longrightarrow>
     target (fst (stall_channel env d ch c)) = 255 \<and> mode (fst (stall_channel env d ch c)) = ModeStall"
  by (simp add: stall_channel_def Let_def split: if_splits)

section \<open>The channel list\<close>

lemma chans_computeTargets:
  "chans (computeTargets env k c) =
     fst (for_each (target_channel env k (fst (Now env c))) (chans c) (snd (Now env c)))"
  by (simp add: computeTargets_def Let_def case_prod_beta)

lemma chans_checkStall: "chans (checkStall env k c) = fst (for_each (stall_channel env (k_d k)) (chans c) c)"
  by (simp add: checkStall_def Let_def case_prod_beta)

text \<open>Every channel after the two steps comes from one channel before them.\<close>

lemma targets_mem:
  assumes "ch' \<in> set (chans (checkStall env k (computeTargets env k c)))"
  obtains ch s s' where "ch \<in> set (chans c)"
    "ch' = fst (stall_channel env (k_d k) (fst (target_channel env k (fst (Now env c)) ch s)) s')"
proof -
  obtain ch1 s' where 1: "ch1 \<in> set (chans (computeTargets env k c))" "ch' = fst (stall_channel env (k_d k) ch1 s')"
    using assms unfolding chans_checkStall by (elim for_each_mem [where g = core, rotated]) auto
  obtain ch s where "ch \<in> set (chans c)" "ch1 = fst (target_channel env k (fst (Now env c)) ch s)"
    using 1(1) unfolding chans_computeTargets by (elim for_each_mem [where g = core, rotated]) auto
  with 1 that show ?thesis by blast
qed

lemma targets_safe:
  assumes "ch' \<in> set (chans (checkStall env k (computeTargets env k c)))"
  shows "overheated ch' \<or> ceilHit ch' \<or> hasTach ch' \<and> stalled ch' \<Longrightarrow>
      target ch' = 255 \<and> mode ch' \<notin> {ModeAuto, ModeManual}"
    and "\<not> tempOK ch' \<Longrightarrow> target ch' \<in> {255, safeDuty ch'} \<and> mode ch' \<in> {ModeSensor, ModeStall}"
proof -
  obtain ch s s' where ch: "ch \<in> set (chans c)"
    "ch' = fst (stall_channel env (k_d k) (fst (target_channel env k (fst (Now env c)) ch s)) s')"
    using assms by (rule targets_mem)
  let ?t = "fst (target_channel env k (fst (Now env c)) ch s)"
  have "over_ceiling ch' = over_ceiling ch" by (rule over_ceiling_cong) (simp_all add: ch)
  then have over: "overheated ch' = overheated ch" by (simp add: overheated_def, simp add: ch)
  show "overheated ch' \<or> ceilHit ch' \<or> hasTach ch' \<and> stalled ch' \<Longrightarrow>
      target ch' = 255 \<and> mode ch' \<notin> {ModeAuto, ModeManual}"
    using target_channel_hot [of ch env k "fst (Now env c)" s] stall_channel_target [of env "k_d k" ?t s']
      stall_channel_stalled [of ?t env "k_d k" s'] over
    by (auto simp: ch)
  show "\<not> tempOK ch' \<Longrightarrow> target ch' \<in> {255, safeDuty ch'} \<and> mode ch' \<in> {ModeSensor, ModeStall}"
    using target_channel_unknown [of ch env k "fst (Now env c)" s] stall_channel_target [of env "k_d k" ?t s']
    by (auto simp: ch safeDuty_def)
qed

section \<open>Writing\<close>

text \<open>What a write leaves alone of a channel: everything but the fields below.\<close>

definition unwritten :: "'r channel \<Rightarrow> 'r channel" where
  "unwritten ch = ch\<lparr>regDuty := 0, regAt := zeroTime, regPending := False, cur := 0, written := False,
     mode := ModeAuto, target := 0\<rparr>"

lemma unwritten_fields:
  assumes "unwritten ch' = unwritten ch"
  shows "cfg ch' = cfg ch"
    "hasTach ch' = hasTach ch"
    "sensor ch' = sensor ch"
    "rpm ch' = rpm ch"
    "temp ch' = temp ch"
    "tempOK ch' = tempOK ch"
    "sensorBad ch' = sensorBad ch"
    "stalled ch' = stalled ch"
    "recov ch' = recov ch"
    "stallCnt ch' = stallCnt ch"
    "ceiling ch' = ceiling ch"
    "partCeil ch' = partCeil ch"
    "parts ch' = parts ch"
    "ceilHit ch' = ceilHit ch"
    "ceilCycles ch' = ceilCycles ch"
    "emergencyFired ch' = emergencyFired ch"
    "held ch' = held ch"
    "heldOK ch' = heldOK ch"
    "holding ch' = holding ch"
    "holdTarget ch' = holdTarget ch"
    "holdUntil ch' = holdUntil ch"
  using arg_cong [OF assms, of cfg]
    arg_cong [OF assms, of hasTach]
    arg_cong [OF assms, of sensor]
    arg_cong [OF assms, of rpm]
    arg_cong [OF assms, of temp]
    arg_cong [OF assms, of tempOK]
    arg_cong [OF assms, of sensorBad]
    arg_cong [OF assms, of stalled]
    arg_cong [OF assms, of recov]
    arg_cong [OF assms, of stallCnt]
    arg_cong [OF assms, of ceiling]
    arg_cong [OF assms, of partCeil]
    arg_cong [OF assms, of parts]
    arg_cong [OF assms, of ceilHit]
    arg_cong [OF assms, of ceilCycles]
    arg_cong [OF assms, of emergencyFired]
    arg_cong [OF assms, of held]
    arg_cong [OF assms, of heldOK]
    arg_cong [OF assms, of holding]
    arg_cong [OF assms, of holdTarget]
    arg_cong [OF assms, of holdUntil]
  by (simp_all add: unwritten_def)

lemma ctl_write_channel [simp]:
  "unwritten (fst (snd (ctl_write env ch duty n c))) = unwritten ch"
  "mode (fst (snd (ctl_write env ch duty n c))) = mode ch"
  "target (fst (snd (ctl_write env ch duty n c))) = target ch"
  by (simp_all add: ctl_write_def noteRegisterWrite_def unwritten_def Let_def case_prod_beta split: option.split)

lemma unwritten_update [simp]:
  "unwritten (ch\<lparr>cur := x\<rparr>) = unwritten ch" "unwritten (ch\<lparr>written := b\<rparr>) = unwritten ch"
  "unwritten (ch\<lparr>mode := m\<rparr>) = unwritten ch" "unwritten (ch\<lparr>target := x\<rparr>) = unwritten ch"
  "unwritten (ch\<lparr>regPending := b\<rparr>) = unwritten ch"
  by (simp_all add: unwritten_def)

text \<open>A device on which no duty write fails.\<close>

definition writes_ok :: "'w devops \<Rightarrow> bool" where
  "writes_ok dev \<longleftrightarrow> (\<forall>p d w. fst (dv_WriteDuty dev p d w) = None)"

lemma ctl_write_ok:
  assumes "writes_ok (e_dev env)"
  shows "fst (ctl_write env ch duty n c) = None"
  using assms by (simp add: writes_ok_def ctl_write_def dcrDeviation_def Let_def case_prod_beta)

lemma write_channel_fields [simp]:
  "unwritten (fst (write_channel env d n ch st)) = unwritten ch"
  "mode (fst (write_channel env d n ch st)) = mode ch"
  "target (fst (write_channel env d n ch st)) = target ch"
  by (simp_all add: write_channel_def Let_def case_prod_beta split: option.split sum.split)

lemma write_channel_cur:
  assumes "\<not> o_DryRun (opts (snd st))"
  shows "cur (fst (write_channel env d n ch st)) = next_duty d n ch \<or>
    cur (fst (write_channel env d n ch st)) = -1 \<and> \<not> writes_ok (e_dev env)"
proof (cases "next_duty d n ch \<noteq> cur ch \<or> n mod rewriteEvery = 0")
  case True
  then show ?thesis
    using assms ctl_write_ok [of env ch "next_duty d n ch" n "snd st"]
    by (cases "fst (ctl_write env ch (next_duty d n ch) n (snd st))")
      (auto simp: write_channel_def Let_def case_prod_beta)
next
  case False
  then show ?thesis using assms by (simp add: write_channel_def Let_def case_prod_beta)
qed

lemma failsafe_channel_fields [simp]:
  "unwritten (fst (failsafe_channel env m ch st)) = unwritten ch"
  "mode (fst (failsafe_channel env m ch st)) = m"
  "target (fst (failsafe_channel env m ch st)) = 255"
  by (simp_all add: failsafe_channel_def Let_def case_prod_beta split: option.split)

lemma failsafe_channel_cur:
  assumes "\<not> o_DryRun (opts (snd st))"
  shows "cur (fst (failsafe_channel env m ch st)) = 255 \<or>
    cur (fst (failsafe_channel env m ch st)) = -1 \<and> \<not> writes_ok (e_dev env)"
proof -
  let ?ch = "ch\<lparr>mode := m, target := 255\<rparr>" and ?c = "snd st"
  show ?thesis
    using assms ctl_write_ok [of env ?ch 255 "cyc ?c" ?c]
    by (cases "fst (ctl_write env ?ch 255 (cyc ?c) ?c)")
      (auto simp: failsafe_channel_def Let_def case_prod_beta)
qed

text \<open>A register comparison clears only the pending mark.\<close>

definition unregistered :: "'r channel \<Rightarrow> 'r channel" where
  "unregistered ch = ch\<lparr>regPending := False\<rparr>"

lemma check_register1_fields:
  "unregistered (fst (check_register1 env rv now ch c)) = unregistered ch"
  by (simp add: check_register1_def unregistered_def Let_def case_prod_beta)

lemma checkRegisters_mem:
  assumes "ch' \<in> set (chans (checkRegisters env c))"
  obtains ch where "ch \<in> set (chans c)" "unregistered ch' = unregistered ch"
proof -
  consider "ch' \<in> set (chans c)"
    | rv where "ch' \<in> set (fst (for_each (check_register1 env rv (fst (Now env c))) (chans c) (snd (Now env c))))"
    using assms by (auto simp: checkRegisters_def Let_def case_prod_beta split: option.splits if_splits)
  then show ?thesis
  proof cases
    case (2 rv)
    then obtain x s where "x \<in> set (chans c)" "ch' = fst (check_register1 env rv (fst (Now env c)) x s)"
      by (elim for_each_mem [where g = core, rotated]) auto
    with that [of x] show ?thesis by (simp add: check_register1_fields)
  qed (use that in blast)
qed

section \<open>The write phase and the failsafe\<close>

lemma core_chans_cong: "core c' = core c \<Longrightarrow> core (c'\<lparr>chans := chs\<rparr>) = core (c\<lparr>chans := chs\<rparr>)"
  by (simp add: core_def)

lemma core_checkRegisters:
  "core (checkRegisters env c) = core (c\<lparr>chans := chans (checkRegisters env c)\<rparr>)"
proof -
  have *: "core (snd (for_each (check_register1 env rv now) chs s)) = core s" for rv now chs s
    by (rule for_each_state) simp
  show ?thesis
    by (auto simp: checkRegisters_def Let_def case_prod_beta * intro!: core_chans_cong split: option.split)
qed

lemma core_chans_eqD:
  assumes "core c' = core (c\<lparr>chans := chs\<rparr>)"
  shows "opts c' = opts c" "stopped c' = stopped c" "config c' = config c" "cyc c' = cyc c"
    "overrides c' = overrides c" "pending c' = pending c" "wrErr c' = wrErr c" "fsFail c' = fsFail c"
    "chans c' = chs" "stopOnce c' = stopOnce c"
  using core_fields [OF assms] by simp_all

lemma core_for_each_write: "core (snd (snd (for_each (write_channel env d n) chs st))) = core (snd st)"
  by (rule for_each_state [of "\<lambda>st. core (snd st)"]) (rule core_write_channel)

lemma core_for_each_failsafe: "core (snd (snd (for_each (failsafe_channel env m) chs st))) = core (snd st)"
  by (rule for_each_state [of "\<lambda>st. core (snd st)"]) (rule core_failsafe_channel)

lemma core_writePhase:
  "core (snd (writePhase env d n c)) = core (c\<lparr>chans := chans (snd (writePhase env d n c))\<rparr>)"
proof (cases "stopped c")
  case False
  define c1 where "c1 = checkRegisters env c"
  define r where "r = for_each (write_channel env d n) (chans c1) ((False, False), c1)"
  have "core (snd (snd r)) = core (c\<lparr>chans := chans c1\<rparr>)"
    using core_for_each_write [of env d n "chans c1" "((False, False), c1)"] core_checkRegisters [of env c]
    by (simp add: r_def c1_def)
  from core_fields [OF this] False show ?thesis
    by (simp add: writePhase_def Let_def case_prod_beta r_def [symmetric] c1_def [symmetric] core_def)
qed (simp add: writePhase_def core_def)

lemma next_duty_unregistered:
  "unregistered ch' = unregistered ch \<Longrightarrow> next_duty d n ch' = next_duty d n ch \<and> unwritten ch' = unwritten ch \<and>
     mode ch' = mode ch \<and> target ch' = target ch \<and> cur ch' = cur ch"
proof -
  assume eq: "unregistered ch' = unregistered ch"
  have f: "mode ch' = mode ch" "target ch' = target ch" "cur ch' = cur ch"
    using arg_cong [OF eq, of mode] arg_cong [OF eq, of target] arg_cong [OF eq, of cur]
    by (simp_all add: unregistered_def)
  moreover have "unwritten x = unwritten (unregistered x)" for x :: "'a channel"
    by (simp add: unregistered_def)
  ultimately show ?thesis using eq by (metis next_duty_def)
qed

lemma writePhase_mem:
  assumes "\<not> stopped c" "\<not> o_DryRun (opts c)" "ch' \<in> set (chans (snd (writePhase env d n c)))"
  obtains ch where "ch \<in> set (chans c)" "unwritten ch' = unwritten ch" "mode ch' = mode ch" "target ch' = target ch"
    "cur ch' = next_duty d n ch \<or> cur ch' = -1 \<and> \<not> writes_ok (e_dev env)"
proof -
  define c1 where "c1 = checkRegisters env c"
  have o1: "opts c1 = opts c" using core_chans_eqD [OF core_checkRegisters, of env c] by (simp add: c1_def)
  have "ch' \<in> set (fst (for_each (write_channel env d n) (chans c1) ((False, False), c1)))"
    using assms by (simp add: writePhase_def Let_def case_prod_beta c1_def)
  then obtain ch1 st where 1: "ch1 \<in> set (chans c1)" "core (snd st) = core c1" "ch' = fst (write_channel env d n ch1 st)"
    by (elim for_each_mem [where g = "\<lambda>st. core (snd st)", rotated]) (auto simp: core_write_channel)
  obtain ch where ch: "ch \<in> set (chans c)" "unregistered ch1 = unregistered ch"
    using 1(1) checkRegisters_mem unfolding c1_def by blast
  have "\<not> o_DryRun (opts (snd st))" using core_fields [OF 1(2)] o1 assms(2) by simp
  from write_channel_cur [OF this, of env d n ch1] next_duty_unregistered [OF ch(2)] ch(1) that 1(3)
  show ?thesis by auto
qed

lemma failsafeAll_mem:
  assumes "\<not> stopped c" "\<not> o_DryRun (opts c)" "ch' \<in> set (chans (snd (failsafeAll env m c)))"
  obtains ch where "ch \<in> set (chans c)" "unwritten ch' = unwritten ch" "mode ch' = m" "target ch' = 255"
    "cur ch' = 255 \<or> cur ch' = -1 \<and> \<not> writes_ok (e_dev env)"
proof -
  have "ch' \<in> set (fst (for_each (failsafe_channel env m) (chans c) (True, c)))"
    using assms by (auto simp: failsafeAll_def Let_def case_prod_beta split: if_splits)
  then obtain ch st where 1: "ch \<in> set (chans c)" "core (snd st) = core c" "ch' = fst (failsafe_channel env m ch st)"
    by (elim for_each_mem [where g = "\<lambda>st. core (snd st)", rotated]) (auto simp: core_failsafe_channel)
  have "\<not> o_DryRun (opts (snd st))" using core_fields [OF 1(2)] assms(2) by simp
  from failsafe_channel_cur [OF this, of env m ch] that [OF 1(1)] 1(3) show ?thesis by auto
qed

lemma core_failsafeAll:
  "core (snd (failsafeAll env m c)) = core (c\<lparr>chans := chans (snd (failsafeAll env m c))\<rparr>)"
  using core_fields [OF core_for_each_failsafe, of env m "chans c" "(True, c)"]
  by (simp add: failsafeAll_def Let_def case_prod_beta core_def)

section \<open>Reading and re-resolving\<close>

text \<open>Re-resolution installs a reader and its ceilings, nothing else.\<close>

definition unresolved :: "'r channel \<Rightarrow> 'r channel" where
  "unresolved ch = ch\<lparr>sensor := None, ceiling := 0, partCeil := []\<rparr>"

lemma resolve_again_fields: "unresolved (fst (resolve_again env ch c)) = unresolved ch"
  by (auto simp: resolve_again_def set_ceiling_def unresolved_def Let_def case_prod_beta split: prod.split option.split)

lemma unresolved_fields:
  assumes "unresolved ch' = unresolved ch"
  shows "cfg ch' = cfg ch" "temp ch' = temp ch" "tempOK ch' = tempOK ch" "ceilHit ch' = ceilHit ch"
    "hasTach ch' = hasTach ch" "stalled ch' = stalled ch" "cur ch' = cur ch" "target ch' = target ch"
    "mode ch' = mode ch" "holding ch' = holding ch" "holdTarget ch' = holdTarget ch" "rpm ch' = rpm ch"
    "parts ch' = parts ch" "written ch' = written ch" "stallCnt ch' = stallCnt ch" "recov ch' = recov ch"
  using arg_cong [OF assms, of stallCnt] arg_cong [OF assms, of recov] arg_cong [OF assms, of cfg] arg_cong [OF assms, of temp] arg_cong [OF assms, of tempOK]
    arg_cong [OF assms, of ceilHit] arg_cong [OF assms, of hasTach] arg_cong [OF assms, of stalled]
    arg_cong [OF assms, of cur] arg_cong [OF assms, of target] arg_cong [OF assms, of mode]
    arg_cong [OF assms, of holding] arg_cong [OF assms, of holdTarget] arg_cong [OF assms, of rpm]
    arg_cong [OF assms, of parts] arg_cong [OF assms, of written]
  by (simp_all add: unresolved_def)

lemmas resolve_fields [simp] = unresolved_fields [OF resolve_again_fields]

lemma core_reresolve: "core (reresolve env c) = core (c\<lparr>chans := chans (reresolve env c)\<rparr>)"
proof -
  have "core (snd (for_each (resolve_again env) (chans c) c)) = core c"
    by (rule for_each_state) simp
  from core_fields [OF this] show ?thesis
    by (simp add: reresolve_def Let_def case_prod_beta core_def)
qed

lemma reresolve_mem:
  assumes "ch' \<in> set (chans (reresolve env c))"
  obtains ch where "ch \<in> set (chans c)" "unresolved ch' = unresolved ch"
proof -
  have "ch' \<in> set (fst (for_each (resolve_again env) (chans c) c))"
    using assms by (simp add: reresolve_def Let_def case_prod_beta)
  then obtain ch s where "ch \<in> set (chans c)" "ch' = fst (resolve_again env ch s)"
    by (elim for_each_mem [where g = core, rotated]) auto
  with that resolve_again_fields show ?thesis by blast
qed

lemmas chan_frames [simp] =
  core_chans_eqD(1-8,10) [OF core_checkRegisters] core_chans_eqD(1-8,10) [OF core_writePhase]
  core_chans_eqD(1-8,10) [OF core_failsafeAll] core_chans_eqD(1-8,10) [OF core_reresolve]

section \<open>A whole cycle\<close>

lemma finishCycle_fields [simp]:
  "chans (finishCycle env ex wv st d c) = chans c" "opts (finishCycle env ex wv st d c) = opts c"
  "stopped (finishCycle env ex wv st d c) = stopped c" "cyc (finishCycle env ex wv st d c) = cyc c + 1"
  "wrErr (finishCycle env ex wv st d c) = wrErr c" "fsFail (finishCycle env ex wv st d c) = fsFail c"
  "config (finishCycle env ex wv st d c) = config c" "overrides (finishCycle env ex wv st d c) = overrides c"
  "pending (finishCycle env ex wv st d c) = pending c" "stopOnce (finishCycle env ex wv st d c) = stopOnce c"
  by (simp_all add: finishCycle_def pushHistoryLocked_def Let_def case_prod_beta)

lemma noteFailsafe_fields [simp]:
  "chans (snd (noteFailsafe env b c)) = chans c" "opts (snd (noteFailsafe env b c)) = opts c"
  "stopped (snd (noteFailsafe env b c)) = stopped c" "wrErr (snd (noteFailsafe env b c)) = wrErr c"
  "cyc (snd (noteFailsafe env b c)) = cyc c" "config (snd (noteFailsafe env b c)) = config c"
  "overrides (snd (noteFailsafe env b c)) = overrides c" "pending (snd (noteFailsafe env b c)) = pending c"
  "stopOnce (snd (noteFailsafe env b c)) = stopOnce c"
  by (simp_all add: noteFailsafe_def Let_def)

lemma writeAndFinish_mem:
  assumes ns: "\<not> stopped c" and nd: "\<not> o_DryRun (opts c)"
    and mem: "ch' \<in> set (chans (snd (writeAndFinish env k c)))"
  obtains ch where "ch \<in> set (chans c)" "cfg ch' = cfg ch" "temp ch' = temp ch" "tempOK ch' = tempOK ch"
    "ceilHit ch' = ceilHit ch" "hasTach ch' = hasTach ch" "stalled ch' = stalled ch"
    "target ch' = target ch \<and> mode ch' = mode ch \<and>
       (cur ch' = next_duty (k_d k) (k_n k) ch \<or> cur ch' = -1 \<and> \<not> writes_ok (e_dev env)) \<or>
     target ch' = 255 \<and> mode ch' = ModeFailsafe \<and> (cur ch' = 255 \<or> cur ch' = -1 \<and> \<not> writes_ok (e_dev env))"
proof -
  define c1 where "c1 = snd (writePhase env (k_d k) (k_n k) c)"
  have c1: "opts c1 = opts c" "stopped c1 = stopped c"
    by (simp_all add: c1_def)
  define c2 where "c2 = reresolve env (raise_alert env ''write''
      (Msg ''repeated pwm write errors -> all channels 255; check driver/EC (dmesg, journalctl -u n5-fangov)'' [])
      (logf ''pwm write error (%d consecutive)'' [AI (wrErr c1 + 1)] (c1\<lparr>wrErr := wrErr c1 + 1\<rparr>)))"
  have c2: "opts c2 = opts c1" "stopped c2 = stopped c1"
    by (simp_all add: c2_def)
  have raised: "chans (raise_alert env kind m (logf f a (c1\<lparr>wrErr := wrErr c1 + 1\<rparr>))) = chans c1" for kind m f a
    by simp
  have "ch' \<in> set (chans c1) \<or> ch' \<in> set (chans (snd (failsafeAll env ModeFailsafe c2)))"
    using mem by (simp add: writeAndFinish_def Let_def case_prod_beta c1_def [symmetric] c2_def
        split: if_splits)
  then show ?thesis
  proof
    assume "ch' \<in> set (chans c1)"
    then obtain ch where ch: "ch \<in> set (chans c)" "unwritten ch' = unwritten ch" "mode ch' = mode ch"
      "target ch' = target ch" "cur ch' = next_duty (k_d k) (k_n k) ch \<or> cur ch' = -1 \<and> \<not> writes_ok (e_dev env)"
      using writePhase_mem [OF ns nd] unfolding c1_def by blast
    show ?thesis using unwritten_fields [OF ch(2)] ch by (intro that [of ch]) simp_all
  next
    assume "ch' \<in> set (chans (snd (failsafeAll env ModeFailsafe c2)))"
    then obtain ch2 where ch2: "ch2 \<in> set (chans c2)" "unwritten ch' = unwritten ch2" "mode ch' = ModeFailsafe"
      "target ch' = 255" "cur ch' = 255 \<or> cur ch' = -1 \<and> \<not> writes_ok (e_dev env)"
      using failsafeAll_mem [of c2 ch' env ModeFailsafe] c1 c2 ns nd by auto
    obtain ch1 where ch1: "ch1 \<in> set (chans c1)" "unresolved ch2 = unresolved ch1"
      using ch2(1) reresolve_mem raised unfolding c2_def by metis
    obtain ch where ch: "ch \<in> set (chans c)" "unwritten ch1 = unwritten ch"
      using writePhase_mem [OF ns nd] ch1(1) unfolding c1_def by blast
    show ?thesis
      using unwritten_fields [OF ch2(2)] unresolved_fields [OF ch1(2)] unwritten_fields [OF ch(2)] ch2
      by (intro that [OF ch(1)]) simp_all
  qed
qed

lemma writeAndFinish_ok:
  assumes "\<not> fst (fst (writePhase env (k_d k) (k_n k) c))"
  shows "chans (snd (writeAndFinish env k c)) = chans (snd (writePhase env (k_d k) (k_n k) c))"
  using assms by (simp add: writeAndFinish_def Let_def case_prod_beta)

section \<open>Properties\<close>

text \<open>
  C1: whatever the curve, an override or the rest of the state says, a regulation
  cycle drives every channel to full speed that is at or above its critical
  temperature, in a ceiling episode, or stalled: its target is 255, and its duty
  is 255 at the end of the cycle, or unknown because its write failed.
\<close>

theorem cycle_forces_full_speed:
  assumes run: "\<not> stopped c" "\<not> o_DryRun (opts c)"
    and mem: "ch \<in> set (chans (snd (cycle env c)))"
    and hot: "tempOK ch \<and> temp ch \<ge> ch_Critical (cfg ch) * 1000 \<or> ceilHit ch \<or> hasTach ch \<and> stalled ch"
  shows "target ch = 255 \<and> (cur ch = 255 \<or> cur ch = -1 \<and> \<not> writes_ok (e_dev env))"
proof -
  let ?k = "cycle_k env c" and ?t = "cycle_targets env c"
  have t: "\<not> stopped ?t" "\<not> o_DryRun (opts ?t)"
    using run steady_fields [OF steady_cycle_targets, of env c] by simp_all
  obtain ch0 where ch0: "ch0 \<in> set (chans ?t)" "cfg ch = cfg ch0" "temp ch = temp ch0" "tempOK ch = tempOK ch0"
      "ceilHit ch = ceilHit ch0" "hasTach ch = hasTach ch0" "stalled ch = stalled ch0"
    and end_: "target ch = target ch0 \<and> mode ch = mode ch0 \<and>
       (cur ch = next_duty (k_d ?k) (k_n ?k) ch0 \<or> cur ch = -1 \<and> \<not> writes_ok (e_dev env)) \<or>
     target ch = 255 \<and> mode ch = ModeFailsafe \<and> (cur ch = 255 \<or> cur ch = -1 \<and> \<not> writes_ok (e_dev env))"
    using writeAndFinish_mem [OF t, of ch env ?k] mem by (auto simp: cycle_split)
  have "overheated ch0 \<or> ceilHit ch0 \<or> hasTach ch0 \<and> stalled ch0"
    using hot ch0 by (auto simp: overheated_def)
  with targets_safe(1) [OF cycle_targets_mem, OF ch0(1)]
  have "target ch0 = 255" "mode ch0 \<notin> {ModeAuto, ModeManual}" by simp_all
  with end_ show ?thesis by (auto simp: next_duty_def)
qed

text \<open>At 90 degrees, above the critical 88, a manual override of 20 does not keep the fan slow.\<close>

theorem cycle_forces_full_speed_witness:
  "let c = (demo_start 90000 900 False)\<lparr>overrides := [''case'' \<mapsto> 20]\<rparr>; ch = hd (chans (snd (cycle demo c)))
   in \<not> stopped c \<and> \<not> o_DryRun (opts c) \<and> ch \<in> set (chans (snd (cycle demo c))) \<and>
      temp ch \<ge> ch_Critical (cfg ch) * 1000 \<and> target ch = 255 \<and> cur ch = 255"
proof -
  let ?c = "(demo_start 90000 900 False)\<lparr>overrides := [''case'' \<mapsto> 20]\<rparr>"
  let ?w = "writePhase demo (k_d (cycle_k demo ?c)) (k_n (cycle_k demo ?c)) (cycle_targets demo ?c)"
  let ?ch = "hd (chans (snd ?w))"
  have "(case ?w of ((e, _), c) \<Rightarrow> (e, map probe (chans c))) = (False, [((True, 90000, 88), 255, 255, False, False)])"
    by code_simp
  then have w: "\<not> fst (fst ?w)" "map probe (chans (snd ?w)) = [((True, 90000, 88), 255, 255, False, False)]"
    by (simp_all add: case_prod_beta)
  then obtain ch where ch: "chans (snd ?w) = [ch]" "tempOK ch" "temp ch = 90000" "ch_Critical (cfg ch) = 88" "cur ch = 255"
    by (auto simp: probe_def map_eq_Cons_conv)
  have c: "chans (snd (cycle demo ?c)) = [ch]"
    using writeAndFinish_ok [OF w(1)] ch(1) by (simp add: cycle_split)
  have run: "\<not> stopped ?c" "\<not> o_DryRun (opts ?c)"
    by (simp_all add: demo_start_def init_controller_def demo_options_def)
  have "target ch = 255"
    using cycle_forces_full_speed [OF run, of ch demo] ch c by simp
  with run ch c show ?thesis by (simp add: Let_def)
qed



end
