(* ===== verification/Safety.thy ===== *)
theory Safety
  imports Targets
begin

text \<open>
  What reaches the hardware. \<open>rewire\<close> replaces the writing operations of the
  device; a result that does not change when they are replaced did not call
  them. So an equation \<open>cycle (rewire env \<dots>) c = cycle env c\<close> states that the cycle
  performs no write (after \<^verbatim>\<open>Stop\<close>, in a dry run) or no write outside the duties on which
  the replacement agrees.
\<close>

named_theorems rewired \<open>operations that do not write\<close>

section \<open>Replacing the writing operations\<close>

definition rewire ::
  "('r, 'w) env \<Rightarrow> (int \<Rightarrow> int \<Rightarrow> 'w \<Rightarrow> goerror option \<times> 'w) \<Rightarrow> (int \<Rightarrow> 'w \<Rightarrow> goerror option \<times> 'w)
    \<Rightarrow> (int \<Rightarrow> string \<Rightarrow> 'w \<Rightarrow> goerror option \<times> 'w) \<Rightarrow> ('r, 'w) env" where
  "rewire env f g h = env\<lparr>e_dev := (e_dev env)\<lparr>dv_WriteDuty := f, dv_EnterManual := g, dv_SafeStop := h\<rparr>\<rparr>"

lemma rewire_env [rewired, simp]:
  "e_Now (rewire env f g h) = e_Now env"
  "e_newS (rewire env f g h) = e_newS env"
  "e_Read (rewire env f g h) = e_Read env"
  "e_Parts (rewire env f g h) = e_Parts env"
  "e_DiskKind (rewire env f g h) = e_DiskKind env"
  "e_ReadFile (rewire env f g h) = e_ReadFile env"
  "e_WriteRun (rewire env f g h) = e_WriteRun env"
  "e_RemoveRun (rewire env f g h) = e_RemoveRun env"
  "e_ReadRun (rewire env f g h) = e_ReadRun env"
  "e_ListRun (rewire env f g h) = e_ListRun env"
  "e_MkRun (rewire env f g h) = e_MkRun env"
  "e_HookCheck (rewire env f g h) = e_HookCheck env"
  "e_Exec (rewire env f g h) = e_Exec env"
  "e_Alert (rewire env f g h) = e_Alert env"
  "e_Notify (rewire env f g h) = e_Notify env"
  "e_Status (rewire env f g h) = e_Status env"
  "e_Wait (rewire env f g h) = e_Wait env"
  "e_SaveHistory (rewire env f g h) = e_SaveHistory env"
  "dv_Profile (e_dev (rewire env f g h)) = dv_Profile (e_dev env)"
  "dv_HwmonPath (e_dev (rewire env f g h)) = dv_HwmonPath (e_dev env)"
  "dv_Channels (e_dev (rewire env f g h)) = dv_Channels (e_dev env)"
  "dv_ReadRPM (e_dev (rewire env f g h)) = dv_ReadRPM (e_dev env)"
  "dv_ReadDuty (e_dev (rewire env f g h)) = dv_ReadDuty (e_dev env)"
  "dv_ExtraTemps (e_dev (rewire env f g h)) = dv_ExtraTemps (e_dev env)"
  "dv_ReadEnable (e_dev (rewire env f g h)) = dv_ReadEnable (e_dev env)"
  "dv_Register (e_dev (rewire env f g h)) = dv_Register (e_dev env)"
  "dv_WriteDuty (e_dev (rewire env f g h)) = f"
  by (simp_all add: rewire_def)

lemma rewire_Now [rewired, simp]: "Now (rewire env f g h) = Now env"
  by (intro ext) (unfold Now_def rewired, rule refl)

lemma rewire_raise_alert [rewired, simp]: "raise_alert (rewire env f g h) = raise_alert env"
  by (intro ext) (unfold raise_alert_def rewired, rule refl)

lemma rewire_reportNotes [rewired, simp]: "reportNotes (rewire env f g h) = reportNotes env"
  by (intro ext) (unfold reportNotes_def rewired, rule refl)

lemma rewire_noteReadErr [rewired, simp]: "noteReadErr (rewire env f g h) = noteReadErr env"
  by (intro ext) (unfold noteReadErr_def rewired, rule refl)

lemma rewire_noteReadOK [rewired, simp]: "noteReadOK (rewire env f g h) = noteReadOK env"
  by (intro ext) (unfold noteReadOK_def rewired, rule refl)

lemma rewire_dcrDeviation [rewired, simp]: "dcrDeviation (rewire env f g h) = dcrDeviation env"
  by (intro ext) (unfold dcrDeviation_def rewired, rule refl)

lemma rewire_resolveSensor [rewired, simp]: "resolveSensor (rewire env f g h) = resolveSensor env"
  by (intro ext) (unfold resolveSensor_def rewired, rule refl)

lemma rewire_resolve_again [rewired, simp]: "resolve_again (rewire env f g h) = resolve_again env"
  by (intro ext) (unfold resolve_again_def rewired, rule refl)

lemma rewire_reresolve [rewired, simp]: "reresolve (rewire env f g h) = reresolve env"
  by (intro ext) (unfold reresolve_def rewired, rule refl)

lemma rewire_partsOf [rewired, simp]: "partsOf (rewire env f g h) = partsOf env"
  by (intro ext) (unfold partsOf_def rewired, rule refl)

lemma rewire_read_channel [rewired, simp]: "read_channel (rewire env f g h) = read_channel env"
  by (intro ext) (unfold read_channel_def rewired, rule refl)

lemma rewire_judge_channel [rewired, simp]: "judge_channel (rewire env f g h) = judge_channel env"
  by (intro ext) (unfold judge_channel_def rewired, rule refl)

lemma rewire_read_rpm [rewired, simp]: "read_rpm (rewire env f g h) = read_rpm env"
  by (intro ext) (unfold read_rpm_def rewired, rule refl)

lemma rewire_readExtra [rewired, simp]: "readExtra (rewire env f g h) ex c = readExtra env ex c"
proof (induction ex arbitrary: c)
  case (Cons p ex)
  then show ?case by (cases p) (simp split: prod.split sum.split)
qed simp

lemma rewire_resolveWatched [rewired, simp]: "resolveWatched (rewire env f g h) = resolveWatched env"
  by (intro ext) (unfold resolveWatched_def rewired, rule refl)

lemma rewire_read_watched1 [rewired, simp]: "read_watched1 (rewire env f g h) = read_watched1 env"
  by (intro ext) (unfold read_watched1_def rewired, rule refl)

lemma rewire_buildWatched [rewired, simp]: "buildWatched (rewire env f g h) ids c = buildWatched env ids c"
  by (induction ids arbitrary: c) simp_all

lemma rewire_readWatched [rewired, simp]: "readWatched (rewire env f g h) n ws c = readWatched env n ws c"
  by (induction ws arbitrary: c) simp_all

lemma rewire_readSensors [rewired, simp]: "readSensors (rewire env f g h) = readSensors env"
  by (intro ext) (unfold readSensors_def rewired, rule refl)

lemma rewire_run_hook [rewired, simp]: "run_hook (rewire env f g h) = run_hook env"
  by (intro ext) (unfold run_hook_def rewired, rule refl)

lemma rewire_emergency [rewired, simp]: "emergency (rewire env f g h) = emergency env"
  by (intro ext) (unfold emergency_def rewired, rule refl)

lemma rewire_applyCeiling [rewired, simp]: "applyCeiling (rewire env f g h) = applyCeiling env"
  by (intro ext) (unfold applyCeiling_def rewired, rule refl)

lemma rewire_target_channel [rewired, simp]: "target_channel (rewire env f g h) = target_channel env"
  by (intro ext) (unfold target_channel_def rewired, rule refl)

lemma rewire_computeTargets [rewired, simp]: "computeTargets (rewire env f g h) = computeTargets env"
  by (intro ext) (unfold computeTargets_def rewired, rule refl)

lemma rewire_stall_channel [rewired, simp]: "stall_channel (rewire env f g h) = stall_channel env"
  by (intro ext) (unfold stall_channel_def rewired, rule refl)

lemma rewire_checkStall [rewired, simp]: "checkStall (rewire env f g h) = checkStall env"
  by (intro ext) (unfold checkStall_def rewired, rule refl)

lemma rewire_noteRegisterWrite [rewired, simp]: "noteRegisterWrite (rewire env f g h) = noteRegisterWrite env"
  by (intro ext) (unfold noteRegisterWrite_def rewired, rule refl)

lemma rewire_check_register1 [rewired, simp]: "check_register1 (rewire env f g h) = check_register1 env"
  by (intro ext) (unfold check_register1_def rewired, rule refl)

lemma rewire_checkRegisters [rewired, simp]: "checkRegisters (rewire env f g h) = checkRegisters env"
  by (intro ext) (unfold checkRegisters_def rewired, rule refl)

lemma rewire_note_enable [rewired, simp]: "note_enable (rewire env f g h) = note_enable env"
  by (intro ext) (unfold note_enable_def rewired, rule refl)

lemma rewire_noteFailsafe [rewired, simp]: "noteFailsafe (rewire env f g h) = noteFailsafe env"
  by (intro ext) (unfold noteFailsafe_def rewired, rule refl)

lemma rewire_buildSnapshotLocked [rewired, simp]: "buildSnapshotLocked (rewire env f g h) = buildSnapshotLocked env"
  by (intro ext) (unfold buildSnapshotLocked_def rewired, rule refl)

lemma rewire_writeState [rewired, simp]: "writeState (rewire env f g h) = writeState env"
  by (intro ext) (unfold writeState_def rewired, rule refl)

lemma rewire_finishCycle [rewired, simp]: "finishCycle (rewire env f g h) = finishCycle env"
  by (intro ext) (unfold finishCycle_def rewired, rule refl)

lemma rewire_prepare_update [rewired, simp]: "prepare_update (rewire env f g h) = prepare_update env"
  by (intro ext) (unfold prepare_update_def rewired, rule refl)

lemma rewire_applyPendingLocked [rewired, simp]: "applyPendingLocked (rewire env f g h) = applyPendingLocked env"
  by (intro ext) (unfold applyPendingLocked_def rewired, rule refl)

lemma rewire_cycle_begin [rewired, simp]: "cycle_begin (rewire env f g h) = cycle_begin env"
  by (intro ext) (unfold cycle_begin_def rewired, rule refl)

section \<open>Writes in a cycle\<close>

lemma rewire_ctl_write:
  assumes "o_DryRun (opts c) \<or> (\<forall>p w. f p duty w = dv_WriteDuty (e_dev env) p duty w)"
  shows "ctl_write (rewire env f g h) ch duty n c = ctl_write env ch duty n c"
  using assms unfolding ctl_write_def rewired by (auto simp: Let_def)

lemma rewire_writePhase:
  assumes "stopped c \<or> (\<forall>ch \<in> set (chans (checkRegisters env c)). o_DryRun (opts c) \<or>
      (\<forall>p w. f p (next_duty d n ch) w = dv_WriteDuty (e_dev env) p (next_duty d n ch) w))"
  shows "writePhase (rewire env f g h) d n c = writePhase env d n c"
proof (cases "stopped c")
  case False
  let ?c1 = "checkRegisters env c"
  have "for_each (write_channel (rewire env f g h) d n) (chans ?c1) ((False, False), ?c1) =
      for_each (write_channel env d n) (chans ?c1) ((False, False), ?c1)"
  proof (rule for_each_cong [symmetric, where g = "\<lambda>st. core (snd st)"])
    fix ch and st :: "(bool \<times> bool) \<times> ('a, 'b) Controller"
    assume ch: "ch \<in> set (chans ?c1)" and "core (snd st) = core (snd ((False, False), ?c1))"
    then have "opts (snd st) = opts c" using core_fields(1) [of "snd st" ?c1] by simp
    with assms False ch have "ctl_write (rewire env f g h) ch (next_duty d n ch) n (snd st) =
        ctl_write env ch (next_duty d n ch) n (snd st)"
      by (intro rewire_ctl_write) auto
    then show "write_channel env d n ch st = write_channel (rewire env f g h) d n ch st"
      by (simp add: write_channel_def case_prod_beta Let_def)
  qed (rule core_write_channel)
  with False show ?thesis by (simp add: writePhase_def)
qed (simp add: writePhase_def)

lemma rewire_failsafeAll:
  assumes "stopped c \<or> o_DryRun (opts c) \<or> (\<forall>p w. f p 255 w = dv_WriteDuty (e_dev env) p 255 w)"
  shows "failsafeAll (rewire env f g h) m c = failsafeAll env m c"
proof (cases "stopped c \<or> chans c = []")
  case False
  have "for_each (failsafe_channel (rewire env f g h) m) (chans c) (True, c) =
      for_each (failsafe_channel env m) (chans c) (True, c)"
  proof (rule for_each_cong [symmetric, where g = "\<lambda>st. core (snd st)"])
    fix ch :: "'a channel" and st :: "bool \<times> ('a, 'b) Controller"
    assume "core (snd st) = core (snd (True, c))"
    then have "opts (snd st) = opts c" using core_fields(1) [of "snd st" c] by simp
    with assms False have "ctl_write (rewire env f g h) ch' 255 n (snd st) = ctl_write env ch' 255 n (snd st)" for ch' n
      by (intro rewire_ctl_write) auto
    then show "failsafe_channel env m ch st = failsafe_channel (rewire env f g h) m ch st"
      by (simp add: failsafe_channel_def case_prod_beta Let_def split: option.split)
  qed (rule core_failsafe_channel)
  with False show ?thesis by (simp add: failsafeAll_def)
qed (auto simp: failsafeAll_def)

lemma rewire_writeAndFinish:
  assumes "stopped c \<or> (\<forall>ch \<in> set (chans (checkRegisters env c)). o_DryRun (opts c) \<or>
      (\<forall>p w. f p (next_duty (k_d k) (k_n k) ch) w = dv_WriteDuty (e_dev env) p (next_duty (k_d k) (k_n k) ch) w))"
    and "stopped c \<or> o_DryRun (opts c) \<or> (\<forall>p w. f p 255 w = dv_WriteDuty (e_dev env) p 255 w)"
  shows "writeAndFinish (rewire env f g h) k c = writeAndFinish env k c"
proof -
  have 1: "writePhase (rewire env f g h) (k_d k) (k_n k) c = writePhase env (k_d k) (k_n k) c"
    by (rule rewire_writePhase) (rule assms(1))
  have 2: "failsafeAll (rewire env f g h) m (reresolve env (raise_alert env kind msg (logf fm a
      ((snd (writePhase env (k_d k) (k_n k) c))\<lparr>wrErr := x\<rparr>)))) =
    failsafeAll env m (reresolve env (raise_alert env kind msg (logf fm a
      ((snd (writePhase env (k_d k) (k_n k) c))\<lparr>wrErr := x\<rparr>))))" for m kind msg fm a x
    using assms(2) by (intro rewire_failsafeAll) simp
  show ?thesis by (unfold writeAndFinish_def Let_def case_prod_beta rewired 1 2) (rule refl)
qed

lemma rewire_cycle:
  assumes "writeAndFinish (rewire env f g h) (cycle_k env c) (cycle_targets env c) =
    writeAndFinish env (cycle_k env c) (cycle_targets env c)"
  shows "cycle (rewire env f g h) c = cycle env c"
  using assms by (simp add: cycle_split cycle_k_def cycle_targets_def Let_def case_prod_beta)

section \<open>Properties\<close>

text \<open>
  C4: once \<^verbatim>\<open>Stop\<close> has run, and in a dry run, a regulation cycle performs no write on
  the fan device: replacing the device's writing operations by arbitrary ones does not
  change the cycle.
\<close>

theorem cycle_does_not_write:
  assumes "stopped c \<or> o_DryRun (opts c)"
  shows "cycle (rewire env f g h) c = cycle env c"
proof -
  have "stopped (cycle_targets env c) \<or> o_DryRun (opts (cycle_targets env c))"
    using assms steady_fields [OF steady_cycle_targets, of env c] by simp
  then show ?thesis by (intro rewire_cycle rewire_writeAndFinish) auto
qed

theorem cycle_does_not_write_witness:
  "let c = (demo_start 90000 900 False)\<lparr>stopped := True\<rparr>
   in stopped c \<and> cycle (rewire demo (\<lambda>p d w. (None, w\<lparr>dw_writes := []\<rparr>)) (\<lambda>p w. (None, w)) (\<lambda>p s w. (None, w))) c = cycle demo c"
  using cycle_does_not_write [of "(demo_start 90000 900 False)\<lparr>stopped := True\<rparr>"] by (simp add: Let_def)

end
