(* ===== verification/Sanitize.thy ===== *)
theory Sanitize
  imports Service
begin

text \<open>
  The channel-set corrections (\<^verbatim>\<open>SanitizeChannels\<close>): on the N5 Pro the corrected list
  manages pwm1 to pwm3, pwm3 never has the stop value auto, nothing else is changed,
  and correcting twice changes nothing more.
\<close>

section \<open>The index by pwm number\<close>

lemma map_of_zip_nth:
  assumes "map_of (rev (zip ks [0..<length ks])) k = Some i"
  shows "i < length ks \<and> ks ! i = k"
  using map_of_SomeD [OF assms] by (auto simp: in_set_zip)

lemma pwm_index_Some: "pwm_index chs p = Some i \<Longrightarrow> i < length chs \<and> ch_PWM (chs ! i) = p"
  using map_of_zip_nth [of "map ch_PWM chs" p i] by (auto simp: pwm_index_def)

lemma pwm_index_None: "pwm_index chs p = None \<longleftrightarrow> p \<notin> ch_PWM ` set chs"
proof -
  have "fst ` set (zip (map ch_PWM chs) [0..<length chs]) = ch_PWM ` set chs"
    by (metis length_map length_upt list.set_map map_fst_zip minus_nat.diff_0)
  then show ?thesis by (simp add: pwm_index_def map_of_eq_None_iff)
qed

section \<open>The loop\<close>

lemma sanitize_loop_all:
  assumes "\<And>p i. byPWM p = Some i \<Longrightarrow> i < length out" "list_all P out"
    "\<forall>d \<in> set defs. P d \<and> (\<forall>nm. P (d\<lparr>ch_Name := nm\<rparr>))" "\<And>c. P c \<Longrightarrow> P (c\<lparr>ch_Stop := HDDStop\<rparr>)"
  shows "list_all P (fst (sanitize_loop byPWM defs names out ns))"
  using assms(1-3)
proof (induction byPWM defs names out ns rule: sanitize_loop.induct)
  case (2 byPWM def defs names out ns)
  show ?case
  proof (cases "byPWM (ch_PWM def)")
    case None
    have "i < length (out @ [x])" if "byPWM p = Some i" for p i x using 2(4) that by fastforce
    then show ?thesis using 2(1) [OF None] 2(5,6) None by (simp add: Let_def)
  next
    case (Some i)
    then have "P (out ! i)" using 2(4,5) by (simp add: list_all_length)
    then have up: "list_all P (out[i := (out ! i)\<lparr>ch_Stop := HDDStop\<rparr>])"
      using 2(5) assms(4) by (auto simp: list_all_iff dest!: set_update_subset_insert [THEN subsetD])
    show ?thesis
      using 2(2) [OF Some] 2(3) [OF Some] up 2(4-6) Some by auto
  qed
qed simp

lemma sanitize_loop_pwms:
  assumes "\<And>p i. byPWM p = Some i \<Longrightarrow> i < length out"
  shows "map ch_PWM (fst (sanitize_loop byPWM defs names out ns)) =
    map ch_PWM out @ filter (\<lambda>p. byPWM p = None) (map ch_PWM defs)"
  using assms
proof (induction byPWM defs names out ns rule: sanitize_loop.induct)
  case (2 byPWM def defs names out ns)
  show ?case
  proof (cases "byPWM (ch_PWM def)")
    case None
    have "i < length (out @ [x])" if "byPWM p = Some i" for p i x using 2(4) that by fastforce
    then show ?thesis using 2(1) [OF None] None by (simp add: Let_def)
  next
    case (Some i)
    then have "map ch_PWM (out[i := (out ! i)\<lparr>ch_Stop := HDDStop\<rparr>]) = map ch_PWM out"
      using 2(4) by (simp add: map_update list_update_same_conv)
    then show ?thesis using 2(2) [OF Some] 2(3) [OF Some] 2(4) Some by auto
  qed
qed simp

text \<open>A correction replaces at most the stop value of the configured pwm3 channel.\<close>

definition fixed_stop :: "Channel \<Rightarrow> Channel" where
  "fixed_stop ch = (if ch_PWM ch = 3 \<and> ch_Stop ch = ''auto'' then ch\<lparr>ch_Stop := HDDStop\<rparr> else ch)"

lemma fixed_stop_id: "\<forall>ch \<in> set chs. ch_PWM ch = 3 \<longrightarrow> ch_Stop ch \<noteq> ''auto'' \<Longrightarrow> map fixed_stop chs = chs"
  by (induction chs) (auto simp: fixed_stop_def)

lemma distinct_pwm:
  "distinct (map ch_PWM chs) \<Longrightarrow> i < length chs \<Longrightarrow> j < length chs \<Longrightarrow> ch_PWM (chs ! i) = ch_PWM (chs ! j) \<Longrightarrow> i = j"
  using nth_eq_iff_index_eq [of "map ch_PWM chs" i j] by simp

lemma fixed_stop_update:
  assumes "distinct (map ch_PWM chs)" "i < length chs" "ch_PWM (chs ! i) = 3" "ch_Stop (chs ! i) = ''auto''"
  shows "(chs @ add)[i := ((chs @ add) ! i)\<lparr>ch_Stop := HDDStop\<rparr>] = map fixed_stop chs @ add"
proof -
  have "chs[i := (chs ! i)\<lparr>ch_Stop := HDDStop\<rparr>] ! j = map fixed_stop chs ! j" if j: "j < length chs" for j
  proof (cases "j = i")
    case True
    then show ?thesis using assms(2-4) by (simp add: fixed_stop_def)
  next
    case False
    then have "ch_PWM (chs ! j) \<noteq> 3" using distinct_pwm [OF assms(1) j assms(2)] assms(3) by auto
    then show ?thesis using False j by (simp add: fixed_stop_def)
  qed
  then have "chs[i := (chs ! i)\<lparr>ch_Stop := HDDStop\<rparr>] = map fixed_stop chs"
    by (intro nth_equalityI) simp_all
  with assms(2) show ?thesis by (simp add: list_update_append nth_append)
qed

lemma sanitize_step:
  assumes "ch_PWM d \<noteq> 3"
  obtains nm' zs k' where
    "sanitize_loop byPWM (d # ds) nm out k = sanitize_loop byPWM ds nm' (out @ zs) k'"
    "map ch_PWM zs = (if byPWM (ch_PWM d) = None then [ch_PWM d] else [])"
proof (cases "byPWM (ch_PWM d)")
  case None
  then show ?thesis
    by (simp add: Let_def that [of _ "[if ch_Name d \<in> set nm then d\<lparr>ch_Name := ''pwm'' @ Itoa (ch_PWM d)\<rparr> else d]"])
next
  case (Some i)
  with assms show ?thesis by (simp add: that [of nm "[]" k])
qed

lemma sanitize_hdd:
  assumes "distinct (map ch_PWM chs)" "ch_PWM d = 3" "ch_Stop d \<noteq> ''auto''"
  obtains zs where "fst (sanitize_loop (pwm_index chs) [d] nm (chs @ ys) k) = map fixed_stop chs @ ys @ zs"
    "map ch_PWM zs = (if pwm_index chs 3 = None then [3] else [])" "\<forall>ch \<in> set zs. ch_Stop ch \<noteq> ''auto''"
proof (cases "pwm_index chs 3")
  case None
  then have "\<forall>ch \<in> set chs. ch_PWM ch \<noteq> 3" using pwm_index_None [of chs 3] by force
  then have "map fixed_stop chs = chs" by (intro fixed_stop_id) blast
  with None assms show ?thesis
    by (simp add: Let_def that [of "[if ch_Name d \<in> set nm then d\<lparr>ch_Name := ''pwm'' @ Itoa 3\<rparr> else d]"])
next
  case (Some i)
  note i = pwm_index_Some [OF this]
  have "map fixed_stop chs = chs" if "ch_Stop (chs ! i) \<noteq> ''auto''"
  proof (intro fixed_stop_id ballI impI)
    fix ch assume "ch \<in> set chs" "ch_PWM ch = 3"
    then obtain j where "j < length chs" "ch = chs ! j" "ch_PWM (chs ! j) = 3" by (auto simp: in_set_conv_nth)
    with i distinct_pwm [OF assms(1), of j i] have "j = i" by simp
    with that \<open>ch = chs ! j\<close> show "ch_Stop ch \<noteq> ''auto''" by simp
  qed
  with fixed_stop_update [OF assms(1), of i ys] i Some assms show ?thesis
    by (intro that [of "[]"]) (auto simp: nth_append)
qed

lemma sanitize_shape:
  assumes dist: "distinct (map ch_PWM chs)"
  obtains added where "fst (SanitizeChannels ''n5pro'' chs) = map fixed_stop chs @ added"
    "map ch_PWM added = filter (\<lambda>p. p \<notin> ch_PWM ` set chs) [1, 2, 3]"
    "\<forall>ch \<in> set added. ch_PWM ch = 3 \<longrightarrow> ch_Stop ch \<noteq> ''auto''"
proof -
  obtain a b c where d: "N5ProChannels = [a, b, c]" "ch_PWM a = 1" "ch_PWM b = 2" "ch_PWM c = 3" "ch_Stop c \<noteq> ''auto''"
    by (simp add: N5ProChannels_def)
  let ?m = "pwm_index chs"
  note sanitize_loop.simps [simp del]
  obtain n1 z1 k1 where 1: "sanitize_loop ?m [a, b, c] (map ch_Name chs) chs [] = sanitize_loop ?m [b, c] n1 (chs @ z1) k1"
    "map ch_PWM z1 = (if ?m 1 = None then [1] else [])"
    by (rule sanitize_step [of a ?m "[b, c]" "map ch_Name chs" chs "[]", unfolded d(2)]) auto
  obtain n2 z2 k2 where 2: "sanitize_loop ?m [b, c] n1 (chs @ z1) k1 = sanitize_loop ?m [c] n2 ((chs @ z1) @ z2) k2"
    "map ch_PWM z2 = (if ?m 2 = None then [2] else [])"
    by (rule sanitize_step [of b ?m "[c]" n1 "chs @ z1" k1, unfolded d(3)]) auto
  obtain z3 where 3: "fst (sanitize_loop ?m [c] n2 (chs @ z1 @ z2) k2) = map fixed_stop chs @ (z1 @ z2) @ z3"
    "map ch_PWM z3 = (if ?m 3 = None then [3] else [])" "\<forall>ch \<in> set z3. ch_Stop ch \<noteq> ''auto''"
    by (rule sanitize_hdd [OF dist d(4,5), of n2 "z1 @ z2" k2]) auto
  have z12: "\<forall>ch \<in> set (z1 @ z2). ch_PWM ch \<noteq> 3"
  proof
    fix ch assume "ch \<in> set (z1 @ z2)"
    then have "ch_PWM ch \<in> set (map ch_PWM z1 @ map ch_PWM z2)" by auto
    with 1(2) 2(2) show "ch_PWM ch \<noteq> 3" by (auto split: if_splits)
  qed
  show ?thesis
  proof (rule that [of "z1 @ z2 @ z3"])
    show "fst (SanitizeChannels ''n5pro'' chs) = map fixed_stop chs @ z1 @ z2 @ z3"
      using 1(1) 2(1) 3(1) by (simp add: SanitizeChannels_def d(1))
    show "map ch_PWM (z1 @ z2 @ z3) = filter (\<lambda>p. p \<notin> ch_PWM ` set chs) [1, 2, 3]"
      using 1(2) 2(2) 3(2) by (simp add: pwm_index_None)
    show "\<forall>ch \<in> set (z1 @ z2 @ z3). ch_PWM ch = 3 \<longrightarrow> ch_Stop ch \<noteq> ''auto''"
      using z12 3(3) by auto
  qed
qed

lemma sanitize_done:
  assumes "{1, 2, 3} \<subseteq> ch_PWM ` set chs" "\<forall>ch \<in> set chs. ch_PWM ch = 3 \<longrightarrow> ch_Stop ch \<noteq> ''auto''"
  shows "SanitizeChannels ''n5pro'' chs = (chs, [])"
proof -
  obtain i j k where i: "pwm_index chs 1 = Some i" "pwm_index chs 2 = Some j" "pwm_index chs 3 = Some k"
    using assms(1) pwm_index_None [of chs] by (metis insert_subset not_None_eq)
  have "ch_Stop (chs ! k) \<noteq> ''auto''" using pwm_index_Some [OF i(3)] assms(2) by simp
  with i show ?thesis by (simp add: SanitizeChannels_def N5ProChannels_def)
qed

section \<open>Properties\<close>

text \<open>
  C10: on the N5 Pro the corrected channel list manages pwm1, pwm2 and pwm3, no
  channel on pwm3 is handed back with stop = auto, the configured channels keep
  their place and everything but a corrected stop value, every pwm number stays unique,
  and correcting the result again changes nothing.
\<close>

theorem SanitizeChannels_n5pro:
  assumes dist: "distinct (map ch_PWM chs)"
  defines "out \<equiv> fst (SanitizeChannels ''n5pro'' chs)"
  shows "{1, 2, 3} \<subseteq> ch_PWM ` set out \<and>
    (\<forall>ch \<in> set out. ch_PWM ch = 3 \<longrightarrow> ch_Stop ch \<noteq> ''auto'') \<and>
    take (length chs) out = map fixed_stop chs \<and> distinct (map ch_PWM out) \<and>
    SanitizeChannels ''n5pro'' out = (out, [])"
proof -
  obtain added where a: "out = map fixed_stop chs @ added"
    "map ch_PWM added = filter (\<lambda>p. p \<notin> ch_PWM ` set chs) [1, 2, 3]"
    "\<forall>ch \<in> set added. ch_PWM ch = 3 \<longrightarrow> ch_Stop ch \<noteq> ''auto''"
    using sanitize_shape [OF dist] unfolding out_def by blast
  have keep: "map ch_PWM (map fixed_stop chs) = map ch_PWM chs" by (simp add: fixed_stop_def)
  have pw: "map ch_PWM out = map ch_PWM chs @ filter (\<lambda>p. p \<notin> ch_PWM ` set chs) [1, 2, 3]"
    using a(1,2) keep by (metis map_append)
  have "set (map ch_PWM out) = ch_PWM ` set chs \<union> {p \<in> {1, 2, 3}. p \<notin> ch_PWM ` set chs}"
    unfolding pw by auto
  then have all: "{1, 2, 3} \<subseteq> ch_PWM ` set out" by auto
  have stop: "\<forall>ch \<in> set out. ch_PWM ch = 3 \<longrightarrow> ch_Stop ch \<noteq> ''auto''"
    using a(1,3) by (auto simp: fixed_stop_def HDDStop_def)
  have "distinct (map ch_PWM out)" unfolding pw using dist by auto
  with all stop a(1) sanitize_done [OF all stop] show ?thesis by simp
qed

theorem SanitizeChannels_n5pro_witness:
  "distinct (map ch_PWM [zeroChannel\<lparr>ch_Name := ''hdd'', ch_PWM := 3, ch_Stop := ''auto''\<rparr>]) \<and>
   map (\<lambda>ch. (ch_PWM ch, ch_Stop ch)) (fst (SanitizeChannels ''n5pro''
     [zeroChannel\<lparr>ch_Name := ''hdd'', ch_PWM := 3, ch_Stop := ''auto''\<rparr>])) =
     [(3, ''140''), (1, ''auto''), (2, ''auto'')] \<and>
   {1, 2, 3} \<subseteq> ch_PWM ` set (fst (SanitizeChannels ''n5pro''
     [zeroChannel\<lparr>ch_Name := ''hdd'', ch_PWM := 3, ch_Stop := ''auto''\<rparr>]))"
proof -
  let ?chs = "[zeroChannel\<lparr>ch_Name := ''hdd'', ch_PWM := 3, ch_Stop := ''auto''\<rparr>]"
  have d: "distinct (map ch_PWM ?chs)" by simp
  have "map (\<lambda>ch. (ch_PWM ch, ch_Stop ch)) (fst (SanitizeChannels ''n5pro'' ?chs)) =
      [(3, ''140''), (1, ''auto''), (2, ''auto'')]" by code_simp
  with SanitizeChannels_n5pro [OF d] d show ?thesis by blast
qed

text \<open>The names stay distinct when no configured channel has a name of the form pwm1 to pwm3.\<close>

lemma sanitize_loop_names:
  assumes "distinct (map ch_Name out)" "set names = ch_Name ` set out" "\<And>p i. byPWM p = Some i \<Longrightarrow> i < length out"
    "\<forall>d \<in> set defs. ''pwm'' @ Itoa (ch_PWM d) \<notin> set names" "distinct (map (\<lambda>d. ''pwm'' @ Itoa (ch_PWM d)) defs)"
    "\<forall>d \<in> set defs. ''pwm'' @ Itoa (ch_PWM d) \<notin> ch_Name ` set defs"
  shows "distinct (map ch_Name (fst (sanitize_loop byPWM defs names out ns)))"
  using assms
proof (induction byPWM defs names out ns rule: sanitize_loop.induct)
  case (2 byPWM def defs names out ns)
  show ?case
  proof (cases "byPWM (ch_PWM def)")
    case None
    define d where "d = (if ch_Name def \<in> set names then def\<lparr>ch_Name := ''pwm'' @ Itoa (ch_PWM def)\<rparr> else def)"
    have new: "ch_Name d \<notin> ch_Name ` set out" using 2(5,7) by (auto simp: d_def)
    have len: "i < length (out @ [d])" if "byPWM p = Some i" for p i using 2(6) [OF that] by simp
    have fresh: "\<forall>e \<in> set defs. ''pwm'' @ Itoa (ch_PWM e) \<noteq> ch_Name d"
    proof
      fix e assume e: "e \<in> set defs"
      then have "''pwm'' @ Itoa (ch_PWM e) \<noteq> ''pwm'' @ Itoa (ch_PWM def)" using 2(8) by (force simp: image_iff)
      with e show "''pwm'' @ Itoa (ch_PWM e) \<noteq> ch_Name d" using 2(9) by (simp add: d_def)
    qed
    show ?thesis
      unfolding sanitize_loop.simps None option.case Let_def d_def [symmetric]
      by (rule 2(1) [OF None d_def]) (use 2(4,5,7,8,9) new len fresh in simp_all)
  next
    case (Some i)
    let ?out = "out[i := (out ! i)\<lparr>ch_Stop := HDDStop\<rparr>]"
    have m: "map ch_Name ?out = map ch_Name out" using 2(6) [OF Some] by (simp add: map_update list_update_same_conv)
    then have s: "ch_Name ` set ?out = ch_Name ` set out" by (metis set_map)
    show ?thesis
      using 2(2) [OF Some] 2(3) [OF Some] 2(4-9) Some m s by auto
  qed
qed simp

lemma SanitizeChannels_names:
  assumes "distinct (map ch_Name chs)" "prof \<noteq> ''n5pro'' \<or> ch_Name ` set chs \<inter> {''pwm1'', ''pwm2'', ''pwm3''} = {}"
  shows "distinct (map ch_Name (fst (SanitizeChannels prof chs)))"
proof (cases "prof = ''n5pro''")
  case True
  have d: "map (\<lambda>d. ''pwm'' @ Itoa (ch_PWM d)) N5ProChannels = [''pwm1'', ''pwm2'', ''pwm3'']" "map ch_Name N5ProChannels = [''cpu'', ''ssd'', ''hdd'']"
    by code_simp+
  have f: "''pwm'' @ Itoa (ch_PWM e) \<in> {''pwm1'', ''pwm2'', ''pwm3''} \<and> ch_Name e \<in> {''cpu'', ''ssd'', ''hdd''}" if "e \<in> set N5ProChannels" for e
    using that d by (auto simp: N5ProChannels_def)
  have "distinct (map ch_Name (fst (sanitize_loop (pwm_index chs) N5ProChannels (map ch_Name chs) chs [])))"
  proof (rule sanitize_loop_names)
    show "\<forall>d \<in> set N5ProChannels. ''pwm'' @ Itoa (ch_PWM d) \<notin> set (map ch_Name chs)"
      using f assms(2) True by fastforce
    show "\<forall>d \<in> set N5ProChannels. ''pwm'' @ Itoa (ch_PWM d) \<notin> ch_Name ` set N5ProChannels"
      using f by fastforce
    show "distinct (map (\<lambda>d. ''pwm'' @ Itoa (ch_PWM d)) N5ProChannels)" by (simp only: d) simp
    show "\<And>p i. pwm_index chs p = Some i \<Longrightarrow> i < length chs" using pwm_index_Some by blast
  qed (use assms(1) in simp_all)
  then show ?thesis using True by (simp add: SanitizeChannels_def)
qed (use assms(1) in \<open>simp add: SanitizeChannels_def\<close>)

text \<open>
  The replacement name of an added channel is not checked against the names in use: a valid
  configuration with a channel cpu on another pwm and a channel pwm1 gets two channels named
  pwm1, and reloading it unchanged is then answered with a required restart.
\<close>

theorem SanitizeChannels_name_clash:
  "let chs = [(N5ProChannels ! 0)\<lparr>ch_PWM := 4\<rparr>, (N5ProChannels ! 1)\<lparr>ch_Name := ''pwm1''\<rparr>, N5ProChannels ! 2];
       out = fst (SanitizeChannels ''n5pro'' chs)
   in distinct (map ch_Name chs) \<and> distinct (map ch_PWM chs) \<and>
      map ch_Name out = [''cpu'', ''pwm1'', ''hdd'', ''pwm1''] \<and> \<not> sameChannelSet out out"
  by code_simp

end
