(* ===== verification/Invariant.thy ===== *)
theory Invariant
  imports Safety Sanitize
begin

text \<open>
  The invariant of the controller: every channel is well formed, the overrides are
  duties, the active and the accepted configuration are valid and name every
  running channel with its pwm number. Each operation keeps it; the step
  relation interleaves the phases of a cycle with the service calls, and every
  reachable state satisfies the invariant.
\<close>

section \<open>Channels\<close>

definition duty_ok :: "int \<Rightarrow> bool" where
  "duty_ok d \<longleftrightarrow> 0 \<le> d \<and> d \<le> 255"

definition chan_ok :: "'r channel \<Rightarrow> bool" where
  "chan_ok ch \<longleftrightarrow> channel_ok (cfg ch) \<and> -1 \<le> cur ch \<and> cur ch \<le> 255 \<and> duty_ok (target ch)
     \<and> (holding ch \<longrightarrow> duty_ok (holdTarget ch)) \<and> (stalled ch \<longrightarrow> hasTach ch) \<and> -1 \<le> rpm ch
     \<and> (tempOK ch \<longrightarrow> Plausible (temp ch)) \<and> 0 \<le> stallCnt ch \<and> 0 \<le> recov ch \<and> recov ch < stallRecoverCycles"

definition overrides_ok :: "(string \<rightharpoonup> int) \<Rightarrow> bool" where
  "overrides_ok ovr \<longleftrightarrow> (\<forall>name v. ovr name = Some v \<longrightarrow> duty_ok v)"

lemma chan_ok_safeDuty: "channel_ok (cfg ch) \<Longrightarrow> duty_ok (safeDuty ch)"
  using stop_ok_StopDuty [of "cfg ch"]
  by (fastforce simp: safeDuty_def duty_ok_def channel_ok_def config_limits split: option.split)

lemma Interpolate_duty:
  assumes "curve_ok c" shows "duty_ok (Interpolate c m)"
proof -
  have c: "curve_shape c" "c \<noteq> []" using assms by (auto simp: curve_ok_def config_limits)
  then have "hd c \<in> set c" "last c \<in> set c" by simp_all
  with f64.interpolate_bounds [OF c, of m] c(1) show ?thesis
    by (fastforce simp: Interpolate_def duty_ok_def curve_shape_def)
qed

lemma chan_ok_resolve: "chan_ok ch \<Longrightarrow> chan_ok (fst (resolve_again env ch c))"
  by (simp add: chan_ok_def)

lemma chan_ok_read:
  assumes "chan_ok ch"
  shows "chan_ok (fst (read_channel env ch c))" "chan_ok (fst (judge_channel env ch c))"
    "chan_ok (fst (read_rpm env ch c))"
proof -
  let ?ch = "ch\<lparr>tempOK := False, sensorErr := emptyMsg\<rparr>"
  have "chan_ok ?ch" using assms by (simp add: chan_ok_def)
  note r = chan_ok_resolve [OF this, of env c] this
  show "chan_ok (fst (read_channel env ch c))"
    using r by (auto simp: read_channel_def Let_def case_prod_beta split: option.split sum.split)
      (auto simp: chan_ok_def)
  show "chan_ok (fst (judge_channel env ch c))"
    using chan_ok_resolve [OF assms, of env c] assms
    by (auto simp: judge_channel_def Let_def case_prod_beta chan_ok_def)
  show "chan_ok (fst (read_rpm env ch c))"
    using assms by (auto simp: read_rpm_def Let_def case_prod_beta chan_ok_def split: sum.split)
qed

lemma chan_ok_target:
  assumes "chan_ok ch" "overrides_ok (k_ovr k)"
  shows "chan_ok (fst (target_channel env k now ch c))"
proof -
  let ?k = "target_known (k_ovr k) now ch"
  let ?h = "heldTemp (ch\<lparr>mode := ModeAuto\<rparr>)"
  let ?m = "minOnHold (snd ?h) (Interpolate (ch_Curve (cfg ch)) (fst ?h)) now"
  have curve: "duty_ok (Interpolate (ch_Curve (cfg ch)) (fst ?h))"
    using assms(1) by (intro Interpolate_duty) (simp add: chan_ok_def channel_ok_def)
  have hold: "duty_ok (fst ?m) \<and> (holding (snd ?m) \<longrightarrow> duty_ok (holdTarget (snd ?m)))"
    using curve assms(1) by (intro minOnHold_range [where P = duty_ok, of "snd ?h"]) (auto simp: chan_ok_def)
  have tk: "duty_ok (target ?k) \<and> (holding ?k \<longrightarrow> duty_ok (holdTarget ?k))"
    using hold assms(2)
    by (auto simp: target_known_def Let_def case_prod_beta overrides_ok_def duty_ok_def split: option.split)
  show ?thesis
  proof (cases "tempOK ch")
    case True
    have "duty_ok 255" by (simp add: duty_ok_def)
    with True tk assms(1) applyCeiling_forced [of env "k_d k" ?k c] show ?thesis
      by (cases "ceilHit (fst (applyCeiling env (k_d k) ?k c))") (auto simp: target_channel_def chan_ok_def)
  next
    case False
    then show ?thesis
      using assms(1) chan_ok_safeDuty [of ch]
      by (auto simp: target_channel_def target_unknown_def chan_ok_def duty_ok_def)
  qed
qed

lemma chan_ok_stall: "chan_ok ch \<Longrightarrow> chan_ok (fst (stall_channel env d ch c))"
  by (auto simp: stall_channel_def Let_def chan_ok_def duty_ok_def stallRecoverCycles_def)

lemma next_duty_ok:
  assumes "chan_ok ch" "daemon_ok d"
  shows "duty_ok (next_duty d n ch)"
  using assms Slew_between [of "d_StepUp d" "d_StepDown d" "cur ch" "target ch"]
  by (auto simp: next_duty_def chan_ok_def daemon_ok_def duty_ok_def)

lemma chan_ok_write:
  assumes "chan_ok ch" "daemon_ok d"
  shows "chan_ok (fst (write_channel env d n ch st))"
proof -
  have u: "unwritten (fst (write_channel env d n ch st)) = unwritten ch" by simp
  have "-1 \<le> cur (fst (write_channel env d n ch st)) \<and> cur (fst (write_channel env d n ch st)) \<le> 255"
  proof (cases "o_DryRun (opts (snd st))")
    case True
    then show ?thesis
      using assms(1) by (auto simp: write_channel_def Let_def case_prod_beta chan_ok_def split: sum.split)
  next
    case False
    from write_channel_cur [OF this, of env d n ch] next_duty_ok [OF assms, of n] show ?thesis
      by (auto simp: duty_ok_def)
  qed
  with assms(1) unwritten_fields [OF u] show ?thesis by (simp add: chan_ok_def)
qed

lemma chan_ok_failsafe:
  assumes "chan_ok ch"
  shows "chan_ok (fst (failsafe_channel env m ch st))"
proof -
  have u: "unwritten (fst (failsafe_channel env m ch st)) = unwritten ch" by simp
  have w: "cur (fst (snd (ctl_write env ch' duty n c))) = cur ch'" for ch' duty n c
    by (simp add: ctl_write_def noteRegisterWrite_def Let_def case_prod_beta split: option.split)
  have "-1 \<le> cur (fst (failsafe_channel env m ch st)) \<and> cur (fst (failsafe_channel env m ch st)) \<le> 255"
    using assms by (auto simp: failsafe_channel_def Let_def case_prod_beta w chan_ok_def split: option.split)
  with assms unwritten_fields [OF u] show ?thesis by (simp add: chan_ok_def duty_ok_def)
qed

lemma chan_ok_register: "chan_ok ch \<Longrightarrow> chan_ok (fst (check_register1 env rv now ch c))"
  by (simp add: check_register1_def Let_def case_prod_beta chan_ok_def)

section \<open>The controller\<close>

definition config_ok :: "Config \<Rightarrow> bool" where
  "config_ok cf \<longleftrightarrow> daemon_ok (c_Daemon cf) \<and> list_all channel_ok (c_Channels cf)"

text \<open>Every running channel is named by the configuration, with its pwm number.\<close>

definition linked :: "Channel list \<Rightarrow> 'r channel list \<Rightarrow> bool" where
  "linked ccs chs \<longleftrightarrow> list_all (\<lambda>ch. name_pwm ccs (ch_Name (cfg ch)) = Some (ch_PWM (cfg ch))) chs"

definition ctl_ok :: "('r, 'w) Controller \<Rightarrow> bool" where
  "ctl_ok c \<longleftrightarrow> list_all chan_ok (chans c) \<and> overrides_ok (overrides c) \<and> config_ok (config c)
     \<and> linked (c_Channels (config c)) (chans c)
     \<and> (\<forall>p. pending c = Some p \<longrightarrow> config_ok p \<and> linked (c_Channels p) (chans c))
     \<and> 0 \<le> cyc c \<and> 0 \<le> wrErr c \<and> 0 \<le> fsFail c"

text \<open>What \<open>linked\<close> depends on.\<close>

definition cfgs :: "'r channel list \<Rightarrow> Channel list" where
  "cfgs chs = map cfg chs"

lemma linked_cfgs: "linked ccs chs \<longleftrightarrow> list_all (\<lambda>cc. name_pwm ccs (ch_Name cc) = Some (ch_PWM cc)) (cfgs chs)"
  by (simp add: linked_def cfgs_def list_all_iff)

lemma ctl_ok_frame:
  assumes "ctl_ok c" "list_all chan_ok (chans c')" "cfgs (chans c') = cfgs (chans c)" "overrides c' = overrides c"
    "config c' = config c" "pending c' = pending c" "0 \<le> cyc c'" "0 \<le> wrErr c'" "0 \<le> fsFail c'"
  shows "ctl_ok c'"
  using assms by (simp add: ctl_ok_def linked_cfgs)

lemma cfgs_for_each:
  assumes "\<And>ch s. cfg (fst (f ch s)) = cfg ch"
  shows "cfgs (fst (for_each f chs s)) = cfgs chs"
  using assms by (induction chs arbitrary: s) (simp_all add: cfgs_def Let_def case_prod_beta)

lemma read_cfg [simp]:
  "cfg (fst (read_channel env ch c)) = cfg ch" "cfg (fst (judge_channel env ch c)) = cfg ch"
  "cfg (fst (read_rpm env ch c)) = cfg ch" "cfg (fst (check_register1 env rv now ch c)) = cfg ch"
  by (simp_all add: read_channel_def judge_channel_def read_rpm_def check_register1_def Let_def case_prod_beta
      split: option.split sum.split)

lemma write_cfg [simp]:
  "cfg (fst (write_channel env d n ch st)) = cfg ch" "cfg (fst (failsafe_channel env m ch st')) = cfg ch"
  by (rule unwritten_fields; simp)+

lemmas loop_cfgs [simp] =
  cfgs_for_each [of "read_channel env", OF read_cfg(1)] cfgs_for_each [of "judge_channel env", OF read_cfg(2)]
  cfgs_for_each [of "read_rpm env", OF read_cfg(3)] cfgs_for_each [of "check_register1 env rv now", OF read_cfg(4)]
  cfgs_for_each [of "target_channel env k now", OF target_channel_fields(1)]
  cfgs_for_each [of "stall_channel env d", OF stall_channel_fields(1)]
  cfgs_for_each [of "write_channel env d n", OF write_cfg(1)]
  cfgs_for_each [of "failsafe_channel env m", OF write_cfg(2)]
  cfgs_for_each [of "resolve_again env", OF resolve_fields(1)]
  for env rv now k d n m

lemma all_ok_loops:
  assumes "list_all chan_ok chs"
  shows "list_all chan_ok (fst (for_each (read_channel env) chs c))"
    "list_all chan_ok (fst (for_each (judge_channel env) chs c))"
    "list_all chan_ok (fst (for_each (read_rpm env) chs c))"
    "list_all chan_ok (fst (for_each (resolve_again env) chs c))"
    "list_all chan_ok (fst (for_each (stall_channel env d) chs c))"
    "list_all chan_ok (fst (for_each (check_register1 env rv now) chs c))"
    "overrides_ok (k_ovr k) \<Longrightarrow> list_all chan_ok (fst (for_each (target_channel env k now) chs c))"
    "list_all chan_ok (fst (for_each (failsafe_channel env m) chs st))"
    "daemon_ok d \<Longrightarrow> list_all chan_ok (fst (for_each (write_channel env d n) chs st'))"
  by (rule for_each_invariant [where g = "\<lambda>_. ()" and P = chan_ok];
      simp add: assms chan_ok_read chan_ok_resolve chan_ok_stall chan_ok_register chan_ok_target
        chan_ok_failsafe chan_ok_write)+

section \<open>Phases keep the invariant\<close>

lemma check_stale_chans:
  "list_all chan_ok (chans c) \<Longrightarrow> list_all chan_ok (chans (check_stale d c))"
  "cfgs (chans (check_stale d c)) = cfgs (chans c)"
  by (auto simp: check_stale_def Let_def chan_ok_def cfgs_def split: list.split)

lemma readSensors_frame [simp]:
  "config (snd (readSensors env k c)) = config c" "pending (snd (readSensors env k c)) = pending c"
  "cfgs (chans (snd (readSensors env k c))) = cfgs (chans c)"
  by (simp_all add: readSensors_def Let_def case_prod_beta check_stale_chans)

lemma readSensors_chans_ok:
  assumes "list_all chan_ok (chans c)"
  shows "list_all chan_ok (chans (snd (readSensors env k c)))"
  using assms
  by (simp add: readSensors_def Let_def case_prod_beta) (intro conjI impI all_ok_loops check_stale_chans; simp add: all_ok_loops)+

lemma readSensors_ok: "ctl_ok c \<Longrightarrow> ctl_ok (snd (readSensors env k c))"
  using steady_fields [OF steady_readSensors, of env k c]
  by (rule_tac ctl_ok_frame [of c]) (simp_all add: ctl_ok_def readSensors_chans_ok)

lemma computeTargets_frame [simp]:
  "config (computeTargets env k c) = config c" "pending (computeTargets env k c) = pending c"
  "cfgs (chans (computeTargets env k c)) = cfgs (chans c)"
  by (simp_all add: computeTargets_def Let_def case_prod_beta)

lemma computeTargets_ok:
  assumes "ctl_ok c" "overrides_ok (k_ovr k)"
  shows "ctl_ok (computeTargets env k c)"
proof -
  have "list_all chan_ok (chans (computeTargets env k c))"
    using assms by (simp add: computeTargets_def Let_def case_prod_beta ctl_ok_def all_ok_loops)
  with assms steady_fields [OF steady_computeTargets, of env k c] show ?thesis
    by (intro ctl_ok_frame [OF assms(1)]) (simp_all add: ctl_ok_def)
qed

lemma checkStall_frame [simp]:
  "config (checkStall env k c) = config c" "pending (checkStall env k c) = pending c"
  "cfgs (chans (checkStall env k c)) = cfgs (chans c)"
  by (simp_all add: checkStall_def Let_def case_prod_beta)

lemma checkStall_ok:
  assumes "ctl_ok c" shows "ctl_ok (checkStall env k c)"
proof -
  have "list_all chan_ok (chans (checkStall env k c))"
    using assms by (simp add: checkStall_def Let_def case_prod_beta ctl_ok_def all_ok_loops)
  with assms steady_fields [OF steady_checkStall, of env k c] show ?thesis
    by (intro ctl_ok_frame [OF assms(1)]) (simp_all add: ctl_ok_def)
qed

lemma reresolve_ok:
  assumes "ctl_ok c" shows "ctl_ok (reresolve env c)"
proof -
  have "list_all chan_ok (chans (reresolve env c))" "cfgs (chans (reresolve env c)) = cfgs (chans c)"
    using assms by (simp_all add: reresolve_def Let_def case_prod_beta ctl_ok_def all_ok_loops)
  with assms show ?thesis by (intro ctl_ok_frame [OF assms]) (simp_all add: ctl_ok_def)
qed

lemma checkRegisters_chans:
  "list_all chan_ok (chans c) \<Longrightarrow> list_all chan_ok (chans (checkRegisters env c))"
  "cfgs (chans (checkRegisters env c)) = cfgs (chans c)"
  by (simp_all add: checkRegisters_def Let_def case_prod_beta all_ok_loops split: option.split)

lemma writePhase_ok:
  assumes "ctl_ok c" "daemon_ok d" shows "ctl_ok (snd (writePhase env d n c))"
proof -
  have "list_all chan_ok (chans (snd (writePhase env d n c)))"
    "cfgs (chans (snd (writePhase env d n c))) = cfgs (chans c)"
    using assms
    by (simp_all add: writePhase_def Let_def case_prod_beta ctl_ok_def all_ok_loops checkRegisters_chans)
  with assms show ?thesis by (intro ctl_ok_frame [OF assms(1)]) (simp_all add: ctl_ok_def)
qed

lemma failsafeAll_ok:
  assumes "ctl_ok c" shows "ctl_ok (snd (failsafeAll env m c))"
proof -
  have "list_all chan_ok (chans (snd (failsafeAll env m c)))"
    "cfgs (chans (snd (failsafeAll env m c))) = cfgs (chans c)"
    using assms by (simp_all add: failsafeAll_def Let_def case_prod_beta ctl_ok_def all_ok_loops)
  with assms show ?thesis by (intro ctl_ok_frame [OF assms]) (simp_all add: ctl_ok_def)
qed

lemma ctl_ok_core:
  assumes "core c' = core c" shows "ctl_ok c' = ctl_ok c"
  using core_fields [OF assms] by (simp add: ctl_ok_def)

lemma noteFailsafe_ok: "ctl_ok c \<Longrightarrow> ctl_ok (snd (noteFailsafe env b c))"
  by (rule ctl_ok_frame) (simp_all add: ctl_ok_def noteFailsafe_def Let_def)

lemma finishCycle_ok: "ctl_ok c \<Longrightarrow> ctl_ok (finishCycle env ex wv st d c)"
  by (rule ctl_ok_frame) (simp_all add: ctl_ok_def)

lemma ctl_ok_counters:
  "ctl_ok c \<Longrightarrow> ctl_ok (c\<lparr>fsFail := 0\<rparr>)" "ctl_ok c \<Longrightarrow> ctl_ok (c\<lparr>wrErr := 0\<rparr>)"
  "ctl_ok c \<Longrightarrow> ctl_ok (c\<lparr>wrErr := wrErr c + 1\<rparr>)"
  by (simp_all add: ctl_ok_def)

lemma ctl_ok_helpers [simp]:
  "ctl_ok (logf f a c) = ctl_ok c" "ctl_ok (raise_alert env kind m c) = ctl_ok c"
  "ctl_ok (reportNotes env what notes c) = ctl_ok c" "ctl_ok (snd (Now env c)) = ctl_ok c"
  "ctl_ok (removeRunFile env name what c) = ctl_ok c" "ctl_ok (run_job env j c) = ctl_ok c"
  "ctl_ok (c\<lparr>world := w\<rparr>) = ctl_ok c" "ctl_ok (c\<lparr>jobs := js\<rparr>) = ctl_ok c"
  by (rule ctl_ok_core; simp)+

lemma writeAndFinish_okD:
  assumes "ctl_ok c" "daemon_ok (k_d k)" shows "ctl_ok (snd (writeAndFinish env k c))"
proof -
  define c1 where "c1 = snd (writePhase env (k_d k) (k_n k) c)"
  have c1: "ctl_ok c1" unfolding c1_def by (rule writePhase_ok [OF assms])
  have "ctl_ok (c1\<lparr>fsFail := 0, wrErr := 0\<rparr>)" using ctl_ok_counters [OF c1] by (simp add: ctl_ok_def)
  moreover have "ctl_ok (snd (noteFailsafe env b (snd (failsafeAll env m (reresolve env
      (raise_alert env kind msg (logf f a (c1\<lparr>wrErr := wrErr c1 + 1\<rparr>))))))))" for b m kind msg f a
    using ctl_ok_counters(3) [OF c1] by (intro noteFailsafe_ok failsafeAll_ok reresolve_ok) simp
  ultimately show ?thesis
    using ctl_ok_counters [OF c1] assms
    by (simp add: writeAndFinish_def Let_def case_prod_beta c1_def [symmetric] finishCycle_ok)
qed

section \<open>Reload\<close>

lemma by_name_linked:
  assumes "name_pwm ccs name = Some p"
  shows "by_name ccs name \<in> set ccs \<and> ch_Name (by_name ccs name) = name \<and> ch_PWM (by_name ccs name) = p"
proof -
  have eq: "map_of (rev (map (\<lambda>ch. (ch_Name ch, ch_PWM ch)) ccs)) name =
      map_option ch_PWM (map_of (rev (map (\<lambda>cc. (ch_Name cc, cc)) ccs)) name)"
    by (induction ccs rule: rev_induct) auto
  then obtain cc where cc: "map_of (rev (map (\<lambda>cc. (ch_Name cc, cc)) ccs)) name = Some cc" "ch_PWM cc = p"
    using assms by (auto simp: name_pwm_def)
  from map_of_SomeD [OF cc(1)] cc show ?thesis by (auto simp: by_name_def)
qed

lemma prepare_update_cfg [simp]:
  "cu_cfg (fst (prepare_update env ccs ch c)) = by_name ccs (ch_Name (cfg ch))"
  by (simp add: prepare_update_def Let_def case_prod_beta)

lemma swap_retime:
  "cfg (retimeHolds now u (swapChannelConfig u ch)) = cu_cfg u"
  "chan_ok ch \<Longrightarrow> channel_ok (cu_cfg u) \<Longrightarrow> chan_ok (retimeHolds now u (swapChannelConfig u ch))"
  by (simp_all add: retimeHolds_def swapChannelConfig_def Let_def chan_ok_def)

text \<open>The channels after the swap, one by one.\<close>

lemma applyPending_chans:
  assumes "pending c = Some cf"
  shows "list_all2 (\<lambda>ch ch'. \<exists>u now. ch' = retimeHolds now u (swapChannelConfig u ch) \<and>
      cu_cfg u = by_name (c_Channels cf) (ch_Name (cfg ch))) (chans c) (chans (applyPendingLocked env c))"
proof -
  define c1 where "c1 = c\<lparr>pending := None, config := cf\<rparr>"
  define ups where "ups = fst (for_each (prepare_update env (c_Channels cf)) (chans c) c1)"
  define now where "now = fst (Now env ((snd (for_each (prepare_update env (c_Channels cf)) (chans c) c1))
      \<lparr>chans := map2 swapChannelConfig ups (chans c)\<rparr>))"
  have ch: "chans (applyPendingLocked env c) = map2 (retimeHolds now) ups (map2 swapChannelConfig ups (chans c))"
    using assms by (simp add: applyPendingLocked_def Let_def case_prod_beta ups_def c1_def now_def)
  have l: "length ups = length (chans c)" by (simp add: ups_def)
  have "list_all2 (\<lambda>ch u. cu_cfg u = by_name (c_Channels cf) (ch_Name (cfg ch))) (chans c) ups"
    using for_each_all [of "\<lambda>_. ()" "prepare_update env (c_Channels cf)" c1 "chans c"]
    unfolding ups_def by (rule list_all2_mono) (auto)
  with l show ?thesis unfolding ch by (auto simp: list_all2_conv_all_nth)
qed

lemma applyPending_fields [simp]:
  "pending (applyPendingLocked env c) = None"
  "config (applyPendingLocked env c) = (case pending c of None \<Rightarrow> config c | Some cf \<Rightarrow> cf)"
  by (simp_all add: applyPendingLocked_def Let_def case_prod_beta split: option.split)

lemma applyPending_pwm:
  assumes "ctl_ok c"
  shows "list_all2 (\<lambda>ch ch'. ch_Name (cfg ch') = ch_Name (cfg ch) \<and> ch_PWM (cfg ch') = ch_PWM (cfg ch))
    (chans c) (chans (applyPendingLocked env c))"
proof (cases "pending c")
  case None
  then show ?thesis by (simp add: applyPendingLocked_def list_all2_conv_all_nth)
next
  case (Some cf)
  have l: "linked (c_Channels cf) (chans c)" using assms Some by (simp add: ctl_ok_def)
  show ?thesis
    by (rule list.rel_mono_strong [OF applyPending_chans [OF Some, of env]])
      (use l in \<open>auto simp: linked_def list_all_iff swap_retime(1) dest!: by_name_linked\<close>)
qed

lemma applyPending_ok:
  assumes "ctl_ok c" shows "ctl_ok (applyPendingLocked env c)"
proof (cases "pending c")
  case None
  then show ?thesis using assms by (simp add: applyPendingLocked_def)
next
  case (Some cf)
  have cf: "config_ok cf" "linked (c_Channels cf) (chans c)" "list_all chan_ok (chans c)"
    using assms Some by (simp_all add: ctl_ok_def)
  have name: "by_name (c_Channels cf) (ch_Name (cfg ch)) \<in> set (c_Channels cf)" "channel_ok (by_name (c_Channels cf) (ch_Name (cfg ch)))"
    if "ch \<in> set (chans c)" for ch
    using by_name_linked [of "c_Channels cf" "ch_Name (cfg ch)"] that cf
    by (auto simp: linked_def list_all_iff config_ok_def)
  have ok: "list_all chan_ok (chans (applyPendingLocked env c))"
    using applyPending_chans [OF Some, of env] cf(3) name(2)
    by (fastforce simp: list_all2_conv_all_nth list_all_length swap_retime(2))
  have link: "linked (c_Channels cf) (chans (applyPendingLocked env c))"
    using applyPending_pwm [OF assms, of env] cf(2)
    by (auto simp: list_all2_conv_all_nth linked_def list_all_length)
  show ?thesis
    using ok link cf(1) assms Some steady_fields [OF steady_applyPending, of env c]
    by (simp add: ctl_ok_def)
qed

lemma cycle_begin_ok:
  assumes "ctl_ok c"
  shows "ctl_ok (snd (cycle_begin env c))" "daemon_ok (k_d (fst (cycle_begin env c)))"
    "overrides_ok (k_ovr (fst (cycle_begin env c)))"
proof -
  define c1 where "c1 = applyPendingLocked env (c\<lparr>world := e_Notify env (world c)\<rparr>)"
  have c1: "ctl_ok c1" unfolding c1_def using assms by (intro applyPending_ok) simp
  have c2: "ctl_ok ((snd (buildWatched env ids c1))\<lparr>watched := ws, watchDirty := False\<rparr>)" for ids ws
    using c1 ctl_ok_core [of "snd (buildWatched env ids c1)" c1] by (simp add: ctl_ok_def)
  show "ctl_ok (snd (cycle_begin env c))"
    using c1 c2 reresolve_ok [OF c1, of env] reresolve_ok [OF c2, of env]
    by (simp add: cycle_begin_def Let_def case_prod_beta c1_def [symmetric])
  have "daemon_ok (c_Daemon (config c1))" using c1 by (simp add: ctl_ok_def config_ok_def)
  then show "daemon_ok (k_d (fst (cycle_begin env c)))"
    by (simp add: cycle_begin_def Let_def case_prod_beta c1_def [symmetric])
  show "overrides_ok (k_ovr (fst (cycle_begin env c)))" using assms by (simp add: ctl_ok_def)
qed

lemma cycle_ok: "ctl_ok c \<Longrightarrow> ctl_ok (snd (cycle env c))"
  using cycle_begin_ok [of c env]
  by (simp add: cycle_def Let_def case_prod_beta writeAndFinish_okD checkStall_ok computeTargets_ok readSensors_ok)

section \<open>Service calls keep the invariant\<close>

lemma N5ProChannels_ok: "list_all channel_ok N5ProChannels"
proof -
  have "stop_ok ''140''" unfolding stop_ok_def
    by (rule disjI2, rule exI [of _ 140], code_simp)
  moreover have "stop_ok ''auto''" by (simp add: stop_ok_def)
  ultimately show ?thesis
    by (simp add: N5ProChannels_def channel_ok_def curve_ok_def curve_shape_def point_le_def config_limits duration_units)
qed

lemma channel_ok_fixed_stop: "channel_ok ch \<Longrightarrow> channel_ok (ch\<lparr>ch_Stop := HDDStop\<rparr>)"
proof -
  have "stop_ok HDDStop" unfolding stop_ok_def HDDStop_def
    by (rule disjI2, rule exI [of _ 140], code_simp)
  then show "channel_ok ch \<Longrightarrow> channel_ok (ch\<lparr>ch_Stop := HDDStop\<rparr>)" by (simp add: channel_ok_def)
qed

lemma sanitize_ok:
  assumes "list_all channel_ok chs"
  shows "list_all channel_ok (fst (SanitizeChannels prof chs))"
proof -
  have name: "channel_ok (d\<lparr>ch_Name := nm\<rparr>) = channel_ok d" for d nm by (simp add: channel_ok_def)
  have "list_all channel_ok (fst (sanitize_loop (pwm_index chs) N5ProChannels (map ch_Name chs) chs []))"
    using assms N5ProChannels_ok
    by (intro sanitize_loop_all) (auto simp: name list_all_iff channel_ok_fixed_stop dest: pwm_index_Some)
  with assms show ?thesis by (simp add: SanitizeChannels_def)
qed

lemma SetOverride_ok: "ctl_ok c \<Longrightarrow> ctl_ok (snd (SetOverride env name duty c))"
  by (auto simp: SetOverride_def Let_def case_prod_beta ctl_ok_def overrides_ok_def duty_ok_def split: option.split prod.split)

lemma ClearOverride_ok: "ctl_ok c \<Longrightarrow> ctl_ok (snd (ClearOverride env name c))"
  by (auto simp: ClearOverride_def ctl_ok_def overrides_ok_def split: option.split)

lemma sameChannelSet_linked:
  assumes "sameChannelSet a b" "linked b chs" shows "linked a chs"
  unfolding linked_def list_all_iff
proof
  fix ch assume "ch \<in> set chs"
  then have "name_pwm b (ch_Name (cfg ch)) = Some (ch_PWM (cfg ch))"
    using assms(2) by (simp add: linked_def list_all_iff)
  from by_name_linked [OF this] assms(1) show "name_pwm a (ch_Name (cfg ch)) = Some (ch_PWM (cfg ch))"
    by (auto simp: sameChannelSet_def list_all_iff dest!: bspec)
qed

lemma Apply_ok:
  assumes "ctl_ok c" "config_ok cf" shows "ctl_ok (snd (Apply env cf c))"
proof -
  let ?chs = "fst (SanitizeChannels (dv_Profile (e_dev env)) (c_Channels cf))"
  let ?base = "case pending c of Some p \<Rightarrow> p | None \<Rightarrow> config c"
  have "linked (c_Channels ?base) (chans c)" using assms(1) by (simp add: ctl_ok_def split: option.split)
  then have "sameChannelSet ?chs (c_Channels ?base) \<Longrightarrow> linked ?chs (chans c)"
    using sameChannelSet_linked by blast
  moreover have "config_ok (cf\<lparr>c_Channels := ?chs\<rparr>)"
    using assms(2) sanitize_ok by (simp add: config_ok_def)
  ultimately show ?thesis using assms(1) by (auto simp: Apply_def Let_def case_prod_beta ctl_ok_def)
qed

lemma SetWatched_ok: "ctl_ok c \<Longrightarrow> ctl_ok (SetWatched ids c)"
  by (auto simp: SetWatched_def Let_def ctl_ok_def config_ok_def)

lemma core_safe_stops [simp]: "core (foldl (\<lambda>c ch. safe_stop_channel env ch c) c chs) = core c"
  by (rule core_fold) simp

lemma Stop_fields:
  "chans (Stop env c) = chans c" "stopped c \<Longrightarrow> stopped (Stop env c)" "opts (Stop env c) = opts c"
  by (simp_all add: Stop_def safeStopLocked_def Let_def core_fields [OF core_safe_stops])

lemma Stop_ok: "ctl_ok c \<Longrightarrow> ctl_ok (Stop env c)"
  by (simp add: Stop_def safeStopLocked_def Let_def ctl_ok_def core_fields [OF core_safe_stops])

lemma saveHistory_ok: "ctl_ok c \<Longrightarrow> ctl_ok (saveHistory env c)"
  by (simp add: saveHistory_def Let_def case_prod_beta ctl_ok_def)

section \<open>Building a controller\<close>

lemma core_load_stamp [simp]: "core (load_stamp env name c) = core c"
  by (simp add: load_stamp_def Let_def case_prod_beta split: sum.split option.split)

lemma core_loadAlertStamps [simp]: "core (loadAlertStamps env c) = core c"
  by (simp add: loadAlertStamps_def core_fold split: prod.split sum.split)

lemma open_run_dir_fields [simp]:
  "config (open_run_dir env c) = config c" "overrides (open_run_dir env c) = overrides c"
  "pending (open_run_dir env c) = pending c" "cyc (open_run_dir env c) = cyc c"
  "wrErr (open_run_dir env c) = wrErr c" "fsFail (open_run_dir env c) = fsFail c"
  by (simp_all add: open_run_dir_def Let_def case_prod_beta core_fields [OF core_loadAlertStamps] split: option.split)

lemma core_buildChannels [simp]: "core (snd (snd (buildChannels env ccs c))) = core c"
proof (induction ccs arbitrary: c)
  case (Cons cc ccs)
  have "core (snd (build_channel env dc cc c)) = core c" for dc
    by (simp add: build_channel_def Let_def case_prod_beta split: sum.split)
  with Cons show ?case by (simp add: Let_def case_prod_beta split: option.split)
qed simp

lemma build_channel_ok: "channel_ok cc \<Longrightarrow> chan_ok (fst (build_channel env dc cc c))"
  "cfg (fst (build_channel env dc cc c)) = cc"
  by (simp_all add: build_channel_def newChannel_def set_ceiling_def ceilingOf_def chan_ok_def duty_ok_def
      stallRecoverCycles_def Let_def case_prod_beta split: sum.split)

lemma buildChannels_ok:
  assumes "list_all channel_ok ccs"
  shows "list_all chan_ok (fst (buildChannels env ccs c)) \<and> set (cfgs (fst (buildChannels env ccs c))) \<subseteq> set ccs"
  using assms
proof (induction ccs arbitrary: c)
  case (Cons cc ccs)
  then have IH: "\<And>c. list_all chan_ok (fst (buildChannels env ccs c)) \<and> set (cfgs (fst (buildChannels env ccs c))) \<subseteq> set ccs"
    and cc: "channel_ok cc" by simp_all
  show ?case
    using IH build_channel_ok(1) [OF cc, of env] build_channel_ok(2) [of env _ cc]
    by (auto simp: Let_def case_prod_beta cfgs_def split: option.split) 
qed (simp add: cfgs_def)

lemma linked_distinct:
  assumes "distinct (map ch_Name ccs)" "set (cfgs chs) \<subseteq> set ccs" shows "linked ccs chs"
  unfolding linked_cfgs list_all_iff
proof
  fix cc assume "cc \<in> set (cfgs chs)"
  then have "(ch_Name cc, ch_PWM cc) \<in> set (rev (map (\<lambda>ch. (ch_Name ch, ch_PWM ch)) ccs))" using assms(2) by auto
  moreover have "distinct (map fst (rev (map (\<lambda>ch. (ch_Name ch, ch_PWM ch)) ccs)))"
    using assms(1) by (simp add: rev_map [symmetric] comp_def)
  ultimately show "name_pwm ccs (ch_Name cc) = Some (ch_PWM cc)" by (simp add: name_pwm_def)
qed

lemma loadOverrides_frame:
  "overrides_ok (overrides c) \<Longrightarrow> overrides_ok (overrides (loadOverrides env c))"
  "core ((loadOverrides env c)\<lparr>overrides := m\<rparr>) = core (c\<lparr>overrides := m\<rparr>)"
proof -
  have 1: "overrides_ok (overrides c) \<Longrightarrow> overrides_ok (overrides (load_override env ch c))" for c and ch :: "'a channel"
    by (auto simp: load_override_def Let_def case_prod_beta overrides_ok_def duty_ok_def split: sum.split option.split)
  have cu: "core (c'\<lparr>overrides := m\<rparr>) = core (c\<lparr>overrides := m\<rparr>)" if "core c' = core c" for c' and c :: "('a, 'b) Controller"
    using core_fields [OF that] by (simp add: core_def)
  have 2: "core ((load_override env ch c)\<lparr>overrides := m\<rparr>) = core (c\<lparr>overrides := m\<rparr>)" for c and ch :: "'a channel"
  proof -
    have "core ((removeRunFile env n w (logf f a (c\<lparr>world := x\<rparr>)))\<lparr>overrides := m\<rparr>) = core (c\<lparr>overrides := m\<rparr>)" for n w f a x
      by (rule cu) simp
    moreover have "core ((logf f a (c\<lparr>world := x, overrides := y\<rparr>))\<lparr>overrides := m\<rparr>) = core (c\<lparr>overrides := m\<rparr>)" for f a x y
      by (simp add: logf_def core_def)
    moreover have "core ((c\<lparr>world := x\<rparr>)\<lparr>overrides := m\<rparr>) = core (c\<lparr>overrides := m\<rparr>)" for x
      by (simp add: core_def)
    ultimately show ?thesis
      by (auto simp: load_override_def Let_def case_prod_beta split: sum.split option.split)
  qed
  show "overrides_ok (overrides c) \<Longrightarrow> overrides_ok (overrides (loadOverrides env c))"
  proof -
    have "overrides_ok (overrides c) \<Longrightarrow> overrides_ok (overrides (foldl (\<lambda>c ch. load_override env ch c) c chs))" for chs
      by (induction chs arbitrary: c) (simp_all add: 1)
    then show "overrides_ok (overrides c) \<Longrightarrow> overrides_ok (overrides (loadOverrides env c))"
      by (simp add: loadOverrides_def)
  qed
  show "core ((loadOverrides env c)\<lparr>overrides := m\<rparr>) = core (c\<lparr>overrides := m\<rparr>)"
  proof -
    have "core ((foldl (\<lambda>c ch. load_override env ch c) c chs)\<lparr>overrides := m\<rparr>) = core (c\<lparr>overrides := m\<rparr>)" for chs
      by (induction chs arbitrary: c) (simp_all add: 2)
    then show ?thesis by (simp add: loadOverrides_def)
  qed
qed

lemma loadOverrides_ok:
  assumes "ctl_ok c" shows "ctl_ok (loadOverrides env c)"
proof -
  have "overrides_ok (overrides c)" using assms by (simp add: ctl_ok_def)
  then have "overrides_ok (overrides (loadOverrides env c))" by (rule loadOverrides_frame(1))
  moreover note core_fields [OF loadOverrides_frame(2) [where env = env and c = c and m = "overrides c"]]
  ultimately show ?thesis using assms by (simp add: ctl_ok_def)
qed

lemma New_ok:
  fixes env :: "('r, 'w) env"
  assumes "config_ok cf" "distinct (map ch_Name (fst (SanitizeChannels (dv_Profile (e_dev env)) (c_Channels cf))))"
  shows "ctl_ok (New env cf opt w)"
proof -
  define c1 where "c1 = open_run_dir env (init_controller cf opt w :: ('r, 'w) Controller)"
  have c1: "config c1 = cf" "overrides c1 = Map.empty" "pending c1 = None" "cyc c1 = 0" "wrErr c1 = 0" "fsFail c1 = 0"
    by (simp_all add: c1_def init_controller_def)
  define chs where "chs = fst (SanitizeChannels (dv_Profile (e_dev env)) (c_Channels cf))"
  have chs: "list_all channel_ok chs" "distinct (map ch_Name chs)"
    using assms sanitize_ok by (simp_all add: chs_def config_ok_def)
  define c2 where "c2 = c1\<lparr>config := cf\<lparr>c_Channels := chs\<rparr>\<rparr>"
  define r where "r = buildChannels env chs c2"
  define c3 where "c3 = (snd (snd r))\<lparr>chans := fst r\<rparr>"
  have "linked chs (fst r)" "list_all chan_ok (fst r)"
    using buildChannels_ok [OF chs(1), of env c2] linked_distinct [OF chs(2), of "fst r"] by (simp_all add: r_def)
  moreover have "core (snd (snd r)) = core c2" by (simp add: r_def)
  note core_fields [OF this]
  ultimately have c3: "ctl_ok c3"
    using assms(1) c1 chs by (simp add: c3_def c2_def ctl_ok_def config_ok_def overrides_ok_def)
  define c4 where "c4 = reportNotes env ''config corrected at start''
      (snd (SanitizeChannels (dv_Profile (e_dev env)) (c_Channels cf)) @ fst (snd r)) c3"
  define c6 where "c6 = (snd (buildWatched env (c_Sensors (config c4)) c4))\<lparr>watched := fst (buildWatched env (c_Sensors (config c4)) c4)\<rparr>"
  have c6: "ctl_ok c6"
    using c3 core_fields [OF core_buildWatched, of env "c_Sensors (config c4)" c4] by (simp add: c6_def c4_def ctl_ok_def)
  have "ctl_ok (c\<lparr>snap := s\<rparr>) = ctl_ok c" "ctl_ok (c\<lparr>started := t, lastSave := t'\<rparr>) = ctl_ok c" for c :: "('r, 'w) Controller" and s t t'
    by (simp_all add: ctl_ok_def)
  with c6 loadOverrides_ok [OF c6, of env] show ?thesis
    by (simp add: New_def Let_def case_prod_beta c1_def [symmetric] c1 chs_def [symmetric] c2_def [symmetric]
        r_def [symmetric] c3_def [symmetric] c4_def [symmetric] c6_def [symmetric])
qed

section \<open>Reachable states\<close>

text \<open>
  The loop between two steps of its cycle, and the calls that can run there: the
  service calls take the mutex the loop holds only at the start of a cycle,
  \<^verbatim>\<open>Stop\<close> takes the hardware mutex the loop holds only while it writes, and the
  goroutines the controller started run at any time.
\<close>

datatype phase = Idle | Begun cycleState | ReadDone cycleState | Targeted cycleState | Ready cycleState | Ended

inductive step :: "('r, 'w) env \<Rightarrow> phase \<times> ('r, 'w) Controller \<Rightarrow> phase \<times> ('r, 'w) Controller \<Rightarrow> bool" for env where
  begin_cycle: "cycle_begin env c = (k, c') \<Longrightarrow> step env (Idle, c) (Begun k, c')"
| read_sensors: "readSensors env k c = (k', c') \<Longrightarrow> step env (Begun k, c) (ReadDone k', c')"
| compute_targets: "step env (ReadDone k, c) (Targeted k, computeTargets env k c)"
| check_stall: "step env (Targeted k, c) (Ready k, checkStall env k c)"
| finish_cycle: "writeAndFinish env k c = (lost, c') \<Longrightarrow> step env (Ready k, c) (if lost then Ended else Idle, c')"
| save_history: "step env (Idle, c) (Idle, saveHistory env c)"
| set_override: "step env (ph, c) (ph, snd (SetOverride env name duty c))"
| clear_override: "step env (ph, c) (ph, snd (ClearOverride env name c))"
| apply_config: "config_ok cf \<Longrightarrow> step env (ph, c) (ph, snd (Apply env cf c))"
| set_watched: "step env (ph, c) (ph, SetWatched ids c)"
| stop_call: "step env (ph, c) (ph, Stop env c)"
| run_goroutine: "jobs c = js @ j # js' \<Longrightarrow> step env (ph, c) (ph, run_job env j (c\<lparr>jobs := js @ js'\<rparr>))"

inductive_cases step_elims: "step env s s'"

definition phase_ok :: "phase \<Rightarrow> bool" where
  "phase_ok ph = (case ph of
      Begun k \<Rightarrow> daemon_ok (k_d k) \<and> overrides_ok (k_ovr k)
    | ReadDone k \<Rightarrow> daemon_ok (k_d k) \<and> overrides_ok (k_ovr k)
    | Targeted k \<Rightarrow> daemon_ok (k_d k) \<and> overrides_ok (k_ovr k)
    | Ready k \<Rightarrow> daemon_ok (k_d k) \<and> overrides_ok (k_ovr k)
    | _ \<Rightarrow> True)"

text \<open>The running channels by name and pwm number.\<close>

definition keys :: "'r channel list \<Rightarrow> (string \<times> int) list" where
  "keys chs = map (\<lambda>ch. (ch_Name (cfg ch), ch_PWM (cfg ch))) chs"

lemma keys_cfgs: "cfgs chs' = cfgs chs \<Longrightarrow> keys chs' = keys chs"
proof -
  assume e: "cfgs chs' = cfgs chs"
  from arg_cong [OF e, of "map (\<lambda>cc. (ch_Name cc, ch_PWM cc))"] show ?thesis
    by (simp add: keys_def cfgs_def comp_def)
qed

lemma cfgs_phases [simp]:
  "cfgs (chans (snd (writeAndFinish env k c))) = cfgs (chans c)"
proof -
  have 1: "cfgs (chans (snd (writePhase env d n c))) = cfgs (chans c)" for d n c
    by (simp add: writePhase_def Let_def case_prod_beta checkRegisters_chans)
  have 2: "cfgs (chans (snd (failsafeAll env m c))) = cfgs (chans c)" for m c
    by (simp add: failsafeAll_def Let_def case_prod_beta)
  have 3: "cfgs (chans (reresolve env c)) = cfgs (chans c)" for c
    by (simp add: reresolve_def Let_def case_prod_beta)
  show ?thesis by (simp add: writeAndFinish_def Let_def case_prod_beta 1 2 3)
qed

lemma keys_cycle_begin:
  assumes "ctl_ok c" shows "keys (chans (snd (cycle_begin env c))) = keys (chans c)"
proof -
  have "keys (chans (applyPendingLocked env (c\<lparr>world := w\<rparr>))) = keys (chans c)" for w
    using applyPending_pwm [of "c\<lparr>world := w\<rparr>" env] assms
    by (auto simp: keys_def list_all2_conv_all_nth intro!: nth_equalityI)
  moreover have "keys (chans (reresolve env c)) = keys (chans c)" for c
    by (rule keys_cfgs) (simp add: reresolve_def Let_def case_prod_beta)
  ultimately show ?thesis by (simp add: cycle_begin_def Let_def case_prod_beta)
qed

lemma keys_services [simp]:
  "chans (snd (SetOverride env name duty c)) = chans c" "chans (snd (ClearOverride env name c)) = chans c"
  "chans (snd (Apply env cf c)) = chans c" "chans (SetWatched ids c) = chans c" "chans (saveHistory env c) = chans c"
  by (simp_all add: SetOverride_def ClearOverride_def Apply_def SetWatched_def saveHistory_def Let_def case_prod_beta
      split: option.split prod.split)

lemma ctl_ok_jobs: "ctl_ok (run_job env j (c\<lparr>jobs := js\<rparr>)) = ctl_ok c" by simp

lemma step_ok:
  assumes "step env (ph, c) (ph', c')" "ctl_ok c" "phase_ok ph"
  shows "ctl_ok c' \<and> phase_ok ph' \<and> keys (chans c') = keys (chans c)"
  using assms
proof (induction "(ph, c)" "(ph', c')" arbitrary: ph c ph' c' rule: step.induct)
  case (begin_cycle c k c')
  with cycle_begin_ok [of c env] keys_cycle_begin [of c env] show ?case by (simp add: phase_ok_def)
next
  case (read_sensors k c k' c')
  with readSensors_ok [of c env k] readSensors_k [of env k c] keys_cfgs [OF readSensors_frame(3), of env k c]
  show ?case by (simp add: phase_ok_def)
next
  case (compute_targets k c)
  then show ?case by (simp add: phase_ok_def computeTargets_ok keys_cfgs [OF computeTargets_frame(3)])
next
  case (check_stall k c)
  then show ?case by (simp add: phase_ok_def checkStall_ok keys_cfgs [OF checkStall_frame(3)])
next
  case (finish_cycle k c lost c')
  with writeAndFinish_okD [of c k env] keys_cfgs [OF cfgs_phases, of env k c] show ?case
    by (auto simp: phase_ok_def)
qed (simp_all add: phase_ok_def saveHistory_ok SetOverride_ok ClearOverride_ok Apply_ok SetWatched_ok Stop_ok Stop_fields(1))

section \<open>Properties\<close>

lemma cycle_targets_ok:
  assumes "ctl_ok c"
  shows "ctl_ok (cycle_targets env c)" "daemon_ok (k_d (cycle_k env c))"
  using cycle_begin_ok [OF assms, of env]
  by (simp_all add: cycle_targets_def cycle_k_def Let_def case_prod_beta checkStall_ok computeTargets_ok readSensors_ok)

lemma reachable_ctl_ok:
  assumes cf: "config_ok cf"
    and names: "distinct (map ch_Name (fst (SanitizeChannels (dv_Profile (e_dev env)) (c_Channels cf))))"
    and run: "(step env)\<^sup>*\<^sup>* (Idle, New env cf opt w) (ph, c)"
  shows "ctl_ok c \<and> keys (chans c) = keys (chans (New env cf opt w))"
proof -
  have "ctl_ok (snd s) \<and> phase_ok (fst s) \<and> keys (chans (snd s)) = keys (chans (New env cf opt w))"
    if "(step env)\<^sup>*\<^sup>* (Idle, New env cf opt w) s" for s
    using that
  proof (induction rule: rtranclp_induct)
    case base
    then show ?case using New_ok [OF cf names] by (simp add: phase_ok_def)
  next
    case (step s s')
    then show ?case
      using step_ok [of env "fst s" "snd s" "fst s'" "snd s'"] by simp
  qed
  from this [OF run] show ?thesis by simp
qed

text \<open>
  C2: in every state reachable from a controller that \<^verbatim>\<open>New\<close> built for a valid
  configuration, whatever service calls, reloads, \<^verbatim>\<open>Stop\<close> and goroutines run between the
  steps of the cycles, all targets and overrides are duties 0..255, a known duty is
  one, every channel configuration is valid, and the channels keep the names and
  pwm numbers they started with.
\<close>

theorem reachable_states_ok:
  assumes cf: "config_ok cf"
    and names: "distinct (map ch_Name (fst (SanitizeChannels (dv_Profile (e_dev env)) (c_Channels cf))))"
    and run: "(step env)\<^sup>*\<^sup>* (Idle, New env cf opt w) (ph, c)"
  shows "ctl_ok c \<and> keys (chans c) = keys (chans (New env cf opt w))"
  using assms by (rule reachable_ctl_ok)

theorem reachable_states_ok_witness:
  "let c = New demo demo_config demo_options demo_world0
   in config_ok demo_config \<and> distinct (map ch_Name (fst (SanitizeChannels (dv_Profile (e_dev demo)) (c_Channels demo_config)))) \<and>
      ctl_ok (snd (SetOverride demo ''case'' 100 c))"
proof -
  let ?c = "New demo demo_config demo_options demo_world0"
  have "stop_ok ''auto''" by (simp add: stop_ok_def)
  then have cf: "config_ok demo_config"
    by (simp add: demo_config_def demo_channel_def Default_def DefaultDaemon_def config_ok_def daemon_ok_def
        channel_ok_def curve_ok_def curve_shape_def point_le_def config_limits duration_units Profiles_def)
  have names: "distinct (map ch_Name (fst (SanitizeChannels (dv_Profile (e_dev demo)) (c_Channels demo_config))))"
    by (simp add: demo_env_def demo_dev_def SanitizeChannels_def demo_config_def)
  have "(step demo)\<^sup>*\<^sup>* (Idle, ?c) (Idle, snd (SetOverride demo ''case'' 100 ?c))"
    by (rule r_into_rtranclp) (rule step.set_override)
  from reachable_states_ok [OF cf names this] cf names show ?thesis by (simp add: Let_def)
qed

text \<open>
  C5: a cycle of a well-formed controller never hands the device a duty outside 0..255:
  a device that behaves differently only there gives the same cycle.
\<close>

theorem cycle_writes_duties_only:
  assumes ok: "ctl_ok c"
    and same: "\<forall>p d w. 0 \<le> d \<and> d \<le> 255 \<longrightarrow> f p d w = dv_WriteDuty (e_dev env) p d w"
  shows "cycle (rewire env f g h) c = cycle env c"
proof (intro rewire_cycle rewire_writeAndFinish disjI2)
  have "list_all chan_ok (chans (checkRegisters env (cycle_targets env c)))"
    using cycle_targets_ok(1) [OF ok, of env] by (intro checkRegisters_chans(1)) (simp add: ctl_ok_def)
  then have "duty_ok (next_duty (k_d (cycle_k env c)) (k_n (cycle_k env c)) ch)"
    if "ch \<in> set (chans (checkRegisters env (cycle_targets env c)))" for ch
    using that cycle_targets_ok(2) [OF ok, of env] by (auto simp: list_all_iff intro: next_duty_ok)
  with same show "\<forall>ch \<in> set (chans (checkRegisters env (cycle_targets env c))). o_DryRun (opts (cycle_targets env c)) \<or>
      (\<forall>p w. f p (next_duty (k_d (cycle_k env c)) (k_n (cycle_k env c)) ch) w =
        dv_WriteDuty (e_dev env) p (next_duty (k_d (cycle_k env c)) (k_n (cycle_k env c)) ch) w)"
    by (auto simp: duty_ok_def)
  show "\<forall>p w. f p 255 w = dv_WriteDuty (e_dev env) p 255 w" using same by simp
qed

lemma demo_start_ok: "ctl_ok (demo_start t r f)"
proof -
  have "stop_ok ''auto''" by (simp add: stop_ok_def)
  then have "channel_ok demo_channel"
    by (simp add: demo_channel_def channel_ok_def curve_ok_def curve_shape_def point_le_def config_limits duration_units)
  moreover have "daemon_ok DefaultDaemon"
    by (simp add: DefaultDaemon_def daemon_ok_def config_limits duration_units Profiles_def)
  ultimately show ?thesis
    by (simp add: demo_start_def init_controller_def demo_config_def Default_def ctl_ok_def config_ok_def chan_ok_def
        newChannel_def set_ceiling_def ceilingOf_def duty_ok_def stallRecoverCycles_def overrides_ok_def linked_def
        name_pwm_def Let_def)
qed

theorem cycle_writes_duties_only_witness:
  "ctl_ok (demo_start 50000 900 False) \<and>
   cycle (rewire demo (\<lambda>p d w. if d < 0 \<or> d > 255 then (None, demo_world0) else dv_WriteDuty (e_dev demo) p d w)
     (\<lambda>p w. (None, w)) (\<lambda>p s w. (None, w))) (demo_start 50000 900 False) = cycle demo (demo_start 50000 900 False)"
  using cycle_writes_duties_only [OF demo_start_ok, of "\<lambda>p d w. if d < 0 \<or> d > 255 then (None, demo_world0) else dv_WriteDuty (e_dev demo) p d w" demo]
  by (simp add: demo_start_ok)


end
