(* ===== verification/Faults.thy ===== *)
theory Faults
  imports Invariant
begin

text \<open>
  Faults and how the controller leaves them: ceiling episodes and the emergency
  action, fan stalls, repeated write errors up to the lost device, the alert
  cooldown, and the safe state that \<^verbatim>\<open>Stop\<close> and the \<^verbatim>\<open>failsafe\<close> command leave behind.
\<close>

section \<open>Ceiling episodes\<close>

definition still_hot :: "'r channel \<Rightarrow> bool" where
  "still_hot ch \<longleftrightarrow> (\<exists>p \<in> set (parts ch). part_Value p \<ge> (partCeiling ch (part_ID p) - ceilingRecover) * 1000)"

text \<open>
  C12: a ceiling episode starts exactly when a part of the reading reaches its own ceiling, and
  goes on exactly while some part is less than three degrees below its ceiling; during an
  episode the channel runs at 255.
\<close>

theorem ceiling_episode:
  "ceilHit (fst (applyCeiling env d ch c)) = ((\<exists>p \<in> set (parts ch). over_ceiling ch p) \<or> ceilHit ch \<and> still_hot ch) \<and>
   target (fst (applyCeiling env d ch c)) = (if ceilHit (fst (applyCeiling env d ch c)) then 255 else target ch)"
proof -
  have 1: "fst (hottestPart ch) \<noteq> None \<longleftrightarrow> (\<exists>p \<in> set (parts ch). over_ceiling ch p)"
    by (simp add: hottestPart_none)
  have 2: "\<not> snd (hottestPart ch) \<longleftrightarrow> still_hot ch" by (auto simp: hottestPart_all still_hot_def not_less)
  have 3: "(\<exists>p \<in> set (parts ch). over_ceiling ch p) \<Longrightarrow> still_hot ch"
    by (force simp: over_ceiling_def still_hot_def ceilingRecover_def)
  have "ceilHit (fst (applyCeiling env d ch c)) = ((\<exists>p \<in> set (parts ch). over_ceiling ch p) \<or> ceilHit ch \<and> still_hot ch)"
    using 1 2 3 by (auto simp: applyCeiling_def Let_def case_prod_beta split: option.splits)
  with applyCeiling_forced [of env d ch c] show ?thesis by auto
qed

text \<open>
  Once the emergency action has fired, it does not fire again, no alert is raised and
  nothing is logged for the channel's ceiling until the episode is over.
\<close>

theorem emergency_once_per_episode:
  assumes "ceilHit ch" "emergencyFired ch" "still_hot ch"
  shows "snd (applyCeiling env d ch c) = c \<and> emergencyFired (fst (applyCeiling env d ch c)) \<and>
    ceilHit (fst (applyCeiling env d ch c)) \<and> ceilCycles (fst (applyCeiling env d ch c)) = ceilCycles ch + 1"
proof -
  have cool: "\<not> snd (hottestPart ch)" using assms(3) by (auto simp: hottestPart_all still_hot_def not_less)
  have fired: "emergency env d x c = (x, c)" if "emergencyFired x" for x :: "'a channel"
    using that by (simp add: emergency_def)
  show ?thesis
    using cool assms(1,2) by (cases "fst (hottestPart ch)") (simp_all add: applyCeiling_def Let_def case_prod_beta fired)
qed

theorem emergency_once_per_episode_witness:
  "let ch = (newChannel demo_channel True :: string channel)
       \<lparr>ceilHit := True, emergencyFired := True, ceiling := 95, parts := [\<lparr>part_ID = ''k10temp'', part_Value = 99000\<rparr>]\<rparr>
   in still_hot ch \<and> snd (applyCeiling demo DefaultDaemon ch (demo_start 99000 0 False)) = demo_start 99000 0 False"
proof -
  let ?ch = "(newChannel demo_channel True :: string channel)
       \<lparr>ceilHit := True, emergencyFired := True, ceiling := 95, parts := [\<lparr>part_ID = ''k10temp'', part_Value = 99000\<rparr>]\<rparr>"
  have h: "still_hot ?ch" by (simp add: still_hot_def partCeiling_def newChannel_def ceilingRecover_def)
  have "ceilHit ?ch" "emergencyFired ?ch" by simp_all
  from emergency_once_per_episode [OF this h, of demo DefaultDaemon "demo_start 99000 0 False"] h show ?thesis
    unfolding Let_def by blast
qed

section \<open>Stall detection\<close>

text \<open>The channel after \<open>n\<close> checks with unchanged readings; the checks do not depend on the rest of the state.\<close>

definition stall_checks :: "('r, 'w) env \<Rightarrow> Daemon \<Rightarrow> ('r, 'w) Controller \<Rightarrow> nat \<Rightarrow> 'r channel \<Rightarrow> 'r channel" where
  "stall_checks env d c n ch = ((\<lambda>ch. fst (stall_channel env d ch c)) ^^ n) ch"

lemma stall_checks_Suc: "stall_checks env d c (Suc n) ch = fst (stall_channel env d (stall_checks env d c n ch) c)"
  by (simp add: stall_checks_def)

lemma stall_counting:
  assumes "hasTach ch" "\<not> stalled ch" "stallCnt ch = 0" "rpm ch = 0" "written ch" "cur ch \<ge> d_StallMinDuty d"
  shows "int n < d_StallCycles d \<Longrightarrow> stall_checks env d c n ch = ch\<lparr>stallCnt := int n\<rparr>"
proof (induction n)
  case 0
  then show ?case using assms(3) by (simp add: stall_checks_def)
next
  case (Suc n)
  then show ?case using assms by (simp add: stall_checks_Suc stall_channel_def Let_def)
qed

lemma stall_recovering:
  assumes "hasTach ch" "stalled ch" "recov ch = 0" "rpm ch > 0"
  shows "int n < stallRecoverCycles \<Longrightarrow> n > 0 \<Longrightarrow>
    stall_checks env d c n ch = ch\<lparr>target := 255, mode := ModeStall, recov := int n\<rparr>"
proof (induction n)
  case (Suc n)
  then show ?case
    using assms by (cases "n = 0") (auto simp: stall_checks_Suc stall_channel_def Let_def stall_checks_def)
qed simp

text \<open>
  C13: a fan that reports 0 RPM at a written duty of at least \<^verbatim>\<open>stall_min_duty\<close> is declared
  stalled and driven to 255 at the \<^verbatim>\<open>stall_cycles\<close>-th such cycle and not before; a stalled fan
  that turns stays at 255 for two more checks and is released at the third.
\<close>

theorem stall_detection:
  assumes "hasTach ch" "1 \<le> d_StallCycles d"
  shows "(\<not> stalled ch \<and> stallCnt ch = 0 \<and> rpm ch = 0 \<and> written ch \<and> cur ch \<ge> d_StallMinDuty d \<longrightarrow>
      (\<forall>n. int n < d_StallCycles d \<longrightarrow> \<not> stalled (stall_checks env d c n ch) \<and> target (stall_checks env d c n ch) = target ch) \<and>
      stalled (stall_checks env d c (nat (d_StallCycles d)) ch) \<and> target (stall_checks env d c (nat (d_StallCycles d)) ch) = 255) \<and>
    (stalled ch \<and> recov ch = 0 \<and> rpm ch > 0 \<longrightarrow>
      (\<forall>n \<in> {1, 2}. stalled (stall_checks env d c n ch) \<and> target (stall_checks env d c n ch) = 255) \<and>
      \<not> stalled (stall_checks env d c 3 ch))" (is "(?P \<longrightarrow> ?A) \<and> (?Q \<longrightarrow> ?B)")
proof (rule conjI; rule impI)
  assume P: ?P
  obtain m where m: "nat (d_StallCycles d) = Suc m" "int m < d_StallCycles d" "int m + 1 = d_StallCycles d"
    using assms(2) by (cases "nat (d_StallCycles d)") auto
  have cnt: "\<And>n. int n < d_StallCycles d \<Longrightarrow> stall_checks env d c n ch = ch\<lparr>stallCnt := int n\<rparr>"
    using P assms(1) by (intro stall_counting) auto
  have end_: "stall_checks env d c (Suc m) ch = fst (stall_channel env d (ch\<lparr>stallCnt := int m\<rparr>) c)"
    by (simp add: stall_checks_Suc cnt [OF m(2)])
  show ?A unfolding m(1) end_ using P cnt m assms(1) by (simp add: stall_channel_def Let_def)
next
  assume P: ?Q
  have r: "stall_checks env d c n ch = ch\<lparr>target := 255, mode := ModeStall, recov := int n\<rparr>" if "n \<in> {1, 2}" for n
    using P assms(1) that by (intro stall_recovering) (auto simp: stallRecoverCycles_def)
  have "stall_checks env d c (Suc 2) ch = fst (stall_channel env d (ch\<lparr>target := 255, mode := ModeStall, recov := 2\<rparr>) c)"
    unfolding stall_checks_Suc using r [of 2] by simp
  with P assms(1) have "\<not> stalled (stall_checks env d c (Suc 2) ch)"
    by (simp add: stall_channel_def Let_def stallRecoverCycles_def)
  with r P show ?B by (simp add: numeral_3_eq_3)
qed

theorem stall_detection_witness:
  "let ch = (newChannel demo_channel True :: string channel)\<lparr>rpm := 0, written := True, cur := 100\<rparr>
   in hasTach ch \<and> 1 \<le> d_StallCycles DefaultDaemon \<and>
      target (stall_checks demo DefaultDaemon (demo_start 50000 0 False) 1 ch) = target ch \<and>
      stalled (stall_checks demo DefaultDaemon (demo_start 50000 0 False) 2 ch) \<and>
      target (stall_checks demo DefaultDaemon (demo_start 50000 0 False) 2 ch) = 255"
proof -
  let ?ch = "(newChannel demo_channel True :: string channel)\<lparr>rpm := 0, written := True, cur := 100\<rparr>"
  have "hasTach ?ch" "1 \<le> d_StallCycles DefaultDaemon" by (simp_all add: newChannel_def DefaultDaemon_def)
  from stall_detection [OF this, of demo "demo_start 50000 0 False"] this show ?thesis
    by (simp add: newChannel_def DefaultDaemon_def Let_def)
qed

section \<open>Alert cooldown\<close>

text \<open>
  an alert that is not suppressed stamps its kind with the current reading and nothing
  else; while a later reading is less than \<^verbatim>\<open>alert_cooldown\<close> after the stamp, raising the same kind does
  nothing but read the clock, and other kinds are unaffected.
\<close>

theorem alert_cooldown:
  assumes now: "e_Now env (world c) = (t0, w0)" and out: "\<not> alert_suppressed (c_Daemon (config c)) kind t0 (c\<lparr>world := w0\<rparr>)"
    and later: "alertAt c' kind = alertAt (raise_alert env kind m c) kind" "config c' = config c"
    and within: "0 \<le> Sub (fst (Now env c')) t0" "Sub (fst (Now env c')) t0 < d_AlertCooldown (c_Daemon (config c))"
  shows "raise_alert env kind m' c' = snd (Now env c') \<and>
    (other \<noteq> kind \<longrightarrow> alertAt (raise_alert env kind m c) other = alertAt c other \<and>
      alerts (raise_alert env kind m c) other = alerts c other)"
proof -
  have upd: "alertAt (raise_alert env kind m c) = (alertAt c)(kind \<mapsto> t0)"
    "alerts (raise_alert env kind m c) = (alerts c)(kind \<mapsto> Unix t0)"
    using now out
    by (simp_all add: raise_alert_def Now_def logf_def logOnce_def logClear_def Let_def case_prod_beta split: option.split)
  have "alertAt (snd (Now env c')) = alertAt c'" by (simp add: Now_def case_prod_beta)
  then have "alert_suppressed (c_Daemon (config (snd (Now env c')))) kind (fst (Now env c')) (snd (Now env c'))"
    using later within upd by (simp add: alert_suppressed_def Let_def)
  then show ?thesis using upd by (simp add: raise_alert_def case_prod_beta)
qed

theorem alert_cooldown_witness:
  "let c = demo_start 50000 900 False; c' = raise_alert demo ''temp'' emptyMsg c
   in alertAt c ''temp'' = None \<and> raise_alert demo ''temp'' emptyMsg c' = snd (Now demo c')"
proof -
  let ?c = "demo_start 50000 900 False"
  let ?c' = "raise_alert demo ''temp'' emptyMsg ?c"
  obtain t0 w0 where now: "e_Now demo (world ?c) = (t0, w0)" by (cases "e_Now demo (world ?c)")
  have a: "alertAt ?c ''temp'' = None" "alerts ?c ''temp'' = None"
    by (simp_all add: demo_start_def init_controller_def)
  then have out: "\<not> alert_suppressed (c_Daemon (config ?c)) ''temp'' t0 (?c\<lparr>world := w0\<rparr>)"
    by (simp add: alert_suppressed_def)
  have cfg: "config ?c' = config ?c" by simp
  have "Sub (fst (Now demo ?c')) (fst (e_Now demo (world ?c))) = Second" by code_simp
  then have "0 \<le> Sub (fst (Now demo ?c')) t0" "Sub (fst (Now demo ?c')) t0 < d_AlertCooldown (c_Daemon (config ?c))"
    using now by (simp_all add: demo_start_def init_controller_def demo_config_def Default_def DefaultDaemon_def duration_units)
  from alert_cooldown [OF now out refl cfg this] a show ?thesis by (simp add: Let_def)
qed

section \<open>Repeated write errors\<close>

text \<open>
  From the second consecutive cycle with a failed write on, every channel, also one whose own
  write succeeded, is switched to the failsafe mode with target 255, and its duty is 255
  unless this write failed too.
\<close>

theorem repeated_write_errors:
  assumes run: "\<not> stopped c" "\<not> o_DryRun (opts c)"
    and err: "fst (fst (writePhase env (k_d k) (k_n k) c))" and before: "wrErr c \<ge> 1"
    and mem: "ch \<in> set (chans (snd (writeAndFinish env k c)))"
  shows "mode ch = ModeFailsafe \<and> target ch = 255 \<and> (cur ch = 255 \<or> cur ch = -1 \<and> \<not> writes_ok (e_dev env))"
proof -
  define c1 where "c1 = (snd (writePhase env (k_d k) (k_n k) c))\<lparr>wrErr := wrErr c + 1\<rparr>"
  define c2 where "c2 = reresolve env (raise_alert env ''write''
      (Msg ''repeated pwm write errors -> all channels 255; check driver/EC (dmesg, journalctl -u n5-fangov)'' [])
      (logf ''pwm write error (%d consecutive)'' [AI (wrErr c + 1)] c1))"
  have c2: "\<not> stopped c2" "\<not> o_DryRun (opts c2)" using run by (simp_all add: c2_def c1_def)
  have "ch \<in> set (chans (snd (failsafeAll env ModeFailsafe c2)))"
    using mem err before
    by (simp add: writeAndFinish_def Let_def case_prod_beta c1_def c2_def writeErrorsBeforeFailsafe_def)
  then show ?thesis using failsafeAll_mem [OF c2] by metis
qed

theorem repeated_write_errors_witness:
  "let c = (demo_start 50000 900 True)\<lparr>wrErr := 1\<rparr>; k = (demo_cycle Map.empty)\<lparr>k_n := 0\<rparr>;
       ch = hd (chans (snd (writeAndFinish demo k c)))
   in \<not> stopped c \<and> fst (fst (writePhase demo (k_d k) (k_n k) c)) \<and> wrErr c \<ge> 1 \<and> mode ch = ModeFailsafe \<and> target ch = 255"
proof -
  let ?c = "(demo_start 50000 900 True)\<lparr>wrErr := 1\<rparr>" and ?k = "(demo_cycle Map.empty)\<lparr>k_n := 0\<rparr>"
  have c: "\<not> stopped ?c" "\<not> o_DryRun (opts ?c)" "wrErr ?c \<ge> 1"
    by (simp_all add: demo_start_def init_controller_def demo_options_def)
  have e: "fst (fst (writePhase demo (k_d ?k) (k_n ?k) ?c))" by code_simp
  have "length (cfgs (chans (snd (writeAndFinish demo ?k ?c)))) = 1"
    by (simp only: cfgs_phases) (simp add: cfgs_def demo_start_def)
  then have "hd (chans (snd (writeAndFinish demo ?k ?c))) \<in> set (chans (snd (writeAndFinish demo ?k ?c)))"
    by (cases "chans (snd (writeAndFinish demo ?k ?c))") (simp_all add: cfgs_def)
  from repeated_write_errors [OF c(1,2) e c(3) this] c e show ?thesis unfolding Let_def by blast
qed

section \<open>The lost device\<close>

text \<open>A device on which every duty write fails.\<close>

definition dead :: "'w devops \<Rightarrow> bool" where
  "dead dev \<longleftrightarrow> (\<forall>p d w. \<exists>e. fst (dv_WriteDuty dev p d w) = Some e \<and> \<not> errors_Is e ErrDCRMismatch)"

definition curs :: "'r channel list \<Rightarrow> int list" where
  "curs chs = map cur chs"

lemma for_each_Nil: "fst (for_each f xs s) = [] \<longleftrightarrow> xs = []"
  using for_each_length [of f xs s] by (metis length_0_conv)

lemma curs_for_each:
  assumes "\<And>ch s. cur (fst (f ch s)) = cur ch"
  shows "curs (fst (for_each f chs s)) = curs chs"
  using assms by (induction chs arbitrary: s) (simp_all add: curs_def Let_def case_prod_beta)

lemma read_cur [simp]:
  "cur (fst (read_channel env ch c)) = cur ch" "cur (fst (judge_channel env ch c)) = cur ch"
  "cur (fst (read_rpm env ch c)) = cur ch" "cur (fst (check_register1 env rv now ch c)) = cur ch"
  by (simp_all add: read_channel_def judge_channel_def read_rpm_def check_register1_def Let_def case_prod_beta
      split: option.split sum.split)

lemmas loop_curs [simp] =
  curs_for_each [of "read_channel env", OF read_cur(1)] curs_for_each [of "judge_channel env", OF read_cur(2)]
  curs_for_each [of "read_rpm env", OF read_cur(3)] curs_for_each [of "check_register1 env rv now", OF read_cur(4)]
  curs_for_each [of "target_channel env k now", OF target_channel_fields(9)]
  curs_for_each [of "stall_channel env d", OF stall_channel_fields(8)]
  curs_for_each [of "resolve_again env", OF resolve_fields(7)]
  for env rv now k d

lemma curs_applyPending: "curs (chans (applyPendingLocked env c)) = curs (chans c)"
proof (cases "pending c")
  case None
  then show ?thesis by (simp add: applyPendingLocked_def)
next
  case (Some cf)
  have "cur (retimeHolds now u (swapChannelConfig u ch)) = cur ch" for now u and ch :: "'a channel"
    by (simp add: retimeHolds_def swapChannelConfig_def Let_def)
  with applyPending_chans [OF Some, of env] show ?thesis
    by (auto simp: curs_def list_all2_conv_all_nth intro!: nth_equalityI)
qed

lemma curs_cycle_targets: "curs (chans (cycle_targets env c)) = curs (chans c)"
proof -
  have "curs (chans (check_stale d c)) = curs (chans c)" for d and c :: "('a, 'b) Controller"
    by (auto simp: check_stale_def Let_def curs_def split: list.split)
  then have r: "curs (chans (snd (readSensors env k c))) = curs (chans c)" for k c
    by (simp add: readSensors_def Let_def case_prod_beta)
  have "curs (chans (reresolve env c)) = curs (chans c)" for c
    by (simp add: reresolve_def Let_def case_prod_beta)
  then have "curs (chans (snd (cycle_begin env c))) = curs (chans c)"
    by (simp add: cycle_begin_def Let_def case_prod_beta curs_applyPending)
  with r show ?thesis
    by (simp add: cycle_targets_def Let_def case_prod_beta checkStall_def computeTargets_def)
qed

lemma dead_write:
  assumes "dead (e_dev env)" "\<not> o_DryRun (opts c)"
  shows "\<exists>e. fst (ctl_write env ch duty n c) = Some e"
proof -
  let ?w = "world (note_enable env ch n c)"
  obtain e where "fst (dv_WriteDuty (e_dev env) (ch_PWM (cfg ch)) duty ?w) = Some e" "\<not> errors_Is e ErrDCRMismatch"
    using assms(1) unfolding dead_def by blast
  with assms(2) show ?thesis by (simp add: ctl_write_def dcrDeviation_def Let_def case_prod_beta)
qed

text \<open>On a dead device every attempted write marks its channel as unknown.\<close>

lemma dead_write_loop:
  assumes "dead (e_dev env)"
  shows "\<not> o_DryRun (opts (snd st)) \<Longrightarrow> list_all (\<lambda>ch. next_duty d n ch \<noteq> cur ch \<or> n mod rewriteEvery = 0) chs \<Longrightarrow>
    list_all (\<lambda>ch. cur ch = -1) (fst (for_each (write_channel env d n) chs st)) \<and>
    fst (fst (snd (for_each (write_channel env d n) chs st))) = (fst (fst st) \<or> chs \<noteq> [])"
proof (induction chs arbitrary: st)
  case (Cons ch chs)
  obtain e where "fst (ctl_write env ch (next_duty d n ch) n (snd st)) = Some e"
    using dead_write [OF assms Cons.prems(1)] by blast
  then have 1: "cur (fst (write_channel env d n ch st)) = -1" "fst (fst (snd (write_channel env d n ch st)))"
    using Cons.prems by (simp_all add: write_channel_def Let_def case_prod_beta)
  have "opts (snd (snd (write_channel env d n ch st))) = opts (snd st)"
    by (rule core_fields [OF core_write_channel])
  with Cons.IH [of "snd (write_channel env d n ch st)"] Cons.prems 1 show ?case
    by (simp add: Let_def case_prod_beta)
qed simp

lemma dead_failsafe_loop:
  assumes "dead (e_dev env)"
  shows "\<not> o_DryRun (opts (snd st)) \<Longrightarrow>
    list_all (\<lambda>ch. cur ch = -1) (fst (for_each (failsafe_channel env m) chs st)) \<and>
    fst (snd (for_each (failsafe_channel env m) chs st)) = fst st"
proof (induction chs arbitrary: st)
  case (Cons ch chs)
  obtain e where "fst (ctl_write env (ch\<lparr>mode := m, target := 255\<rparr>) 255 (cyc (snd st)) (snd st)) = Some e"
    using dead_write [OF assms Cons.prems(1)] by blast
  then have 1: "cur (fst (failsafe_channel env m ch st)) = -1" "fst (snd (failsafe_channel env m ch st)) = fst st"
    by (simp_all add: failsafe_channel_def Let_def case_prod_beta)
  have "opts (snd (snd (failsafe_channel env m ch st))) = opts (snd st)"
    by (rule core_fields [OF core_failsafe_channel])
  with Cons.IH [of "snd (failsafe_channel env m ch st)"] Cons.prems 1 show ?case
    by (simp add: Let_def case_prod_beta)
qed simp

text \<open>The state of a controller whose device is dead, before a cycle.\<close>

definition losing :: "('r, 'w) Controller \<Rightarrow> bool" where
  "losing c \<longleftrightarrow> ctl_ok c \<and> \<not> stopped c \<and> \<not> stopOnce c \<and> \<not> o_DryRun (opts c) \<and> chans c \<noteq> [] \<and>
     (cyc c mod rewriteEvery = 0 \<or> list_all (\<lambda>ch. cur ch = -1) (chans c))"

lemma dead_writePhase:
  assumes "dead (e_dev env)" "losing c"
  defines "r \<equiv> writePhase env (k_d (cycle_k env c)) (k_n (cycle_k env c)) (cycle_targets env c)"
  shows "fst (fst r) \<and> list_all (\<lambda>ch. cur ch = -1) (chans (snd r)) \<and> chans (snd r) \<noteq> []"
proof -
  let ?t = "cycle_targets env c" and ?d = "k_d (cycle_k env c)" and ?n = "k_n (cycle_k env c)"
  let ?c1 = "checkRegisters env ?t"
  have st: "\<not> stopped ?t" "\<not> o_DryRun (opts ?t)"
    using assms(2) steady_fields [OF steady_cycle_targets, of env c] by (simp_all add: losing_def)
  have n: "?n = cyc c" by (simp add: cycle_k_def Let_def case_prod_beta)
  have cu: "curs (chans ?c1) = curs (chans c)"
    by (simp add: checkRegisters_def Let_def case_prod_beta curs_cycle_targets split: option.split)
  have ne: "chans ?c1 \<noteq> []" using cu assms(2) by (auto simp: curs_def losing_def)
  have "ctl_ok c" using assms(2) by (simp add: losing_def)
  then have "ctl_ok ?t" by (rule cycle_targets_ok(1))
  then have "list_all chan_ok (chans ?t)" by (simp only: ctl_ok_def)
  then have ok: "list_all chan_ok (chans ?c1)" by (rule checkRegisters_chans(1))
  have "next_duty ?d ?n ch \<noteq> cur ch \<or> ?n mod rewriteEvery = 0" if "ch \<in> set (chans ?c1)" for ch
  proof (cases "cyc c mod rewriteEvery = 0")
    case False
    then have "set (curs (chans c)) \<subseteq> {-1}" using assms(2) by (auto simp: losing_def list_all_iff curs_def)
    moreover have "cur ch \<in> set (curs (chans ?c1))" using that by (simp add: curs_def)
    ultimately have "cur ch = -1" unfolding cu by blast
    moreover have "duty_ok (target ch)" using ok that by (auto simp: list_all_iff chan_ok_def)
    ultimately show ?thesis by (simp add: next_duty_def duty_ok_def)
  qed (simp add: n)
  then have att: "list_all (\<lambda>ch. next_duty ?d ?n ch \<noteq> cur ch \<or> ?n mod rewriteEvery = 0) (chans ?c1)"
    by (simp add: list_all_iff)
  have "\<not> o_DryRun (opts (snd ((False, False), ?c1)))" using st by simp
  note loop = dead_write_loop [OF assms(1) this att]
  with ne st show ?thesis by (simp add: r_def writePhase_def Let_def case_prod_beta for_each_Nil)
qed

lemma dead_cycle:
  assumes "dead (e_dev env)" "losing c"
  shows "losing (snd (cycle env c)) \<and> list_all (\<lambda>ch. cur ch = -1) (chans (snd (cycle env c))) \<and>
    wrErr (snd (cycle env c)) = wrErr c + 1 \<and>
    (if wrErr c + 1 \<ge> writeErrorsBeforeFailsafe
     then fsFail (snd (cycle env c)) = fsFail c + 1 \<and> fst (cycle env c) = (fsFail c + 1 \<ge> deviceLostCycles)
     else fsFail (snd (cycle env c)) = fsFail c \<and> \<not> fst (cycle env c))"
proof -
  let ?t = "cycle_targets env c"
  define c1 where "c1 = snd (writePhase env (k_d (cycle_k env c)) (k_n (cycle_k env c)) ?t)"
  have w: "fst (fst (writePhase env (k_d (cycle_k env c)) (k_n (cycle_k env c)) ?t))"
    "list_all (\<lambda>ch. cur ch = -1) (chans c1)" "chans c1 \<noteq> []"
    using dead_writePhase [OF assms] by (simp_all add: c1_def)
  have st: "\<not> stopped ?t" "\<not> o_DryRun (opts ?t)" "wrErr ?t = wrErr c" "fsFail ?t = fsFail c"
    using assms(2) steady_fields [OF steady_cycle_targets, of env c] by (simp_all add: losing_def)
  define c2 where "c2 = reresolve env (raise_alert env ''write''
      (Msg ''repeated pwm write errors -> all channels 255; check driver/EC (dmesg, journalctl -u n5-fangov)'' [])
      (logf ''pwm write error (%d consecutive)'' [AI (wrErr c + 1)] (c1\<lparr>wrErr := wrErr c + 1\<rparr>)))"
  have c2: "\<not> stopped c2" "\<not> o_DryRun (opts c2)" "chans c2 \<noteq> []" "wrErr c2 = wrErr c + 1" "fsFail c2 = fsFail c"
  proof -
    show "\<not> stopped c2" "\<not> o_DryRun (opts c2)" "wrErr c2 = wrErr c + 1" "fsFail c2 = fsFail c"
      using st by (simp_all add: c2_def c1_def)
    have "length (chans (reresolve env x)) = length (chans x)" for x
      by (simp add: reresolve_def Let_def case_prod_beta)
    then have "length (chans c2) = length (chans c1)" by (simp add: c2_def)
    then show "chans c2 \<noteq> []" using w(3) by auto
  qed
  have c1: "wrErr c1 = wrErr c" "fsFail c1 = fsFail c" using st by (simp_all add: c1_def)
  define f where "f = failsafeAll env ModeFailsafe c2"
  have "\<not> o_DryRun (opts (snd (True, c2)))" using c2 by simp
  note loop = dead_failsafe_loop [OF assms(1) this, of ModeFailsafe "chans c2"]
  have f: "fst f" "list_all (\<lambda>ch. cur ch = -1) (chans (snd f))" "chans (snd f) \<noteq> []"
    using loop c2 by (simp_all add: f_def failsafeAll_def Let_def case_prod_beta for_each_Nil)
  have fs: "wrErr (snd f) = wrErr c + 1" "fsFail (snd f) = fsFail c" using c2 by (simp_all add: f_def)
  have nf: "fst (noteFailsafe env True (snd f)) = (fsFail c + 1 \<ge> deviceLostCycles)"
    "fsFail (snd (noteFailsafe env True (snd f))) = fsFail c + 1"
    using fs by (simp_all add: noteFailsafe_def Let_def)
  have frame: "ctl_ok (snd (cycle env c))" "opts (snd (cycle env c)) = opts c" "stopped (snd (cycle env c)) = stopped c"
    "stopOnce (snd (cycle env c)) = stopOnce c"
  proof -
    show "ctl_ok (snd (cycle env c))" using assms(2) by (intro cycle_ok) (simp add: losing_def)
    show "opts (snd (cycle env c)) = opts c" "stopped (snd (cycle env c)) = stopped c" "stopOnce (snd (cycle env c)) = stopOnce c"
      using steady_fields [OF steady_cycle_targets, of env c]
      by (simp_all add: cycle_split writeAndFinish_def Let_def case_prod_beta)
  qed
  have "chans (snd (cycle env c)) \<noteq> [] \<and> list_all (\<lambda>ch. cur ch = -1) (chans (snd (cycle env c))) \<and>
    wrErr (snd (cycle env c)) = wrErr c + 1 \<and>
    (if wrErr c + 1 \<ge> writeErrorsBeforeFailsafe
     then fsFail (snd (cycle env c)) = fsFail c + 1 \<and> fst (cycle env c) = (fsFail c + 1 \<ge> deviceLostCycles)
     else fsFail (snd (cycle env c)) = fsFail c \<and> \<not> fst (cycle env c))"
    using w f fs nf st c1
    by (simp add: cycle_split writeAndFinish_def Let_def case_prod_beta c1_def [symmetric] f_def c2_def)
  with frame assms(2) show ?thesis by (simp add: losing_def)
qed

lemma losing_frame:
  assumes "losing c" "core (c'\<lparr>lastSave := t\<rparr>) = core (c\<lparr>lastSave := t\<rparr>)"
  shows "losing c'"
  using assms(1) core_fields [OF assms(2)] by (simp add: losing_def ctl_ok_def)

lemma core_saveHistory: "core ((saveHistory env c)\<lparr>lastSave := t\<rparr>) = core (c\<lparr>lastSave := t\<rparr>)"
proof -
  have "core (c'\<lparr>lastSave := t\<rparr>) = core (c\<lparr>lastSave := t\<rparr>)" if "core c' = core c" for c' :: "('a, 'b) Controller"
    using core_fields [OF that] by (simp add: core_def)
  then show ?thesis by (simp add: saveHistory_def Let_def case_prod_beta core_def)
qed

lemma losing_next:
  assumes "losing c" "list_all (\<lambda>ch. cur ch = -1) (chans c)" and c'_def: "c' = (saveHistory env c)\<lparr>world := w\<rparr>"
  shows "losing c'" "list_all (\<lambda>ch. cur ch = -1) (chans c')" "wrErr c' = wrErr c" "fsFail c' = fsFail c"
proof -
  note f = core_fields [OF core_saveHistory [where env = env and c = c and t = zeroTime]]
  show "losing c'"
    using losing_frame [OF assms(1) core_saveHistory [where env = env and t = zeroTime]] by (simp add: c'_def losing_def)
  show "list_all (\<lambda>ch. cur ch = -1) (chans c')" "wrErr c' = wrErr c" "fsFail c' = fsFail c"
    using f assms(2) by (simp_all add: c'_def)
qed

lemma dead_run:
  assumes dev: "dead (e_dev env)" and wait: "\<forall>d w. fst (e_Wait env d w)"
  shows "losing c \<Longrightarrow> wrErr c + 1 \<ge> writeErrorsBeforeFailsafe \<Longrightarrow> 0 \<le> fsFail c \<Longrightarrow>
    fsFail c + int m + 1 = deviceLostCycles \<Longrightarrow> \<exists>c'. run_loop env c = Some (RunDeviceLost, c') \<and> losing c'"
proof (induction m arbitrary: c)
  case 0
  with dead_cycle [OF dev, of c] show ?case
    by (subst run_loop.simps) (simp add: Let_def case_prod_beta)
next
  case (Suc m)
  let ?c1 = "snd (cycle env c)"
  let ?c2 = "saveHistory env ?c1"
  let ?c3 = "?c2\<lparr>world := snd (e_Wait env (d_Interval (c_Daemon (config ?c2))) (world ?c2))\<rparr>"
  have cyc: "losing ?c1" "list_all (\<lambda>ch. cur ch = -1) (chans ?c1)" "wrErr ?c1 = wrErr c + 1"
    "fsFail ?c1 = fsFail c + 1" "\<not> fst (cycle env c)"
    using dead_cycle [OF dev Suc.prems(1)] Suc.prems by (auto split: if_splits)
  note n = losing_next [OF cyc(1,2) refl, where env = env]
  have "\<exists>c'. run_loop env ?c3 = Some (RunDeviceLost, c') \<and> losing c'"
    using n cyc Suc.prems by (intro Suc.IH) simp_all
  moreover have "run_loop env c = run_loop env ?c3"
    using cyc(5) wait by (subst run_loop.simps) (simp add: Let_def case_prod_beta)
  ultimately show ?case by simp
qed

text \<open>
  C14: when every write on the device fails from the start, the regulation loop does not run
  on: after the failsafe has failed in six cycles \<^verbatim>\<open>Run\<close> returns \<^verbatim>\<open>ErrDeviceLost\<close>, with the
  controller stopped.
\<close>

theorem dead_device_ends_Run:
  assumes dev: "dead (e_dev env)" and wait: "\<forall>d w. fst (e_Wait env d w)"
    and start: "ctl_ok c" "\<not> stopped c" "\<not> stopOnce c" "\<not> o_DryRun (opts c)" "chans c \<noteq> []" "cyc c = 0" "wrErr c = 0" "fsFail c = 0"
  shows "\<exists>c'. Run env c = Some (RunDeviceLost, c') \<and> stopped c'"
proof -
  define c0 where "c0 = logf ''start: profile=%s hwmon=%s channels=%s interval=%s dryrun=%v''
        [AS (dv_Profile (e_dev env)), AS (dv_HwmonPath (e_dev env)), AI (d_Interval (c_Daemon (config c)))] c"
  have c0: "losing c0" "wrErr c0 = 0" "fsFail c0 = 0"
    using start by (simp_all add: c0_def losing_def)
  let ?c1 = "snd (cycle env c0)"
  let ?c2 = "saveHistory env ?c1"
  let ?c3 = "?c2\<lparr>world := snd (e_Wait env (d_Interval (c_Daemon (config ?c2))) (world ?c2))\<rparr>"
  have cyc: "losing ?c1" "list_all (\<lambda>ch. cur ch = -1) (chans ?c1)" "wrErr ?c1 = 1" "fsFail ?c1 = 0" "\<not> fst (cycle env c0)"
    using dead_cycle [OF dev c0(1)] c0 by (auto simp: writeErrorsBeforeFailsafe_def)
  note n = losing_next [OF cyc(1,2) refl, where env = env]
  obtain c' where c': "run_loop env ?c3 = Some (RunDeviceLost, c')" "losing c'"
    using dead_run [OF dev wait, of ?c3 5] n cyc by (auto simp: writeErrorsBeforeFailsafe_def deviceLostCycles_def)
  moreover have "run_loop env c0 = run_loop env ?c3"
    using cyc(5) wait by (subst run_loop.simps) (simp add: Let_def case_prod_beta)
  moreover have "stopped (Stop env c')"
    using c'(2) by (simp add: losing_def Stop_def safeStopLocked_def Let_def core_fields [OF core_safe_stops])
  ultimately show ?thesis
    by (simp add: Run_def c0_def [symmetric])
qed

theorem dead_device_ends_Run_witness:
  "let env = rewire demo (\<lambda>p d w. (Some (mk_err ''gone''), w)) (\<lambda>p w. (None, w)) (\<lambda>p s w. (None, w))
   in dead (e_dev env) \<and> (\<exists>c'. Run env (demo_start 50000 900 False) = Some (RunDeviceLost, c') \<and> stopped c')"
proof -
  let ?env = "rewire demo (\<lambda>p d w. (Some (mk_err ''gone''), w)) (\<lambda>p w. (None, w)) (\<lambda>p s w. (None, w))"
  let ?c = "demo_start 50000 900 False"
  have dev: "dead (e_dev ?env)" by (simp add: dead_def errors_Is_def)
  have wait: "\<forall>d w. fst (e_Wait ?env d w)" by (simp add: demo_env_def)
  have c: "\<not> stopped ?c" "\<not> stopOnce ?c" "\<not> o_DryRun (opts ?c)" "chans ?c \<noteq> []" "cyc ?c = 0" "wrErr ?c = 0" "fsFail ?c = 0"
    by (simp_all add: demo_start_def init_controller_def demo_options_def)
  from dead_device_ends_Run [OF dev wait demo_start_ok c] dev show ?thesis unfolding Let_def by blast
qed

section \<open>The safe state\<close>

text \<open>
  A record of the safe stops in the world: \<open>tr\<close> is extended by every \<^verbatim>\<open>SafeStop\<close> and by nothing
  else that runs after the loop.
\<close>

definition traces_stops :: "('w \<Rightarrow> (int \<times> string) list) \<Rightarrow> 'w devops \<Rightarrow> bool" where
  "traces_stops tr dev \<longleftrightarrow> (\<forall>p s w. tr (snd (dv_SafeStop dev p s w)) = tr w @ [(p, s)])"

definition stop_targets :: "Channel list \<Rightarrow> (int \<times> string) list" where
  "stop_targets ccs = map (\<lambda>cc. (ch_PWM cc, ch_Stop cc)) ccs"

lemma world_log [simp]: "world (logf f a c) = world c" by (simp add: logf_def)

lemma world_limited [simp]: "world (limited_warn i key f a now c) = world c"
  by (simp add: limited_warn_def Let_def logf_def split: option.split)

lemma trace_dcr:
  assumes "\<forall>w. tr (snd (e_Now env w)) = tr w"
  shows "tr (world (snd (dcrDeviation env name err c))) = tr (world c)"
  using assms by (simp add: dcrDeviation_def Now_def Let_def case_prod_beta split: option.split)

lemma trace_stops:
  assumes "traces_stops tr (e_dev env)" "\<forall>w. tr (snd (e_Now env w)) = tr w"
  shows "tr (world (foldl (\<lambda>c ch. safe_stop_channel env ch c) c chs)) = tr (world c) @ stop_targets (cfgs chs)"
proof (induction chs arbitrary: c)
  case (Cons ch chs)
  have "tr (world (safe_stop_channel env ch c)) = tr (world c) @ [(ch_PWM (cfg ch), ch_Stop (cfg ch))]"
    using assms(1) trace_dcr [of tr env, OF assms(2)]
    by (simp add: safe_stop_channel_def traces_stops_def Let_def case_prod_beta split: option.split)
  with Cons show ?case by (simp add: stop_targets_def cfgs_def)
qed (simp add: stop_targets_def cfgs_def)

text \<open>
  C15: \<^verbatim>\<open>Stop\<close> puts every managed channel into its configured safe state, in order and whatever
  errors occur on the way, and does so once: a second call changes nothing.
\<close>

theorem Stop_stops_every_channel:
  assumes dev: "traces_stops tr (e_dev env)"
    and quiet: "\<forall>w. tr (snd (e_Now env w)) = tr w" "\<forall>n w. tr (snd (e_RemoveRun env n w)) = tr w" "\<forall>w. tr (e_SaveHistory env w) = tr w"
    and c: "\<not> stopOnce c" "\<not> o_DryRun (opts c)"
  shows "tr (world (Stop env c)) = tr (world c) @ stop_targets (cfgs (chans c)) \<and> stopped (Stop env c) \<and>
    Stop env (Stop env c) = Stop env c"
proof -
  have rm: "tr (world (removeRunFile env n wh x)) = tr (world x)" for n wh x
    using quiet(2) by (simp add: removeRunFile_def Let_def case_prod_beta split: option.split)
  have "stopOnce (Stop env c)"
    using c(1) by (simp add: Stop_def safeStopLocked_def Let_def core_fields [OF core_safe_stops])
  then have "Stop env (Stop env c) = Stop env c" by (simp add: Stop_def [of env "Stop env c"])
  moreover have "stopped (Stop env c)"
    using c(1) by (simp add: Stop_def safeStopLocked_def Let_def core_fields [OF core_safe_stops])
  moreover have "tr (world (Stop env c)) = tr (world c) @ stop_targets (cfgs (chans c))"
    using c quiet(3) trace_stops [OF dev quiet(1)] by (simp add: Stop_def safeStopLocked_def Let_def rm)
  ultimately show ?thesis by blast
qed

theorem Stop_stops_every_channel_witness:
  "let c = demo_start 50000 900 False in \<not> stopOnce c \<and> \<not> o_DryRun (opts c) \<and>
     dw_stops (world (Stop demo c)) = [(1, ''auto'')] \<and> Stop demo (Stop demo c) = Stop demo c"
proof -
  let ?c = "demo_start 50000 900 False"
  have dev: "traces_stops dw_stops (e_dev demo)" by (simp add: traces_stops_def demo_env_def demo_dev_def)
  have q: "\<forall>w. dw_stops (snd (e_Now demo w)) = dw_stops w" "\<forall>n w. dw_stops (snd (e_RemoveRun demo n w)) = dw_stops w"
    "\<forall>w. dw_stops (e_SaveHistory demo w) = dw_stops w"
    by (simp_all add: demo_env_def demo_now_def)
  have c: "\<not> stopOnce ?c" "\<not> o_DryRun (opts ?c)"
    by (simp_all add: demo_start_def init_controller_def demo_options_def)
  have t: "dw_stops (world ?c) @ stop_targets (cfgs (chans ?c)) = [(1, ''auto'')]"
    by (simp add: demo_start_def init_controller_def demo_world0_def stop_targets_def cfgs_def set_ceiling_def
        newChannel_def demo_channel_def case_prod_beta)
  from Stop_stops_every_channel [OF dev q c] c t show ?thesis by (simp only: Let_def) blast
qed

end
