(* ===== verification/FailsafeCmd.thy ===== *)
theory FailsafeCmd
  imports Faults
begin

text \<open>
  The \<^verbatim>\<open>failsafe\<close> command (\<^verbatim>\<open>Failsafe\<close>, \<^verbatim>\<open>failsafeRegisters\<close>, \<^verbatim>\<open>profile.WaitRegister\<close>): the register
  polling ends when the clock advances, and every channel of the corrected list
  that the device has is put into its safe state.
\<close>

section \<open>Polling a register\<close>

text \<open>
  A clock \<open>clk\<close> (in nanoseconds) that no operation turns back, that a pause advances, and
  whose reading is before an instant \<open>t\<close> exactly while it is less than \<open>tick t\<close>.
\<close>

definition poll_clock ::
  "('w \<Rightarrow> int) \<Rightarrow> (gotime \<Rightarrow> int) \<Rightarrow> 'w register_ops \<Rightarrow> ('w \<Rightarrow> gotime \<times> 'w) \<Rightarrow> (duration \<Rightarrow> 'w \<Rightarrow> 'w) \<Rightarrow> bool" where
  "poll_clock clk tick v now sleep \<longleftrightarrow>
     (\<forall>w t. Before (fst (now w)) t \<longleftrightarrow> clk w < tick t) \<and> (\<forall>w. clk (snd (now w)) \<ge> clk w) \<and>
     (\<forall>d w. clk (sleep d w) \<ge> clk w + d) \<and> (\<forall>ch duty w. clk (snd (VerifyRegister v ch duty w)) \<ge> clk w)"

definition quiet_poll ::
  "('w \<Rightarrow> 'x) \<Rightarrow> 'w register_ops \<Rightarrow> ('w \<Rightarrow> gotime \<times> 'w) \<Rightarrow> (duration \<Rightarrow> 'w \<Rightarrow> 'w) \<Rightarrow> bool" where
  "quiet_poll tr v now sleep \<longleftrightarrow> (\<forall>w. tr (snd (now w)) = tr w) \<and> (\<forall>d w. tr (sleep d w) = tr w) \<and>
     (\<forall>ch duty w. tr (snd (VerifyRegister v ch duty w)) = tr w)"

lemma WaitRegister_ends:
  assumes "poll_clock clk tick v now sleep" "quiet_poll tr v now sleep"
  shows "\<exists>err w'. WaitRegister v ch duty deadline now sleep w = Some (err, w') \<and> tr w' = tr w"
proof (induction "nat (tick deadline - clk w)" arbitrary: w rule: less_induct)
  case less
  define w1 where "w1 = snd (VerifyRegister v ch duty w)"
  define w2 where "w2 = snd (now w1)"
  define w3 where "w3 = sleep RegisterPoll w2"
  have clk: "clk w \<le> clk w1" "clk w1 \<le> clk w2" "clk w2 + RegisterPoll \<le> clk w3"
    using assms(1) by (simp_all add: poll_clock_def w1_def w2_def w3_def)
  have tr: "tr w1 = tr w" "tr w2 = tr w1" "tr w3 = tr w2"
    using assms(2) by (simp_all add: quiet_poll_def w1_def w2_def w3_def)
  have poll: "0 < RegisterPoll" by (simp add: RegisterPoll_def duration_units)
  have step: "WaitRegister v ch duty deadline now sleep w =
      (if fst (VerifyRegister v ch duty w) = None then Some (None, w1)
       else if \<not> Before (fst (now w1)) deadline then Some (fst (VerifyRegister v ch duty w), w2)
       else WaitRegister v ch duty deadline now sleep w3)"
    by (subst WaitRegister.simps) (simp add: Let_def case_prod_beta w1_def w2_def w3_def)
  show ?case
  proof (cases "Before (fst (now w1)) deadline")
    case True
    then have "clk w1 < tick deadline" using assms(1) by (simp add: poll_clock_def)
    with clk poll have "nat (tick deadline - clk w3) < nat (tick deadline - clk w)" by linarith
    from less [OF this] tr show ?thesis by (auto simp: step)
  next
    case False
    with tr show ?thesis by (simp add: step)
  qed
qed

section \<open>The command\<close>

lemma failsafe_stop_trace:
  assumes "traces_stops tr dev"
  shows "tr (snd (failsafe_stop dev ch (f, w))) =
    tr w @ (if ch_PWM ch \<in> p_Index ` set (dv_Channels dev) then [(ch_PWM ch, ch_Stop ch)] else [])"
proof (cases "ch_PWM ch \<in> p_Index ` set (dv_Channels dev)")
  case True
  have "tr (snd (dv_SafeStop dev (ch_PWM ch) (ch_Stop ch) w)) = tr w @ [(ch_PWM ch, ch_Stop ch)]"
    using assms by (simp add: traces_stops_def)
  with True show ?thesis by (auto simp: failsafe_stop_def split: prod.split option.split)
qed (simp add: failsafe_stop_def)

definition present :: "'w devops \<Rightarrow> Channel \<Rightarrow> bool" where
  "present dev cc \<longleftrightarrow> ch_PWM cc \<in> p_Index ` set (dv_Channels dev)"

lemma failsafe_loop_trace:
  assumes "traces_stops tr dev"
  shows "tr (snd (foldl (\<lambda>st ch. failsafe_stop dev ch st) st chs)) = tr (snd st) @ stop_targets (filter (present dev) chs)"
proof (induction chs arbitrary: st)
  case (Cons ch chs)
  with failsafe_stop_trace [OF assms, of ch "fst st" "snd st"] show ?case
    by (simp add: stop_targets_def present_def)
qed (simp add: stop_targets_def)

lemma failsafe_registers_ends:
  assumes "poll_clock clk tick rv now sleep" "quiet_poll tr rv now sleep"
  shows "\<exists>f' w'. failsafe_registers rv start now sleep chs (f, w) = Some (f', w') \<and> tr w' = tr w \<and> ff_errs f' = ff_errs f"
proof (induction chs arbitrary: f w)
  case (Cons ch chs)
  let ?duty = "case StopDuty ch of Some d \<Rightarrow> d | None \<Rightarrow> 0" and ?dl = "Add start (RegisterSettle rv (ch_PWM ch))"
  obtain err w1 where w1: "WaitRegister rv (ch_PWM ch) ?duty ?dl now sleep w = Some (err, w1)" "tr w1 = tr w"
    using WaitRegister_ends [OF assms] by blast
  let ?f = "case err of None \<Rightarrow> f | Some e \<Rightarrow> f\<lparr>ff_log := Msg ''failsafe: %s: pwm%d stop=%s written, EC register differs after %s: %v''
      [AS (ch_Name ch), AI (ch_PWM ch), AS (ch_Stop ch), AI (RegisterSettle rv (ch_PWM ch)), AE e] # ff_log f\<rparr>"
  have e: "ff_errs ?f = ff_errs f" by (simp split: option.split)
  show ?case
  proof (cases "RegisterSettle rv (ch_PWM ch) \<le> 0")
    case True
    then show ?thesis using Cons [of f w] by (simp add: Let_def)
  next
    case False
    then have "failsafe_registers rv start now sleep (ch # chs) (f, w) = failsafe_registers rv start now sleep chs (?f, w1)"
      by (simp add: Let_def w1(1))
    with Cons [of ?f w1] w1(2) e show ?thesis by auto
  qed
qed simp

text \<open>
  C16: the \<^verbatim>\<open>failsafe\<close> command always returns (the register polling ends with the clock), and it puts every
  channel of the corrected list that the device has into its configured safe state, in order and
  whatever errors occur; on the N5 Pro these are at least pwm1, pwm2 and pwm3.
\<close>

theorem Failsafe_stops_every_channel:
  assumes dev: "traces_stops tr dev"
    and reg: "\<forall>rv. dv_Register dev = Some rv \<longrightarrow> poll_clock clk tick rv now sleep \<and> quiet_poll tr rv now sleep"
  shows "\<exists>f w'. Failsafe dev now sleep cf w = Some (f, w') \<and>
    tr w' = tr w @ stop_targets (filter (present dev) (fst (SanitizeChannels (dv_Profile dev) (c_Channels cf))))"
proof -
  let ?chs = "fst (SanitizeChannels (dv_Profile dev) (c_Channels cf))"
  let ?f0 = "\<lparr>ff_errs = [], ff_fixed = [], ff_log = rev (map (\<lambda>n. Msg ''failsafe: config: %s'' [AM n])
      (snd (SanitizeChannels (dv_Profile dev) (c_Channels cf))))\<rparr>"
  let ?st = "foldl (\<lambda>st ch. failsafe_stop dev ch st) (?f0, w) ?chs"
  obtain f1 w1 where st: "?st = (f1, w1)" by fastforce
  have tr: "tr w1 = tr w @ stop_targets (filter (present dev) ?chs)"
    using failsafe_loop_trace [OF dev, of "(?f0, w)" ?chs] unfolding st by simp
  have fs: "Failsafe dev now sleep cf w = failsafeRegisters dev now sleep (f1, w1)"
    unfolding st [symmetric] by (simp add: Failsafe_def case_prod_beta Let_def)
  show ?thesis
  proof (cases "dv_Register dev")
    case None
    then show ?thesis using tr by (simp add: fs failsafeRegisters_def)
  next
    case (Some rv)
    then have rv: "poll_clock clk tick rv now sleep" "quiet_poll tr rv now sleep" using reg by auto
    have now: "tr (snd (now w1)) = tr w1" using rv(2) by (simp add: quiet_poll_def)
    have "\<exists>f' w'. failsafe_registers rv (fst (now w1)) now sleep (ff_fixed f1) (f1, snd (now w1)) = Some (f', w') \<and>
        tr w' = tr (snd (now w1))"
      using failsafe_registers_ends [OF rv] by blast
    with now tr Some show ?thesis
      by (cases "ff_fixed f1") (auto simp: fs failsafeRegisters_def case_prod_beta Let_def)
  qed
qed

definition demo_register :: "demo_world register_ops" where
  "demo_register = \<lparr>VerifyRegister = (\<lambda>ch duty w. (Some \<lparr>err_text = ''differs'', err_chain = [ErrDCRMismatch]\<rparr>, w)),
     RegisterSettle = n5proSettle\<rparr>"

definition demo_sleep :: "duration \<Rightarrow> demo_world \<Rightarrow> demo_world" where
  "demo_sleep d w = w\<lparr>dw_clock := dw_clock w + d div Second + 1\<rparr>"

text \<open>The register never shows the written duty: the command still ends, with every channel stopped.\<close>

theorem Failsafe_stops_every_channel_witness:
  "\<exists>f w'. Failsafe ((demo_dev ''n5pro'' n5proChannels)\<lparr>dv_Register := Some demo_register\<rparr>) demo_now demo_sleep demo_config demo_world0 = Some (f, w') \<and>
     dw_stops w' = [(1, ''auto''), (2, ''auto''), (3, ''140'')]"
proof -
  let ?dev = "(demo_dev ''n5pro'' n5proChannels)\<lparr>dv_Register := Some demo_register\<rparr>"
  let ?tick = "\<lambda>t. case mono t of Some m \<Rightarrow> m | None \<Rightarrow> wall t"
  have dev: "traces_stops dw_stops ?dev" by (simp add: traces_stops_def demo_dev_def)
  have div: "d \<le> (d div Second + 1) * Second" for d
    using minus_mod_eq_div_mult [of d Second] pos_mod_bound [of Second d] by (simp add: Second_def algebra_simps)
  have "poll_clock (\<lambda>w. dw_clock w * Second) ?tick demo_register demo_now demo_sleep"
    unfolding poll_clock_def
    using div by (simp add: demo_now_def demo_sleep_def demo_register_def Before_def Sub_def algebra_simps duration_units split: option.split)
  moreover have "quiet_poll dw_stops demo_register demo_now demo_sleep"
    by (simp add: quiet_poll_def demo_now_def demo_sleep_def demo_register_def)
  ultimately have reg: "\<forall>rv. dv_Register ?dev = Some rv \<longrightarrow>
      poll_clock (\<lambda>w. dw_clock w * Second) ?tick rv demo_now demo_sleep \<and> quiet_poll dw_stops rv demo_now demo_sleep"
    by simp
  have "stop_targets (filter (present ?dev) (fst (SanitizeChannels (dv_Profile ?dev) (c_Channels demo_config)))) =
      [(1, ''auto''), (2, ''auto''), (3, ''140'')]" by code_simp
  with Failsafe_stops_every_channel [OF dev reg, of demo_config demo_world0] show ?thesis
    by (simp add: demo_world0_def)
qed

end
