(* ===== verification/GoNet.thy ===== *)
theory GoNet
  imports GoFloat
begin

text \<open>
  Further standard library functions, used by the configuration parser, the
  schedule and the web server: \<^verbatim>\<open>net.SplitHostPort\<close>, \<^verbatim>\<open>net.ParseIP\<close> with
  \<^verbatim>\<open>IP.IsLoopback\<close>, \<^verbatim>\<open>strings.EqualFold\<close> against an ASCII word,
  \<^verbatim>\<open>hex.DecodeString\<close>, \<^verbatim>\<open>path.Clean\<close>, \<^verbatim>\<open>time.ParseDuration\<close> and
  \<^verbatim>\<open>time.Parse\<close> / \<^verbatim>\<open>Time.Format\<close> with the layout 15:04.
\<close>

section \<open>Searching in strings\<close>

fun IndexByte :: "string \<Rightarrow> char \<Rightarrow> nat option" where
  "IndexByte [] c = None"
| "IndexByte (x # s) c = (if x = c then Some 0 else map_option Suc (IndexByte s c))"

fun LastIndexByte :: "string \<Rightarrow> char \<Rightarrow> nat option" where
  "LastIndexByte [] c = None"
| "LastIndexByte (x # s) c =
     (case LastIndexByte s c of Some i \<Rightarrow> Some (Suc i) | None \<Rightarrow> if x = c then Some 0 else None)"

lemma IndexByte_None [simp]: "IndexByte s c = None \<longleftrightarrow> c \<notin> set s"
  by (induction s) auto

lemma LastIndexByte_None [simp]: "LastIndexByte s c = None \<longleftrightarrow> c \<notin> set s"
  by (induction s) (auto split: option.splits)

lemma LastIndexByte_append: "c \<notin> set t \<Longrightarrow> LastIndexByte (s @ c # t) c = Some (length s)"
  by (induction s) (auto split: option.split)

lemma IndexByte_append: "c \<notin> set s \<Longrightarrow> IndexByte (s @ c # t) c = Some (length s)"
  by (induction s) auto

section \<open>Trimming\<close>

lemma trim_left_done: "lead_space (trim_left s) = 0"
  by (induction s rule: trim_left.induct) (metis trim_left.simps)

lemma trim_right_done: "tail_space (trim_right s) = 0"
  by (induction s rule: trim_right.induct) (metis trim_right.simps)

lemma HasPrefix_append: "HasPrefix p q \<Longrightarrow> HasPrefix (p @ r) q"
  by (auto simp: HasPrefix_def) (metis append_take_drop_id length_take min.absorb_iff2 min.cobounded1 min_def take_all_iff)

lemma lead_space_prefix: "lead_space (p @ r) = 0 \<Longrightarrow> lead_space p = 0"
proof -
  assume a: "lead_space (p @ r) = 0"
  have ne: "\<And>q. q \<in> set space_seqs \<Longrightarrow> q \<noteq> []" by (auto simp: space_seqs_def)
  have "find (HasPrefix (p @ r)) space_seqs = None"
    using a ne by (auto simp: lead_space_def find_Some_iff split: option.splits) (metis nth_mem)
  then have "find (HasPrefix p) space_seqs = None"
    using HasPrefix_append by (auto simp: find_None_iff)
  then show ?thesis by (simp add: lead_space_def)
qed

lemma TrimSpace_idem [simp]: "TrimSpace (TrimSpace s) = TrimSpace s"
proof -
  obtain p where p: "trim_left s = trim_right (trim_left s) @ p" using trim_right_prefix by blast
  have "lead_space (TrimSpace s) = 0"
    using trim_left_done [of s] lead_space_prefix [of "TrimSpace s" p] p by (simp add: TrimSpace_def)
  then have "trim_left (TrimSpace s) = TrimSpace s" by (simp add: trim_left.simps)
  moreover have "trim_right (TrimSpace s) = TrimSpace s"
    using trim_right_done [of "trim_left s"] by (simp add: TrimSpace_def trim_right.simps [of "trim_right (trim_left s)"])
  ultimately show ?thesis by (simp add: TrimSpace_def [of "TrimSpace s"])
qed

section \<open>Host and port\<close>

text \<open>\<^verbatim>\<open>net.SplitHostPort\<close>: host and port, \<open>None\<close> for each of its address errors.\<close>

definition SplitHostPort :: "string \<Rightarrow> (string \<times> string) option" where
  "SplitHostPort hp = (case LastIndexByte hp (CHR '':'') of
      None \<Rightarrow> None
    | Some i \<Rightarrow>
        if hd hp = CHR ''['' then
          (case IndexByte hp (CHR '']'') of
             None \<Rightarrow> None
           | Some e \<Rightarrow>
               if Suc e \<noteq> i then None
               else if CHR ''['' \<in> set (drop 1 hp) \<or> CHR '']'' \<in> set (drop (Suc e) hp) then None
               else Some (drop 1 (take e hp), drop (Suc i) hp))
        else if CHR '':'' \<in> set (take i hp) then None
        else if CHR ''['' \<in> set hp \<or> CHR '']'' \<in> set hp then None
        else Some (take i hp, drop (Suc i) hp))"

text \<open>\<^verbatim>\<open>net.JoinHostPort\<close>, and that splitting undoes it.\<close>

definition JoinHostPort :: "string \<Rightarrow> string \<Rightarrow> string" where
  "JoinHostPort host port =
     (if CHR '':'' \<in> set host then CHR ''['' # host @ '']:'' @ port else host @ CHR '':'' # port)"

definition plain_word :: "string \<Rightarrow> bool" where
  "plain_word s \<longleftrightarrow> CHR ''['' \<notin> set s \<and> CHR '']'' \<notin> set s"

lemma SplitHostPort_Join:
  assumes "plain_word host" "plain_word port" "CHR '':'' \<notin> set port"
  shows "SplitHostPort (JoinHostPort host port) = Some (host, port)"
proof (cases "CHR '':'' \<in> set host")
  case True
  let ?hp = "CHR ''['' # host @ '']:'' @ port"
  have l: "LastIndexByte ?hp (CHR '':'') = Some (length host + 2)"
    using LastIndexByte_append [of "CHR '':''" port "CHR ''['' # host @ '']''"] assms(3) by simp
  have e: "IndexByte ?hp (CHR '']'') = Some (length host + 1)"
    using IndexByte_append [of "CHR '']''" "CHR ''['' # host" "'':'' @ port"] assms(1) by (simp add: plain_word_def)
  show ?thesis using True assms l e by (simp add: SplitHostPort_def JoinHostPort_def plain_word_def)
next
  case False
  have l: "LastIndexByte (host @ CHR '':'' # port) (CHR '':'') = Some (length host)"
    using LastIndexByte_append assms(3) by blast
  have h: "hd (host @ CHR '':'' # port) \<noteq> CHR ''[''" using assms(1) by (cases host) (auto simp: plain_word_def)
  show ?thesis using False assms l h by (simp add: SplitHostPort_def JoinHostPort_def plain_word_def)
qed

section \<open>IP addresses\<close>

text \<open>An address is its 16 bytes; IPv4 addresses are mapped (\<^verbatim>\<open>::ffff:a.b.c.d\<close>).\<close>

definition ipv4_field :: "string \<Rightarrow> int option" where
  "ipv4_field s =
     (if s = [] \<or> \<not> list_all is_digit s \<or> (length s > 1 \<and> hd s = CHR ''0'') \<or> digits_val s > 255 then None
      else Some (digits_val s))"

definition parseIPv4Fields :: "string \<Rightarrow> int list option" where
  "parseIPv4Fields s =
     (let fs = map ipv4_field (Split s (CHR ''.''))
      in if length fs = 4 \<and> None \<notin> set fs then Some (map the fs) else None)"

definition hex_val :: "char \<Rightarrow> int option" where
  "hex_val c = (let n = (of_char c :: nat) in
     if 48 \<le> n \<and> n \<le> 57 then Some (int n - 48)
     else if 97 \<le> n \<and> n \<le> 102 then Some (int n - 87)
     else if 65 \<le> n \<and> n \<le> 70 then Some (int n - 55)
     else None)"

definition is_hex :: "char \<Rightarrow> bool" where
  "is_hex c \<longleftrightarrow> hex_val c \<noteq> None"

definition hexdigits_val :: "string \<Rightarrow> int" where
  "hexdigits_val ds = foldl (\<lambda>n c. n * 16 + the (hex_val c)) 0 ds"

definition finish_ipv6 :: "int list \<Rightarrow> nat option \<Rightarrow> string \<Rightarrow> int list option" where
  "finish_ipv6 acc ell s =
     (if s \<noteq> [] then None
      else if length acc < 16 then
        (case ell of None \<Rightarrow> None
         | Some e \<Rightarrow> Some (take e acc @ replicate (16 - length acc) 0 @ drop e acc))
      else if ell \<noteq> None then None else Some acc)"

text \<open>The group loop of \<^verbatim>\<open>parseIPv6\<close>: \<open>n\<close> groups may follow, \<open>ell\<close> is the position of the ellipsis.\<close>

fun parse_groups :: "nat \<Rightarrow> int list \<Rightarrow> nat option \<Rightarrow> string \<Rightarrow> int list option" where
  "parse_groups 0 acc ell s = finish_ipv6 acc ell s"
| "parse_groups (Suc n) acc ell s =
     (let hx = takeWhile is_hex s; rest = dropWhile is_hex s; i = length acc
      in if length hx > 4 \<or> hx = [] then None
         else if rest \<noteq> [] \<and> hd rest = CHR ''.'' then
           (if (ell = None \<and> i \<noteq> 12) \<or> i + 4 > 16 then None
            else case parseIPv4Fields s of None \<Rightarrow> None | Some bs \<Rightarrow> finish_ipv6 (acc @ bs) ell [])
         else
           let v = hexdigits_val hx; acc' = acc @ [v div 256, v mod 256]
           in if rest = [] then finish_ipv6 acc' ell []
              else if hd rest \<noteq> CHR '':'' \<or> tl rest = [] then None
              else let s' = tl rest
                   in if hd s' = CHR '':'' then
                        (if ell \<noteq> None then None
                         else if tl s' = [] then finish_ipv6 acc' (Some (length acc')) []
                         else parse_groups n acc' (Some (length acc')) (tl s'))
                      else parse_groups n acc' ell s')"

definition parseIPv6 :: "string \<Rightarrow> int list option" where
  "parseIPv6 s =
     (if HasPrefix s ''::'' then
        (if length s = 2 then Some (replicate 16 0) else parse_groups 8 [] (Some 0) (drop 2 s))
      else parse_groups 8 [] None s)"

text \<open>\<^verbatim>\<open>net.ParseIP\<close>: an address with a zone is refused.\<close>

definition ParseIP :: "string \<Rightarrow> int list option" where
  "ParseIP s =
     (if CHR ''%'' \<in> set s then None
      else case find (\<lambda>c. c = CHR ''.'' \<or> c = CHR '':'') s of
             None \<Rightarrow> None
           | Some c \<Rightarrow>
               if c = CHR ''.'' then map_option (\<lambda>bs. replicate 10 0 @ [255, 255] @ bs) (parseIPv4Fields s)
               else parseIPv6 s)"

definition IsLoopback :: "int list \<Rightarrow> bool" where
  "IsLoopback ip \<longleftrightarrow>
     (if take 12 ip = replicate 10 0 @ [255, 255] then ip ! 12 = 127 else ip = replicate 15 0 @ [1])"

text \<open>
  \<^verbatim>\<open>strings.EqualFold(s, w)\<close> for an ASCII word \<open>w\<close>: U+017F folds to s and U+212A to k,
  no other code point outside ASCII folds to an ASCII letter.
\<close>

fun fold_case :: "string \<Rightarrow> string" where
  "fold_case [] = []"
| "fold_case (c # s) =
     (if HasPrefix (c # s) [CHR 0xC5, CHR 0xBF] then CHR ''s'' # fold_case (drop 1 s)
      else if HasPrefix (c # s) [CHR 0xE2, CHR 0x84, CHR 0xAA] then CHR ''k'' # fold_case (drop 2 s)
      else lower_char c # fold_case s)"

definition EqualFold :: "string \<Rightarrow> string \<Rightarrow> bool" where
  "EqualFold s w \<longleftrightarrow> fold_case s = fold_case w"

section \<open>Hexadecimal strings\<close>

fun hex_DecodeString :: "string \<Rightarrow> int list option" where
  "hex_DecodeString [] = Some []"
| "hex_DecodeString [c] = None"
| "hex_DecodeString (a # b # s) = (case (hex_val a, hex_val b, hex_DecodeString s) of
      (Some x, Some y, Some r) \<Rightarrow> Some ((x * 16 + y) # r)
    | _ \<Rightarrow> None)"

definition hex_digit :: "int \<Rightarrow> char" where
  "hex_digit d = (if d < 10 then char_of (nat d + 48) else char_of (nat d + 87))"

definition hex_EncodeToString :: "int list \<Rightarrow> string" where
  "hex_EncodeToString bs = concat (map (\<lambda>b. [hex_digit (b div 16), hex_digit (b mod 16)]) bs)"

lemma hex_val_digit: "0 \<le> d \<Longrightarrow> d < 16 \<Longrightarrow> hex_val (hex_digit d) = Some d"
  by (auto simp: hex_val_def hex_digit_def Let_def of_char_of nat_le_iff le_nat_iff)

lemma hex_roundtrip:
  "(\<forall>b \<in> set bs. 0 \<le> b \<and> b < 256) \<Longrightarrow> hex_DecodeString (hex_EncodeToString bs) = Some bs"
  by (induction bs) (auto simp: hex_EncodeToString_def hex_val_digit)

lemma hex_EncodeToString_length [simp]: "length (hex_EncodeToString bs) = 2 * length bs"
  by (induction bs) (simp_all add: hex_EncodeToString_def)

lemma hex_Decode_length: "hex_DecodeString s = Some bs \<Longrightarrow> length s = 2 * length bs"
  by (induction s arbitrary: bs rule: hex_DecodeString.induct) (auto split: option.splits)

section \<open>Path cleaning\<close>

text \<open>
  \<^verbatim>\<open>path.Clean\<close> on the elements between slashes: empty and \<^verbatim>\<open>.\<close> elements vanish, a
  \<^verbatim>\<open>..\<close> removes the element before it, at a root it vanishes and otherwise it stays.
  \<open>out\<close> is the output so far, last element first.
\<close>

fun clean_elems :: "bool \<Rightarrow> string list \<Rightarrow> string list \<Rightarrow> string list" where
  "clean_elems rooted out [] = rev out"
| "clean_elems rooted out (e # es) =
     (if e = [] \<or> e = ''.'' then clean_elems rooted out es
      else if e = ''..'' then
        (case out of
           [] \<Rightarrow> clean_elems rooted (if rooted then [] else [''..'']) es
         | x # xs \<Rightarrow> if x = ''..'' then clean_elems rooted (''..'' # out) es else clean_elems rooted xs es)
      else clean_elems rooted (e # out) es)"

definition path_Clean :: "string \<Rightarrow> string" where
  "path_Clean p =
     (let rooted = HasPrefix p ''/''; es = clean_elems rooted [] (Split p (CHR ''/''))
      in if rooted then CHR ''/'' # Join es ''/'' else if es = [] then ''.'' else Join es ''/'')"

definition real_elem :: "string \<Rightarrow> bool" where
  "real_elem e \<longleftrightarrow> e \<noteq> [] \<and> e \<noteq> ''.'' \<and> e \<noteq> ''..'' \<and> CHR ''/'' \<notin> set e"

lemma clean_elems_rooted:
  "\<forall>e \<in> set out. real_elem e \<Longrightarrow> \<forall>e \<in> set es. CHR ''/'' \<notin> set e \<Longrightarrow>
   \<forall>e \<in> set (clean_elems True out es). real_elem e"
proof (induction es arbitrary: out)
  case (Cons e es)
  have es: "\<forall>e \<in> set es. CHR ''/'' \<notin> set e" using Cons.prems(2) by simp
  consider "e = [] \<or> e = ''.''" | "e = ''..''" | "real_elem e" using Cons.prems(2) by (auto simp: real_elem_def)
  then show ?case
  proof cases
    case 1
    then show ?thesis using Cons.IH [OF Cons.prems(1) es] by (simp only: clean_elems.simps if_True)
  next
    case 2
    have tl: "\<forall>e \<in> set (tl out). real_elem e" using Cons.prems(1) by (cases out) simp_all
    have "clean_elems True out (e # es) = clean_elems True (tl out) es"
      using 2 Cons.prems(1) by (cases out) (simp_all add: real_elem_def)
    then show ?thesis using Cons.IH [OF tl es] by simp
  next
    case 3
    then have out: "\<forall>x \<in> set (e # out). real_elem x" using Cons.prems(1) by simp
    have "clean_elems True out (e # es) = clean_elems True (e # out) es" using 3 by (simp add: real_elem_def)
    then show ?thesis using Cons.IH [OF out es] by simp
  qed
qed simp

text \<open>The elements of a rooted path in clean form: none is empty, \<^verbatim>\<open>.\<close> or \<^verbatim>\<open>..\<close>.\<close>

lemma path_Clean_elems:
  assumes "HasPrefix p ''/''" "path_Clean p = p" "length p > 1"
  shows "\<exists>es. p = CHR ''/'' # Join es ''/'' \<and> es \<noteq> [] \<and> Split p (CHR ''/'') = [] # es \<and> (\<forall>e \<in> set es. real_elem e)"
proof -
  let ?es = "clean_elems True [] (Split p (CHR ''/''))"
  have p: "p = CHR ''/'' # Join ?es ''/''" using assms(1,2) by (simp add: path_Clean_def Let_def)
  have "\<forall>e \<in> set (Split p (CHR ''/'')). CHR ''/'' \<notin> set e" by (blast dest: Split_pieces)
  then have r: "\<forall>e \<in> set ?es. real_elem e" using clean_elems_rooted [of "[]"] by simp
  have ne: "?es \<noteq> []" using assms(3) p by (metis Join.simps(1) One_nat_def length_Cons less_irrefl list.size(3))
  have "Split p (CHR ''/'') = [] # Split (Join ?es ''/'') (CHR ''/'')" by (subst p) simp
  also have "Split (Join ?es ''/'') (CHR ''/'') = ?es"
    using Split_Join [OF ne, of "CHR ''/''"] r by (auto simp: real_elem_def)
  finally show ?thesis using p r ne by blast
qed

section \<open>Durations and clock times as text\<close>

text \<open>
  \<^verbatim>\<open>time.ParseDuration\<close>. The sums are \<^verbatim>\<open>uint64\<close>; the fraction is scaled in
  float64 arithmetic as the source does.
\<close>

definition max63 :: int where "max63 = 2 ^ 63"

definition duration_unit :: "string \<Rightarrow> duration option" where
  "duration_unit u = map_of
     [(''ns'', 1), (''us'', 1000), ([CHR 0xC2, CHR 0xB5, CHR ''s''], 1000), ([CHR 0xCE, CHR 0xBC, CHR ''s''], 1000),
      (''ms'', Millisecond), (''s'', Second), (''m'', Minute), (''h'', Hour)] u"

text \<open>\<^verbatim>\<open>leadingInt\<close> and \<^verbatim>\<open>leadingFraction\<close> on the digits at the front.\<close>

fun leading_int :: "int \<Rightarrow> string \<Rightarrow> int option" where
  "leading_int x [] = Some x"
| "leading_int x (c # cs) =
     (if x > max63 div 10 then None
      else let y = x * 10 + digit_val c in if y > max63 then None else leading_int y cs)"

fun leading_fraction :: "int \<Rightarrow> rat \<Rightarrow> string \<Rightarrow> int \<times> rat" where
  "leading_fraction x scale [] = (x, scale)"
| "leading_fraction x scale (c # cs) =
     (if x > (max63 - 1) div 10 then (x, scale)
      else let y = x * 10 + digit_val c
           in if y > max63 then (x, scale) else leading_fraction y (f_mul scale 10) cs)"

definition duration_part :: "string \<Rightarrow> (int \<times> string) option" where
  "duration_part s =
     (let ds = takeWhile is_digit s; s1 = dropWhile is_digit s;
          fs = (if s1 \<noteq> [] \<and> hd s1 = CHR ''.'' then takeWhile is_digit (tl s1) else []);
          s2 = (if s1 \<noteq> [] \<and> hd s1 = CHR ''.'' then dropWhile is_digit (tl s1) else s1);
          u = takeWhile (\<lambda>c. c \<noteq> CHR ''.'' \<and> \<not> is_digit c) s2;
          s3 = dropWhile (\<lambda>c. c \<noteq> CHR ''.'' \<and> \<not> is_digit c) s2
      in case (leading_int 0 ds, duration_unit u) of
           (Some v, Some unit) \<Rightarrow>
             if ds = [] \<and> fs = [] then None
             else if v > max63 div unit then None
             else let (f, scale) = leading_fraction 0 1 fs;
                      v1 = (if f > 0 then v * unit + f_trunc (f_mul (f_int f) (f_div (f_int unit) scale)) else v * unit)
                  in if v1 > max63 then None else Some (v1, s3)
         | _ \<Rightarrow> None)"

lemma duration_part_shorter: "duration_part s = Some (v, s') \<Longrightarrow> length s' < length s"
proof -
  assume a: "duration_part s = Some (v, s')"
  define s1 where "s1 = dropWhile is_digit s"
  define s2 where "s2 = (if s1 \<noteq> [] \<and> hd s1 = CHR ''.'' then dropWhile is_digit (tl s1) else s1)"
  define u where "u = takeWhile (\<lambda>c. c \<noteq> CHR ''.'' \<and> \<not> is_digit c) s2"
  have s': "s' = dropWhile (\<lambda>c. c \<noteq> CHR ''.'' \<and> \<not> is_digit c) s2" and "duration_unit u \<noteq> None"
    using a by (auto simp: duration_part_def Let_def s1_def s2_def u_def split: option.splits if_splits prod.splits)
  then have "u \<noteq> []" by (auto simp: duration_unit_def)
  moreover have "length s2 = length u + length s'" unfolding s' u_def
    by (metis length_append takeWhile_dropWhile_id)
  moreover have "length s2 \<le> length s1" using length_dropWhile_le [of is_digit "tl s1"] by (auto simp: s2_def)
  moreover have "length s1 \<le> length s" by (simp add: s1_def length_dropWhile_le)
  ultimately show ?thesis by (cases u) simp_all
qed

function duration_sum :: "int \<Rightarrow> string \<Rightarrow> int option" where
  "duration_sum d s =
     (if s = [] then Some d
      else case duration_part s of
             None \<Rightarrow> None
           | Some (v, s') \<Rightarrow> let d' = (d + v) mod 2 ^ 64 in if d' > max63 then None else duration_sum d' s')"
  by pat_completeness auto
termination
  by (relation "measure (\<lambda>(d, s). length s)") (auto dest: duration_part_shorter)

declare duration_sum.simps [simp del]

definition ParseDuration :: "string \<Rightarrow> duration option" where
  "ParseDuration s =
     (let neg = (s \<noteq> [] \<and> hd s = CHR ''-'');
          s1 = (if s \<noteq> [] \<and> (hd s = CHR ''-'' \<or> hd s = CHR ''+'') then tl s else s)
      in if s1 = ''0'' then Some 0
         else if s1 = [] then None
         else case duration_sum 0 s1 of
                None \<Rightarrow> None
              | Some d \<Rightarrow> if neg then Some (wrap64 (- d)) else if d > max63 - 1 then None else Some d)"

text \<open>
  \<^verbatim>\<open>time.Parse("15:04", s)\<close>: an hour of one or two digits, a colon, a minute of two
  digits, nothing after it; the hour and the minute in range.
\<close>

definition getnum :: "string \<Rightarrow> bool \<Rightarrow> (int \<times> string) option" where
  "getnum s fixed = (case s of
      [] \<Rightarrow> None
    | c # r \<Rightarrow>
        if \<not> is_digit c then None
        else (case r of
                c2 # r2 \<Rightarrow> if is_digit c2 then Some (digit_val c * 10 + digit_val c2, r2)
                            else if fixed then None else Some (digit_val c, r)
              | [] \<Rightarrow> if fixed then None else Some (digit_val c, r)))"

definition parse_1504 :: "string \<Rightarrow> (int \<times> int) option" where
  "parse_1504 s = (case getnum s False of
      Some (h, c # r) \<Rightarrow>
        if h \<ge> 24 \<or> c \<noteq> CHR '':'' then None
        else (case getnum r True of
                Some (mi, r2) \<Rightarrow> if mi \<ge> 60 \<or> r2 \<noteq> [] then None else Some (h, mi)
              | None \<Rightarrow> None)
    | _ \<Rightarrow> None)"

definition two_digits :: "int \<Rightarrow> string" where
  "two_digits n = [digit_char (n div 10), digit_char (n mod 10)]"

definition format_1504 :: "int \<times> int \<Rightarrow> string" where
  "format_1504 t = two_digits (fst t) @ '':'' @ two_digits (snd t)"

lemma digit_val_range: "is_digit c \<Longrightarrow> 0 \<le> digit_val c \<and> digit_val c \<le> 9"
  by (auto simp: is_digit_def digit_val_def)

lemma getnum_range: "getnum s b = Some (n, r) \<Longrightarrow> 0 \<le> n"
  by (auto simp: getnum_def split: list.splits if_splits dest!: digit_val_range)

lemma parse_1504_range: "parse_1504 s = Some (h, mi) \<Longrightarrow> 0 \<le> h \<and> h < 24 \<and> 0 \<le> mi \<and> mi < 60"
  by (auto simp: parse_1504_def split: option.splits list.splits if_splits dest!: getnum_range)

lemma getnum_two_digits: "0 \<le> n \<Longrightarrow> n < 100 \<Longrightarrow> getnum (two_digits n @ r) b = Some (n, r)"
  by (simp add: getnum_def two_digits_def digit_char_props)

lemma parse_format_1504:
  assumes "0 \<le> h" "h < 24" "0 \<le> mi" "mi < 60"
  shows "parse_1504 (format_1504 (h, mi)) = Some (h, mi)"
  using assms getnum_two_digits [of h "'':'' @ two_digits mi" False] getnum_two_digits [of mi "[]" True]
  by (simp add: parse_1504_def format_1504_def)

end
