(* ===== verification/ConfigParse.thy ===== *)
theory ConfigParse
  imports ConfigTypes GoNet "HOL-Library.State_Monad" "HOL-Library.Char_ord" "HOL-Library.List_Lexorder"
begin

text \<open>
  Package \<^verbatim>\<open>internal/config\<close>, the parser: \<^verbatim>\<open>Parse\<close> and the methods of \<^verbatim>\<open>parser\<close>, in
  the state monad over the list of warnings. The TOML library is a parameter: a record
  of its typed \<^verbatim>\<open>PrimitiveDecode\<close> calls (\<open>None\<close> is a decoding error) and of
  \<^verbatim>\<open>MetaData.Type\<close>; nothing is assumed about it. \<^verbatim>\<open>url.Parse\<close> and the variable
  \<^verbatim>\<open>N5FANGOV_LOG_ROOT\<close> are parameters too.
\<close>

section \<open>The decoder and the warnings\<close>

type_synonym 'p sec = "(string \<times> 'p) list"

record 'p toml =
  md_Type :: "string \<Rightarrow> string"
  dec_string :: "'p \<Rightarrow> string option"
  dec_int :: "'p \<Rightarrow> int option"
  dec_bool :: "'p \<Rightarrow> bool option"
  dec_strings :: "'p \<Rightarrow> string list option"
  dec_points :: "'p \<Rightarrow> int list list option"
  dec_table :: "'p \<Rightarrow> 'p sec option"
  dec_tables :: "'p \<Rightarrow> 'p sec list option"

record url =
  u_Scheme :: string
  u_Host :: string
  u_Hostname :: string
  u_HasUser :: bool

record parse_env =
  pe_LogRoot :: string
  pe_url :: "string \<Rightarrow> url option"

record Warning =
  warn_Field :: string
  warn_Msg :: msg

type_synonym 'a parser = "(Warning list, 'a) state"

definition warn :: "string \<Rightarrow> string \<Rightarrow> msgarg list \<Rightarrow> unit parser" where
  "warn field fmt args = State (\<lambda>ws. ((), ws @ [\<lparr>warn_Field = field, warn_Msg = Msg fmt args\<rparr>]))"

abbreviation ret :: "'a \<Rightarrow> 'a parser" where
  "ret \<equiv> State_Monad.return"

definition sortedKeys :: "'p sec \<Rightarrow> string list" where
  "sortedKeys m = sort (map fst m)"

fun unknown_loop :: "string \<Rightarrow> string list \<Rightarrow> string list \<Rightarrow> unit parser" where
  "unknown_loop prefix known [] = ret ()"
| "unknown_loop prefix known (k # ks) =
     (if k \<in> set known then unknown_loop prefix known ks
      else do { warn (prefix @ ''.'' @ k) ''unknown key, ignored'' []; unknown_loop prefix known ks })"

definition unknown :: "string \<Rightarrow> 'p sec \<Rightarrow> string list \<Rightarrow> unit parser" where
  "unknown prefix m known = unknown_loop prefix known (sortedKeys m)"

section \<open>Typed fields\<close>

definition enumValue :: "string \<Rightarrow> string" where
  "enumValue s = ToLower (TrimSpace s)"

definition intField :: "'p toml \<Rightarrow> string \<Rightarrow> 'p sec \<Rightarrow> string \<Rightarrow> int \<Rightarrow> int \<Rightarrow> int \<Rightarrow> int parser" where
  "intField t prefix m key def lo hi = (case map_of m key of
      None \<Rightarrow> ret def
    | Some prim \<Rightarrow> (case dec_int t prim of
        None \<Rightarrow> do { warn (prefix @ ''.'' @ key) ''not an integer, default %d used'' [AI def]; ret def }
      | Some v \<Rightarrow>
          if v < lo \<or> v > hi then do {
            warn (prefix @ ''.'' @ key) ''%d outside %d..%d, default %d used'' [AI v, AI lo, AI hi, AI def];
            ret def }
          else ret v))"

definition strField :: "'p toml \<Rightarrow> string \<Rightarrow> 'p sec \<Rightarrow> string \<Rightarrow> string \<Rightarrow> (string \<times> bool) parser" where
  "strField t prefix m key def = (case map_of m key of
      None \<Rightarrow> ret (def, False)
    | Some prim \<Rightarrow> (case dec_string t prim of
        None \<Rightarrow> do { warn (prefix @ ''.'' @ key) ''not a string, default %q used'' [AS def]; ret (def, False) }
      | Some v \<Rightarrow> ret (v, True)))"

definition boolField :: "'p toml \<Rightarrow> string \<Rightarrow> 'p sec \<Rightarrow> string \<Rightarrow> bool \<Rightarrow> bool parser" where
  "boolField t prefix m key def = (case map_of m key of
      None \<Rightarrow> ret def
    | Some prim \<Rightarrow> (case dec_bool t prim of
        None \<Rightarrow> do {
          warn (prefix @ ''.'' @ key) ''not a boolean, default %v used'' [AS (if def then ''true'' else ''false'')];
          ret def }
      | Some v \<Rightarrow> ret v))"

text \<open>The product of \<^verbatim>\<open>time.Duration(n) * time.Second\<close> is an \<^verbatim>\<open>int64\<close>: it wraps around.\<close>

definition durRaw :: "'p toml \<Rightarrow> string \<Rightarrow> 'p sec \<Rightarrow> string \<Rightarrow> duration \<Rightarrow> (duration \<times> bool) parser" where
  "durRaw t prefix m key def = (case map_of m key of
      None \<Rightarrow> ret (def, False)
    | Some prim \<Rightarrow> (case dec_string t prim of
        Some s \<Rightarrow> (case ParseDuration s of
            None \<Rightarrow> do {
              warn (prefix @ ''.'' @ key) ''%q is not a duration, default %s used'' [AS s, AI def];
              ret (def, False) }
          | Some v \<Rightarrow> ret (v, True))
      | None \<Rightarrow> (case dec_int t prim of
            None \<Rightarrow> do {
              warn (prefix @ ''.'' @ key) ''not a duration string or integer seconds, default %s used'' [AI def];
              ret (def, False) }
          | Some n \<Rightarrow> ret (wrap64 (n * Second), True))))"

definition durField ::
  "'p toml \<Rightarrow> string \<Rightarrow> 'p sec \<Rightarrow> string \<Rightarrow> duration \<Rightarrow> duration \<Rightarrow> duration \<Rightarrow> duration parser" where
  "durField t prefix m key def lo hi = do {
     (d, ok) \<leftarrow> durRaw t prefix m key def;
     if \<not> ok then ret d
     else if d < lo \<or> d > hi then do {
       warn (prefix @ ''.'' @ key) ''%s outside %s..%s, default %s used'' [AI d, AI lo, AI hi, AI def];
       ret def }
     else ret d }"

section \<open>The daemon section\<close>

definition interval_field :: "'p toml \<Rightarrow> 'p sec \<Rightarrow> duration \<Rightarrow> duration parser" where
  "interval_field t m def = do {
     (iv, ok) \<leftarrow> durRaw t ''daemon'' m ''interval'' def;
     if \<not> ok then ret iv
     else if iv < MinInterval then do {
       warn ''daemon.interval'' ''%s below %s, default %s used'' [AI iv, AI MinInterval, AI def];
       ret def }
     else if iv > MaxInterval then do {
       warn ''daemon.interval'' ''%s above %s (WatchdogSec=60 needs two cycles), %s used''
         [AI iv, AI MaxInterval, AI MaxInterval];
       ret MaxInterval }
     else ret iv }"

definition profile_field :: "'p toml \<Rightarrow> 'p sec \<Rightarrow> string \<Rightarrow> string parser" where
  "profile_field t m def = do {
     (raw, _) \<leftarrow> strField t ''daemon'' m ''profile'' def;
     let prof = enumValue raw;
     if prof \<notin> set Profiles then do {
       warn ''daemon.profile'' ''%q unknown (%s), default %q used'' [AS prof, AS (Join Profiles ''|''), AS def];
       ret def }
     else ret prof }"

definition parse_daemon :: "'p toml \<Rightarrow> 'p sec \<Rightarrow> Daemon parser" where
  "parse_daemon t m = do {
     unknown ''daemon'' m [''interval'', ''step_up'', ''step_down'', ''stall_min_duty'', ''stall_cycles'',
       ''stale_cycles'', ''alert_cooldown'', ''log_every'', ''emergency'', ''emergency_cycles'', ''profile''];
     let def = DefaultDaemon;
     iv \<leftarrow> interval_field t m (d_Interval def);
     up \<leftarrow> intField t ''daemon'' m ''step_up'' (d_StepUp def) 1 255;
     down \<leftarrow> intField t ''daemon'' m ''step_down'' (d_StepDown def) 1 255;
     minduty \<leftarrow> intField t ''daemon'' m ''stall_min_duty'' (d_StallMinDuty def) 1 255;
     stall \<leftarrow> intField t ''daemon'' m ''stall_cycles'' (d_StallCycles def) 1 MaxStallCycle;
     stale \<leftarrow> intField t ''daemon'' m ''stale_cycles'' (d_StaleCycles def) MinStaleCycle MaxStaleCycle;
     cool \<leftarrow> durField t ''daemon'' m ''alert_cooldown'' (d_AlertCooldown def) MinCooldown MaxCooldown;
     every \<leftarrow> intField t ''daemon'' m ''log_every'' (d_LogEvery def) 0 1000000;
     emerg \<leftarrow> boolField t ''daemon'' m ''emergency'' (d_Emergency def);
     ecycles \<leftarrow> intField t ''daemon'' m ''emergency_cycles'' (d_EmergencyCycles def) 1 MaxEmergencyCycles;
     prof \<leftarrow> profile_field t m (d_Profile def);
     ret \<lparr>d_Interval = iv, d_StepUp = up, d_StepDown = down, d_StallMinDuty = minduty, d_StallCycles = stall,
       d_StaleCycles = stale, d_AlertCooldown = cool, d_LogEvery = every, d_Emergency = emerg,
       d_EmergencyCycles = ecycles, d_Profile = prof\<rparr> }"

section \<open>The web section\<close>

definition PBKDF2MinIter :: int where "PBKDF2MinIter = 1000"
definition PBKDF2MaxIter :: int where "PBKDF2MaxIter = 10000000"
definition PBKDF2KeyLen :: nat where "PBKDF2KeyLen = 32"

record PasswordHash =
  ph_Legacy :: "int list option"
  ph_Iter :: int
  ph_Salt :: "int list"
  ph_Key :: "int list"

definition ParsePasswordHash :: "string \<Rightarrow> msg + PasswordHash" where
  "ParsePasswordHash raw =
     (let s = TrimSpace raw
      in if HasPrefix s ''pbkdf2$'' then
           (case Split s (CHR ''$'') of
              [_, iters, salts, keys] \<Rightarrow>
                (case Atoi iters of
                   None \<Rightarrow> Inl (Msg ''pbkdf2 iterations %q outside %d..%d'' [AS iters, AI PBKDF2MinIter, AI PBKDF2MaxIter])
                 | Some iter \<Rightarrow>
                     if iter < PBKDF2MinIter \<or> iter > PBKDF2MaxIter
                     then Inl (Msg ''pbkdf2 iterations %q outside %d..%d'' [AS iters, AI PBKDF2MinIter, AI PBKDF2MaxIter])
                     else case hex_DecodeString salts of
                            None \<Rightarrow> Inl (Msg ''pbkdf2 salt is not hex of at least 8 bytes'' [])
                          | Some salt \<Rightarrow>
                              if length salt < 8 then Inl (Msg ''pbkdf2 salt is not hex of at least 8 bytes'' [])
                              else case hex_DecodeString keys of
                                     None \<Rightarrow> Inl (Msg ''pbkdf2 key is not hex of %d bytes'' [AI (int PBKDF2KeyLen)])
                                   | Some key \<Rightarrow>
                                       if length key \<noteq> PBKDF2KeyLen
                                       then Inl (Msg ''pbkdf2 key is not hex of %d bytes'' [AI (int PBKDF2KeyLen)])
                                       else Inr \<lparr>ph_Legacy = None, ph_Iter = iter, ph_Salt = salt, ph_Key = key\<rparr>)
            | _ \<Rightarrow> Inl (Msg ''pbkdf2 hash needs pbkdf2$<iter>$<salt>$<key>'' []))
         else if length s \<noteq> 64 then Inl (Msg ''not a 64-char sha256 hex digest or a pbkdf2$ hash'' [])
         else case hex_DecodeString s of
                None \<Rightarrow> Inl (Msg ''not a 64-char sha256 hex digest or a pbkdf2$ hash'' [])
              | Some legacy \<Rightarrow> Inr \<lparr>ph_Legacy = Some legacy, ph_Iter = 0, ph_Salt = [], ph_Key = []\<rparr>)"

definition IsLoopbackListen :: "string \<Rightarrow> bool" where
  "IsLoopbackListen listen = (case SplitHostPort listen of
      None \<Rightarrow> False
    | Some (host, _) \<Rightarrow>
        EqualFold host ''localhost'' \<or> (case ParseIP host of None \<Rightarrow> False | Some ip \<Rightarrow> IsLoopback ip))"

definition DefaultTLS :: "string \<Rightarrow> string" where
  "DefaultTLS listen = (if IsLoopbackListen listen then ''off'' else ''auto'')"

definition TLSModes :: "string list" where
  "TLSModes = [''auto'', ''off'', ''file'']"

definition in_class :: "string \<Rightarrow> char \<Rightarrow> bool" where
  "in_class extra c \<longleftrightarrow> (let n = (of_char c :: nat) in
     48 \<le> n \<and> n \<le> 57 \<or> 65 \<le> n \<and> n \<le> 90 \<or> 97 \<le> n \<and> n \<le> 122 \<or> c \<in> set extra)"

definition lower_class :: "string \<Rightarrow> char \<Rightarrow> bool" where
  "lower_class extra c \<longleftrightarrow> (let n = (of_char c :: nat) in
     48 \<le> n \<and> n \<le> 57 \<or> 97 \<le> n \<and> n \<le> 122 \<or> c \<in> set extra)"

definition nameRe :: "string \<Rightarrow> bool" where
  "nameRe s \<longleftrightarrow> 1 \<le> length s \<and> length s \<le> 32 \<and> list_all (lower_class ''_'') s"

definition presetRe :: "string \<Rightarrow> bool" where
  "presetRe s \<longleftrightarrow> 1 \<le> length s \<and> length s \<le> 64 \<and> list_all (lower_class ''_-'') s"

definition UserRe :: "string \<Rightarrow> bool" where
  "UserRe s \<longleftrightarrow> 1 \<le> length s \<and> length s \<le> 32 \<and> list_all (in_class ''_.-'') s"

definition listen_field :: "'p toml \<Rightarrow> 'p sec \<Rightarrow> string \<Rightarrow> string parser" where
  "listen_field t m def = do {
     (raw, _) \<leftarrow> strField t ''web'' m ''listen'' def;
     let listen = TrimSpace raw;
     case SplitHostPort listen of
       None \<Rightarrow> do { warn ''web.listen'' ''%q is not host:port, default %q used'' [AS listen, AS def]; ret def }
     | Some (_, port) \<Rightarrow> (case Atoi port of
         Some n \<Rightarrow>
           if n < 1 \<or> n > 65535 then do {
             warn ''web.listen'' ''%q: port must be 1..65535, default %q used'' [AS listen, AS def]; ret def }
           else ret listen
       | None \<Rightarrow> do {
           warn ''web.listen'' ''%q: port must be 1..65535, default %q used'' [AS listen, AS def]; ret def }) }"

text \<open>The authentication keys: the mode in force and whether it is not the one asked for (\<^verbatim>\<open>authBroken\<close>).\<close>

definition auth_field :: "'p toml \<Rightarrow> 'p sec \<Rightarrow> string \<Rightarrow> (string \<times> bool) parser" where
  "auth_field t m def = do {
     (raw, _) \<leftarrow> strField t ''web'' m ''auth'' def;
     let auth = enumValue raw;
     if auth \<noteq> ''none'' \<and> auth \<noteq> ''basic'' then do {
       warn ''web.auth'' ''%q unknown (none|basic), default %q used'' [AS auth, AS def];
       ret (def, True) }
     else ret (auth, False) }"

definition check_basic :: "string \<Rightarrow> string \<Rightarrow> string \<times> bool \<Rightarrow> (string \<times> bool) parser" where
  "check_basic user hash ab =
     (if fst ab \<noteq> ''basic'' then ret ab
      else if user = [] \<or> hash = [] then do {
        warn ''web.auth'' ''basic requires user and password_hash, auth set to none'' []; ret (''none'', True) }
      else if \<not> UserRe user then do {
        warn ''web.user'' ''%q does not match %s, auth set to none'' [AS user]; ret (''none'', True) }
      else case ParsePasswordHash hash of
             Inl e \<Rightarrow> do { warn ''web.password_hash'' ''%v, auth set to none'' [AM e]; ret (''none'', True) }
           | Inr _ \<Rightarrow> ret ab)"

definition allowed_hosts_field :: "'p toml \<Rightarrow> 'p sec \<Rightarrow> string list parser" where
  "allowed_hosts_field t m = (case map_of m ''allowed_hosts'' of
      None \<Rightarrow> ret []
    | Some prim \<Rightarrow> (case dec_strings t prim of
        None \<Rightarrow> do { warn ''web.allowed_hosts'' ''not an array of strings, ignored'' []; ret [] }
      | Some hosts \<Rightarrow> ret (filter (\<lambda>h. h \<noteq> []) (map TrimSpace hosts))))"

definition parse_tls :: "'p toml \<Rightarrow> 'p sec \<Rightarrow> Web \<Rightarrow> Web parser" where
  "parse_tls t m w = do {
     let def = DefaultTLS (w_Listen w);
     (raw, present) \<leftarrow> strField t ''web'' m ''tls'' def;
     let mode0 = enumValue raw;
     (cert0, _) \<leftarrow> strField t ''web'' m ''cert_file'' [];
     (key0, _) \<leftarrow> strField t ''web'' m ''key_file'' [];
     let cert = TrimSpace cert0;
     let key = TrimSpace key0;
     mode1 \<leftarrow> (if present \<and> mode0 \<notin> set TLSModes then do {
         warn ''web.tls'' ''%q unknown (%s), %q used'' [AS mode0, AS (Join TLSModes ''|''), AS def]; ret def }
       else ret mode0);
     mode2 \<leftarrow> (if mode1 = ''file'' \<and> (cert = [] \<or> key = []) then do {
         warn ''web.tls'' ''\"file\" needs cert_file and key_file, %q used'' [AS def]; ret def }
       else ret mode1);
     mode3 \<leftarrow> (if mode2 = ''off'' \<and> \<not> IsLoopbackListen (w_Listen w) then do {
         warn ''web.tls'' ''\"off\" on non-loopback listen %s: LAN traffic is never plain HTTP, \"auto\" used'' [AS (w_Listen w)];
         ret ''auto'' }
       else ret mode2);
     ret (w\<lparr>w_CertFile := cert, w_KeyFile := key, w_TLS := mode3\<rparr>) }"

definition parse_web :: "'p toml \<Rightarrow> 'p sec \<Rightarrow> Web parser" where
  "parse_web t m = do {
     unknown ''web'' m [''listen'', ''auth'', ''user'', ''password_hash'', ''allowed_hosts'', ''tls'', ''cert_file'',
       ''key_file'', ''behind_tls_proxy''];
     let def = DefaultWeb;
     listen0 \<leftarrow> listen_field t m (w_Listen def);
     ab0 \<leftarrow> auth_field t m (w_Auth def);
     (user, _) \<leftarrow> strField t ''web'' m ''user'' [];
     (hash, _) \<leftarrow> strField t ''web'' m ''password_hash'' [];
     (auth, broken) \<leftarrow> check_basic user hash ab0;
     listen \<leftarrow> (if broken \<and> \<not> IsLoopbackListen listen0 then do {
         warn ''web.listen'' ''auth misconfigured, web bound to loopback (%q instead of %q)'' [AS (w_Listen def), AS listen0];
         ret (w_Listen def) }
       else ret listen0);
     hosts \<leftarrow> allowed_hosts_field t m;
     w \<leftarrow> parse_tls t m (def\<lparr>w_User := user, w_PasswordHash := hash, w_Listen := listen, w_Auth := auth,
       w_AllowedHosts := hosts\<rparr>);
     proxy \<leftarrow> boolField t ''web'' m ''behind_tls_proxy'' (w_BehindTLSProxy def);
     ret (w\<lparr>w_BehindTLSProxy := proxy\<rparr>) }"

section \<open>The log, alert and dashboard sections\<close>

definition LogRoot :: string where "LogRoot = ''/var/log/''"

definition logRoot :: "string \<Rightarrow> string" where
  "logRoot envval =
     (let root = (if envval \<noteq> [] then envval else LogRoot)
      in if HasSuffix root ''/'' then root else root @ ''/'')"

definition ValidLogPath :: "string \<Rightarrow> string \<Rightarrow> msg option" where
  "ValidLogPath envval p =
     (if \<not> HasPrefix p ''/'' then Some (Msg ''is not an absolute path'' [])
      else if HasSuffix p ''/'' then Some (Msg ''is a directory, not a file'' [])
      else if path_Clean p \<noteq> p then Some (Msg ''is not a clean path'' [])
      else let root = logRoot envval
           in if \<not> HasPrefix p root \<or> length p = length root then Some (Msg ''is not a file under %s'' [AS root])
              else None)"

definition parse_log :: "parse_env \<Rightarrow> 'p toml \<Rightarrow> 'p sec \<Rightarrow> Log parser" where
  "parse_log pe t m = do {
     unknown ''log'' m [''file'', ''max_size_mb'', ''max_files''];
     let def = DefaultLog;
     (raw, present) \<leftarrow> strField t ''log'' m ''file'' (l_File def);
     let file0 = TrimSpace raw;
     file \<leftarrow> (case (if present \<and> file0 \<noteq> [] then ValidLogPath (pe_LogRoot pe) file0 else None) of
         Some e \<Rightarrow> do { warn ''log.file'' ''%q %v, default %q used'' [AS file0, AM e, AS (l_File def)]; ret (l_File def) }
       | None \<Rightarrow> ret file0);
     size \<leftarrow> intField t ''log'' m ''max_size_mb'' (l_MaxSizeMB def) MinLogSizeMB MaxLogSizeMB;
     files \<leftarrow> intField t ''log'' m ''max_files'' (l_MaxFiles def) MinLogFiles MaxLogFiles;
     ret \<lparr>l_File = file, l_MaxSizeMB = size, l_MaxFiles = files\<rparr> }"

definition AlertTransports :: "string list" where
  "AlertTransports = [''auto'', ''pve'', ''mail'', ''webhook'', ''log'', ''off'']"

definition WebhookFormats :: "string list" where
  "WebhookFormats = [''json'', ''text'']"

definition MaxWebhookURLLen :: nat where "MaxWebhookURLLen = 2048"

definition ValidWebhookURL :: "(string \<Rightarrow> url option) \<Rightarrow> string \<Rightarrow> msg option" where
  "ValidWebhookURL url_Parse s =
     (if s = [] then Some (Msg ''is empty'' [])
      else if length s > MaxWebhookURLLen then Some (Msg ''is longer than %d bytes'' [AI (int MaxWebhookURLLen)])
      else case url_Parse s of
             None \<Rightarrow> Some (Msg ''is not a URL'' [])
           | Some u \<Rightarrow>
               if u_Scheme u \<noteq> ''http'' \<and> u_Scheme u \<noteq> ''https'' then Some (Msg ''is not an http or https URL'' [])
               else if u_Host u = [] \<or> u_Hostname u = [] then Some (Msg ''has no host'' [])
               else if u_HasUser u then Some (Msg ''must not carry user:password (userinfo)'' [])
               else None)"

definition webhookURLOrigin :: "(string \<Rightarrow> url option) \<Rightarrow> string \<Rightarrow> string" where
  "webhookURLOrigin url_Parse s = (case url_Parse s of
      None \<Rightarrow> []
    | Some u \<Rightarrow> if u_Scheme u = [] \<or> u_Host u = [] then [] else u_Scheme u @ ''://'' @ u_Host u)"

definition mailToRe :: "string \<Rightarrow> bool" where
  "mailToRe s \<longleftrightarrow> s \<noteq> [] \<and> in_class ''_'' (hd s) \<and>
     (let loc = takeWhile (\<lambda>c. c \<noteq> CHR ''@'') (tl s); rest = dropWhile (\<lambda>c. c \<noteq> CHR ''@'') (tl s)
      in list_all (in_class ''._%+-'') loc \<and> (rest = [] \<or> tl rest \<noteq> [] \<and> list_all (in_class ''.-'') (tl rest)))"

definition ValidMailTo :: "string \<Rightarrow> bool" where
  "ValidMailTo s \<longleftrightarrow> length s \<le> 254 \<and> mailToRe s"

definition webhook_url_field :: "parse_env \<Rightarrow> 'p toml \<Rightarrow> 'p sec \<Rightarrow> string parser" where
  "webhook_url_field pe t m = do {
     (raw, present) \<leftarrow> strField t ''alert'' m ''webhook_url'' [];
     let wu = TrimSpace raw;
     (case (if present \<and> wu \<noteq> [] then ValidWebhookURL (pe_url pe) wu else None) of
        Some e \<Rightarrow> do {
          let org = webhookURLOrigin (pe_url pe) wu;
          warn ''alert.webhook_url'' ''%s %v, ignored'' [AS (if org \<noteq> [] then org @ ''/'' else ''value''), AM e];
          ret [] }
      | None \<Rightarrow> ret wu) }"

definition webhook_format_field :: "'p toml \<Rightarrow> 'p sec \<Rightarrow> string \<Rightarrow> string parser" where
  "webhook_format_field t m def = do {
     (raw, present) \<leftarrow> strField t ''alert'' m ''webhook_format'' def;
     let wf = (if enumValue raw = [] then def else enumValue raw);
     if present \<and> wf \<notin> set WebhookFormats then do {
       warn ''alert.webhook_format'' ''%q unknown (%s), default %q used'' [AS wf, AS (Join WebhookFormats ''|''), AS def];
       ret def }
     else ret wf }"

definition parse_alert :: "parse_env \<Rightarrow> 'p toml \<Rightarrow> 'p sec \<Rightarrow> Alert parser" where
  "parse_alert pe t m = do {
     unknown ''alert'' m [''transport'', ''mail_to'', ''webhook_url'', ''webhook_format''];
     let def = DefaultAlert;
     (raw, _) \<leftarrow> strField t ''alert'' m ''transport'' (a_Transport def);
     let tr0 = enumValue raw;
     tr1 \<leftarrow> (if tr0 \<notin> set AlertTransports then do {
         warn ''alert.transport'' ''%q unknown (%s), default %q used'' [AS tr0, AS (Join AlertTransports ''|''), AS (a_Transport def)];
         ret (a_Transport def) }
       else ret tr0);
     (rawto, present) \<leftarrow> strField t ''alert'' m ''mail_to'' (a_MailTo def);
     let to0 = TrimSpace rawto;
     to1 \<leftarrow> (if present \<and> \<not> ValidMailTo to0 then do {
         warn ''alert.mail_to'' ''%q is not a local user or address, default %q used'' [AS to0, AS (a_MailTo def)];
         ret (a_MailTo def) }
       else ret to0);
     wu \<leftarrow> webhook_url_field pe t m;
     wf \<leftarrow> webhook_format_field t m (a_WebhookFormat def);
     tr \<leftarrow> (if tr1 = ''webhook'' \<and> wu = [] then do {
         warn ''alert.transport'' ''\"webhook\" needs a valid webhook_url, %q used'' [AS (a_Transport def)];
         ret (a_Transport def) }
       else ret tr1);
     ret \<lparr>a_Transport = tr, a_MailTo = to1, a_WebhookURL = wu, a_WebhookFormat = wf\<rparr> }"

text \<open>The loop of \<^verbatim>\<open>dashboard\<close>: \<open>n\<close> ids are kept so far.\<close>

fun sensors_loop :: "nat \<Rightarrow> string list \<Rightarrow> string list \<Rightarrow> string list parser" where
  "sensors_loop n seen [] = ret []"
| "sensors_loop n seen (raw # ids) =
     (let sid = TrimSpace raw
      in if sid = [] \<or> sid \<in> set seen then sensors_loop n seen ids
         else if n \<ge> MaxDashboardSensors then do {
           warn ''dashboard.sensors'' ''more than %d ids, %q and the rest dropped'' [AI (int MaxDashboardSensors), AS sid];
           ret [] }
         else do { rest \<leftarrow> sensors_loop (Suc n) (sid # seen) ids; ret (sid # rest) })"

definition parse_dashboard :: "'p toml \<Rightarrow> 'p sec \<Rightarrow> string list parser" where
  "parse_dashboard t m = do {
     unknown ''dashboard'' m [''sensors''];
     (case map_of m ''sensors'' of
        None \<Rightarrow> ret []
      | Some prim \<Rightarrow> (case dec_strings t prim of
          None \<Rightarrow> do { warn ''dashboard.sensors'' ''not an array of strings, ignored'' []; ret [] }
        | Some ids \<Rightarrow> sensors_loop 0 [] ids)) }"

section \<open>Channels\<close>

definition pwmField :: "'p toml \<Rightarrow> string \<Rightarrow> 'p sec \<Rightarrow> int parser" where
  "pwmField t prefix m = (case map_of m ''pwm'' of
      None \<Rightarrow> do { warn (prefix @ ''.pwm'') ''missing, channel dropped'' []; ret 0 }
    | Some prim \<Rightarrow> (case dec_int t prim of
        None \<Rightarrow> do { warn (prefix @ ''.pwm'') ''not an integer, channel dropped'' []; ret 0 }
      | Some v \<Rightarrow>
          if v < 1 \<or> v > MaxPWM then do {
            warn (prefix @ ''.pwm'') ''%d outside 1..%d, channel dropped'' [AI v, AI MaxPWM]; ret 0 }
          else ret v))"

definition sensorField :: "'p toml \<Rightarrow> string \<Rightarrow> 'p sec \<Rightarrow> string option parser" where
  "sensorField t prefix m = (case map_of m ''sensor'' of
      None \<Rightarrow> do { warn (prefix @ ''.sensor'') ''missing, channel dropped'' []; ret None }
    | Some prim \<Rightarrow>
        (case (case dec_string t prim of Some s \<Rightarrow> Some (Split s (CHR '','')) | None \<Rightarrow> dec_strings t prim) of
           None \<Rightarrow> do {
             warn (prefix @ ''.sensor'') ''not a string or an array of strings, channel dropped'' []; ret None }
         | Some parts \<Rightarrow> (case JoinSensors parts of
             Inl e \<Rightarrow> do { warn (prefix @ ''.sensor'') ''%v, channel dropped'' [AM e]; ret None }
           | Inr sid \<Rightarrow> ret (Some sid))))"

definition parse_curve :: "'p toml \<Rightarrow> string \<Rightarrow> 'p sec \<Rightarrow> curve parser" where
  "parse_curve t prefix m = (case map_of m ''curve'' of
      None \<Rightarrow> do { warn (prefix @ ''.curve'') ''missing, default curve used'' []; ret DefaultCurve }
    | Some prim \<Rightarrow> (case dec_points t prim of
        None \<Rightarrow> do {
          warn (prefix @ ''.curve'') ''not an array of [temp, duty] pairs, default curve used'' []; ret DefaultCurve }
      | Some pts \<Rightarrow> (case ValidateCurve pts of
          Inl e \<Rightarrow> do { warn (prefix @ ''.curve'') ''%v, default curve used'' [AM e]; ret DefaultCurve }
        | Inr out \<Rightarrow> ret out)))"

text \<open>The end of \<^verbatim>\<open>stop\<close>: a fixed duty below the minimum is raised.\<close>

definition stop_fixed :: "string \<Rightarrow> int \<Rightarrow> string parser" where
  "stop_fixed prefix n =
     (if n < MinFixedStop then do {
        warn (prefix @ ''.stop'') ''fixed stop duty %d below %d (fans would stay off after stop), %d used''
          [AI n, AI MinFixedStop, AI MinFixedStop];
        ret (Itoa MinFixedStop) }
      else ret (Itoa n))"

definition parse_stop :: "'p toml \<Rightarrow> string \<Rightarrow> 'p sec \<Rightarrow> string \<Rightarrow> string parser" where
  "parse_stop t prefix m sensor =
     (let def = DefaultStop sensor
      in case map_of m ''stop'' of
           None \<Rightarrow> ret def
         | Some prim \<Rightarrow> (case dec_string t prim of
             Some s \<Rightarrow>
               if enumValue s = ''auto'' then ret ''auto''
               else (case Atoi (TrimSpace s) of
                       Some v \<Rightarrow>
                         if v < 0 \<or> v > 255 then do {
                           warn (prefix @ ''.stop'') ''%q is neither \"auto\" nor 0..255, %q used'' [AS s, AS def]; ret def }
                         else stop_fixed prefix v
                     | None \<Rightarrow> do {
                         warn (prefix @ ''.stop'') ''%q is neither \"auto\" nor 0..255, %q used'' [AS s, AS def]; ret def })
           | None \<Rightarrow> (case dec_int t prim of
               Some n \<Rightarrow>
                 if n < 0 \<or> n > 255 then do {
                   warn (prefix @ ''.stop'') ''neither \"auto\" nor 0..255, %q used'' [AS def]; ret def }
                 else stop_fixed prefix n
             | None \<Rightarrow> do { warn (prefix @ ''.stop'') ''neither \"auto\" nor 0..255, %q used'' [AS def]; ret def })))"

definition parse_ceiling :: "'p toml \<Rightarrow> string \<Rightarrow> 'p sec \<Rightarrow> string \<Rightarrow> int parser" where
  "parse_ceiling t prefix m sensorID = (case map_of m ''ceiling'' of
      None \<Rightarrow> ret 0
    | Some prim \<Rightarrow>
        (let built = BuiltinCeiling sensorID None
         in case dec_int t prim of
              None \<Rightarrow> do { warn (prefix @ ''.ceiling'') ''not an integer, built-in ceiling %d used'' [AI built]; ret 0 }
            | Some v \<Rightarrow>
                if v = 0 then ret 0
                else if v < MinCeiling \<or> v > built then do {
                  warn (prefix @ ''.ceiling'')
                    ''%d outside %d..%d (the built-in ceiling of %s can only be lowered), built-in ceiling %d used''
                    [AI v, AI MinCeiling, AI built, AS sensorID, AI built];
                  ret 0 }
                else ret v))"

text \<open>The values of a channel whose identity is settled.\<close>

definition channel_values :: "'p toml \<Rightarrow> string \<Rightarrow> 'p sec \<Rightarrow> string \<Rightarrow> int \<Rightarrow> string \<Rightarrow> Channel parser" where
  "channel_values t prefix m name pwm sensor = do {
     cv \<leftarrow> parse_curve t prefix m;
     let lst = fst (last cv);
     let defCrit = (if lst + 10 > MaxCritical then MaxCritical else lst + 10);
     crit \<leftarrow> intField t prefix m ''critical'' defCrit (lst + 1) MaxCritical;
     (if map_of m ''critical'' = None then warn (prefix @ ''.critical'') ''missing, default %d used'' [AI defCrit] else ret ());
     stp \<leftarrow> parse_stop t prefix m sensor;
     hyst \<leftarrow> intField t prefix m ''hysteresis'' 0 0 HysteresisMax;
     minon \<leftarrow> durField t prefix m ''min_on'' 0 0 MinOnMax;
     ceil \<leftarrow> parse_ceiling t prefix m sensor;
     ret \<lparr>ch_Name = name, ch_PWM = pwm, ch_Sensor = sensor, ch_Curve = cv, ch_Critical = crit, ch_Stop = stp,
       ch_Hysteresis = hyst, ch_MinOn = minon, ch_Ceiling = ceil,
       ch_PostSet = (map_of m ''hysteresis'' \<noteq> None \<or> map_of m ''min_on'' \<noteq> None)\<rparr> }"

text \<open>The body of the loop of \<^verbatim>\<open>channels\<close>: \<open>None\<close> for a dropped channel.\<close>

definition parse_channel :: "'p toml \<Rightarrow> nat \<Rightarrow> string list \<Rightarrow> int list \<Rightarrow> 'p sec \<Rightarrow> Channel option parser" where
  "parse_channel t i names pwms m = do {
     let pre0 = ''channel['' @ Itoa (int i) @ '']'';
     (name, ok) \<leftarrow> strField t pre0 m ''name'' [];
     let pre = (if ok \<and> nameRe name then ''channel.'' @ name else pre0);
     unknown pre m [''name'', ''pwm'', ''sensor'', ''curve'', ''critical'', ''stop'', ''hysteresis'', ''min_on'', ''ceiling''];
     if \<not> ok \<or> \<not> nameRe name then do {
       warn (pre @ ''.name'') ''missing or not [a-z0-9_]{1,32}, channel dropped'' []; ret None }
     else if name \<in> set names then do {
       warn (pre @ ''.name'') ''duplicate name, channel dropped'' []; ret None }
     else do {
       pwm \<leftarrow> pwmField t pre m;
       if pwm = 0 then ret None
       else if pwm \<in> set pwms then do {
         warn (pre @ ''.pwm'') ''pwm%d already used by another channel, channel dropped'' [AI pwm]; ret None }
       else do {
         so \<leftarrow> sensorField t pre m;
         (case so of
            None \<Rightarrow> ret None
          | Some sensor \<Rightarrow> do { ch \<leftarrow> channel_values t pre m name pwm sensor; ret (Some ch) }) } } }"

fun channels_loop :: "'p toml \<Rightarrow> nat \<Rightarrow> string list \<Rightarrow> int list \<Rightarrow> 'p sec list \<Rightarrow> Channel list parser" where
  "channels_loop t i names pwms [] = ret []"
| "channels_loop t i names pwms (m # ms) = do {
     r \<leftarrow> parse_channel t i names pwms m;
     (case r of
        None \<Rightarrow> channels_loop t (Suc i) names pwms ms
      | Some ch \<Rightarrow> do {
          rest \<leftarrow> channels_loop t (Suc i) (ch_Name ch # names) (ch_PWM ch # pwms) ms;
          ret (ch # rest) }) }"

definition parse_channels :: "'p toml \<Rightarrow> 'p sec list \<Rightarrow> Channel list parser" where
  "parse_channels t ms = channels_loop t 0 [] [] ms"

section \<open>Schedules\<close>

definition clockTime :: "string \<Rightarrow> string option" where
  "clockTime s = map_option format_1504 (parse_1504 s)"

definition clockField :: "'p toml \<Rightarrow> 'p sec \<Rightarrow> string \<Rightarrow> string option" where
  "clockField t m key = (case map_of m key of
      None \<Rightarrow> Some []
    | Some prim \<Rightarrow> map_option TrimSpace (dec_string t prim))"

fun days_loop :: "string \<Rightarrow> string list \<Rightarrow> string list \<Rightarrow> string list option parser" where
  "days_loop pre seen [] = ret (Some [])"
| "days_loop pre seen (raw # ds) =
     (let d = enumValue raw
      in if d \<notin> set DayNames then do {
           warn (pre @ ''.days'') ''%q is not one of %s, entry dropped'' [AS d, AS (Join DayNames ''|'')]; ret None }
         else if d \<in> set seen then do {
           warn (pre @ ''.days'') ''%q listed twice, duplicate ignored'' [AS d]; days_loop pre seen ds }
         else do { r \<leftarrow> days_loop pre (d # seen) ds; ret (map_option (\<lambda>rest. d # rest) r) })"

definition days_field :: "'p toml \<Rightarrow> string \<Rightarrow> 'p sec \<Rightarrow> string list option parser" where
  "days_field t pre m = (case map_of m ''days'' of
      None \<Rightarrow> ret (Some [])
    | Some prim \<Rightarrow> (case dec_strings t prim of
        None \<Rightarrow> do { warn (pre @ ''.days'') ''not an array of strings, entry dropped'' []; ret None }
      | Some ds \<Rightarrow> days_loop pre [] ds))"

definition parse_schedule :: "'p toml \<Rightarrow> string \<Rightarrow> bool \<Rightarrow> 'p sec \<Rightarrow> (Schedule option \<times> bool) parser" where
  "parse_schedule t pre haveFallback m = do {
     unknown pre m [''preset'', ''from'', ''to'', ''days''];
     (raw, _) \<leftarrow> strField t pre m ''preset'' [];
     let preset = TrimSpace raw;
     if \<not> presetRe preset then do {
       warn (pre @ ''.preset'') ''missing or not %s, entry dropped'' []; ret (None, haveFallback) }
     else case (clockField t m ''from'', clockField t m ''to'') of
       (Some from, Some to) \<Rightarrow>
         if from = [] \<and> to = [] then
           (if haveFallback then do {
              warn pre ''a second entry without from/to (fallback), entry dropped'' []; ret (None, True) }
            else if map_of m ''days'' \<noteq> None then do {
              warn (pre @ ''.days'') ''days ignored on the fallback'' [];
              ret (Some \<lparr>s_Preset = preset, s_From = [], s_To = [], s_Days = []\<rparr>, True) }
            else ret (Some \<lparr>s_Preset = preset, s_From = [], s_To = [], s_Days = []\<rparr>, True))
         else if from = [] \<or> to = [] then do {
           warn pre ''from and to must both be set (or neither for the fallback), entry dropped'' []; ret (None, haveFallback) }
         else (case clockTime from of
             None \<Rightarrow> do { warn (pre @ ''.from'') ''%q is not HH:MM, entry dropped'' [AS from]; ret (None, haveFallback) }
           | Some f \<Rightarrow> (case clockTime to of
               None \<Rightarrow> do { warn (pre @ ''.to'') ''%q is not HH:MM, entry dropped'' [AS to]; ret (None, haveFallback) }
             | Some tt \<Rightarrow>
                 if f = tt then do {
                   warn pre ''from and to are equal (%s), entry dropped'' [AS f]; ret (None, haveFallback) }
                 else do {
                   dso \<leftarrow> days_field t pre m;
                   ret (map_option (\<lambda>ds. \<lparr>s_Preset = preset, s_From = f, s_To = tt, s_Days = ds\<rparr>) dso, haveFallback) }))
     | _ \<Rightarrow> do { warn pre ''from/to must be strings (\"22:00\"), entry dropped'' []; ret (None, haveFallback) } }"

fun schedules_loop :: "'p toml \<Rightarrow> nat \<Rightarrow> nat \<Rightarrow> bool \<Rightarrow> 'p sec list \<Rightarrow> Schedule list parser" where
  "schedules_loop t i n fb [] = ret []"
| "schedules_loop t i n fb (m # ms) =
     (let pre = ''schedule['' @ Itoa (int i) @ '']''
      in if n \<ge> MaxSchedules then do {
           warn pre ''more than %d schedule entries, this one and the rest dropped'' [AI (int MaxSchedules)]; ret [] }
         else do {
           (r, fb') \<leftarrow> parse_schedule t pre fb m;
           (case r of
              None \<Rightarrow> schedules_loop t (Suc i) n fb' ms
            | Some s \<Rightarrow> do { rest \<leftarrow> schedules_loop t (Suc i) (Suc n) fb' ms; ret (s # rest) }) })"

definition parse_schedules :: "'p toml \<Rightarrow> 'p sec list \<Rightarrow> Schedule list parser" where
  "parse_schedules t ms = schedules_loop t 0 0 False ms"

section \<open>Parse\<close>

definition parse_table :: "'p toml \<Rightarrow> 'p sec \<Rightarrow> string \<Rightarrow> 'p sec option parser" where
  "parse_table t tbl name = (case map_of tbl name of
      None \<Rightarrow> ret None
    | Some prim \<Rightarrow>
        if md_Type t name \<noteq> ''Hash'' \<and> md_Type t name \<noteq> [] \<or> dec_table t prim = None then do {
          warn name ''not a table, defaults used'' []; ret None }
        else ret (dec_table t prim))"

text \<open>A section that is a table is parsed, otherwise its default stays.\<close>

definition on_table :: "'p toml \<Rightarrow> 'p sec \<Rightarrow> string \<Rightarrow> ('p sec \<Rightarrow> 'a parser) \<Rightarrow> 'a \<Rightarrow> 'a parser" where
  "on_table t tbl name f def = do {
     r \<leftarrow> parse_table t tbl name;
     (case r of None \<Rightarrow> ret def | Some m \<Rightarrow> f m) }"

definition on_tables :: "'p toml \<Rightarrow> 'p sec \<Rightarrow> string \<Rightarrow> string \<Rightarrow> ('p sec list \<Rightarrow> 'a list parser) \<Rightarrow> 'a list parser" where
  "on_tables t tbl name complaint f = (case map_of tbl name of
      None \<Rightarrow> ret []
    | Some prim \<Rightarrow>
        (case (if md_Type t name \<noteq> ''ArrayHash'' then None else dec_tables t prim) of
           None \<Rightarrow> do { warn name complaint []; ret [] }
         | Some ms \<Rightarrow> f ms))"

fun sections_loop :: "string list \<Rightarrow> unit parser" where
  "sections_loop [] = ret ()"
| "sections_loop (k # ks) =
     (if k \<in> set [''daemon'', ''web'', ''log'', ''alert'', ''dashboard'', ''channel'', ''schedule''] then sections_loop ks
      else do { warn k ''unknown section, ignored'' []; sections_loop ks })"

definition parse_top :: "parse_env \<Rightarrow> 'p toml \<Rightarrow> 'p sec \<Rightarrow> Config parser" where
  "parse_top pe t tbl = do {
     sections_loop (sortedKeys tbl);
     d \<leftarrow> on_table t tbl ''daemon'' (parse_daemon t) DefaultDaemon;
     w \<leftarrow> on_table t tbl ''web'' (parse_web t) DefaultWeb;
     l \<leftarrow> on_table t tbl ''log'' (parse_log pe t) DefaultLog;
     a \<leftarrow> on_table t tbl ''alert'' (parse_alert pe t) DefaultAlert;
     s \<leftarrow> on_table t tbl ''dashboard'' (parse_dashboard t) [];
     chs \<leftarrow> on_tables t tbl ''channel'' ''not an array of tables ([[channel]]), no channels configured'' (parse_channels t);
     scs \<leftarrow> on_tables t tbl ''schedule'' ''not an array of tables ([[schedule]]), no schedules configured'' (parse_schedules t);
     ret \<lparr>c_Daemon = d, c_Web = w, c_Log = l, c_Alert = a, c_Sensors = s, c_Channels = chs, c_Schedules = scs\<rparr> }"

text \<open>
  \<^verbatim>\<open>redactSyntaxError\<close>: an error text that names the password hash loses its quoted
  excerpts, except those that contain the key name. \<open>quoted\<close> takes the text up to and
  including the closing quote.
\<close>

function redact_quotes :: "string \<Rightarrow> string" where
  "redact_quotes s =
     (let a = takeWhile (\<lambda>c. c \<noteq> CHR 0x22) s; r = dropWhile (\<lambda>c. c \<noteq> CHR 0x22) s
      in if r = [] \<or> CHR 0x22 \<notin> set (tl r) then s
         else let q = takeWhile (\<lambda>c. c \<noteq> CHR 0x22) (tl r); rest = tl (dropWhile (\<lambda>c. c \<noteq> CHR 0x22) (tl r));
                  tok = CHR 0x22 # q @ [CHR 0x22]
              in a @ (if Contains tok ''password_hash'' then tok else CHR 0x22 # ''<redacted>'' @ [CHR 0x22]) @ redact_quotes rest)"
  by pat_completeness auto
termination
proof (relation "measure length", simp, goal_cases)
  case (1 s a r q rest tok)
  let ?P = "\<lambda>c. c \<noteq> CHR 0x22"
  have r: "r \<noteq> []" using 1 by simp
  have "length (dropWhile ?P (tl r)) \<le> length (tl r)" by (rule length_dropWhile_le)
  moreover have "length r \<le> length s" using 1 by (simp add: length_dropWhile_le)
  ultimately show ?case using 1 r by (simp add: Suc_le_eq [symmetric]) (cases r, auto)
qed

declare redact_quotes.simps [simp del]

definition redactSyntaxError :: "string \<Rightarrow> string" where
  "redactSyntaxError s = (if \<not> Contains s ''password_hash'' then s else redact_quotes s)"

text \<open>
  \<^verbatim>\<open>Parse\<close>: \<^verbatim>\<open>toml.Decode\<close> is a parameter that gives an error text or the metadata with
  the top-level table. The last component is the error text, if any.
\<close>

definition Parse_config ::
  "parse_env \<Rightarrow> (string \<Rightarrow> string + ('p toml \<times> 'p sec)) \<Rightarrow> string \<Rightarrow> Config \<times> Warning list \<times> msg option" where
  "Parse_config pe toml_Decode raw = (case toml_Decode raw of
      Inl e \<Rightarrow> (let ms = redactSyntaxError e
               in (Default, [\<lparr>warn_Field = ''toml'', warn_Msg = Msg ms []\<rparr>], Some (Msg ''config: %s'' [AS ms])))
    | Inr (t, tbl) \<Rightarrow> (case run_state (parse_top pe t tbl) [] of (cf, ws) \<Rightarrow> (cf, ws, None)))"

definition ParseChannels ::
  "parse_env \<Rightarrow> (string \<Rightarrow> string + ('p toml \<times> 'p sec)) \<Rightarrow> string \<Rightarrow> Channel list \<times> Warning list \<times> msg option" where
  "ParseChannels pe toml_Decode raw = (case Parse_config pe toml_Decode raw of
      (cf, ws, Some e) \<Rightarrow> ([], ws, Some e)
    | (cf, ws, None) \<Rightarrow> (c_Channels cf, ws, None))"

end
