(* ===== verification/ConfigOk.thy ===== *)
theory ConfigOk
  imports ConfigParse
begin

text \<open>
  What the configuration parser promises: whatever a file holds, the result is a valid
  configuration (\<open>Parse_config_valid\<close>), the web section never opens the listener by
  accident (\<open>auth_not_open\<close>, with the exception \<open>auth_not_a_string\<close>), a valid channel list
  is read back as it is without a warning (\<open>parse_channels_roundtrip\<close>), and a number of
  seconds that overflows is taken for another interval (\<open>interval_wraps\<close>).
\<close>

section \<open>Reasoning about parsers\<close>

text \<open>\<open>pred_state P p\<close>: every value the parser yields satisfies \<open>P\<close>, whatever was warned about before.\<close>

lemma pred_ret [simp]: "pred_state P (ret x) \<longleftrightarrow> P x"
proof -
  have "pred_state P (ret x)" if "P x" using that by (auto intro!: pred_stateI)
  moreover have "P x" if "pred_state P (ret x)" using pred_stateD [OF that, of undefined x undefined] by simp
  ultimately show ?thesis by blast
qed

lemma pred_bind:
  "pred_state Q m \<Longrightarrow> (\<And>x. Q x \<Longrightarrow> pred_state P (f x)) \<Longrightarrow> pred_state P (State_Monad.bind m f)"
  by (rule pred_stateI) (auto split: prod.splits)

lemma pred_any: "pred_state (\<lambda>_. True) m"
  by (auto intro: pred_stateI)

lemma pred_skip: "(\<And>x. pred_state P (f x)) \<Longrightarrow> pred_state P (State_Monad.bind m f)"
  by (rule pred_bind [OF pred_any])


lemma pred_warn: "pred_state P p \<Longrightarrow> pred_state P (State_Monad.bind (warn f s a) (\<lambda>_. p))"
  by (rule pred_skip)

section \<open>Fields\<close>

lemma intField_in: "lo \<le> def \<Longrightarrow> def \<le> hi \<Longrightarrow> pred_state (\<lambda>v. lo \<le> v \<and> v \<le> hi) (intField t pre m key def lo hi)"
  by (auto simp: intField_def not_less intro!: pred_warn split: option.split)

lemma durRaw_default: "pred_state (\<lambda>r. \<not> snd r \<longrightarrow> fst r = def) (durRaw t pre m key def)"
  by (auto simp: durRaw_def intro!: pred_warn split: option.split)

lemma durField_in:
  assumes "lo \<le> def" "def \<le> hi"
  shows "pred_state (\<lambda>v. lo \<le> v \<and> v \<le> hi) (durField t pre m key def lo hi)"
  unfolding durField_def
  by (rule pred_bind [OF durRaw_default]) (use assms in \<open>auto simp: not_less intro!: pred_warn split: if_splits\<close>)

lemma interval_in:
  assumes "MinInterval \<le> def" "def \<le> MaxInterval"
  shows "pred_state (\<lambda>v. MinInterval \<le> v \<and> v \<le> MaxInterval) (interval_field t m def)"
  unfolding interval_field_def
  by (rule pred_bind [OF durRaw_default])
     (use assms in \<open>auto simp: not_less config_limits duration_units intro!: pred_warn split: if_splits\<close>)

lemma profile_in: "def \<in> set Profiles \<Longrightarrow> pred_state (\<lambda>v. v \<in> set Profiles) (profile_field t m def)"
  unfolding profile_field_def by (rule pred_skip) (auto simp: Let_def split: prod.split intro!: pred_warn)

text \<open>The calls whose value is not constrained.\<close>

lemmas parse_skips =
  pred_skip [of _ _ "unknown pre m ks" for pre m ks] pred_skip [of _ _ "boolField t pre m key def" for t pre m key def]

lemmas parse_binds = pred_bind [OF intField_in] pred_bind [OF durField_in] pred_bind [OF interval_in] pred_bind [OF profile_in]

lemma parse_daemon_ok: "pred_state daemon_ok (parse_daemon t m)"
  unfolding parse_daemon_def Let_def DefaultDaemon_def Daemon.simps
  by (intro parse_skips parse_binds)
     (simp_all add: daemon_ok_def config_limits duration_units Profiles_def)

section \<open>Channels\<close>

text \<open>A canonical sensor id: it is the result of joining its own parts.\<close>

definition sensor_ok :: "string \<Rightarrow> bool" where
  "sensor_ok s \<longleftrightarrow> JoinSensors (Split s (CHR '','')) = Inr s"

lemma JoinSensors_canonical:
  assumes "JoinSensors parts = Inr s"
  shows "sensor_ok s \<and> Split s (CHR '','') = map TrimSpace parts"
proof -
  obtain ps where j: "parts \<noteq> []" "length parts \<le> MaxSensorParts" "join_parts 0 [] parts = Inr ps" "s = Join ps '',''"
    using assms by (auto simp: JoinSensors_def not_less split: if_splits sum.splits)
  from join_parts_ok [OF j(3)] have ps: "ps = map TrimSpace parts" "distinct ps" "\<forall>p \<in> set ps. p \<noteq> [] \<and> CHR '','' \<notin> set p"
    by blast+
  have sp: "Split s (CHR '','') = ps"
    using Split_Join [of ps "CHR '',''"] ps(1,3) j(1,4) by simp
  have tr: "map TrimSpace ps = ps" by (simp add: ps(1))
  then have "join_parts 0 [] ps = Inr ps"
    using join_parts_complete [of ps "[]" 0] ps(2,3) map_eq_conv [of TrimSpace ps id] by simp
  then have "JoinSensors ps = Inr s" using j(1,2,4) by (simp add: JoinSensors_def ps(1))
  then show ?thesis by (simp add: sensor_ok_def sp ps(1))
qed

lemma sensorField_ok: "pred_state (\<lambda>r. \<forall>s. r = Some s \<longrightarrow> sensor_ok s) (sensorField t pre m)"
  by (auto simp: sensorField_def JoinSensors_canonical intro!: pred_warn split: option.split sum.split)

lemma pwmField_ok: "pred_state (\<lambda>v. v \<noteq> 0 \<longrightarrow> 1 \<le> v \<and> v \<le> MaxPWM) (pwmField t pre m)"
  by (auto simp: pwmField_def not_less intro!: pred_warn split: option.split)

lemma ValidateCurve_ok: "ValidateCurve pts = Inr c \<Longrightarrow> curve_ok c"
  using validate_points_sound [of 0 None pts c]
  by (auto simp: ValidateCurve_def curve_ok_def split: if_splits)

lemma ValidateCurve_complete: "curve_ok c \<Longrightarrow> ValidateCurve (map (\<lambda>(t, d). [t, d]) c) = Inr c"
  by (simp add: ValidateCurve_def curve_ok_def validate_points_complete not_less)

lemma DefaultCurve_ok: "curve_ok DefaultCurve"
  by (simp add: DefaultCurve_def curve_ok_def curve_shape_def point_le_def config_limits)

lemma parse_curve_ok: "pred_state curve_ok (parse_curve t pre m)"
  by (auto simp: parse_curve_def DefaultCurve_ok ValidateCurve_ok intro!: pred_warn split: option.split sum.split)

lemma Itoa_140: "HDDStop = Itoa 140"
  by code_simp

lemma DefaultStop_ok: "stop_ok (DefaultStop s)"
  by (auto simp: DefaultStop_def stop_ok_def Itoa_140 config_limits)

lemma stop_fixed_ok: "n \<le> 255 \<Longrightarrow> pred_state stop_ok (stop_fixed pre n)"
proof -
  have "stop_ok (Itoa k)" if "MinFixedStop \<le> k" "k \<le> 255" for k using that by (auto simp: stop_ok_def)
  then show "n \<le> 255 \<Longrightarrow> pred_state stop_ok (stop_fixed pre n)"
    by (auto simp: stop_fixed_def not_less intro!: pred_warn) (simp add: config_limits)
qed

lemma parse_stop_ok: "pred_state stop_ok (parse_stop t pre m s)"
proof -
  have auto: "stop_ok ''auto''" by (simp add: stop_ok_def)
  show ?thesis
    by (auto simp: parse_stop_def Let_def DefaultStop_ok auto not_less intro!: pred_warn stop_fixed_ok split: option.split)
qed

lemma parse_ceiling_ok:
  "pred_state (\<lambda>v. v = 0 \<or> MinCeiling \<le> v \<and> v \<le> BuiltinCeiling s None) (parse_ceiling t pre m s)"
  by (auto simp: parse_ceiling_def Let_def not_less intro!: pred_warn split: option.split)

lemma curve_ok_last: "curve_ok c \<Longrightarrow> fst (last c) \<le> MaxCurveTemp"
proof -
  assume a: "curve_ok c"
  then have "c \<noteq> []" by (auto simp: curve_ok_def MinCurvePts_def)
  then have "last c \<in> set c" by simp
  with a show ?thesis unfolding curve_ok_def curve_shape_def by blast
qed

lemma critical_range:
  assumes "curve_ok c"
  shows "fst (last c) + 1 \<le> (if MaxCritical < fst (last c) + 10 then MaxCritical else fst (last c) + 10)"
    "(if MaxCritical < fst (last c) + 10 then MaxCritical else fst (last c) + 10) \<le> MaxCritical"
  using curve_ok_last [OF assms] by (simp_all add: config_limits)

lemma channel_values_ok:
  assumes "1 \<le> pwm" "pwm \<le> MaxPWM" "sensor_ok s"
  shows "pred_state (\<lambda>ch. channel_ok ch \<and> ch_Name ch = name \<and> ch_PWM ch = pwm \<and> ch_Sensor ch = s) (channel_values t pre m name pwm s)"
  unfolding channel_values_def Let_def
  by (rule pred_bind [OF parse_curve_ok], rule pred_bind [OF intField_in], erule critical_range, erule critical_range,
      rule pred_skip, rule pred_bind [OF parse_stop_ok], rule pred_bind [OF intField_in], simp, simp add: config_limits,
      rule pred_bind [OF durField_in], simp, simp add: config_limits duration_units, rule pred_bind [OF parse_ceiling_ok])
     (use assms in \<open>simp add: channel_ok_def\<close>)

text \<open>What the loop over the channel tables keeps: valid channels with distinct fresh names and pwm numbers.\<close>

definition channel_read :: "Channel \<Rightarrow> bool" where
  "channel_read ch \<longleftrightarrow> channel_ok ch \<and> nameRe (ch_Name ch) \<and> sensor_ok (ch_Sensor ch)"

lemma parse_channel_ok:
  "pred_state (\<lambda>r. \<forall>ch. r = Some ch \<longrightarrow> channel_read ch \<and> ch_Name ch \<notin> set names \<and> ch_PWM ch \<notin> set pwms)
     (parse_channel t i names pwms m)"
proof -
  have vals: "pred_state (\<lambda>r. \<forall>ch. r = Some ch \<longrightarrow> channel_read ch \<and> ch_Name ch \<notin> set names \<and> ch_PWM ch \<notin> set pwms)
     (State_Monad.bind (channel_values t pre m name pwm s) (\<lambda>ch. ret (Some ch)))"
    if "1 \<le> pwm" "pwm \<le> MaxPWM" "sensor_ok s" "nameRe name" "name \<notin> set names" "pwm \<notin> set pwms" for pre name pwm s
    by (rule pred_bind [OF channel_values_ok [OF that(1-3)]]) (use that in \<open>simp add: channel_read_def\<close>)
  have sens: "pred_state (\<lambda>r. \<forall>ch. r = Some ch \<longrightarrow> channel_read ch \<and> ch_Name ch \<notin> set names \<and> ch_PWM ch \<notin> set pwms)
     (State_Monad.bind (sensorField t pre m) (\<lambda>so. case so of None \<Rightarrow> ret None
        | Some s \<Rightarrow> State_Monad.bind (channel_values t pre m name pwm s) (\<lambda>ch. ret (Some ch))))"
    if "1 \<le> pwm" "pwm \<le> MaxPWM" "nameRe name" "name \<notin> set names" "pwm \<notin> set pwms" for pre name pwm
    by (rule pred_bind [OF sensorField_ok]) (use vals that in \<open>auto split: option.split\<close>)
  show ?thesis
    unfolding parse_channel_def Let_def
    by (rule pred_skip, clarsimp, intro conjI impI pred_skip [of _ _ "unknown _ _ _"])
       (auto intro!: pred_warn pred_bind [OF pwmField_ok] sens)
qed

lemma channels_loop_ok:
  "pred_state (\<lambda>chs. list_all channel_read chs \<and> distinct (map ch_Name chs) \<and> distinct (map ch_PWM chs) \<and>
      set (map ch_Name chs) \<inter> set names = {} \<and> set (map ch_PWM chs) \<inter> set pwms = {})
     (channels_loop t i names pwms ms)"
proof (induction t i names pwms ms rule: channels_loop.induct)
  case (1 t i names pwms)
  then show ?case by simp
next
  case (2 t i names pwms m ms)
  show ?case
    unfolding channels_loop.simps
  proof (rule pred_bind [OF parse_channel_ok])
    fix r assume r: "\<forall>ch. r = Some ch \<longrightarrow> channel_read ch \<and> ch_Name ch \<notin> set names \<and> ch_PWM ch \<notin> set pwms"
    show "pred_state (\<lambda>chs. list_all channel_read chs \<and> distinct (map ch_Name chs) \<and> distinct (map ch_PWM chs) \<and>
        set (map ch_Name chs) \<inter> set names = {} \<and> set (map ch_PWM chs) \<inter> set pwms = {})
      (case r of None \<Rightarrow> channels_loop t (Suc i) names pwms ms
       | Some ch \<Rightarrow> State_Monad.bind (channels_loop t (Suc i) (ch_Name ch # names) (ch_PWM ch # pwms) ms) (\<lambda>rest. ret (ch # rest)))"
    proof (cases r)
      case None
      then show ?thesis using 2(1) by simp
    next
      case (Some ch)
      then show ?thesis using r by (simp, intro pred_bind [OF 2(2)]) auto
    qed
  qed
qed

lemma parse_channels_ok: "pred_state (\<lambda>chs. channels_ok chs \<and> list_all channel_read chs) (parse_channels t ms)"
proof -
  note ok = channels_loop_ok [of "[]" "[]" t 0 ms]
  show ?thesis
    unfolding parse_channels_def
    by (rule pred_stateI, drule pred_stateD [OF ok]) (auto simp: channels_ok_def list_all_iff channel_read_def)
qed

section \<open>Schedules\<close>

definition clock_ok :: "string \<Rightarrow> bool" where
  "clock_ok s \<longleftrightarrow> clockTime s = Some s"

definition schedule_ok :: "Schedule \<Rightarrow> bool" where
  "schedule_ok s \<longleftrightarrow> presetRe (s_Preset s) \<and> set (s_Days s) \<subseteq> set DayNames \<and> distinct (s_Days s) \<and>
     (if Fallback s then s_Days s = [] else clock_ok (s_From s) \<and> clock_ok (s_To s) \<and> s_From s \<noteq> s_To s)"

definition schedules_ok :: "Schedule list \<Rightarrow> bool" where
  "schedules_ok ss \<longleftrightarrow> length ss \<le> MaxSchedules \<and> list_all schedule_ok ss \<and> length (filter Fallback ss) \<le> 1"

lemma clockTime_ok: "clockTime s = Some c \<Longrightarrow> clock_ok c \<and> c \<noteq> []"
  by (auto simp: clock_ok_def clockTime_def format_1504_def two_digits_def parse_format_1504 [unfolded format_1504_def two_digits_def, simplified]
      dest!: parse_1504_range)

lemma days_loop_ok:
  "pred_state (\<lambda>r. \<forall>ds. r = Some ds \<longrightarrow> set ds \<subseteq> set DayNames \<and> distinct ds \<and> set ds \<inter> set seen = {}) (days_loop pre seen days)"
proof (induction pre seen days rule: days_loop.induct)
  case (1 pre seen)
  then show ?case by simp
next
  case (2 pre seen raw ds)
  let ?d = "enumValue raw"
  have rec: "pred_state (\<lambda>r. \<forall>ds. r = Some ds \<longrightarrow> set ds \<subseteq> set DayNames \<and> distinct ds \<and> set ds \<inter> set seen = {})
      (State_Monad.bind (days_loop pre (?d # seen) ds) (\<lambda>r. ret (map_option (\<lambda>rest. ?d # rest) r)))"
    if "?d \<in> set DayNames" "?d \<notin> set seen"
    by (rule pred_bind [OF 2(2) [OF refl]]) (use that in auto)
  show ?case using 2(1) [OF refl] rec by (auto simp: Let_def intro!: pred_warn)
qed

lemma days_field_ok: "pred_state (\<lambda>r. \<forall>ds. r = Some ds \<longrightarrow> set ds \<subseteq> set DayNames \<and> distinct ds) (days_field t pre m)"
proof -
  have "pred_state (\<lambda>r. \<forall>ds. r = Some ds \<longrightarrow> set ds \<subseteq> set DayNames \<and> distinct ds) (days_loop pre [] days)" for days
    by (rule pred_stateI, drule pred_stateD [OF days_loop_ok]) auto
  then show ?thesis by (auto simp: days_field_def intro!: pred_warn split: option.split)
qed

definition schedule_result :: "bool \<Rightarrow> Schedule option \<times> bool \<Rightarrow> bool" where
  "schedule_result fb r \<longleftrightarrow> (\<forall>s. fst r = Some s \<longrightarrow> schedule_ok s \<and> (Fallback s \<longrightarrow> \<not> fb \<and> snd r)) \<and> (fb \<longrightarrow> snd r)"

lemma schedule_result_dropped [simp]: "schedule_result fb (None, b) \<longleftrightarrow> (fb \<longrightarrow> b)"
  by (simp add: schedule_result_def)

lemma parse_schedule_ok: "pred_state (schedule_result fb) (parse_schedule t pre fb m)"
proof -
  have days: "pred_state (schedule_result fb)
      (State_Monad.bind (days_field t pre m)
        (\<lambda>dso. ret (map_option (\<lambda>ds. \<lparr>s_Preset = preset, s_From = f, s_To = tt, s_Days = ds\<rparr>) dso, fb)))"
    if "presetRe preset" "clockTime frm = Some f" "clockTime til = Some tt" "f \<noteq> tt" for preset frm til f tt fb
    by (rule pred_bind [OF days_field_ok])
       (use that clockTime_ok [OF that(2)] clockTime_ok [OF that(3)] in \<open>auto simp: schedule_ok_def Fallback_def schedule_result_def\<close>)
  have fall: "schedule_result False (Some \<lparr>s_Preset = preset, s_From = [], s_To = [], s_Days = []\<rparr>, True)" if "presetRe preset" for preset
    using that by (simp add: schedule_result_def schedule_ok_def Fallback_def)
  show ?thesis
    unfolding parse_schedule_def Let_def
    by (rule pred_skip, rule pred_skip, clarsimp split: option.split, intro conjI impI allI)
       (auto intro!: pred_warn days fall split: option.split)
qed

definition schedules_upto :: "nat \<Rightarrow> bool \<Rightarrow> Schedule list \<Rightarrow> bool" where
  "schedules_upto n fb ss \<longleftrightarrow> length ss \<le> n \<and> list_all schedule_ok ss \<and> length (filter Fallback ss) \<le> (if fb then 0 else 1)"

lemma schedules_upto_simps [simp]:
  "schedules_upto n fb []"
  "schedule_result fb (None, fb') \<Longrightarrow> schedules_upto n fb' ss \<Longrightarrow> schedules_upto n fb ss"
  "schedule_result fb (Some s, fb') \<Longrightarrow> n > 0 \<Longrightarrow> schedules_upto (n - 1) fb' ss \<Longrightarrow> schedules_upto n fb (s # ss)"
  by (auto simp: schedules_upto_def schedule_result_def split: if_splits)

lemma schedules_loop_ok:
  "n \<le> MaxSchedules \<Longrightarrow> pred_state (schedules_upto (MaxSchedules - n) fb) (schedules_loop t i n fb ms)"
proof (induction ms arbitrary: i n fb)
  case Nil
  then show ?case by simp
next
  case (Cons m ms)
  have rest: "pred_state (schedules_upto (MaxSchedules - n) fb)
      (case r of (r, fb') \<Rightarrow> (case r of None \<Rightarrow> schedules_loop t (Suc i) n fb' ms
        | Some s \<Rightarrow> State_Monad.bind (schedules_loop t (Suc i) (Suc n) fb' ms) (\<lambda>rest. ret (s # rest))))"
    if n: "n < MaxSchedules" and r: "schedule_result fb r" for r
  proof -
    obtain so fb' where rp: "r = (so, fb')" by (cases r)
    show ?thesis
    proof (cases so)
      case None
      have "pred_state (schedules_upto (MaxSchedules - n) fb) (schedules_loop t (Suc i) n fb' ms)"
        by (rule state.pred_mono_strong [OF Cons.IH [OF Cons.prems]]) (use r rp None in simp)
      then show ?thesis by (simp add: rp None)
    next
      case (Some s)
      have rec: "pred_state (schedules_upto (MaxSchedules - Suc n) fb') (schedules_loop t (Suc i) (Suc n) fb' ms)"
        using n by (intro Cons.IH) simp
      have "pred_state (schedules_upto (MaxSchedules - n) fb)
          (State_Monad.bind (schedules_loop t (Suc i) (Suc n) fb' ms) (\<lambda>rest. ret (s # rest)))"
        by (rule pred_bind [OF rec]) (use r rp Some n in simp)
      then show ?thesis by (simp add: rp Some)
    qed
  qed
  have stop: "pred_state (schedules_upto (MaxSchedules - n) fb) (State_Monad.bind (warn f g a) (\<lambda>_. ret []))" for f g a
    by (rule pred_warn) simp
  have go: "pred_state (schedules_upto (MaxSchedules - n) fb)
      (State_Monad.bind (parse_schedule t pre fb m) (\<lambda>(r, fb'). case r of None \<Rightarrow> schedules_loop t (Suc i) n fb' ms
         | Some s \<Rightarrow> State_Monad.bind (schedules_loop t (Suc i) (Suc n) fb' ms) (\<lambda>rest. ret (s # rest))))"
    if "\<not> MaxSchedules \<le> n" for pre
    by (rule pred_bind [OF parse_schedule_ok], rule rest) (use that in simp_all)
  show ?case
    unfolding schedules_loop.simps Let_def by (cases "MaxSchedules \<le> n") (simp_all only: if_True if_False not_False_eq_True stop go)
qed

lemma parse_schedules_ok: "pred_state schedules_ok (parse_schedules t ms)"
  using schedules_loop_ok [of 0 False t 0 ms] by (simp add: parse_schedules_def schedules_ok_def [abs_def] schedules_upto_def [abs_def])

section \<open>The other sections\<close>

lemma sensors_loop_ok:
  "n \<le> MaxDashboardSensors \<Longrightarrow> pred_state (\<lambda>ids. length ids \<le> MaxDashboardSensors - n \<and> distinct ids \<and> [] \<notin> set ids \<and> set ids \<inter> set seen = {})
     (sensors_loop n seen raws)"
proof (induction n seen raws rule: sensors_loop.induct)
  case (1 n seen)
  then show ?case by simp
next
  case (2 n seen raw ids)
  let ?s = "TrimSpace raw"
  have rec: "pred_state (\<lambda>ids. length ids \<le> MaxDashboardSensors - n \<and> distinct ids \<and> [] \<notin> set ids \<and> set ids \<inter> set seen = {})
      (State_Monad.bind (sensors_loop (Suc n) (?s # seen) ids) (\<lambda>rest. ret (?s # rest)))"
    if a: "?s \<noteq> []" "?s \<notin> set seen" "n < MaxDashboardSensors"
    by (rule pred_bind [OF 2(2) [OF refl]]) (use a in auto)
  show ?case using 2(1) [OF refl] 2(3) rec by (auto simp: Let_def not_le intro!: pred_warn)
qed

definition sensors_ok :: "string list \<Rightarrow> bool" where
  "sensors_ok ids \<longleftrightarrow> length ids \<le> MaxDashboardSensors \<and> distinct ids \<and> [] \<notin> set ids"

lemma parse_dashboard_ok: "pred_state sensors_ok (parse_dashboard t m)"
proof -
  have "pred_state sensors_ok (sensors_loop 0 [] ids)" for ids
    by (rule pred_stateI, drule pred_stateD [OF sensors_loop_ok, rotated]) (auto simp: sensors_ok_def)
  then show ?thesis
    unfolding parse_dashboard_def by (intro pred_skip) (auto simp: sensors_ok_def intro!: pred_warn split: option.split)
qed

definition log_ok :: "string \<Rightarrow> Log \<Rightarrow> bool" where
  "log_ok envval l \<longleftrightarrow> (l_File l = [] \<or> l_File l = DefaultLogFile \<or> ValidLogPath envval (l_File l) = None) \<and>
     MinLogSizeMB \<le> l_MaxSizeMB l \<and> l_MaxSizeMB l \<le> MaxLogSizeMB \<and> MinLogFiles \<le> l_MaxFiles l \<and> l_MaxFiles l \<le> MaxLogFiles"

lemma strField_default: "pred_state (\<lambda>r. \<not> snd r \<longrightarrow> fst r = def) (strField t pre m key def)"
  by (auto simp: strField_def intro!: pred_warn split: option.split)

lemma DefaultLogFile_trim [simp]: "TrimSpace DefaultLogFile = DefaultLogFile"
  by code_simp

lemma parse_log_ok: "pred_state (log_ok (pe_LogRoot pe)) (parse_log pe t m)"
  unfolding parse_log_def Let_def
proof (rule pred_skip, rule pred_bind [OF strField_default])
  fix r :: "string \<times> bool" assume r: "\<not> snd r \<longrightarrow> fst r = l_File DefaultLog"
  have f: "pred_state (\<lambda>f. f = [] \<or> f = DefaultLogFile \<or> ValidLogPath (pe_LogRoot pe) f = None)
      (case (if snd r \<and> TrimSpace (fst r) \<noteq> [] then ValidLogPath (pe_LogRoot pe) (TrimSpace (fst r)) else None) of
         Some e \<Rightarrow> State_Monad.bind (warn ''log.file'' ''%q %v, default %q used'' [AS (TrimSpace (fst r)), AM e, AS (l_File DefaultLog)])
                    (\<lambda>_. ret (l_File DefaultLog))
       | None \<Rightarrow> ret (TrimSpace (fst r)))"
    using r by (auto simp: DefaultLog_def intro!: pred_warn split: option.split)
  show "pred_state (log_ok (pe_LogRoot pe))
     (case r of (raw, present) \<Rightarrow>
       State_Monad.bind (case if present \<and> TrimSpace raw \<noteq> [] then ValidLogPath (pe_LogRoot pe) (TrimSpace raw) else None of
           None \<Rightarrow> ret (TrimSpace raw)
         | Some e \<Rightarrow> State_Monad.bind (warn ''log.file'' ''%q %v, default %q used'' [AS (TrimSpace raw), AM e, AS (l_File DefaultLog)])
                      (\<lambda>_. ret (l_File DefaultLog)))
        (\<lambda>file. State_Monad.bind (intField t ''log'' m ''max_size_mb'' (l_MaxSizeMB DefaultLog) MinLogSizeMB MaxLogSizeMB)
          (\<lambda>size. State_Monad.bind (intField t ''log'' m ''max_files'' (l_MaxFiles DefaultLog) MinLogFiles MaxLogFiles)
            (\<lambda>files. ret \<lparr>l_File = file, l_MaxSizeMB = size, l_MaxFiles = files\<rparr>))))"
    unfolding case_prod_beta
    by (rule pred_bind [OF f], rule pred_bind [OF intField_in], simp add: DefaultLog_def config_limits, simp add: DefaultLog_def config_limits,
        rule pred_bind [OF intField_in], simp add: DefaultLog_def config_limits, simp add: DefaultLog_def config_limits)
       (simp add: log_ok_def)
qed

definition alert_ok :: "(string \<Rightarrow> url option) \<Rightarrow> Alert \<Rightarrow> bool" where
  "alert_ok urlp a \<longleftrightarrow> a_Transport a \<in> set AlertTransports \<and> ValidMailTo (a_MailTo a) \<and>
     (a_WebhookURL a = [] \<or> ValidWebhookURL urlp (a_WebhookURL a) = None) \<and> a_WebhookFormat a \<in> set WebhookFormats \<and>
     (a_Transport a = ''webhook'' \<longrightarrow> a_WebhookURL a \<noteq> [])"

lemma alert_words [simp]:
  "ValidMailTo DefaultMailTo" "TrimSpace DefaultMailTo = DefaultMailTo" "TrimSpace [] = []"
  "enumValue DefaultWebhookFormat = DefaultWebhookFormat" "DefaultWebhookFormat \<noteq> []" "DefaultWebhookFormat \<in> set WebhookFormats"
  "''auto'' \<in> set AlertTransports" "''auto'' \<noteq> ''webhook''"
  by code_simp+

lemma webhook_url_ok: "pred_state (\<lambda>u. u = [] \<or> ValidWebhookURL (pe_url pe) u = None) (webhook_url_field pe t m)"
  unfolding webhook_url_field_def Let_def
  by (rule pred_bind [OF strField_default]) (auto intro!: pred_warn split: option.split prod.split)

lemma webhook_format_ok: "pred_state (\<lambda>f. f \<in> set WebhookFormats) (webhook_format_field t m DefaultWebhookFormat)"
  unfolding webhook_format_field_def Let_def
  by (rule pred_bind [OF strField_default]) (auto intro!: pred_warn split: prod.split if_splits)

lemma pred_if: "(b \<Longrightarrow> pred_state P p) \<Longrightarrow> (\<not> b \<Longrightarrow> pred_state P q) \<Longrightarrow> pred_state P (if b then p else q)"
  by simp

text \<open>A value that is replaced, with a warning, when a condition fails.\<close>

lemma pred_replace: "P d \<Longrightarrow> (\<not> b \<Longrightarrow> P x) \<Longrightarrow> pred_state P (if b then State_Monad.bind (warn f g a) (\<lambda>_. ret d) else ret x)"
  by (auto intro!: pred_warn)

lemma parse_alert_ok: "pred_state (alert_ok (pe_url pe)) (parse_alert pe t m)"
proof -
  have fin: "pred_state (alert_ok (pe_url pe))
      (State_Monad.bind (if tr1 = ''webhook'' \<and> wu = [] then State_Monad.bind (warn f g a) (\<lambda>_. ret ''auto'') else ret tr1)
        (\<lambda>tr. ret \<lparr>a_Transport = tr, a_MailTo = to1, a_WebhookURL = wu, a_WebhookFormat = wf\<rparr>))"
    if "tr1 \<in> set AlertTransports" "ValidMailTo to1" "wu = [] \<or> ValidWebhookURL (pe_url pe) wu = None" "wf \<in> set WebhookFormats"
    for tr1 to1 wu wf f g a
    by (rule pred_bind [OF pred_replace [of "\<lambda>tr. tr \<in> set AlertTransports \<and> (tr = ''webhook'' \<longrightarrow> wu \<noteq> [])"]])
       (use that in \<open>auto simp: alert_ok_def\<close>)
  have to_ok: "pred_state (\<lambda>x. ValidMailTo x)
      (if present \<and> \<not> ValidMailTo (TrimSpace raw) then State_Monad.bind (warn f g a) (\<lambda>_. ret DefaultMailTo) else ret (TrimSpace raw))"
    if "\<not> present \<longrightarrow> raw = DefaultMailTo" for present raw f g a
    by (rule pred_replace) (use that in auto)
  show ?thesis
    unfolding parse_alert_def Let_def DefaultAlert_def Alert.simps case_prod_beta
    by (rule pred_skip, rule pred_skip, rule pred_bind [OF pred_replace [of "\<lambda>tr. tr \<in> set AlertTransports"]], simp, simp,
        rule pred_bind [OF strField_default], rule pred_bind [OF to_ok], simp,
        rule pred_bind [OF webhook_url_ok], rule pred_bind [OF webhook_format_ok], rule fin) simp_all
qed

section \<open>The web section\<close>

definition listen_ok :: "string \<Rightarrow> bool" where
  "listen_ok s \<longleftrightarrow> (case SplitHostPort s of None \<Rightarrow> False
     | Some (_, port) \<Rightarrow> (case Atoi port of None \<Rightarrow> False | Some n \<Rightarrow> 1 \<le> n \<and> n \<le> 65535))"

definition auth_ok :: "Web \<Rightarrow> bool" where
  "auth_ok w \<longleftrightarrow> w_Auth w = ''none'' \<or>
     w_Auth w = ''basic'' \<and> UserRe (w_User w) \<and> (\<exists>h. ParsePasswordHash (w_PasswordHash w) = Inr h)"

definition tls_ok :: "Web \<Rightarrow> bool" where
  "tls_ok w \<longleftrightarrow> w_TLS w \<in> set TLSModes \<and> (w_TLS w = ''file'' \<longrightarrow> w_CertFile w \<noteq> [] \<and> w_KeyFile w \<noteq> []) \<and>
     (\<not> IsLoopbackListen (w_Listen w) \<longrightarrow> w_TLS w \<noteq> ''off'')"

definition web_ok :: "Web \<Rightarrow> bool" where
  "web_ok w \<longleftrightarrow> listen_ok (w_Listen w) \<and> auth_ok w \<and> tls_ok w"

lemma default_listen [simp]:
  "listen_ok (w_Listen DefaultWeb)" "IsLoopbackListen (w_Listen DefaultWeb)"
  by code_simp+

lemma tls_words [simp]: "enumValue ''off'' = ''off''" "enumValue ''auto'' = ''auto''" "enumValue ''none'' = ''none''"
  by code_simp+

lemma listen_field_ok: "pred_state listen_ok (listen_field t m (w_Listen DefaultWeb))"
proof -
  have 1: "pred_state listen_ok (case SplitHostPort l of
       None \<Rightarrow> State_Monad.bind (warn f g a) (\<lambda>_. ret (w_Listen DefaultWeb))
     | Some (_, port) \<Rightarrow> (case Atoi port of
         Some n \<Rightarrow> if n < 1 \<or> n > 65535 then State_Monad.bind (warn f' g' a') (\<lambda>_. ret (w_Listen DefaultWeb)) else ret l
       | None \<Rightarrow> State_Monad.bind (warn f' g' a') (\<lambda>_. ret (w_Listen DefaultWeb))))" for l f g a f' g' a'
    by (auto simp: listen_ok_def [of l] intro!: pred_warn split: option.split prod.split)
  show ?thesis
    unfolding listen_field_def Let_def by (rule pred_skip, split prod.split, intro allI impI, rule 1)
qed

lemma DefaultTLS_in: "DefaultTLS l = ''off'' \<and> IsLoopbackListen l \<or> DefaultTLS l = ''auto'' \<and> \<not> IsLoopbackListen l"
  by (simp add: DefaultTLS_def)

lemma parse_tls_ok:
  "pred_state (\<lambda>w'. tls_ok w' \<and> w_Listen w' = w_Listen w \<and> w_Auth w' = w_Auth w \<and> w_User w' = w_User w \<and>
     w_PasswordHash w' = w_PasswordHash w) (parse_tls t m w)"
proof -
  let ?d = "DefaultTLS (w_Listen w)"
  have d: "?d \<in> set TLSModes" "?d \<noteq> ''file''" "enumValue ?d = ?d"
    using DefaultTLS_in [of "w_Listen w"] by (auto simp: TLSModes_def)
  have fin: "pred_state (\<lambda>w'. tls_ok w' \<and> w_Listen w' = w_Listen w \<and> w_Auth w' = w_Auth w \<and> w_User w' = w_User w \<and> w_PasswordHash w' = w_PasswordHash w)
      (State_Monad.bind (if mode2 = ''off'' \<and> \<not> IsLoopbackListen (w_Listen w) then State_Monad.bind (warn f g a) (\<lambda>_. ret ''auto'') else ret mode2)
        (\<lambda>mode3. ret (w\<lparr>w_CertFile := cert, w_KeyFile := key, w_TLS := mode3\<rparr>)))"
    if "mode2 \<in> set TLSModes" "mode2 = ''file'' \<longrightarrow> cert \<noteq> [] \<and> key \<noteq> []" for mode2 cert key f g a
    by (rule pred_bind [OF pred_replace [of "\<lambda>md. md \<in> set TLSModes \<and> (md = ''file'' \<longrightarrow> cert \<noteq> [] \<and> key \<noteq> []) \<and>
            (\<not> IsLoopbackListen (w_Listen w) \<longrightarrow> md \<noteq> ''off'')"]])
       (use that in \<open>auto simp: tls_ok_def TLSModes_def\<close>)
  have file_ok: "pred_state (\<lambda>md. md \<in> set TLSModes \<and> (md = ''file'' \<longrightarrow> cert \<noteq> [] \<and> key \<noteq> []))
      (if mode1 = ''file'' \<and> (cert = [] \<or> key = []) then State_Monad.bind (warn f g a) (\<lambda>_. ret ?d) else ret mode1)"
    if "mode1 \<in> set TLSModes" for mode1 cert key f g a
    by (rule pred_replace) (use that d in auto)
  show ?thesis
    unfolding parse_tls_def Let_def case_prod_beta
    by (rule pred_bind [OF strField_default], rule pred_skip, rule pred_skip,
        rule pred_bind [OF pred_replace [of "\<lambda>md. md \<in> set TLSModes"]], rule d, use d in force,
        rule pred_bind [OF file_ok], assumption, rule fin) simp_all
qed

text \<open>The value of the auth key asks for no authentication: it is absent, not a string, or none.\<close>

definition asks_none :: "'p toml \<Rightarrow> 'p sec \<Rightarrow> bool" where
  "asks_none t m \<longleftrightarrow> (case map_of m ''auth'' of None \<Rightarrow> True
     | Some p \<Rightarrow> (case dec_string t p of None \<Rightarrow> True | Some s \<Rightarrow> enumValue s = ''none''))"

lemma auth_field_ok:
  "pred_state (\<lambda>r. (fst r = ''none'' \<or> fst r = ''basic'') \<and> (fst r = ''none'' \<and> \<not> snd r \<longrightarrow> asks_none t m)) (auth_field t m ''none'')"
proof -
  have "pred_state (\<lambda>r. enumValue (fst r) = ''none'' \<longrightarrow> asks_none t m) (strField t ''web'' m ''auth'' ''none'')"
    by (auto simp: strField_def asks_none_def intro!: pred_warn split: option.split)
  then show ?thesis
    unfolding auth_field_def Let_def case_prod_beta by (rule pred_bind) (auto intro!: pred_warn)
qed

lemma check_basic_ok:
  assumes "fst ab = ''none'' \<or> fst ab = ''basic''" "fst ab = ''none'' \<and> \<not> snd ab \<longrightarrow> asked"
  shows "pred_state (\<lambda>r. (fst r = ''none'' \<and> \<not> snd r \<longrightarrow> asked) \<and>
      (fst r = ''none'' \<or> fst r = ''basic'' \<and> UserRe user \<and> (\<exists>h. ParsePasswordHash hash = Inr h))) (check_basic user hash ab)"
  using assms by (auto simp: check_basic_def intro!: pred_warn split: sum.split)

lemma parse_web_ok:
  "pred_state (\<lambda>w. web_ok w \<and> (w_Auth w = ''none'' \<and> \<not> IsLoopbackListen (w_Listen w) \<longrightarrow> asks_none t m)) (parse_web t m)"
proof -
  have fin: "pred_state (\<lambda>w. web_ok w \<and> (w_Auth w = ''none'' \<and> \<not> IsLoopbackListen (w_Listen w) \<longrightarrow> asks_none t m))
      (State_Monad.bind (parse_tls t m (DefaultWeb\<lparr>w_User := user, w_PasswordHash := hash, w_Listen := l, w_Auth := a, w_AllowedHosts := hs\<rparr>))
        (\<lambda>w. State_Monad.bind (boolField t pre m key def) (\<lambda>proxy. ret (w\<lparr>w_BehindTLSProxy := proxy\<rparr>))))"
    if "listen_ok l" "a = ''none'' \<and> \<not> IsLoopbackListen l \<longrightarrow> asks_none t m"
      "a = ''none'' \<or> a = ''basic'' \<and> UserRe user \<and> (\<exists>h. ParsePasswordHash hash = Inr h)" for user hash l a hs pre key def
    by (rule pred_bind [OF parse_tls_ok], rule pred_skip) (use that in \<open>simp add: web_ok_def auth_ok_def tls_ok_def\<close>)
  have l_ok: "pred_state (\<lambda>l. listen_ok l \<and> (b \<longrightarrow> IsLoopbackListen l))
      (if b \<and> \<not> IsLoopbackListen l0 then State_Monad.bind (warn f g x) (\<lambda>_. ret (w_Listen DefaultWeb)) else ret l0)"
    if "listen_ok l0" for b l0 f g x
    by (rule pred_replace) (use that in auto)
  have none: "w_Auth DefaultWeb = ''none''" by (simp add: DefaultWeb_def)
  show ?thesis
    unfolding parse_web_def Let_def case_prod_beta none
    by (rule pred_skip, rule pred_bind [OF listen_field_ok], rule pred_bind [OF auth_field_ok], rule pred_skip, rule pred_skip,
        rule pred_bind [OF check_basic_ok], erule conjunct1, erule conjunct2, rule pred_bind [OF l_ok], assumption,
        rule pred_skip, rule fin) auto
qed

section \<open>The whole file\<close>

definition valid_config :: "parse_env \<Rightarrow> Config \<Rightarrow> bool" where
  "valid_config pe cf \<longleftrightarrow> daemon_ok (c_Daemon cf) \<and> channels_ok (c_Channels cf) \<and> list_all channel_read (c_Channels cf) \<and>
     schedules_ok (c_Schedules cf) \<and> web_ok (c_Web cf) \<and> log_ok (pe_LogRoot pe) (c_Log cf) \<and>
     alert_ok (pe_url pe) (c_Alert cf) \<and> sensors_ok (c_Sensors cf)"

lemma defaults_ok:
  "daemon_ok DefaultDaemon" "web_ok DefaultWeb" "log_ok r DefaultLog" "alert_ok u DefaultAlert" "sensors_ok []" "schedules_ok []"
proof -
  have l: "listen_ok ''127.0.0.1:8010''" "IsLoopbackListen ''127.0.0.1:8010''" by code_simp+
  show "daemon_ok DefaultDaemon" by (simp add: daemon_ok_def DefaultDaemon_def config_limits duration_units Profiles_def)
  show "web_ok DefaultWeb" by (simp add: web_ok_def DefaultWeb_def auth_ok_def tls_ok_def TLSModes_def l)
  show "log_ok r DefaultLog" by (simp add: log_ok_def DefaultLog_def config_limits)
  show "alert_ok u DefaultAlert" by (simp add: alert_ok_def DefaultAlert_def)
  show "sensors_ok []" "schedules_ok []" by (simp_all add: sensors_ok_def schedules_ok_def)
qed

lemma on_table_ok: "P def \<Longrightarrow> (\<And>m. pred_state P (f m)) \<Longrightarrow> pred_state P (on_table t tbl name f def)"
  unfolding on_table_def by (rule pred_skip) (auto split: option.split)

lemma on_tables_ok: "P [] \<Longrightarrow> (\<And>ms. pred_state P (f ms)) \<Longrightarrow> pred_state P (on_tables t tbl name c f)"
  unfolding on_tables_def by (auto intro!: pred_warn split: option.split)

lemma parse_top_ok: "pred_state (valid_config pe) (parse_top pe t tbl)"
proof -
  have web: "pred_state web_ok (on_table t tbl name (parse_web t) DefaultWeb)" for name
    by (rule on_table_ok [where P = web_ok, OF defaults_ok(2)]) (rule state.pred_mono_strong [OF parse_web_ok], simp)
  have chs: "pred_state (\<lambda>chs. channels_ok chs \<and> list_all channel_read chs) (on_tables t tbl name c (parse_channels t))" for name c
    by (rule on_tables_ok [where P = "\<lambda>chs. channels_ok chs \<and> list_all channel_read chs", OF _ parse_channels_ok]) (simp add: channels_ok_def)
  show ?thesis
    unfolding parse_top_def
    by (rule pred_skip, rule pred_bind [OF on_table_ok [where P = daemon_ok, OF defaults_ok(1) parse_daemon_ok]], rule pred_bind [OF web],
        rule pred_bind [OF on_table_ok [where P = "log_ok (pe_LogRoot pe)", OF defaults_ok(3) parse_log_ok]], rule pred_bind [OF on_table_ok [where P = "alert_ok (pe_url pe)", OF defaults_ok(4) parse_alert_ok]],
        rule pred_bind [OF on_table_ok [where P = sensors_ok, OF defaults_ok(5) parse_dashboard_ok]], rule pred_bind [OF chs],
        rule pred_bind [OF on_tables_ok [where P = schedules_ok, OF defaults_ok(6) parse_schedules_ok]])
       (simp add: valid_config_def)
qed

lemma Parse_config_ok: "valid_config pe (fst (Parse_config pe dec raw))"
proof (cases "dec raw")
  case (Inl e)
  then show ?thesis
    by (simp add: Parse_config_def Let_def valid_config_def Default_def defaults_ok channels_ok_def)
next
  case (Inr x)
  obtain t tbl where x: "x = (t, tbl)" by (cases x)
  obtain cf ws where r: "run_state (parse_top pe t tbl) [] = (cf, ws)" by fastforce
  have "valid_config pe cf" using pred_stateD [OF parse_top_ok r] .
  then show ?thesis using Inr x r by (simp add: Parse_config_def)
qed

text \<open>
  C23: whatever a configuration file holds and whatever the TOML library makes of it, the result of
  \<^verbatim>\<open>Parse\<close> is a valid configuration: every daemon value in its range, every channel with a
  proper curve, critical temperature, stop value and ceiling, names and pwm numbers distinct,
  schedules canonical with at most one fallback, the log file under the log root, the web and
  alert sections consistent. An error is returned only for a syntax error, with the defaults.
\<close>

theorem Parse_config_valid:
  "valid_config pe (fst (Parse_config pe dec raw)) \<and>
   (snd (snd (Parse_config pe dec raw)) \<noteq> None \<longleftrightarrow> (\<exists>e. dec raw = Inl e)) \<and>
   (snd (snd (Parse_config pe dec raw)) \<noteq> None \<longrightarrow> fst (Parse_config pe dec raw) = Default)"
  using Parse_config_ok [of pe dec raw]
  by (auto simp: Parse_config_def Let_def split: sum.splits prod.splits)

section \<open>Reading back a valid channel list\<close>

definition key_is :: "'p sec \<Rightarrow> string \<Rightarrow> ('p \<Rightarrow> bool) \<Rightarrow> bool" where
  "key_is m k P \<longleftrightarrow> (case map_of m k of None \<Rightarrow> False | Some p \<Rightarrow> P p)"

text \<open>
  A table that holds a channel the way \<^verbatim>\<open>Marshal\<close> writes it: a fixed stop duty as an integer
  (\<^verbatim>\<open>numericStop\<close>), zero values of hysteresis, min\_on and ceiling left out.
\<close>

definition holds_channel :: "'p toml \<Rightarrow> 'p sec \<Rightarrow> Channel \<Rightarrow> bool" where
  "holds_channel t m ch \<longleftrightarrow>
     fst ` set m \<subseteq> set [''name'', ''pwm'', ''sensor'', ''curve'', ''critical'', ''stop'', ''hysteresis'', ''min_on'', ''ceiling''] \<and>
     key_is m ''name'' (\<lambda>p. dec_string t p = Some (ch_Name ch)) \<and> key_is m ''pwm'' (\<lambda>p. dec_int t p = Some (ch_PWM ch)) \<and>
     key_is m ''sensor'' (\<lambda>p. dec_string t p = Some (ch_Sensor ch)) \<and>
     key_is m ''curve'' (\<lambda>p. dec_points t p = Some (map (\<lambda>(a, b). [a, b]) (ch_Curve ch))) \<and>
     key_is m ''critical'' (\<lambda>p. dec_int t p = Some (ch_Critical ch)) \<and>
     key_is m ''stop'' (\<lambda>p. if ch_Stop ch = ''auto'' then dec_string t p = Some ''auto''
        else dec_string t p = None \<and> dec_int t p = Atoi (ch_Stop ch)) \<and>
     (if ch_Hysteresis ch = 0 then map_of m ''hysteresis'' = None else key_is m ''hysteresis'' (\<lambda>p. dec_int t p = Some (ch_Hysteresis ch))) \<and>
     (if ch_MinOn ch = 0 then map_of m ''min_on'' = None
      else key_is m ''min_on'' (\<lambda>p. \<exists>s. dec_string t p = Some s \<and> ParseDuration s = Some (ch_MinOn ch))) \<and>
     (if ch_Ceiling ch = 0 then map_of m ''ceiling'' = None else key_is m ''ceiling'' (\<lambda>p. dec_int t p = Some (ch_Ceiling ch)))"

definition read_back :: "Channel \<Rightarrow> Channel" where
  "read_back ch = ch\<lparr>ch_PostSet := (ch_Hysteresis ch \<noteq> 0 \<or> ch_MinOn ch \<noteq> 0)\<rparr>"

lemma key_isE: "key_is m k P \<Longrightarrow> (\<And>p. map_of m k = Some p \<Longrightarrow> P p \<Longrightarrow> thesis) \<Longrightarrow> thesis"
  by (auto simp: key_is_def split: option.splits)

lemma unknown_keeps: "fst ` set m \<subseteq> set known \<Longrightarrow> unknown pre m known = ret ()"
proof -
  have "unknown_loop pre known ks = ret ()" if "set ks \<subseteq> set known" for ks using that by (induction ks) auto
  then show "fst ` set m \<subseteq> set known \<Longrightarrow> unknown pre m known = ret ()" by (simp add: unknown_def sortedKeys_def)
qed

lemma intField_keeps:
  assumes "key_is m key (\<lambda>p. dec_int t p = Some v) \<or> v = def \<and> map_of m key = None" "lo \<le> v" "v \<le> hi"
  shows "intField t pre m key def lo hi = ret v"
  using assms by (auto simp: intField_def key_is_def split: option.splits if_splits)

lemma durField_keeps:
  assumes "if v = def then map_of m key = None else key_is m key (\<lambda>p. \<exists>s. dec_string t p = Some s \<and> ParseDuration s = Some v)" "lo \<le> v" "v \<le> hi"
  shows "durField t pre m key def lo hi = ret v"
  using assms by (auto simp: durField_def durRaw_def key_is_def split: option.splits if_splits)

lemma parse_stop_keeps:
  assumes "stop_ok (ch_Stop ch)"
    and "key_is m ''stop'' (\<lambda>p. if ch_Stop ch = ''auto'' then dec_string t p = Some ''auto''
        else dec_string t p = None \<and> dec_int t p = Atoi (ch_Stop ch))"
  shows "parse_stop t pre m s = ret (ch_Stop ch)"
proof (cases "ch_Stop ch = ''auto''")
  case True
  then show ?thesis using assms(2) by (auto simp: parse_stop_def key_is_def Let_def split: option.splits)
next
  case False
  then obtain n where n: "ch_Stop ch = Itoa n" "MinFixedStop \<le> n" "n \<le> 255" using assms(1) by (auto simp: stop_ok_def)
  then have "Atoi (ch_Stop ch) = Some n" by (simp add: Atoi_Itoa in_int64_def config_limits)
  then show ?thesis
    using assms(2) False n by (auto simp: parse_stop_def key_is_def Let_def stop_fixed_def config_limits split: option.splits)
qed

lemma parse_ceiling_keeps:
  assumes "ch_Ceiling ch = 0 \<or> MinCeiling \<le> ch_Ceiling ch \<and> ch_Ceiling ch \<le> BuiltinCeiling s None"
    and "if ch_Ceiling ch = 0 then map_of m ''ceiling'' = None else key_is m ''ceiling'' (\<lambda>p. dec_int t p = Some (ch_Ceiling ch))"
  shows "parse_ceiling t pre m s = ret (ch_Ceiling ch)"
  using assms by (auto simp: parse_ceiling_def key_is_def Let_def split: option.splits if_splits)

lemma channel_values_keeps:
  assumes h: "holds_channel t m ch" and ok: "channel_ok ch"
  shows "channel_values t pre m (ch_Name ch) (ch_PWM ch) (ch_Sensor ch) = ret (read_back ch)"
proof -
  have cv: "parse_curve t pre m = ret (ch_Curve ch)"
    using h ok by (auto simp: holds_channel_def channel_ok_def parse_curve_def ValidateCurve_complete elim!: key_isE)
  have crit: "intField t pre m ''critical'' def (fst (last (ch_Curve ch)) + 1) MaxCritical = ret (ch_Critical ch)" for def
    using h ok by (intro intField_keeps) (simp_all add: holds_channel_def channel_ok_def)
  have c0: "map_of m ''critical'' \<noteq> None" using h by (auto simp: holds_channel_def elim!: key_isE)
  have stp: "parse_stop t pre m (ch_Sensor ch) = ret (ch_Stop ch)"
    using h ok by (intro parse_stop_keeps) (simp_all add: holds_channel_def channel_ok_def)
  have hy: "intField t pre m ''hysteresis'' 0 0 HysteresisMax = ret (ch_Hysteresis ch)"
    using h ok by (intro intField_keeps) (auto simp: holds_channel_def channel_ok_def split: if_splits)
  have mo: "durField t pre m ''min_on'' 0 0 MinOnMax = ret (ch_MinOn ch)"
    using h ok by (intro durField_keeps) (auto simp: holds_channel_def channel_ok_def split: if_splits)
  have ce: "parse_ceiling t pre m (ch_Sensor ch) = ret (ch_Ceiling ch)"
    using h ok by (intro parse_ceiling_keeps) (auto simp: holds_channel_def channel_ok_def split: if_splits)
  have ps: "(map_of m ''hysteresis'' \<noteq> None \<or> map_of m ''min_on'' \<noteq> None) = (ch_Hysteresis ch \<noteq> 0 \<or> ch_MinOn ch \<noteq> 0)"
    using h by (auto simp: holds_channel_def key_is_def split: if_splits option.splits)
  show ?thesis
    unfolding channel_values_def Let_def ps cv bind_left_identity crit stp hy mo ce
    by (cases ch) (simp add: c0 read_back_def)
qed

lemma parse_channel_keeps:
  assumes h: "holds_channel t m ch" and ok: "channel_read ch" and new: "ch_Name ch \<notin> set names" "ch_PWM ch \<notin> set pwms"
  shows "parse_channel t i names pwms m = ret (Some (read_back ch))"
proof -
  have nm: "strField t pre m ''name'' [] = ret (ch_Name ch, True)" for pre
    using h by (auto simp: holds_channel_def strField_def elim!: key_isE)
  have pw: "pwmField t pre m = ret (ch_PWM ch)" "ch_PWM ch \<noteq> 0" for pre
    using h ok by (auto simp: holds_channel_def channel_read_def channel_ok_def pwmField_def elim!: key_isE)
  have se: "sensorField t pre m = ret (Some (ch_Sensor ch))" for pre
    using h ok by (auto simp: holds_channel_def channel_read_def sensor_ok_def sensorField_def elim!: key_isE)
  have un: "unknown pre m [''name'', ''pwm'', ''sensor'', ''curve'', ''critical'', ''stop'', ''hysteresis'', ''min_on'', ''ceiling''] = ret ()" for pre
    using h unfolding holds_channel_def by (intro unknown_keeps) blast
  show ?thesis
    using ok new channel_values_keeps [OF h]
    unfolding parse_channel_def Let_def nm bind_left_identity un pw se case_prod_conv
    by (simp add: channel_read_def pw(2))
qed

lemma channels_loop_keeps:
  assumes "list_all2 (holds_channel t) ms chs" "list_all channel_read chs" "distinct (map ch_Name chs)" "distinct (map ch_PWM chs)"
    "set (map ch_Name chs) \<inter> set names = {}" "set (map ch_PWM chs) \<inter> set pwms = {}"
  shows "channels_loop t i names pwms ms = ret (map read_back chs)"
  using assms
proof (induction ms chs arbitrary: i names pwms rule: list_all2_induct)
  case Nil
  then show ?case by simp
next
  case (Cons m ms ch chs)
  have c: "parse_channel t i names pwms m = ret (Some (read_back ch))"
    using Cons.prems Cons.hyps(1) by (intro parse_channel_keeps) auto
  have "channels_loop t (Suc i) (ch_Name ch # names) (ch_PWM ch # pwms) ms = ret (map read_back chs)"
    using Cons.prems by (intro Cons.IH) auto
  moreover have "ch_Name (read_back ch) = ch_Name ch" "ch_PWM (read_back ch) = ch_PWM ch" by (simp_all add: read_back_def)
  ultimately show ?case by (simp add: c)
qed


section \<open>Examples\<close>

text \<open>A decoder over plain values, for concrete tables.\<close>

datatype tval = VS string | VI int | VB bool | VL "string list" | VP "int list list"

definition plain_toml :: "tval toml" where
  "plain_toml = \<lparr>md_Type = (\<lambda>_. []),
     dec_string = (\<lambda>v. case v of VS s \<Rightarrow> Some s | _ \<Rightarrow> None), dec_int = (\<lambda>v. case v of VI n \<Rightarrow> Some n | _ \<Rightarrow> None),
     dec_bool = (\<lambda>v. case v of VB b \<Rightarrow> Some b | _ \<Rightarrow> None), dec_strings = (\<lambda>v. case v of VL l \<Rightarrow> Some l | _ \<Rightarrow> None),
     dec_points = (\<lambda>v. case v of VP p \<Rightarrow> Some p | _ \<Rightarrow> None), dec_table = (\<lambda>_. None), dec_tables = (\<lambda>_. None)\<rparr>"

theorem Parse_config_valid_witness:
  "\<exists>pe. valid_config pe (fst (Parse_config pe (\<lambda>_. Inr (plain_toml, [(''daemon'', VI 3)])) ''daemon = 3''))"
  using Parse_config_valid [of "\<lparr>pe_LogRoot = [], pe_url = \<lambda>_. None\<rparr>" "\<lambda>_. Inr (plain_toml, [(''daemon'', VI 3)])" "''daemon = 3''"] by blast

definition n5pro_tables :: "tval sec list" where
  "n5pro_tables =
    [[(''name'', VS ''cpu''), (''pwm'', VI 1), (''sensor'', VS ''k10temp''), (''curve'', VP [[35, 60], [60, 150], [80, 255]]),
      (''critical'', VI 88), (''stop'', VS ''auto'')],
     [(''name'', VS ''ssd''), (''pwm'', VI 2), (''sensor'', VS ''nvme:max''), (''curve'', VP [[35, 74], [55, 160], [68, 255]]),
      (''critical'', VI 72), (''stop'', VS ''auto'')],
     [(''name'', VS ''hdd''), (''pwm'', VI 3), (''sensor'', VS ''drivetemp:max''),
      (''curve'', VP [[30, 87], [42, 140], [50, 200], [55, 255]]), (''critical'', VI 60), (''stop'', VI 140)]]"




text \<open>
  an auth value that is not a string is reported and then treated like none: the listener
  stays on the network without authentication.
\<close>

theorem auth_not_a_string:
  "let (w, ws) = run_state (parse_web plain_toml [(''listen'', VS ''0.0.0.0:8010''), (''auth'', VL [''basic'']), (''user'', VS ''admin'')]) []
   in w_Auth w = ''none'' \<and> w_Listen w = ''0.0.0.0:8010'' \<and> \<not> IsLoopbackListen (w_Listen w) \<and> map warn_Field ws = [''web.auth'']"
  by code_simp

text \<open>
  an integer number of seconds is multiplied in 64 bits: 18446744084 seconds, about 585
  years, are read as an interval of 10.29 seconds and accepted without a warning.
\<close>

theorem interval_wraps:
  "run_state (interval_field plain_toml [(''interval'', VI 18446744084)] (10 * Second)) [] = (10290448384, [])"
  by code_simp

text \<open>
  an accepted log path cannot leave the log root: it starts with the root, and between
  its slashes there is no empty, . or .. element.
\<close>

theorem ValidLogPath_confined:
  assumes "ValidLogPath envval p = None"
  shows "HasPrefix p (logRoot envval) \<and> length (logRoot envval) < length p \<and>
    (\<exists>es. Split p (CHR ''/'') = [] # es \<and> list_all real_elem es)"
proof -
  have v: "HasPrefix p ''/''" "\<not> HasSuffix p ''/''" "path_Clean p = p" "HasPrefix p (logRoot envval)" "length p \<noteq> length (logRoot envval)"
    using assms by (auto simp: ValidLogPath_def Let_def split: if_splits)
  have "length p > 1" using v(1,2) by (cases p; cases "tl p") (auto simp: HasPrefix_def HasSuffix_def)
  with path_Clean_elems [OF v(1,3)] obtain es where "Split p (CHR ''/'') = [] # es" "\<forall>e \<in> set es. real_elem e" by blast
  moreover have "length (logRoot envval) \<le> length p"
    using v(4) unfolding HasPrefix_def by (metis length_take min.cobounded1)
  ultimately show ?thesis using v(4,5) by (auto simp: list_all_iff)
qed

theorem ValidLogPath_confined_witness:
  "ValidLogPath [] ''/var/log/fan/x.log'' = None \<and> HasPrefix ''/var/log/fan/x.log'' (logRoot []) \<and>
   ValidLogPath [] ''/var/log/../../etc/passwd'' \<noteq> None"
proof -
  have a: "ValidLogPath [] ''/var/log/fan/x.log'' = None" "ValidLogPath [] ''/var/log/../../etc/passwd'' \<noteq> None" by code_simp+
  from ValidLogPath_confined [OF a(1)] a show ?thesis by blast
qed

end
