(* ===== verification/ScheduleEval.thy ===== *)
theory ScheduleEval
  imports ConfigOk
begin

text \<open>
  Package \<^verbatim>\<open>internal/schedule\<close> and the scheduler of the daemon
  (\<^verbatim>\<open>cmd/n5-fangov/scheduler.go\<close>). An instant is its nanosecond count; a location is a
  record of the calendar day number (1970-01-01 is 0) and the nanoseconds of the day an
  instant shows there, and of \<^verbatim>\<open>time.Date\<close>. The operations take any location; the laws
  of a location without transitions are the locale \<open>steady_zone\<close>, which the fixed offsets
  of \<^verbatim>\<open>time.FixedZone\<close> interpret.
\<close>

section \<open>Locations\<close>

record location =
  loc_day :: "int \<Rightarrow> int"
  loc_nanos :: "int \<Rightarrow> int"
  loc_date :: "int \<Rightarrow> int \<Rightarrow> int"

definition Day :: duration where "Day = 24 * Hour"

definition weekday :: "int \<Rightarrow> int" where
  "weekday day = (day + 4) mod 7"

definition minute_of :: "location \<Rightarrow> int \<Rightarrow> int" where
  "minute_of loc t = loc_nanos loc t div Minute"

text \<open>\<^verbatim>\<open>now.AddDate(0, 0, -1)\<close>.\<close>

definition day_before :: "location \<Rightarrow> int \<Rightarrow> int" where
  "day_before loc t = loc_date loc (loc_day loc t - 1) (loc_nanos loc t)"

definition fixed_zone :: "duration \<Rightarrow> location" where
  "fixed_zone off = \<lparr>loc_day = (\<lambda>t. (t + off) div Day), loc_nanos = (\<lambda>t. (t + off) mod Day),
     loc_date = (\<lambda>d n. d * Day + n - off)\<rparr>"

section \<open>Entries\<close>

record Entry =
  en_Preset :: string
  en_From :: string
  en_To :: string
  en_Days :: "int list"
  en_Fallback :: bool

definition weekdays :: "string \<rightharpoonup> int" where
  "weekdays = map_of [(''mon'', 1), (''tue'', 2), (''wed'', 3), (''thu'', 4), (''fri'', 5), (''sat'', 6), (''sun'', 0)]"

definition FromConfig :: "Schedule list \<Rightarrow> Entry list" where
  "FromConfig ss = map (\<lambda>s. \<lparr>en_Preset = s_Preset s, en_From = s_From s, en_To = s_To s,
     en_Days = List.map_filter weekdays (s_Days s), en_Fallback = Fallback s\<rparr>) ss"

definition daySet :: "int list \<Rightarrow> 8 word" where
  "daySet days = foldl (\<lambda>s d. or s (push_bit (nat d) 1)) 0 days"

definition Equal :: "Entry \<Rightarrow> Entry \<Rightarrow> bool" where
  "Equal a b \<longleftrightarrow> en_Preset a = en_Preset b \<and> en_From a = en_From b \<and> en_To a = en_To b \<and>
     en_Fallback a = en_Fallback b \<and> daySet (en_Days a) = daySet (en_Days b)"

definition minutes :: "string \<Rightarrow> int" where
  "minutes s = (case parse_1504 s of None \<Rightarrow> -1 | Some (h, mi) \<Rightarrow> h * 60 + mi)"

definition onDay :: "Entry \<Rightarrow> int \<Rightarrow> bool" where
  "onDay e d \<longleftrightarrow> en_Days e = [] \<or> d \<in> set (en_Days e)"

definition en_contains :: "location \<Rightarrow> Entry \<Rightarrow> int \<Rightarrow> bool" where
  "en_contains loc e t =
     (if en_Fallback e then False
      else let from = minutes (en_From e); till = minutes (en_To e)
           in if from < 0 \<or> till < 0 \<or> from = till then False
              else let m = minute_of loc t
                   in if from < till then m \<ge> from \<and> m < till \<and> onDay e (weekday (loc_day loc t))
                      else if m \<ge> from then onDay e (weekday (loc_day loc t))
                      else if m < till then onDay e (weekday (loc_day loc (day_before loc t)))
                      else False)"

text \<open>\<^verbatim>\<open>Active\<close>: \<open>None\<close> stands for the result \<^verbatim>\<open>-1, false\<close>.\<close>

fun active_loop :: "location \<Rightarrow> int \<Rightarrow> nat \<Rightarrow> nat option \<Rightarrow> Entry list \<Rightarrow> nat option" where
  "active_loop loc t i fb [] = fb"
| "active_loop loc t i fb (e # es) =
     (if en_Fallback e then active_loop loc t (Suc i) (if fb = None then Some i else fb) es
      else if en_contains loc e t then Some i
      else active_loop loc t (Suc i) fb es)"

definition Active :: "location \<Rightarrow> Entry list \<Rightarrow> int \<Rightarrow> nat option" where
  "Active loc es t = active_loop loc t 0 None es"

definition Lookahead :: duration where "Lookahead = 8 * 24 * Hour"

definition window_minutes :: "Entry list \<Rightarrow> int list" where
  "window_minutes es = filter (\<lambda>m. m \<ge> 0) (concat (map (\<lambda>e. if en_Fallback e then [] else [minutes (en_From e), minutes (en_To e)]) es))"

definition candidates :: "location \<Rightarrow> Entry list \<Rightarrow> int \<Rightarrow> int list" where
  "candidates loc es now = concat (map (\<lambda>k.
     map (\<lambda>h. loc_date loc (loc_day loc now + k) (h * Hour)) [0..23] @
     map (\<lambda>m. loc_date loc (loc_day loc now + k) (m div 60 * Hour + m mod 60 * Minute)) (window_minutes es)) [0..Lookahead div (24 * Hour)])"

definition Next :: "location \<Rightarrow> Entry list \<Rightarrow> int \<Rightarrow> (int \<times> nat option) option" where
  "Next loc es now =
     map_option (\<lambda>t. (t, Active loc es t))
       (find (\<lambda>t. now < t \<and> t \<le> now + Lookahead \<and> Active loc es t \<noteq> Active loc es now) (sort (candidates loc es now)))"

section \<open>The scheduler\<close>

datatype apply_sentinel = NotExist | PresetInvalid | PresetWrite | RestartRequired | ReloadFailed

record apply_error =
  ae_text :: string
  ae_chain :: "apply_sentinel list"

definition presetErrorClass :: "apply_error \<Rightarrow> string" where
  "presetErrorClass e =
     (if NotExist \<in> set (ae_chain e) then ''preset missing''
      else if PresetInvalid \<in> set (ae_chain e) then ''preset invalid''
      else if PresetWrite \<in> set (ae_chain e) then ''write failed''
      else if RestartRequired \<in> set (ae_chain e) then ''restart required''
      else if ReloadFailed \<in> set (ae_chain e) then ''reload failed''
      else ''apply failed'')"

record scheduleSwitch =
  sw_TS :: int
  sw_Preset :: string
  sw_OK :: bool
  sw_Error :: string

record 'w scheduler =
  sc_entries :: "Entry list"
  sc_lastOK :: bool
  sc_lastEntry :: Entry
  sc_last :: "scheduleSwitch option"
  sc_log :: "msg list"
  sc_alerts :: "msg list"
  sc_world :: 'w

definition zeroEntry :: Entry where
  "zeroEntry = \<lparr>en_Preset = [], en_From = [], en_To = [], en_Days = [], en_Fallback = False\<rparr>"

definition newScheduler :: "'w \<Rightarrow> 'w scheduler" where
  "newScheduler w = \<lparr>sc_entries = [], sc_lastOK = False, sc_lastEntry = zeroEntry, sc_last = None,
     sc_log = [], sc_alerts = [], sc_world = w\<rparr>"

definition sched_Set :: "Entry list \<Rightarrow> 'w scheduler \<Rightarrow> 'w scheduler" where
  "sched_Set es s = s\<lparr>sc_entries := es\<rparr>"

text \<open>
  \<^verbatim>\<open>evaluate\<close> at the instant \<open>now\<close>. The function \<open>app\<close> is \<^verbatim>\<open>s.apply\<close>; \<open>None\<close> is the
  unset function.
\<close>

definition window_text :: "Entry \<Rightarrow> string" where
  "window_text e = (if en_Fallback e then ''fallback'' else en_From e @ ''-'' @ en_To e)"

definition apply_preset ::
  "(string \<Rightarrow> 'w \<Rightarrow> apply_error option \<times> 'w) option \<Rightarrow> int \<Rightarrow> Entry \<Rightarrow> 'w scheduler \<Rightarrow> 'w scheduler" where
  "apply_preset app now entry s = (case app of
      None \<Rightarrow> s\<lparr>sc_log := sc_log s @ [Msg ''schedule: preset %q (%s) not applied: no preset store'' [AS (en_Preset entry), AS (window_text entry)]]\<rparr>
    | Some f \<Rightarrow> (case f (en_Preset entry) (sc_world s) of
        (Some e, w) \<Rightarrow>
          s\<lparr>sc_world := w,
            sc_log := sc_log s @ [Msg ''schedule: preset %q (%s) not applied (%s): %v, the previous curves stay''
              [AS (en_Preset entry), AS (window_text entry), AS (presetErrorClass e), AS (ae_text e)]],
            sc_alerts := sc_alerts s @ [Msg ''scheduled preset %q (%s) could not be applied: %s''
              [AS (en_Preset entry), AS (window_text entry), AS (presetErrorClass e)]],
            sc_last := Some \<lparr>sw_TS = now div Second, sw_Preset = en_Preset entry, sw_OK = False, sw_Error = presetErrorClass e\<rparr>\<rparr>
      | (None, w) \<Rightarrow>
          s\<lparr>sc_world := w,
            sc_log := sc_log s @ [Msg ''schedule: preset %q applied (%s)'' [AS (en_Preset entry), AS (window_text entry)]],
            sc_last := Some \<lparr>sw_TS = now div Second, sw_Preset = en_Preset entry, sw_OK = True, sw_Error = []\<rparr>\<rparr>))"

definition evaluate ::
  "location \<Rightarrow> (string \<Rightarrow> 'w \<Rightarrow> apply_error option \<times> 'w) option \<Rightarrow> int \<Rightarrow> 'w scheduler \<Rightarrow> 'w scheduler" where
  "evaluate loc app now s =
     (let idx = Active loc (sc_entries s) now;
          ok = (idx \<noteq> None);
          entry = (case idx of None \<Rightarrow> zeroEntry | Some i \<Rightarrow> sc_entries s ! i);
          transition = (ok \<noteq> sc_lastOK s \<or> ok \<and> \<not> Equal entry (sc_lastEntry s));
          s1 = s\<lparr>sc_lastOK := ok, sc_lastEntry := entry\<rparr>
      in if \<not> transition then s1
         else if \<not> ok then s1\<lparr>sc_log := sc_log s1 @ [Msg ''schedule: no window active, curves stay as they are'' []]\<rparr>
         else apply_preset app now entry s1)"

section \<open>A location without transitions\<close>

lemma Day_pos [simp]: "0 < Day" "Day \<noteq> 0"
  by (simp_all add: Day_def Hour_def)

locale steady_zone =
  fixes loc :: location and off :: duration
  assumes day: "loc_day loc t = (t + off) div Day"
    and nanos: "loc_nanos loc t = (t + off) mod Day"
    and date: "loc_date loc d n = d * Day + n - off"
begin

definition win :: "Entry \<Rightarrow> int \<Rightarrow> int \<Rightarrow> bool" where
  "win e d m \<longleftrightarrow> \<not> en_Fallback e \<and> 0 \<le> minutes (en_From e) \<and> 0 \<le> minutes (en_To e) \<and> minutes (en_From e) \<noteq> minutes (en_To e) \<and>
     (if minutes (en_From e) < minutes (en_To e)
      then minutes (en_From e) \<le> m \<and> m < minutes (en_To e) \<and> onDay e (weekday d)
      else if minutes (en_From e) \<le> m then onDay e (weekday d) else m < minutes (en_To e) \<and> onDay e (weekday (d - 1)))"

lemma day_before_day: "loc_day loc (day_before loc t) = loc_day loc t - 1"
proof -
  have "day_before loc t + off = (t + off) - Day"
    by (simp add: day_before_def date day nanos algebra_simps minus_mult_div_eq_mod [symmetric])
  then show ?thesis
    unfolding day by (simp only:) (use div_mult_self1 [of Day "t + off" "-1"] in simp)
qed

lemma contains_win: "en_contains loc e t \<longleftrightarrow> win e (loc_day loc t) (minute_of loc t)"
  by (auto simp: en_contains_def win_def Let_def day_before_day not_le not_less)

text \<open>A window does not change between two minutes of a day unless one of its ends lies between them.\<close>

lemma win_same:
  assumes "m \<le> m'" "\<not> (m < minutes (en_From e) \<and> minutes (en_From e) \<le> m')" "\<not> (m < minutes (en_To e) \<and> minutes (en_To e) \<le> m')"
  shows "win e d m = win e d m'"
  using assms by (auto simp: win_def)

lemma win_week: "win e (d + 7) m = win e d m"
proof -
  have "weekday (d + 7) = weekday d" "weekday (d + 7 - 1) = weekday (d - 1)" by (simp_all add: weekday_def) presburger+
  then show ?thesis by (simp add: win_def)
qed

lemma active_cong:
  "(\<And>e. e \<in> set es \<Longrightarrow> \<not> en_Fallback e \<Longrightarrow> en_contains loc e t = en_contains loc e t') \<Longrightarrow> Active loc es t = Active loc es t'"
proof -
  have "active_loop loc t i fb es = active_loop loc t' i fb es"
    if "\<And>e. e \<in> set es \<Longrightarrow> \<not> en_Fallback e \<Longrightarrow> en_contains loc e t = en_contains loc e t'" for i fb
    using that by (induction es arbitrary: i fb) auto
  then show "(\<And>e. e \<in> set es \<Longrightarrow> \<not> en_Fallback e \<Longrightarrow> en_contains loc e t = en_contains loc e t') \<Longrightarrow> Active loc es t = Active loc es t'"
    by (simp add: Active_def)
qed

lemma Active_week: "Active loc es (t + 7 * Day) = Active loc es t"
proof (rule active_cong)
  fix e
  have sh: "t + 7 * Day + off = t + off + 7 * Day" by simp
  have "loc_day loc (t + 7 * Day) = loc_day loc t + 7" "minute_of loc (t + 7 * Day) = minute_of loc t"
    unfolding day minute_of_def nanos sh by simp_all
  then show "en_contains loc e (t + 7 * Day) = en_contains loc e t" by (simp add: contains_win win_week)
qed

lemma time_of: "t = loc_day loc t * Day + loc_nanos loc t - off" "0 \<le> loc_nanos loc t" "loc_nanos loc t < Day"
  by (simp_all add: day nanos)

text \<open>Between two instants of a day without a window end in between the active entry stays.\<close>

lemma Active_same:
  assumes "t \<le> t'" "loc_day loc t = loc_day loc t'"
    and none: "\<And>m. m \<in> set (window_minutes es) \<Longrightarrow> \<not> (t < loc_date loc (loc_day loc t) (m * Minute) \<and> loc_date loc (loc_day loc t) (m * Minute) \<le> t')"
  shows "Active loc es t = Active loc es t'"
proof (rule active_cong)
  fix e assume e: "e \<in> set es" "\<not> en_Fallback e"
  have le: "loc_nanos loc t \<le> loc_nanos loc t'" using time_of(1) [of t] time_of(1) [of t'] assms(1,2) by simp
  then have m: "minute_of loc t \<le> minute_of loc t'" by (simp add: minute_of_def zdiv_mono1 Minute_def)
  have free: "\<not> (minute_of loc t < x \<and> x \<le> minute_of loc t')" if "x = minutes (en_From e) \<or> x = minutes (en_To e)" for x
  proof
    assume b: "minute_of loc t < x \<and> x \<le> minute_of loc t'"
    have "0 \<le> minute_of loc t" using time_of(2) [of t] by (simp add: minute_of_def Minute_def pos_imp_zdiv_nonneg_iff)
    with b that e have mem: "x \<in> set (window_minutes es)" by (auto simp: window_minutes_def)
    have "loc_nanos loc t < x * Minute" "x * Minute \<le> loc_nanos loc t'"
      using b by (auto simp: minute_of_def Minute_def)
    then show False
      using none [OF mem] time_of(1) [of t] time_of(1) [of t'] assms(2) by (simp add: date)
  qed
  show "en_contains loc e t = en_contains loc e t'"
    unfolding contains_win assms(2) by (rule win_same [OF m]) (use free in blast)+
qed

lemma candidate_hour: "0 \<le> k \<Longrightarrow> k \<le> 8 \<Longrightarrow> loc_date loc (loc_day loc now + k) 0 \<in> set (candidates loc es now)"
  by (force simp: candidates_def Lookahead_def Hour_def)

lemma candidate_minute:
  assumes "0 \<le> k" "k \<le> 8" "m \<in> set (window_minutes es)"
  shows "loc_date loc (loc_day loc now + k) (m * Minute) \<in> set (candidates loc es now)"
proof -
  have "m div 60 * Hour + m mod 60 * Minute = m * Minute"
    unfolding Hour_def Minute_def by presburger
  then show ?thesis using assms by (force simp: candidates_def Lookahead_def Hour_def)
qed

lemma lookahead_days:
  assumes "now < t" "t \<le> now + Lookahead"
  shows "0 \<le> loc_day loc t - loc_day loc now" "loc_day loc t - loc_day loc now \<le> 8"
proof -
  have "(now + off) div Day \<le> (t + off) div Day" using assms by (intro zdiv_mono1) auto
  then show "0 \<le> loc_day loc t - loc_day loc now" by (simp add: day)
  have "(t + off) div Day \<le> (now + off + 8 * Day) div Day" using assms by (intro zdiv_mono1) (auto simp: Lookahead_def Day_def)
  then show "loc_day loc t - loc_day loc now \<le> 8" by (simp add: day)
qed

text \<open>A change within the lookahead shows at a candidate that is not later.\<close>

lemma change_at_candidate:
  assumes t: "now < t" "t \<le> now + Lookahead" and ch: "Active loc es t \<noteq> Active loc es now"
  shows "\<exists>c \<in> set (candidates loc es now). now < c \<and> c \<le> t \<and> Active loc es c = Active loc es t"
proof -
  let ?C = "{c \<in> set (candidates loc es now). c \<le> t}"
  let ?k = "loc_day loc t - loc_day loc now"
  have k: "0 \<le> ?k" "?k \<le> 8" using lookahead_days [OF t] by auto
  let ?d0 = "loc_date loc (loc_day loc t) 0"
  have d0: "?d0 \<in> ?C" using candidate_hour [OF k, of now es] time_of [of t] by (simp add: date)
  define B where "B = Max ?C"
  have fin: "finite ?C" by simp
  have B: "B \<in> ?C" unfolding B_def using fin d0 by (intro Max_in) auto
  have Bmax: "c \<le> B" if "c \<in> ?C" for c unfolding B_def using fin that by (intro Max_ge) auto
  have dayof: "loc_day loc x = loc_day loc t" if "?d0 \<le> x" "x \<le> t" for x
  proof -
    have "loc_day loc t * Day \<le> x + off" using that(1) by (simp add: date)
    then have "loc_day loc t \<le> (x + off) div Day" using zdiv_mono1 [of "loc_day loc t * Day" "x + off" Day] by simp
    moreover have "(x + off) div Day \<le> (t + off) div Day" using that(2) by (intro zdiv_mono1) auto
    ultimately show ?thesis by (simp add: day)
  qed
  have free: "\<not> (B < loc_date loc (loc_day loc t) (m * Minute) \<and> loc_date loc (loc_day loc t) (m * Minute) \<le> t)"
    if "m \<in> set (window_minutes es)" for m
    using candidate_minute [OF k that, of now] Bmax [of "loc_date loc (loc_day loc t) (m * Minute)"] by auto
  have dB: "loc_day loc B = loc_day loc t" using dayof [of B] Bmax [OF d0] B by simp
  have AB: "Active loc es B = Active loc es t"
    using B free dB by (intro Active_same) auto
  have "now < B"
  proof (rule ccontr)
    assume "\<not> now < B"
    then have "?d0 \<le> now" using Bmax [OF d0] by simp
    then have dn: "loc_day loc now = loc_day loc t" using dayof [of now] t(1) by simp
    have "Active loc es now = Active loc es t"
    proof (rule Active_same)
      fix m assume "m \<in> set (window_minutes es)"
      then show "\<not> (now < loc_date loc (loc_day loc now) (m * Minute) \<and> loc_date loc (loc_day loc now) (m * Minute) \<le> t)"
        using free [of m] \<open>\<not> now < B\<close> by (auto simp: dn)
    qed (use t(1) dn in simp_all)
    with ch show False by simp
  qed
  then show ?thesis using B AB by auto
qed

lemma Next_first_change:
  assumes "Next loc es now = Some (t, a)"
  shows "now < t \<and> a = Active loc es t \<and> a \<noteq> Active loc es now \<and> (\<forall>x. now \<le> x \<and> x < t \<longrightarrow> Active loc es x = Active loc es now)"
proof -
  let ?P = "\<lambda>t. now < t \<and> t \<le> now + Lookahead \<and> Active loc es t \<noteq> Active loc es now"
  have f: "find ?P (sort (candidates loc es now)) = Some t" and a: "a = Active loc es t"
    using assms by (auto simp: Next_def)
  then obtain i where i: "i < length (sort (candidates loc es now))" "?P t" "t = sort (candidates loc es now) ! i"
    "\<forall>j<i. \<not> ?P (sort (candidates loc es now) ! j)"
    by (auto simp: find_Some_iff)
  have first: "\<not> ?P c" if c: "c \<in> set (candidates loc es now)" "c < t" for c
  proof -
    obtain j where j: "j < length (sort (candidates loc es now))" "c = sort (candidates loc es now) ! j"
      using c(1) by (metis in_set_conv_nth set_sort)
    have "j < i"
    proof (rule ccontr)
      assume "\<not> j < i"
      then have "t \<le> c" using sorted_nth_mono [of "sort (candidates loc es now)" i j] i j by simp
      with c(2) show False by simp
    qed
    then show ?thesis using i(4) j(2) by simp
  qed
  have "Active loc es x = Active loc es now" if x: "now \<le> x" "x < t" for x
  proof (rule ccontr)
    assume ne: "Active loc es x \<noteq> Active loc es now"
    then have "now < x" using x(1) by (cases "x = now") auto
    moreover have "x \<le> now + Lookahead" using x(2) i(2) by linarith
    ultimately obtain c where
      c: "c \<in> set (candidates loc es now)" "now < c" "c \<le> x" "Active loc es c = Active loc es x"
      using change_at_candidate [OF _ _ ne] by blast
    have "c \<le> now + Lookahead" "c < t" using c(3) x(2) i(2) by linarith+
    with first [OF c(1)] c(2,4) ne show False by simp
  qed
  then have same: "\<forall>x. now \<le> x \<and> x < t \<longrightarrow> Active loc es x = Active loc es now" by blast
  from i(2) have "now < t" "Active loc es t \<noteq> Active loc es now" by (rule conjunct1, elim conjE)
  then show ?thesis unfolding a by (intro conjI refl same)
qed

lemma no_Next_within:
  assumes "Next loc es now = None" "now \<le> t" "t \<le> now + Lookahead"
  shows "Active loc es t = Active loc es now"
proof (rule ccontr)
  assume ne: "Active loc es t \<noteq> Active loc es now"
  then have "now < t" using assms(2) by (cases "t = now") auto
  from change_at_candidate [OF this assms(3) ne] obtain c where
    "c \<in> set (candidates loc es now)" "now < c" "c \<le> t" "Active loc es c = Active loc es t" by blast
  then show False using assms(1,3) ne by (auto simp: Next_def find_None_iff)
qed

text \<open>The plan repeats weekly, so nothing in eight days means nothing ever.\<close>

lemma no_Next_forever:
  assumes "Next loc es now = None" "now \<le> t"
  shows "Active loc es t = Active loc es now"
  using assms(2)
proof (induction "nat (t - now)" arbitrary: t rule: less_induct)
  case less
  show ?case
  proof (cases "t \<le> now + Lookahead")
    case True
    then show ?thesis using no_Next_within assms(1) less.prems by blast
  next
    case False
    have "Lookahead = 8 * Day" "0 < Day" by (simp_all add: Lookahead_def Day_def Hour_def)
    with False have "now \<le> t - 7 * Day" "nat (t - 7 * Day - now) < nat (t - now)" by linarith+
    from less.hyps [OF this(2,1)] Active_week [of es "t - 7 * Day"] show ?thesis by simp
  qed
qed

text \<open>The windows as intervals of instants.\<close>

lemma contains_interval:
  assumes "\<not> en_Fallback e" "0 \<le> minutes (en_From e)" "0 \<le> minutes (en_To e)" "minutes (en_From e) \<noteq> minutes (en_To e)"
    and bound: "minutes (en_From e) < 1440" "minutes (en_To e) < 1440"
  shows "en_contains loc e t \<longleftrightarrow> (\<exists>d. onDay e (weekday d) \<and> loc_date loc d (minutes (en_From e) * Minute) \<le> t \<and>
     t < loc_date loc (if minutes (en_From e) < minutes (en_To e) then d else d + 1) (minutes (en_To e) * Minute))"
proof -
  define F where "F = minutes (en_From e) * Minute"
  define T where "T = minutes (en_To e) * Minute"
  define n where "n = loc_nanos loc t"
  define D where "D = loc_day loc t"
  define s where "s = t + off"
  have s: "s = D * 86400000000000 + n" "0 \<le> n" "n < 86400000000000"
    using time_of [of t] by (simp_all add: n_def D_def s_def Day_def Hour_def)
  have m: "minutes (en_From e) \<le> minute_of loc t \<longleftrightarrow> F \<le> n" "minute_of loc t < minutes (en_To e) \<longleftrightarrow> n < T"
    by (auto simp: minute_of_def n_def F_def T_def Minute_def)
  have FT: "0 \<le> F" "F < 86400000000000" "0 \<le> T" "T < 86400000000000" "minutes (en_From e) < minutes (en_To e) \<longleftrightarrow> F < T"
    using assms(2,3) bound by (auto simp: F_def T_def Minute_def)
  have rhs: "loc_date loc d F \<le> t \<longleftrightarrow> d * 86400000000000 + F \<le> s" "t < loc_date loc d T \<longleftrightarrow> s < d * 86400000000000 + T" for d
    by (auto simp: date s_def Day_def Hour_def)
  have near: "d = D \<or> d = D - 1 \<and> s < D * 86400000000000 + T" if "d * 86400000000000 + F \<le> s" "s < (d + 1) * 86400000000000 + T" for d
    using that s FT(1-4) by (cases "d < D - 1"; cases "D < d") (auto simp: algebra_simps)
  have in_day: "d = D" if "d * 86400000000000 + F \<le> s" "s < d * 86400000000000 + T" for d
    using that s FT(1-4) by (cases "d < D"; cases "D < d") auto
  have lhs: "en_contains loc e t \<longleftrightarrow> (if F < T then F \<le> n \<and> n < T \<and> onDay e (weekday D)
      else if F \<le> n then onDay e (weekday D) else n < T \<and> onDay e (weekday (D - 1)))"
    using assms by (simp add: contains_win win_def m FT(5) D_def)
  show ?thesis
  proof (cases "F < T")
    case True
    have "(\<exists>d. onDay e (weekday d) \<and> d * 86400000000000 + F \<le> s \<and> s < d * 86400000000000 + T) \<longleftrightarrow> F \<le> n \<and> n < T \<and> onDay e (weekday D)"
      (is "?L = ?R")
    proof
      assume ?L
      then obtain d where d: "onDay e (weekday d)" "d * 86400000000000 + F \<le> s" "s < d * 86400000000000 + T" by blast
      then show ?R using in_day [OF d(2,3)] s(1) by simp
    qed (use s(1) in \<open>auto intro: exI [of _ D]\<close>)
    then show ?thesis unfolding FT(5) F_def [symmetric] T_def [symmetric] rhs lhs using True by simp
  next
    case False
    have "(\<exists>d. onDay e (weekday d) \<and> d * 86400000000000 + F \<le> s \<and> s < (d + 1) * 86400000000000 + T) \<longleftrightarrow>
        (if F \<le> n then onDay e (weekday D) else n < T \<and> onDay e (weekday (D - 1)))" (is "?L = ?R")
    proof
      assume ?L
      then obtain d where d: "onDay e (weekday d)" "d * 86400000000000 + F \<le> s" "s < (d + 1) * 86400000000000 + T" by blast
      from near [OF d(2,3)] show ?R using d s False by auto
    next
      assume ?R
      then show ?L using s FT False by (cases "F \<le> n") (auto intro: exI [of _ D] exI [of _ "D - 1"])
    qed
    then show ?thesis unfolding FT(5) F_def [symmetric] T_def [symmetric] rhs lhs using False by simp
  qed
qed

end

interpretation fixed: steady_zone "fixed_zone off" off for off
  by unfold_locales (simp_all add: fixed_zone_def)

section \<open>Properties of the evaluation\<close>


definition office :: "Entry list" where
  "office = [\<lparr>en_Preset = ''quiet'', en_From = ''22:00'', en_To = ''06:30'', en_Days = [5, 6], en_Fallback = False\<rparr>,
     \<lparr>en_Preset = ''work'', en_From = [], en_To = [], en_Days = [], en_Fallback = True\<rparr>]"


lemma minutes_range: "minutes s < 1440"
  by (auto simp: minutes_def split: option.splits dest!: parse_1504_range)

text \<open>
  a windowed entry contains exactly the instants of its daily intervals: from its start on a
  listed day to its end on the same day, or on the next day when the window crosses midnight.
\<close>

theorem window_intervals:
  assumes "\<not> en_Fallback e" "0 \<le> minutes (en_From e)" "0 \<le> minutes (en_To e)" "minutes (en_From e) \<noteq> minutes (en_To e)"
  shows "en_contains (fixed_zone off) e t \<longleftrightarrow>
    (\<exists>d. onDay e (weekday d) \<and> loc_date (fixed_zone off) d (minutes (en_From e) * Minute) \<le> t \<and>
       t < loc_date (fixed_zone off) (if minutes (en_From e) < minutes (en_To e) then d else d + 1) (minutes (en_To e) * Minute))"
  using fixed.contains_interval [OF assms minutes_range minutes_range] .

theorem window_intervals_witness:
  "en_contains (fixed_zone 0) (office ! 0) 1767398400000000000 \<longleftrightarrow>
    (\<exists>d. onDay (office ! 0) (weekday d) \<and> d * Day + 79200000000000 \<le> 1767398400000000000 \<and>
       1767398400000000000 < (d + 1) * Day + 23400000000000)"
proof -
  have m: "minutes (en_From (office ! 0)) = 1320" "minutes (en_To (office ! 0)) = 390" "\<not> en_Fallback (office ! 0)" by code_simp+
  show ?thesis
    using window_intervals [of "office ! 0" 0 1767398400000000000]
    by (simp add: m fixed_zone_def Minute_def)
qed

section \<open>Entries as keys\<close>

definition entry_key :: "Entry \<Rightarrow> string \<times> string \<times> string \<times> bool \<times> 8 word" where
  "entry_key e = (en_Preset e, en_From e, en_To e, en_Fallback e, daySet (en_Days e))"

lemma Equal_key: "Equal a b \<longleftrightarrow> entry_key a = entry_key b"
  by (auto simp: Equal_def entry_key_def)

lemma bit_foldl_or:
  "bit (foldl (\<lambda>s d. or s (push_bit (nat d) 1)) s days :: 8 word) i \<longleftrightarrow> bit s i \<or> i < 8 \<and> (\<exists>d \<in> set days. nat d = i)"
  by (induction days arbitrary: s) (auto simp: bit_simps)

text \<open>
  Two entries are equal for the scheduler exactly when preset, window and kind agree and the
  same days are listed, in whatever order and however often.
\<close>

theorem Equal_days_as_set:
  assumes "\<forall>d \<in> set (en_Days a) \<union> set (en_Days b). 0 \<le> d \<and> d < 7"
  shows "Equal a b \<longleftrightarrow> en_Preset a = en_Preset b \<and> en_From a = en_From b \<and> en_To a = en_To b \<and>
    en_Fallback a = en_Fallback b \<and> set (en_Days a) = set (en_Days b)"
proof -
  have mem: "d \<in> set ds \<longleftrightarrow> bit (daySet ds) (nat d)" if "\<forall>d \<in> set ds. 0 \<le> d \<and> d < 7" "0 \<le> d" "d < 7" for d ds
    unfolding daySet_def bit_foldl_or using that by (auto simp: eq_nat_nat_iff)
  have "daySet (en_Days a) = daySet (en_Days b) \<longleftrightarrow> set (en_Days a) = set (en_Days b)"
  proof
    assume eq: "daySet (en_Days a) = daySet (en_Days b)"
    have "d \<in> set (en_Days a) \<longleftrightarrow> d \<in> set (en_Days b)" for d
    proof (cases "0 \<le> d \<and> d < 7")
      case True
      have "\<forall>d \<in> set (en_Days a). 0 \<le> d \<and> d < 7" "\<forall>d \<in> set (en_Days b). 0 \<le> d \<and> d < 7" using assms by blast+
      then show ?thesis using True mem [of "en_Days a" d] mem [of "en_Days b" d] unfolding eq by blast
    qed (use assms in auto)
    then show "set (en_Days a) = set (en_Days b)" by blast
  next
    assume "set (en_Days a) = set (en_Days b)"
    then show "daySet (en_Days a) = daySet (en_Days b)"
      unfolding daySet_def by (intro bit_eqI) (simp only: bit_foldl_or)
  qed
  then show ?thesis by (auto simp: Equal_def)
qed

theorem Equal_days_as_set_witness:
  "Equal (office ! 0) ((office ! 0)\<lparr>en_Days := [6, 5, 6]\<rparr>)"
  using Equal_days_as_set [of "office ! 0" "(office ! 0)\<lparr>en_Days := [6, 5, 6]\<rparr>"] by (auto simp: office_def)

section \<open>The scheduler applies a preset once per transition\<close>

text \<open>What the scheduler sees at a tick: the key of the active entry.\<close>

definition active_key :: "location \<Rightarrow> Entry list \<Rightarrow> int \<Rightarrow> (string \<times> string \<times> string \<times> bool \<times> 8 word) option" where
  "active_key loc es t = map_option (\<lambda>i. entry_key (es ! i)) (Active loc es t)"

definition base_key :: "'w scheduler \<Rightarrow> (string \<times> string \<times> string \<times> bool \<times> 8 word) option" where
  "base_key s = (if sc_lastOK s then Some (entry_key (sc_lastEntry s)) else None)"

text \<open>A run: every step sets the entries of a reload, then evaluates at an instant.\<close>

definition ticks ::
  "location \<Rightarrow> (string \<Rightarrow> 'w \<Rightarrow> apply_error option \<times> 'w) \<Rightarrow> (Entry list \<times> int) list \<Rightarrow> 'w scheduler \<Rightarrow> 'w scheduler" where
  "ticks loc app steps s = foldl (\<lambda>s (es, t). evaluate loc (Some app) t (sched_Set es s)) s steps"

text \<open>A store that records the presets it was asked to apply.\<close>

definition records :: "('w \<Rightarrow> string list) \<Rightarrow> (string \<Rightarrow> 'w \<Rightarrow> apply_error option \<times> 'w) \<Rightarrow> bool" where
  "records tr app \<longleftrightarrow> (\<forall>n w. tr (snd (app n w)) = tr w @ [n])"

definition key_presets :: "(string \<times> string \<times> string \<times> bool \<times> 8 word) option list \<Rightarrow> string list" where
  "key_presets ks = map (\<lambda>k. fst (the k)) (filter (\<lambda>k. k \<noteq> None) ks)"

lemma apply_preset_fields [simp]:
  "base_key (apply_preset app now e s) = base_key s" "sc_entries (apply_preset app now e s) = sc_entries s"
  by (simp_all add: apply_preset_def base_key_def split: option.split prod.split)

lemma evaluate_base: "base_key (evaluate loc app t s) = active_key loc (sc_entries s) t"
  by (auto simp: evaluate_def Let_def base_key_def active_key_def apply_preset_def split: option.split prod.split)

lemma evaluate_trace:
  assumes "records tr app"
  shows "tr (sc_world (evaluate loc (Some app) t s)) = tr (sc_world s) @
     (if active_key loc (sc_entries s) t = base_key s then [] else key_presets [active_key loc (sc_entries s) t])"
proof -
  have app: "tr (sc_world (apply_preset (Some app) t e s')) = tr (sc_world s') @ [en_Preset e]" for e s'
    using assms by (auto simp: apply_preset_def records_def split: prod.split option.split) (metis snd_conv)+
  show ?thesis
    by (cases "Active loc (sc_entries s) t")
       (auto simp: evaluate_def Let_def app base_key_def active_key_def Equal_key key_presets_def entry_key_def)
qed

lemma ticks_trace:
  assumes "records tr app"
  shows "tr (sc_world (ticks loc app steps s)) = tr (sc_world s) @
     key_presets (tl (remdups_adj (base_key s # map (\<lambda>(es, t). active_key loc es t) steps)))"
proof (induction steps arbitrary: s)
  case Nil
  then show ?case by (simp add: ticks_def key_presets_def)
next
  case (Cons x steps)
  obtain es t where x: "x = (es, t)" by (cases x)
  let ?s = "evaluate loc (Some app) t (sched_Set es s)"
  let ?ks = "map (\<lambda>(es, t). active_key loc es t) steps"
  have b: "base_key ?s = active_key loc es t" by (simp add: evaluate_base sched_Set_def)
  have t1: "tr (sc_world ?s) = tr (sc_world s) @ (if active_key loc es t = base_key s then [] else key_presets [active_key loc es t])"
    using evaluate_trace [OF assms, of loc t "sched_Set es s"] by (simp add: sched_Set_def base_key_def)
  have tl_step: "key_presets (tl (remdups_adj (b # a # ks))) = (if a = b then [] else key_presets [a]) @ key_presets (tl (remdups_adj (a # ks)))" for a b ks
  proof (cases "a = b")
    case False
    have "remdups_adj (a # ks) = a # tl (remdups_adj (a # ks))" by (rule remdups_adj_Cons_alt [symmetric])
    then have "key_presets (remdups_adj (a # ks)) = key_presets [a] @ key_presets (tl (remdups_adj (a # ks)))"
      unfolding key_presets_def by (metis append_Cons append_Nil filter.simps map_append filter_append)
    with False show ?thesis by simp
  qed simp
  have "tr (sc_world (ticks loc app (x # steps) s)) = tr (sc_world ?s) @ key_presets (tl (remdups_adj (active_key loc es t # ?ks)))"
    using Cons.IH [of ?s] b by (simp add: ticks_def x)
  also have "\<dots> = tr (sc_world s) @ key_presets (tl (remdups_adj (base_key s # active_key loc es t # ?ks)))"
    unfolding t1 tl_step by simp
  finally show ?case by (simp add: x)
qed

text \<open>
  C27: over any sequence of reloads and ticks the scheduler asks the preset store for exactly the
  presets of the entries that became active, once for every maximal run of ticks with the
  same active entry, also when an application fails; a reload that changes nothing about
  the active entry asks for nothing.
\<close>

theorem scheduler_applies_transitions:
  assumes "records tr app"
  shows "tr (sc_world (ticks loc app steps (newScheduler w))) =
    tr w @ key_presets (tl (remdups_adj (None # map (\<lambda>(es, t). active_key loc es t) steps)))"
  using ticks_trace [OF assms, of loc steps "newScheduler w"] by (simp add: newScheduler_def base_key_def)

theorem scheduler_applies_transitions_witness:
  "sc_world (ticks (fixed_zone 0) (\<lambda>n w. (None, w @ [n]))
     [(office, 1767387600000000000), (office, 1767387630000000000), (office, 1767391200000000000), (office, 1767391230000000000)]
     (newScheduler [])) = [''work'', ''quiet'']"
proof -
  let ?steps = "[(office, 1767387600000000000), (office, 1767387630000000000), (office, 1767391200000000000), (office, 1767391230000000000)]"
  have r: "records id (\<lambda>n w. (None :: apply_error option, w @ [n]))" by (simp add: records_def)
  have k: "key_presets (tl (remdups_adj (None # map (\<lambda>(es, t). active_key (fixed_zone 0) es t) ?steps))) = [''work'', ''quiet'']"
    by code_simp
  from scheduler_applies_transitions [OF r, of "fixed_zone 0" ?steps "[]"] show ?thesis unfolding k by simp
qed

end
