(* ===== verification/WebLimit.thy ===== *)
theory WebLimit
  imports GoNet "HOL-Library.Multiset"
begin

text \<open>
  Package \<^verbatim>\<open>internal/web\<close>, the request limiters: \<^verbatim>\<open>authLimiter\<close> of \<^verbatim>\<open>ratelimit.go\<close>
  (failure buckets per address or /64 prefix, the sleepers per address, the slots for
  password checks) and \<^verbatim>\<open>tokenLimiter\<close> of \<^verbatim>\<open>token.go\<close>. A failed attempt holds the lock twice,
  before and after its delay: \<open>failIn\<close> and \<open>failEnd\<close>. The pointer a sleeping attempt
  keeps to its counter is the number under which the counter was created. The instants are
  arguments (\<^verbatim>\<open>l.now\<close>).
\<close>

section \<open>Addresses\<close>

datatype addr = A4 "int list" | A6 "int list"

definition mapped4 :: "int list" where "mapped4 = replicate 10 0 @ [255, 255]"

text \<open>\<^verbatim>\<open>netip.ParseAddr\<close>; the zone is dropped at once, as \<^verbatim>\<open>parseAddr\<close> does.\<close>

definition netip_ParseAddr :: "string \<Rightarrow> addr option" where
  "netip_ParseAddr s = (case find (\<lambda>c. c = CHR ''.'' \<or> c = CHR '':'' \<or> c = CHR ''%'') s of
      None \<Rightarrow> None
    | Some c \<Rightarrow>
        if c = CHR ''.'' then map_option A4 (parseIPv4Fields s)
        else if c = CHR '':'' then
          (case IndexByte s (CHR ''%'') of
             None \<Rightarrow> map_option A6 (parseIPv6 s)
           | Some i \<Rightarrow> if drop (Suc i) s = [] then None else map_option A6 (parseIPv6 (take i s)))
        else None)"

definition Unmap :: "addr \<Rightarrow> addr" where
  "Unmap a = (case a of A4 b \<Rightarrow> A4 b | A6 b \<Rightarrow> if take 12 b = mapped4 then A4 (drop 12 b) else A6 b)"

definition parseAddr :: "string \<Rightarrow> addr option" where
  "parseAddr ip = map_option Unmap (netip_ParseAddr ip)"

text \<open>\<^verbatim>\<open>Addr.String\<close>: dotted quad, or hexadecimal groups with the first longest run of zero groups as \<^verbatim>\<open>::\<close>.\<close>

definition v6u16 :: "int list \<Rightarrow> int list" where
  "v6u16 b = map (\<lambda>i. b ! (2 * i) * 256 + b ! (2 * i + 1)) [0..<8]"

function hex_text :: "int \<Rightarrow> string" where
  "hex_text n = (if n < 16 then [hex_digit n] else hex_text (n div 16) @ [hex_digit (n mod 16)])"
  by pat_completeness auto
termination
  by (relation "measure nat") auto

declare hex_text.simps [simp del]

fun zero_run :: "nat \<Rightarrow> int list \<Rightarrow> nat \<times> nat \<Rightarrow> nat \<times> nat" where
  "zero_run i [] best = best"
| "zero_run i (g # gs) best =
     (let j = i + length (takeWhile (\<lambda>x. x = 0) (g # gs))
      in zero_run (Suc i) gs (if j - i \<ge> 2 \<and> j - i > snd best - fst best then (i, j) else best))"

definition groups_text :: "int list \<Rightarrow> string" where
  "groups_text gs = Join (map hex_text gs) '':''"

definition ipv6_text :: "int list \<Rightarrow> string" where
  "ipv6_text b =
     (let gs = v6u16 b; (i, j) = zero_run 0 gs (0, 0)
      in if j = 0 then groups_text gs else groups_text (take i gs) @ ''::'' @ groups_text (drop j gs))"

definition addr_text :: "addr \<Rightarrow> string" where
  "addr_text a = (case a of A4 b \<Rightarrow> Join (map Itoa b) ''.'' | A6 b \<Rightarrow> ipv6_text b)"

definition limitKey :: "string \<Rightarrow> string" where
  "limitKey ip = (case parseAddr ip of
      None \<Rightarrow> ip
    | Some (A4 b) \<Rightarrow> addr_text (A4 b)
    | Some (A6 b) \<Rightarrow> ipv6_text (take 8 b @ replicate 8 0) @ ''/64'')"

definition addrKey :: "string \<Rightarrow> string" where
  "addrKey ip = (case parseAddr ip of None \<Rightarrow> ip | Some a \<Rightarrow> addr_text a)"

section \<open>The password and token failure limiter\<close>

definition limitFree :: int where "limitFree = 5"
definition limitBase :: duration where "limitBase = 250 * Millisecond"
definition limitMax :: duration where "limitMax = 2 * Second"
definition limitReset :: duration where "limitReset = 10 * Minute"
definition limitEntries :: nat where "limitEntries = 4096"
definition limitConcurrent :: nat where "limitConcurrent = 4"
definition limitHashConcurrent :: nat where "limitHashConcurrent = 4"

record authFails =
  af_n :: int
  af_last :: gotime

type_synonym buckets = "(string, authFails) gomap"

datatype kind = Password | Bearer

record authLimiter =
  al_byIP :: buckets
  al_bearer :: buckets
  al_sleeping :: "(string, nat \<times> nat) gomap"
  al_next :: nat
  al_slots :: nat
  al_fullLogged :: "gotime option"
  al_log :: nat

definition newAuthLimiter :: authLimiter where
  "newAuthLimiter = \<lparr>al_byIP = [], al_bearer = [], al_sleeping = [], al_next = 0, al_slots = 0, al_fullLogged = None, al_log = 0\<rparr>"

definition delayFor :: "int \<Rightarrow> duration" where
  "delayFor n =
     (if n \<le> limitFree then 0
      else let k = n - limitFree - 1
           in if k > 8 then limitMax
              else let d = limitBase * 2 ^ nat k in if d > limitMax then limitMax else d)"

text \<open>The oldest entry the prune loop ends with; the empty key stands for \<^verbatim>\<open>none yet\<close>.\<close>

fun oldest_loop :: "('v \<Rightarrow> gotime) \<Rightarrow> string \<times> gotime \<Rightarrow> (string, 'v) gomap \<Rightarrow> string \<times> gotime" where
  "oldest_loop at_of acc [] = acc"
| "oldest_loop at_of acc ((k, v) # m) =
     oldest_loop at_of (if fst acc = [] \<or> Before (at_of v) (snd acc) then (k, at_of v) else acc) m"

definition oldest_key :: "('v \<Rightarrow> gotime) \<Rightarrow> (string, 'v) gomap \<Rightarrow> string" where
  "oldest_key at_of m = fst (oldest_loop at_of ([], \<lparr>wall = 0, mono = None\<rparr>) m)"

definition expired_bucket :: "gotime \<Rightarrow> authFails \<Rightarrow> bool" where
  "expired_bucket now f \<longleftrightarrow> Sub now (af_last f) > limitReset"

definition pruneBuckets :: "gotime \<Rightarrow> buckets \<Rightarrow> authLimiter \<Rightarrow> buckets \<times> authLimiter" where
  "pruneBuckets now bs l =
     (let live = filter (\<lambda>(k, f). \<not> expired_bucket now f) bs; k = oldest_key af_last live
      in if length live \<ge> limitEntries \<and> k \<noteq> [] then
           (AList.delete k live,
            if (case al_fullLogged l of None \<Rightarrow> True | Some t \<Rightarrow> Sub now t \<ge> limitReset \<or> Before now t)
            then l\<lparr>al_fullLogged := Some now, al_log := al_log l + 1\<rparr> else l)
         else (live, l))"

definition buckets_of :: "kind \<Rightarrow> authLimiter \<Rightarrow> buckets" where
  "buckets_of kd l = (case kd of Password \<Rightarrow> al_byIP l | Bearer \<Rightarrow> al_bearer l)"

definition set_buckets :: "kind \<Rightarrow> buckets \<Rightarrow> authLimiter \<Rightarrow> authLimiter" where
  "set_buckets kd bs l = (case kd of Password \<Rightarrow> l\<lparr>al_byIP := bs\<rparr> | Bearer \<Rightarrow> l\<lparr>al_bearer := bs\<rparr>)"

text \<open>The first critical section of \<^verbatim>\<open>failIn\<close>, in two parts: the bucket and the sleeper.\<close>

definition count_failure :: "kind \<Rightarrow> string \<Rightarrow> gotime \<Rightarrow> authLimiter \<Rightarrow> int \<times> authLimiter" where
  "count_failure kd key now l = (case map_of (buckets_of kd l) key of
      Some f \<Rightarrow>
        let n = (if Sub now (af_last f) > limitReset then 1 else af_n f + 1)
        in (n, set_buckets kd (AList.update key \<lparr>af_n = n, af_last = now\<rparr> (buckets_of kd l)) l)
    | None \<Rightarrow>
        let (bs, l1) = (if length (buckets_of kd l) \<ge> limitEntries then pruneBuckets now (buckets_of kd l) l else (buckets_of kd l, l))
        in (1, set_buckets kd (AList.update key \<lparr>af_n = 1, af_last = now\<rparr> bs) l1))"

definition begin_sleep :: "string \<Rightarrow> authLimiter \<Rightarrow> (string \<times> nat) \<times> authLimiter" where
  "begin_sleep addr l = (case map_of (al_sleeping l) addr of
      Some (i, n) \<Rightarrow> ((addr, i), l\<lparr>al_sleeping := AList.update addr (i, Suc n) (al_sleeping l)\<rparr>)
    | None \<Rightarrow> ((addr, al_next l), l\<lparr>al_sleeping := AList.update addr (al_next l, 1) (al_sleeping l), al_next := Suc (al_next l)\<rparr>))"

definition failIn :: "kind \<Rightarrow> string \<Rightarrow> gotime \<Rightarrow> authLimiter \<Rightarrow> (int \<times> duration \<times> (string \<times> nat) option) \<times> authLimiter" where
  "failIn kd ip now l =
     (let (n, l1) = count_failure kd (limitKey ip) now l; d = delayFor n
      in if d > 0 then (let (tk, l2) = begin_sleep (addrKey ip) l1 in ((n, d, Some tk), l2)) else ((n, d, None), l1))"

text \<open>The second critical section, after the delay.\<close>

definition failEnd :: "string \<times> nat \<Rightarrow> authLimiter \<Rightarrow> authLimiter" where
  "failEnd tk l = (case map_of (al_sleeping l) (fst tk) of
      Some (i, n) \<Rightarrow>
        if i = snd tk then
          (if n - 1 = 0 then l\<lparr>al_sleeping := AList.delete (fst tk) (al_sleeping l)\<rparr>
           else l\<lparr>al_sleeping := AList.update (fst tk) (i, n - 1) (al_sleeping l)\<rparr>)
        else l
    | None \<Rightarrow> l)"

definition busy :: "string \<Rightarrow> authLimiter \<Rightarrow> bool" where
  "busy ip l = (case map_of (al_sleeping l) (addrKey ip) of None \<Rightarrow> False | Some (i, n) \<Rightarrow> n \<ge> limitConcurrent)"

definition acquire :: "authLimiter \<Rightarrow> bool \<times> authLimiter" where
  "acquire l = (if al_slots l < limitHashConcurrent then (True, l\<lparr>al_slots := Suc (al_slots l)\<rparr>) else (False, l))"

definition release :: "authLimiter \<Rightarrow> authLimiter" where
  "release l = l\<lparr>al_slots := al_slots l - 1\<rparr>"

definition reset_pw :: "string \<Rightarrow> authLimiter \<Rightarrow> authLimiter" where
  "reset_pw ip l = l\<lparr>al_byIP := AList.delete (limitKey ip) (al_byIP l), al_sleeping := AList.delete (addrKey ip) (al_sleeping l)\<rparr>"

definition resetBearer :: "string \<Rightarrow> authLimiter \<Rightarrow> authLimiter" where
  "resetBearer ip l = l\<lparr>al_bearer := AList.delete (limitKey ip) (al_bearer l)\<rparr>"

section \<open>The request limiter of tokens\<close>

definition tokenRatePerSec :: int where "tokenRatePerSec = 20"
definition tokenRateBurst :: int where "tokenRateBurst = 40"
definition tokenRateEntries :: nat where "tokenRateEntries = 256"
definition tokenRateIdle :: duration where "tokenRateIdle = 10 * Minute"

record tokenBucket =
  tb_tokens :: rat
  tb_last :: gotime

type_synonym tokenLimiter = "(string, tokenBucket) gomap"

definition pruneIdle :: "gotime \<Rightarrow> tokenLimiter \<Rightarrow> tokenLimiter" where
  "pruneIdle now m =
     (let live = filter (\<lambda>(k, b). \<not> Sub now (tb_last b) > tokenRateIdle) m; k = oldest_key tb_last live
      in if length live \<ge> tokenRateEntries \<and> k \<noteq> [] then AList.delete k live else live)"

definition refill :: "gotime \<Rightarrow> tokenBucket \<Rightarrow> tokenBucket" where
  "refill now b =
     (let el = dur_Seconds (Sub now (tb_last b));
          t = (if el > 0 then (let x = f_add (tb_tokens b) (f_mul el (of_int tokenRatePerSec))
                               in if x > of_int tokenRateBurst then of_int tokenRateBurst else x)
               else tb_tokens b)
      in \<lparr>tb_tokens = t, tb_last = now\<rparr>)"

definition token_allow :: "string \<Rightarrow> gotime \<Rightarrow> tokenLimiter \<Rightarrow> bool \<times> tokenLimiter" where
  "token_allow tid now m =
     (let (b, m1) = (case map_of m tid of
            None \<Rightarrow> (\<lparr>tb_tokens = of_int tokenRateBurst, tb_last = now\<rparr>, if length m \<ge> tokenRateEntries then pruneIdle now m else m)
          | Some b \<Rightarrow> (refill now b, m))
      in if tb_tokens b < 1 then (False, AList.update tid b m1)
         else (True, AList.update tid (b\<lparr>tb_tokens := f_sub (tb_tokens b) 1\<rparr>) m1))"

section \<open>Delays\<close>

lemma delayFor_table:
  "n \<le> 5 \<Longrightarrow> delayFor n = 0" "delayFor 6 = 250 * Millisecond" "delayFor 7 = 500 * Millisecond"
  "delayFor 8 = Second" "9 \<le> n \<Longrightarrow> delayFor n = 2 * Second"
proof -
  show "n \<le> 5 \<Longrightarrow> delayFor n = 0" "delayFor 6 = 250 * Millisecond" "delayFor 7 = 500 * Millisecond" "delayFor 8 = Second"
    by (simp_all add: delayFor_def limitFree_def limitBase_def limitMax_def duration_units Let_def)
  assume n: "9 \<le> n"
  have "(2::int) ^ 3 \<le> 2 ^ nat (n - 6)" using n by (intro power_increasing) auto
  then show "delayFor n = 2 * Second"
    using n by (simp add: delayFor_def limitFree_def limitBase_def limitMax_def duration_units Let_def)
qed

lemma delayFor_range: "0 \<le> delayFor n \<and> delayFor n \<le> limitMax"
  by (auto simp: delayFor_def limitBase_def limitMax_def duration_units Let_def)

section \<open>Keys\<close>

lemma parseIPv4_length: "parseIPv4Fields s = Some b \<Longrightarrow> length b = 4"
  by (auto simp: parseIPv4Fields_def Let_def split: if_splits)

lemma finish_ipv6_length: "finish_ipv6 acc ell s = Some b \<Longrightarrow> length acc \<le> 16 \<Longrightarrow> length b = 16"
  by (auto simp: finish_ipv6_def split: if_splits option.splits)

lemma parse_groups_length: "parse_groups n acc ell s = Some b \<Longrightarrow> length acc + 2 * n = 16 \<Longrightarrow> length b = 16"
proof (induction n arbitrary: acc ell s)
  case 0
  then show ?case using finish_ipv6_length [of acc ell s b] by simp
next
  case (Suc n)
  define hx rest where "hx = takeWhile is_hex s" and "rest = dropWhile is_hex s"
  define acc' where "acc' = acc @ [hexdigits_val hx div 256, hexdigits_val hx mod 256]"
  have len: "length acc' + 2 * n = 16" using Suc.prems(2) by (simp add: acc'_def)
  consider bs where "parseIPv4Fields s = Some bs" "finish_ipv6 (acc @ bs) ell [] = Some b" "length acc + 4 \<le> 16"
    | el where "finish_ipv6 acc' el [] = Some b"
    | el r where "parse_groups n acc' el r = Some b"
    using Suc.prems(1) by (auto simp: Let_def acc'_def hx_def rest_def split: if_splits option.splits)
  then show ?case
  proof cases
    case 1
    then show ?thesis using parseIPv4_length [of s bs] finish_ipv6_length [of "acc @ bs" ell "[]" b] by simp
  next
    case 2
    then show ?thesis using finish_ipv6_length [of acc' _ "[]" b] len by simp
  next
    case 3
    then show ?thesis using Suc.IH len by blast
  qed
qed

lemma parseIPv6_length: "parseIPv6 s = Some b \<Longrightarrow> length b = 16"
  by (auto simp: parseIPv6_def split: if_splits dest!: parse_groups_length)

lemma parseAddr_length: "parseAddr ip = Some (A4 b) \<Longrightarrow> length b = 4"
proof -
  assume a: "parseAddr ip = Some (A4 b)"
  then obtain a0 where a0: "netip_ParseAddr ip = Some a0" "Unmap a0 = A4 b" by (auto simp: parseAddr_def)
  show "length b = 4"
  proof (cases a0)
    case (A4 c)
    then have "parseIPv4Fields ip = Some c"
      using a0(1) by (auto simp: netip_ParseAddr_def split: option.splits if_splits)
    then show ?thesis using parseIPv4_length a0(2) A4 by (simp add: Unmap_def)
  next
    case (A6 c)
    then obtain r where "parseIPv6 r = Some c"
      using a0(1) by (auto simp: netip_ParseAddr_def split: option.splits if_splits)
    then show ?thesis using parseIPv6_length [of r c] a0(2) A6 by (auto simp: Unmap_def split: if_splits)
  qed
qed

lemma Join_nonempty: "ws \<noteq> [] \<Longrightarrow> hd ws \<noteq> [] \<Longrightarrow> Join ws sep \<noteq> []"
  by (cases ws; cases "tl ws") auto

lemma limitKey_nonempty: "ip \<noteq> [] \<Longrightarrow> limitKey ip \<noteq> []"
proof -
  assume ip: "ip \<noteq> []"
  have "addr_text (A4 b) \<noteq> []" if "parseAddr ip = Some (A4 b)" for b
    using parseAddr_length [OF that] Itoa_not_word(2) Join_nonempty [of "map Itoa b" "''.''"] by (cases b) (auto simp: addr_text_def)
  then show ?thesis using ip by (auto simp: limitKey_def split: option.splits addr.splits)
qed

section \<open>Eviction\<close>

lemma oldest_loop_mem:
  "[] \<notin> fst ` set m \<Longrightarrow> fst acc \<noteq> [] \<or> m \<noteq> [] \<Longrightarrow>
     fst (oldest_loop at_of acc m) \<noteq> [] \<and> (oldest_loop at_of acc m = acc \<or> fst (oldest_loop at_of acc m) \<in> fst ` set m)"
proof (induction at_of acc m rule: oldest_loop.induct)
  case (1 at_of acc)
  then show ?case by simp
next
  case (2 at_of acc k v m)
  then show ?case by (cases "fst acc = [] \<or> Before (at_of v) (snd acc)") (auto split: if_splits)
qed

lemma oldest_key_mem: "[] \<notin> fst ` set m \<Longrightarrow> m \<noteq> [] \<Longrightarrow> oldest_key at_of m \<noteq> [] \<and> oldest_key at_of m \<in> fst ` set m"
  using oldest_loop_mem [of m "([], \<lparr>wall = 0, mono = None\<rparr>)" at_of] by (auto simp: oldest_key_def)

lemma delete_shorter: "k \<in> fst ` set m \<Longrightarrow> length (AList.delete k m) < length m"
  by (auto simp: AList.delete_eq case_prod_beta intro!: length_filter_less)

text \<open>A table that is bounded and has only real keys.\<close>

definition table_ok :: "nat \<Rightarrow> (string, 'v) gomap \<Rightarrow> bool" where
  "table_ok cap m \<longleftrightarrow> wf_map m \<and> length m \<le> cap \<and> [] \<notin> fst ` set m"

lemma table_ok_delete: "table_ok cap m \<Longrightarrow> table_ok cap (AList.delete k m)"
  by (auto simp: table_ok_def AList.delete_eq case_prod_beta intro: le_trans [OF length_filter_le])

lemma table_ok_filter: "table_ok cap m \<Longrightarrow> table_ok cap (filter P m)"
  by (auto simp: table_ok_def intro: le_trans [OF length_filter_le])

lemma table_ok_update:
  "table_ok cap m \<Longrightarrow> k \<noteq> [] \<Longrightarrow> k \<in> fst ` set m \<or> length m < cap \<Longrightarrow> table_ok cap (AList.update k v m)"
  by (auto simp: table_ok_def length_update_eq AList.dom_update split: if_splits)

text \<open>Dropping the expired entries and, when that is not enough, the oldest leaves room for one more.\<close>

lemma evict_room:
  assumes "table_ok cap m" "0 < cap"
  shows "let live = filter P m; k = oldest_key at_of live
    in table_ok cap (if length live \<ge> cap \<and> k \<noteq> [] then AList.delete k live else live) \<and>
       length (if length live \<ge> cap \<and> k \<noteq> [] then AList.delete k live else live) < cap"
proof -
  let ?live = "filter P m"
  have ok: "table_ok cap ?live" using assms(1) by (rule table_ok_filter)
  show ?thesis
  proof (cases "length ?live \<ge> cap")
    case True
    have "oldest_key at_of ?live \<noteq> [] \<and> oldest_key at_of ?live \<in> fst ` set ?live"
      using ok True assms(2) by (intro oldest_key_mem) (auto simp: table_ok_def)
    then show ?thesis
      using True ok table_ok_delete [OF ok] delete_shorter [of "oldest_key at_of ?live" ?live]
      by (auto simp: Let_def table_ok_def)
  next
    case False
    then show ?thesis using ok by (simp add: Let_def)
  qed
qed

section \<open>Invariants of the limiter\<close>

definition sleepers_ok :: "authLimiter \<Rightarrow> (string \<times> nat) multiset \<Rightarrow> bool" where
  "sleepers_ok l T \<longleftrightarrow> wf_map (al_sleeping l) \<and>
     (\<forall>a i n. map_of (al_sleeping l) a = Some (i, n) \<longrightarrow> n = count T (a, i) \<and> n > 0 \<and> i < al_next l) \<and>
     (\<forall>tk \<in># T. snd tk < al_next l)"

definition limiter_ok :: "authLimiter \<times> (string \<times> nat) multiset \<times> nat \<Rightarrow> bool" where
  "limiter_ok s \<longleftrightarrow> (case s of (l, T, h) \<Rightarrow>
     table_ok limitEntries (al_byIP l) \<and> table_ok limitEntries (al_bearer l) \<and> sleepers_ok l T \<and> al_slots l = h \<and> h \<le> limitHashConcurrent)"

text \<open>
  The interleavings of attempts: the attempts asleep are a multiset of tickets, \<open>h\<close> counts
  the password checks in flight.
\<close>

inductive lstep :: "authLimiter \<times> (string \<times> nat) multiset \<times> nat \<Rightarrow> authLimiter \<times> (string \<times> nat) multiset \<times> nat \<Rightarrow> bool" where
  fail_now: "failIn kd ip now l = ((n, d, None), l') \<Longrightarrow> ip \<noteq> [] \<Longrightarrow> lstep (l, T, h) (l', T, h)"
| fail_sleep: "failIn kd ip now l = ((n, d, Some tk), l') \<Longrightarrow> ip \<noteq> [] \<Longrightarrow> lstep (l, T, h) (l', add_mset tk T, h)"
| wake: "tk \<in># T \<Longrightarrow> lstep (l, T, h) (failEnd tk l, T - {#tk#}, h)"
| pw_ok: "lstep (l, T, h) (reset_pw ip l, T, h)"
| bearer_ok: "lstep (l, T, h) (resetBearer ip l, T, h)"
| hash_start: "acquire l = (True, l') \<Longrightarrow> lstep (l, T, h) (l', T, Suc h)"
| hash_end: "0 < h \<Longrightarrow> lstep (l, T, h) (release l, T, h - 1)"

inductive_cases lstep_elims: "lstep s s'"

lemma pruneBuckets_room:
  assumes "table_ok limitEntries bs" "pruneBuckets now bs l = (bs', l')"
  shows "table_ok limitEntries bs' \<and> length bs' < limitEntries \<and>
    al_byIP l' = al_byIP l \<and> al_bearer l' = al_bearer l \<and> al_sleeping l' = al_sleeping l \<and> al_next l' = al_next l \<and> al_slots l' = al_slots l"
  using evict_room [OF assms(1), of "\<lambda>(k, f). \<not> expired_bucket now f" af_last] assms(2)
  by (auto simp: pruneBuckets_def Let_def limitEntries_def split: if_splits)

lemma count_failure_keeps:
  assumes "count_failure kd key now l = (n, l')" "key \<noteq> []" "table_ok limitEntries (al_byIP l)" "table_ok limitEntries (al_bearer l)"
  shows "table_ok limitEntries (al_byIP l') \<and> table_ok limitEntries (al_bearer l') \<and>
    al_sleeping l' = al_sleeping l \<and> al_next l' = al_next l \<and> al_slots l' = al_slots l"
proof -
  let ?bs = "buckets_of kd l"
  have ok: "table_ok limitEntries ?bs" using assms(3,4) by (simp add: buckets_of_def split: kind.split)
  show ?thesis
  proof (cases "map_of ?bs key")
    case (Some f)
    then have "key \<in> fst ` set ?bs" by (force dest: map_of_SomeD)
    then have "table_ok limitEntries (AList.update key v ?bs)" for v using ok assms(2) by (intro table_ok_update) auto
    then show ?thesis
      using assms Some by (auto simp: count_failure_def Let_def set_buckets_def split: kind.splits)
  next
    case None
    obtain bs l1 where p: "(if length ?bs \<ge> limitEntries then pruneBuckets now ?bs l else (?bs, l)) = (bs, l1)"
      by (metis surj_pair)
    have r: "table_ok limitEntries bs" "length bs < limitEntries" "al_byIP l1 = al_byIP l" "al_bearer l1 = al_bearer l"
      "al_sleeping l1 = al_sleeping l" "al_next l1 = al_next l" "al_slots l1 = al_slots l"
      using p ok pruneBuckets_room [OF ok, of now l bs l1] by (auto split: if_splits)
    have "table_ok limitEntries (AList.update key v bs)" for v using r(1,2) assms(2) by (intro table_ok_update) auto
    then show ?thesis
      using assms None p r by (auto simp: count_failure_def set_buckets_def split: kind.splits)
  qed
qed

lemma begin_sleep_ok:
  assumes "begin_sleep a l = (tk, l')" "sleepers_ok l T"
  shows "sleepers_ok l' (add_mset tk T) \<and> al_byIP l' = al_byIP l \<and> al_bearer l' = al_bearer l \<and> al_slots l' = al_slots l"
proof (cases "map_of (al_sleeping l) a")
  case None
  have fresh: "count T (x, al_next l) = 0" for x using assms(2) by (auto simp: sleepers_ok_def not_in_iff [symmetric])
  then show ?thesis
    using assms None by (auto simp: begin_sleep_def sleepers_ok_def update_conv' less_SucI split: if_splits)
next
  case (Some p)
  then show ?thesis
    using assms by (cases p) (auto simp: begin_sleep_def sleepers_ok_def update_conv' split: if_splits)
qed

lemma failEnd_ok:
  assumes "tk \<in># T" "sleepers_ok l T"
  shows "sleepers_ok (failEnd tk l) (T - {#tk#}) \<and> al_byIP (failEnd tk l) = al_byIP l \<and> al_bearer (failEnd tk l) = al_bearer l \<and> al_slots (failEnd tk l) = al_slots l"
proof -
  obtain a i where tk: "tk = (a, i)" by (cases tk)
  show ?thesis
  proof (cases "map_of (al_sleeping l) a")
    case None
    then show ?thesis using assms by (auto simp: failEnd_def sleepers_ok_def tk dest: in_diffD)
  next
    case (Some p)
    then show ?thesis
      using assms by (cases p) (auto simp: failEnd_def sleepers_ok_def tk update_conv' delete_conv' dest: in_diffD split: if_splits)
  qed
qed

lemma reset_ok: "sleepers_ok l T \<Longrightarrow> sleepers_ok (reset_pw ip l) T"
  by (auto simp: sleepers_ok_def reset_pw_def delete_conv' split: if_splits)

lemma lstep_ok: "lstep s s' \<Longrightarrow> limiter_ok s \<Longrightarrow> limiter_ok s'"
proof (induction rule: lstep.induct)
  case (fail_now kd ip now l n d l' T h)
  obtain n1 l1 where c: "count_failure kd (limitKey ip) now l = (n1, l1)" by fastforce
  have "l' = l1" using fail_now(1) c by (auto simp: failIn_def Let_def split: if_splits prod.splits)
  with count_failure_keeps [OF c limitKey_nonempty [OF fail_now(2)]] fail_now(3) show ?case
    by (auto simp: limiter_ok_def sleepers_ok_def)
next
  case (fail_sleep kd ip now l n d tk l' T h)
  obtain n1 l1 where c: "count_failure kd (limitKey ip) now l = (n1, l1)" by fastforce
  have b: "begin_sleep (addrKey ip) l1 = (tk, l')"
    using fail_sleep(1) c by (auto simp: failIn_def Let_def split: if_splits prod.splits)
  note k = count_failure_keeps [OF c limitKey_nonempty [OF fail_sleep(2)]]
  have "sleepers_ok l1 T" using k fail_sleep(3) by (auto simp: limiter_ok_def sleepers_ok_def)
  with begin_sleep_ok [OF b] k fail_sleep(3) show ?case by (auto simp: limiter_ok_def)
next
  case (wake tk T l h)
  then show ?case using failEnd_ok [of tk T l] by (auto simp: limiter_ok_def)
next
  case (pw_ok l T h ip)
  then show ?case using reset_ok [of l T ip] by (auto simp: limiter_ok_def reset_pw_def table_ok_delete)
next
  case (bearer_ok l T h ip)
  then show ?case by (auto simp: limiter_ok_def resetBearer_def table_ok_delete sleepers_ok_def)
next
  case (hash_start l l' T h)
  then show ?case by (auto simp: limiter_ok_def acquire_def sleepers_ok_def split: if_splits)
next
  case (hash_end h l T)
  then show ?case by (auto simp: limiter_ok_def release_def sleepers_ok_def)
qed

lemma limiter_ok_new: "limiter_ok (newAuthLimiter, {#}, 0)"
  by (simp add: limiter_ok_def newAuthLimiter_def table_ok_def sleepers_ok_def wf_map_def)



section \<open>Repeated failures\<close>

fun fail_run :: "kind \<Rightarrow> string \<Rightarrow> gotime list \<Rightarrow> authLimiter \<Rightarrow> (int \<times> duration) list" where
  "fail_run kd ip [] l = []"
| "fail_run kd ip (t # ts) l = (case failIn kd ip t l of ((n, d, tk), l') \<Rightarrow> (n, d) # fail_run kd ip ts l')"

fun gaps_ok :: "gotime list \<Rightarrow> bool" where
  "gaps_ok (a # b # ts) \<longleftrightarrow> Sub b a \<le> limitReset \<and> gaps_ok (b # ts)"
| "gaps_ok ts \<longleftrightarrow> True"

lemma buckets_begin_sleep [simp]: "buckets_of kd (snd (begin_sleep a l)) = buckets_of kd l"
  by (auto simp: begin_sleep_def buckets_of_def split: option.splits kind.splits)

lemma buckets_set [simp]: "buckets_of kd (set_buckets kd bs l) = bs"
  by (simp add: buckets_of_def set_buckets_def split: kind.split)

lemma failIn_bucket:
  assumes "count_failure kd (limitKey ip) t l = (n, l1)"
  shows "\<exists>tk l'. failIn kd ip t l = ((n, delayFor n, tk), l') \<and> buckets_of kd l' = buckets_of kd l1"
  using assms by (auto simp: failIn_def Let_def case_prod_beta)

lemma fail_run_from:
  assumes "map_of (buckets_of kd l) (limitKey ip) = Some \<lparr>af_n = c, af_last = t0\<rparr>" "gaps_ok (t0 # ts)"
  shows "fail_run kd ip ts l = map (\<lambda>i. (c + int i, delayFor (c + int i))) [1..<Suc (length ts)]"
  using assms
proof (induction ts arbitrary: l c t0)
  case (Cons t ts)
  have c: "count_failure kd (limitKey ip) t l =
      (c + 1, set_buckets kd (AList.update (limitKey ip) \<lparr>af_n = c + 1, af_last = t\<rparr> (buckets_of kd l)) l)"
    using Cons.prems by (simp add: count_failure_def Let_def)
  obtain tk l' where f: "failIn kd ip t l = ((c + 1, delayFor (c + 1), tk), l')"
    "map_of (buckets_of kd l') (limitKey ip) = Some \<lparr>af_n = c + 1, af_last = t\<rparr>"
    using failIn_bucket [OF c] by (auto simp: update_conv')
  have "fail_run kd ip ts l' = map (\<lambda>i. (c + 1 + int i, delayFor (c + 1 + int i))) [1..<Suc (length ts)]"
    using Cons.prems(2) by (intro Cons.IH [OF f(2)]) simp
  also have "\<dots> = map (\<lambda>i. (c + int i, delayFor (c + int i))) (map Suc [1..<Suc (length ts)])"
    by (simp add: algebra_simps)
  also have "map Suc [1..<Suc (length ts)] = [2..<Suc (Suc (length ts))]" by (simp only: map_Suc_upt Suc_1)
  finally show ?case using f(1) upt_conv_Cons [of 1 "Suc (Suc (length ts))"] by (simp add: numeral_2_eq_2)
qed simp

text \<open>
  Consecutive failures of one source, each within ten minutes of the last, are counted from
  one and delayed accordingly: the first five not at all, then 250 ms, 500 ms, 1 s, and 2 s
  from the ninth on.
\<close>

theorem repeated_failures_delayed:
  assumes "map_of (buckets_of kd l) (limitKey ip) = None" "length (buckets_of kd l) < limitEntries" "gaps_ok ts"
  shows "fail_run kd ip ts l = map (\<lambda>i. (int i, if i \<le> 5 then 0 else if i = 6 then 250 * Millisecond
    else if i = 7 then 500 * Millisecond else if i = 8 then Second else 2 * Second)) [1..<Suc (length ts)]"
proof (cases ts)
  case Nil
  then show ?thesis by simp
next
  case (Cons t ts')
  have c: "count_failure kd (limitKey ip) t l = (1, set_buckets kd (AList.update (limitKey ip) \<lparr>af_n = 1, af_last = t\<rparr> (buckets_of kd l)) l)"
    using assms(1,2) by (simp add: count_failure_def)
  obtain tk l' where f: "failIn kd ip t l = ((1, delayFor 1, tk), l')"
    "map_of (buckets_of kd l') (limitKey ip) = Some \<lparr>af_n = 1, af_last = t\<rparr>"
    using failIn_bucket [OF c] by (auto simp: update_conv')
  have "fail_run kd ip ts' l' = map (\<lambda>i. (1 + int i, delayFor (1 + int i))) [1..<Suc (length ts')]"
    using assms(3) Cons by (intro fail_run_from [OF f(2)]) simp
  also have "\<dots> = map (\<lambda>i. (int i, delayFor (int i))) (map Suc [1..<Suc (length ts')])" by simp
  also have "map Suc [1..<Suc (length ts')] = [2..<Suc (Suc (length ts'))]" by (simp only: map_Suc_upt Suc_1)
  finally have "fail_run kd ip ts l = map (\<lambda>i. (int i, delayFor (int i))) [1..<Suc (length ts)]"
    using f(1) Cons upt_conv_Cons [of 1 "Suc (Suc (length ts'))"] by (simp add: numeral_2_eq_2)
  also have "\<dots> = map (\<lambda>i. (int i, if i \<le> 5 then 0 else if i = 6 then 250 * Millisecond
      else if i = 7 then 500 * Millisecond else if i = 8 then Second else 2 * Second)) [1..<Suc (length ts)]"
  proof (rule map_cong [OF refl])
    fix i assume "i \<in> set [1..<Suc (length ts)]"
    have "i \<le> 5 \<or> i = 6 \<or> i = 7 \<or> i = 8 \<or> 9 \<le> i" by linarith
    then show "(int i, delayFor (int i)) = (int i, if i \<le> 5 then 0 else if i = 6 then 250 * Millisecond
        else if i = 7 then 500 * Millisecond else if i = 8 then Second else 2 * Second)"
      by (elim disjE) (simp_all add: delayFor_table)
  qed
  finally show ?thesis .
qed

theorem repeated_failures_delayed_witness:
  "fail_run Password ''10.0.0.9'' (replicate 7 \<lparr>wall = 5, mono = None\<rparr>) newAuthLimiter =
     [(1, 0), (2, 0), (3, 0), (4, 0), (5, 0), (6, 250000000), (7, 500000000)]"
proof -
  have g: "gaps_ok (replicate 7 \<lparr>wall = 5, mono = None\<rparr>)" by code_simp
  have "map_of (buckets_of Password newAuthLimiter) (limitKey ''10.0.0.9'') = None" "length (buckets_of Password newAuthLimiter) < limitEntries"
    by (simp_all add: buckets_of_def newAuthLimiter_def limitEntries_def)
  from repeated_failures_delayed [OF this g] show ?thesis by (simp add: upt_rec Millisecond_def)
qed

section \<open>The request limiter\<close>

fun allow_run :: "string \<Rightarrow> gotime \<Rightarrow> nat \<Rightarrow> tokenLimiter \<Rightarrow> bool list" where
  "allow_run tid now 0 m = []"
| "allow_run tid now (Suc k) m = (case token_allow tid now m of (ok, m') \<Rightarrow> ok # allow_run tid now k m')"

lemma refill_now [simp]: "tb_last b = now \<Longrightarrow> refill now b = b"
  by (simp add: refill_def dur_Seconds_def f_add_def f_int_def f_div_def rnd64_def tquot_def trem_def Let_def)

lemma allow_run_from:
  "map_of m tid = Some \<lparr>tb_tokens = of_int (int j), tb_last = now\<rparr> \<Longrightarrow> j \<le> 40 \<Longrightarrow>
     allow_run tid now k m = replicate (min j k) True @ replicate (k - j) False"
proof (induction k arbitrary: m j)
  case (Suc k)
  show ?case
  proof (cases j)
    case 0
    have "token_allow tid now m = (False, AList.update tid \<lparr>tb_tokens = 0, tb_last = now\<rparr> m)"
      using Suc.prems 0 by (simp add: token_allow_def)
    moreover have "map_of (AList.update tid \<lparr>tb_tokens = 0, tb_last = now\<rparr> m) tid = Some \<lparr>tb_tokens = of_int (int 0), tb_last = now\<rparr>"
      by (simp add: update_conv')
    from Suc.IH [OF this] have "allow_run tid now k (AList.update tid \<lparr>tb_tokens = 0, tb_last = now\<rparr> m) = replicate k False" by simp
    ultimately show ?thesis by (simp add: 0)
  next
    case (Suc i)
    have ex: "f_sub (of_int (int j)) 1 = of_int (int i)"
      using f64.rnd_int [of "int i"] Suc.prems Suc by (simp add: f_sub_def)
    let ?m = "AList.update tid \<lparr>tb_tokens = of_int (int i), tb_last = now\<rparr> m"
    have "token_allow tid now m = (True, ?m)"
      using Suc.prems Suc ex by (simp add: token_allow_def)
    moreover have "allow_run tid now k ?m = replicate (min i k) True @ replicate (k - i) False"
      using Suc.prems Suc by (intro Suc.IH) (simp_all add: update_conv')
    ultimately show ?thesis by (simp add: Suc)
  qed
qed simp

text \<open>
  A token that was not seen before gets exactly a burst of 40 requests at one instant; every
  further one is refused.
\<close>

theorem token_burst:
  assumes "map_of m tid = None"
  shows "allow_run tid now k m = replicate (min 40 k) True @ replicate (k - 40) False"
proof (cases k)
  case (Suc j)
  let ?m1 = "if length m \<ge> tokenRateEntries then pruneIdle now m else m"
  let ?m2 = "AList.update tid \<lparr>tb_tokens = of_int (int 39), tb_last = now\<rparr> ?m1"
  have ex: "f_sub 40 1 = (39 :: rat)" using f64.rnd_int [of 39] by (simp add: f_sub_def)
  have a: "token_allow tid now m = (True, ?m2)"
    using assms ex by (simp add: token_allow_def tokenRateBurst_def)
  have "allow_run tid now j ?m2 = replicate (min 39 j) True @ replicate (j - 39) False"
    by (intro allow_run_from) (simp_all add: update_conv')
  then show ?thesis using Suc a by simp
qed simp

theorem token_burst_witness:
  "allow_run ''1a2b3c4d'' \<lparr>wall = 0, mono = Some 0\<rparr> 41 [] = replicate 40 True @ [False]"
  using token_burst [of "[]" "''1a2b3c4d''" "\<lparr>wall = 0, mono = Some 0\<rparr>" 41] by simp

end
