(* ===== verification/WebStores.thy ===== *)
theory WebStores
  imports ConfigOk WebLimit
begin

text \<open>
  Package \<^verbatim>\<open>internal/web\<close>, the credential stores: the cookie sessions of \<^verbatim>\<open>session.go\<close> and the
  API tokens of \<^verbatim>\<open>token.go\<close>. The stores keep the hash of a secret only. The hash function,
  the JSON file (encoder, decoder and atomic write) and the random bytes are parameters;
  the instants are arguments. What both stores promise is the locale \<open>credential_store\<close>.
\<close>

section \<open>Shared helpers\<close>

text \<open>\<^verbatim>\<open>base64.RawURLEncoding\<close>.\<close>

definition b64_char :: "int \<Rightarrow> char" where
  "b64_char n = ''ABCDEFGHIJKLMNOPQRSTUVWXYZabcdefghijklmnopqrstuvwxyz0123456789-_'' ! nat n"

fun RawURLEncoding :: "int list \<Rightarrow> string" where
  "RawURLEncoding (a # b # c # bs) =
     [b64_char (a div 4), b64_char (a mod 4 * 16 + b div 16), b64_char (b mod 16 * 4 + c div 64), b64_char (c mod 64)] @ RawURLEncoding bs"
| "RawURLEncoding [a, b] = [b64_char (a div 4), b64_char (a mod 4 * 16 + b div 16), b64_char (b mod 16 * 4)]"
| "RawURLEncoding [a] = [b64_char (a div 4), b64_char (a mod 4 * 16)]"
| "RawURLEncoding [] = []"

fun insert_by :: "('a \<Rightarrow> 'a \<Rightarrow> bool) \<Rightarrow> 'a \<Rightarrow> 'a list \<Rightarrow> 'a list" where
  "insert_by lt x [] = [x]"
| "insert_by lt x (y # ys) = (if lt y x then y # insert_by lt x ys else x # y # ys)"

definition sort_by :: "('a \<Rightarrow> 'a \<Rightarrow> bool) \<Rightarrow> 'a list \<Rightarrow> 'a list" where
  "sort_by lt xs = foldr (insert_by lt) xs []"

record ('f, 'w) mirror =
  mi_path :: bool
  mi_read :: "'w \<Rightarrow> goerror + (goerror + 'f)"
  mi_write :: "'f \<Rightarrow> 'w \<Rightarrow> goerror option \<times> 'w"

section \<open>Sessions\<close>

definition sessionTTL :: duration where "sessionTTL = 12 * Hour"
definition sessionRememberTTL :: duration where "sessionRememberTTL = 30 * 24 * Hour"
definition sessionMax :: nat where "sessionMax = 50"
definition sessionTouch :: duration where "sessionTouch = Minute"

record Session =
  se_ID :: string
  se_User :: string
  se_IP :: string
  se_Created :: gotime
  se_Expires :: gotime
  se_LastSeen :: gotime
  se_Remember :: bool

record sessionFile =
  sf_Format :: int
  sf_Epoch :: string
  sf_Sessions :: "(string \<times> Session) list"

record 'w sessionStore =
  ss_epoch :: string
  ss_byKey :: "(string, Session) gomap"
  ss_writeFailed :: bool
  ss_log :: "msg list"
  ss_world :: 'w

definition ss_saveLocked :: "(sessionFile, 'w) mirror \<Rightarrow> 'w sessionStore \<Rightarrow> 'w sessionStore" where
  "ss_saveLocked mi s =
     (if \<not> mi_path mi then s
      else case mi_write mi \<lparr>sf_Format = 1, sf_Epoch = ss_epoch s, sf_Sessions = sort_by (\<lambda>a b. fst a < fst b) (ss_byKey s)\<rparr> (ss_world s) of
             (Some e, w) \<Rightarrow>
               if \<not> ss_writeFailed s
               then s\<lparr>ss_world := w, ss_writeFailed := True, ss_log := ss_log s @ [Msg ''web: sessions: write %s: %v (continuing in memory)'' [AE e]]\<rparr>
               else s\<lparr>ss_world := w\<rparr>
           | (None, w) \<Rightarrow> s\<lparr>ss_world := w, ss_writeFailed := False\<rparr>)"

definition live_session :: "gotime \<Rightarrow> Session \<Rightarrow> bool" where
  "live_session now e \<longleftrightarrow> After (se_Expires e) now"

definition ss_prune :: "gotime \<Rightarrow> (string, Session) gomap \<Rightarrow> (string, Session) gomap" where
  "ss_prune now m = filter (\<lambda>(k, e). live_session now e) m"

definition dropOldest :: "(string, Session) gomap \<Rightarrow> (string, Session) gomap" where
  "dropOldest m = (let k = oldest_key se_Created m in if k \<noteq> [] then AList.delete k m else m)"

text \<open>
  The loop \<^verbatim>\<open>for len(s.byKey) >= cap\<close>: every round drops an entry (the keys are not empty), so as
  many rounds as entries are enough.
\<close>

fun drop_rounds :: "nat \<Rightarrow> nat \<Rightarrow> (string, Session) gomap \<Rightarrow> (string, Session) gomap" where
  "drop_rounds 0 cap m = m"
| "drop_rounds (Suc n) cap m = (if length m < cap then m else drop_rounds n cap (dropOldest m))"

definition drop_to :: "nat \<Rightarrow> (string, Session) gomap \<Rightarrow> (string, Session) gomap" where
  "drop_to cap m = drop_rounds (length m) cap m"

definition sessionToken :: "int list \<Rightarrow> string" where
  "sessionToken raw = RawURLEncoding raw"

definition ss_ttl :: "bool \<Rightarrow> duration" where
  "ss_ttl remember = (if remember then sessionRememberTTL else sessionTTL)"

definition ss_Create ::
  "(string \<Rightarrow> string) \<Rightarrow> (sessionFile, 'w) mirror \<Rightarrow> goerror + int list \<Rightarrow> string \<Rightarrow> bool \<Rightarrow> string \<Rightarrow> gotime \<Rightarrow> 'w sessionStore
   \<Rightarrow> (goerror + string \<times> Session) \<times> 'w sessionStore" where
  "ss_Create sha mi rand user remember ip now s = (case rand of
      Inl e \<Rightarrow> (Inl e, s)
    | Inr raw \<Rightarrow>
        let token = sessionToken raw; key = sha token;
            sess = \<lparr>se_ID = take 8 key, se_User = user, se_IP = ip, se_Created = now, se_Expires = Add now (ss_ttl remember),
                    se_LastSeen = now, se_Remember = remember\<rparr>;
            m = drop_to sessionMax (ss_prune now (ss_byKey s))
        in (Inr (token, sess), ss_saveLocked mi (s\<lparr>ss_byKey := AList.update key sess m\<rparr>)))"

definition ss_Lookup ::
  "(string \<Rightarrow> string) \<Rightarrow> (sessionFile, 'w) mirror \<Rightarrow> string \<Rightarrow> gotime \<Rightarrow> 'w sessionStore \<Rightarrow> Session option \<times> 'w sessionStore" where
  "ss_Lookup sha mi token now s =
     (if token = [] then (None, s)
      else case map_of (ss_byKey s) (sha token) of
             None \<Rightarrow> (None, s)
           | Some sess \<Rightarrow>
               if \<not> live_session now sess then (None, ss_saveLocked mi (s\<lparr>ss_byKey := AList.delete (sha token) (ss_byKey s)\<rparr>))
               else if Sub now (se_LastSeen sess) \<ge> sessionTouch then
                 (let sess' = sess\<lparr>se_LastSeen := now\<rparr>
                  in (Some sess', ss_saveLocked mi (s\<lparr>ss_byKey := AList.update (sha token) sess' (ss_byKey s)\<rparr>)))
               else (Some sess, s))"

definition ss_Revoke :: "(string \<Rightarrow> string) \<Rightarrow> (sessionFile, 'w) mirror \<Rightarrow> string \<Rightarrow> 'w sessionStore \<Rightarrow> 'w sessionStore" where
  "ss_Revoke sha mi token s =
     (if token = [] then s
      else case map_of (ss_byKey s) (sha token) of
             None \<Rightarrow> s
           | Some _ \<Rightarrow> ss_saveLocked mi (s\<lparr>ss_byKey := AList.delete (sha token) (ss_byKey s)\<rparr>))"

definition rename_kept :: "string \<Rightarrow> Session \<Rightarrow> Session" where
  "rename_kept newUser e = (if newUser \<noteq> [] \<and> se_User e \<noteq> newUser then e\<lparr>se_User := newUser\<rparr> else e)"

definition ss_RevokeAllRename ::
  "(string \<Rightarrow> string) \<Rightarrow> (sessionFile, 'w) mirror \<Rightarrow> string \<Rightarrow> string \<Rightarrow> 'w sessionStore \<Rightarrow> 'w sessionStore" where
  "ss_RevokeAllRename sha mi keepToken newUser s =
     (let keep = (if keepToken \<noteq> [] then sha keepToken else []);
          m = map (\<lambda>(k, e). (k, rename_kept newUser e)) (filter (\<lambda>(k, e). k = keep) (ss_byKey s))
      in if m \<noteq> ss_byKey s then ss_saveLocked mi (s\<lparr>ss_byKey := m\<rparr>) else s)"

definition session_before :: "Session \<Rightarrow> Session \<Rightarrow> bool" where
  "session_before a b \<longleftrightarrow>
     (if Sub (se_Created a) (se_Created b) \<noteq> 0 then After (se_Created a) (se_Created b) else se_ID a < se_ID b)"

definition ss_List :: "(sessionFile, 'w) mirror \<Rightarrow> gotime \<Rightarrow> 'w sessionStore \<Rightarrow> Session list \<times> 'w sessionStore" where
  "ss_List mi now s =
     (let m = ss_prune now (ss_byKey s);
          s1 = (if m \<noteq> ss_byKey s then ss_saveLocked mi (s\<lparr>ss_byKey := m\<rparr>) else s)
      in (sort_by session_before (map snd m), s1))"

definition ss_SetEpoch :: "(sessionFile, 'w) mirror \<Rightarrow> string \<Rightarrow> 'w sessionStore \<Rightarrow> 'w sessionStore" where
  "ss_SetEpoch mi epoch s = (if ss_epoch s = epoch then s else ss_saveLocked mi (s\<lparr>ss_epoch := epoch\<rparr>))"

fun load_sessions :: "gotime \<Rightarrow> (string \<times> Session) list \<Rightarrow> (string, Session) gomap \<Rightarrow> (string, Session) gomap" where
  "load_sessions now [] m = m"
| "load_sessions now ((k, e) # es) m =
     load_sessions now es (if length k \<noteq> 64 \<or> \<not> live_session now e then m else AList.update k (e\<lparr>se_ID := take 8 k\<rparr>) m)"

definition NewSessionStoreEpoch :: "(sessionFile, 'w) mirror \<Rightarrow> string \<Rightarrow> gotime \<Rightarrow> 'w \<Rightarrow> 'w sessionStore" where
  "NewSessionStoreEpoch mi epoch now w =
     (let s = \<lparr>ss_epoch = epoch, ss_byKey = [], ss_writeFailed = False, ss_log = [], ss_world = w\<rparr>
      in if \<not> mi_path mi then s
         else case mi_read mi w of
                Inl e \<Rightarrow> if errors_Is e ErrNotExist then s
                         else s\<lparr>ss_log := [Msg ''web: sessions: read %s: %v (starting empty)'' [AE e]]\<rparr>
              | Inr (Inl e) \<Rightarrow> s\<lparr>ss_log := [Msg ''web: sessions: %s: %v (starting empty)'' [AE e]]\<rparr>
              | Inr (Inr f) \<Rightarrow>
                  if epoch \<noteq> [] \<and> sf_Epoch f \<noteq> epoch then
                    (if sf_Sessions f \<noteq> []
                     then s\<lparr>ss_log := [Msg ''web: sessions: credentials changed since %s was written, %d session(s) dropped'' [AI (int (length (sf_Sessions f)))]]\<rparr>
                     else s)
                  else s\<lparr>ss_byKey := drop_to (Suc sessionMax) (load_sessions now (sf_Sessions f) [])\<rparr>)"

section \<open>Tokens\<close>

definition tokenPrefix :: string where "tokenPrefix = ''n5t_''"
definition tokenMax :: nat where "tokenMax = 50"
definition tokenTouch :: duration where "tokenTouch = Minute"
definition tokenIDLen :: nat where "tokenIDLen = 8"

definition scopeRank :: "string \<Rightarrow> int" where
  "scopeRank s = (if s = ''read'' then 1 else if s = ''control'' then 2 else if s = ''admin'' then 3 else 0)"

definition ScopeAllows :: "string \<Rightarrow> string \<Rightarrow> bool" where
  "ScopeAllows hv need \<longleftrightarrow> scopeRank hv \<ge> scopeRank need \<and> scopeRank need > 0"

definition TokenNameRe :: "string \<Rightarrow> bool" where
  "TokenNameRe s \<longleftrightarrow> 1 \<le> length s \<and> length s \<le> 32 \<and> in_class [] (hd s) \<and> list_all (in_class '' ._-'') (tl s)"

definition ValidTokenID :: "string \<Rightarrow> bool" where
  "ValidTokenID tid \<longleftrightarrow> length tid = tokenIDLen \<and> hex_DecodeString tid \<noteq> None"

text \<open>The zero instant (never expires, never used) is \<open>None\<close>.\<close>

record Token =
  tk_ID :: string
  tk_Name :: string
  tk_Scope :: string
  tk_Created :: gotime
  tk_Expires :: "gotime option"
  tk_LastUsed :: "gotime option"
  tk_LastIP :: string

datatype token_error = ErrTokenName | ErrTokenScope | ErrTokenTaken | ErrTokenLimit | ErrRandom goerror

record tokenFile =
  tf_Format :: int
  tf_Tokens :: "(string \<times> Token) list"

record 'w tokenStore =
  ts_byKey :: "(string, Token) gomap"
  ts_writeFailed :: bool
  ts_log :: "msg list"
  ts_world :: 'w

definition Expired :: "Token \<Rightarrow> gotime \<Rightarrow> bool" where
  "Expired t now = (case tk_Expires t of None \<Rightarrow> False | Some e \<Rightarrow> \<not> After e now)"

definition ts_saveLocked :: "(tokenFile, 'w) mirror \<Rightarrow> 'w tokenStore \<Rightarrow> 'w tokenStore" where
  "ts_saveLocked mi s =
     (if \<not> mi_path mi then s
      else case mi_write mi \<lparr>tf_Format = 1, tf_Tokens = sort_by (\<lambda>a b. fst a < fst b) (ts_byKey s)\<rparr> (ts_world s) of
             (Some e, w) \<Rightarrow>
               if \<not> ts_writeFailed s
               then s\<lparr>ts_world := w, ts_writeFailed := True, ts_log := ts_log s @ [Msg ''web: tokens: write %s: %v (continuing in memory)'' [AE e]]\<rparr>
               else s\<lparr>ts_world := w\<rparr>
           | (None, w) \<Rightarrow> s\<lparr>ts_world := w, ts_writeFailed := False\<rparr>)"

definition tokenSecret :: "int list \<Rightarrow> string" where
  "tokenSecret raw = tokenPrefix @ RawURLEncoding raw"

definition ts_Create ::
  "(string \<Rightarrow> string) \<Rightarrow> (tokenFile, 'w) mirror \<Rightarrow> goerror + int list \<Rightarrow> string \<Rightarrow> string \<Rightarrow> gotime option \<Rightarrow> gotime \<Rightarrow> 'w tokenStore
   \<Rightarrow> (token_error + string \<times> Token) \<times> 'w tokenStore" where
  "ts_Create sha mi rand name scope0 expires now s =
     (if \<not> TokenNameRe name then (Inl ErrTokenName, s)
      else let scope = (if scope0 = [] then ''read'' else scope0)
           in if scopeRank scope = 0 then (Inl ErrTokenScope, s)
              else case rand of
                     Inl e \<Rightarrow> (Inl (ErrRandom e), s)
                   | Inr raw \<Rightarrow>
                       let secret = tokenSecret raw; key = sha secret;
                           t = \<lparr>tk_ID = take tokenIDLen key, tk_Name = name, tk_Scope = scope, tk_Created = now, tk_Expires = expires,
                                tk_LastUsed = None, tk_LastIP = []\<rparr>
                       in if list_ex (\<lambda>(k, cur). EqualFold (tk_Name cur) name) (ts_byKey s) then (Inl ErrTokenTaken, s)
                          else if length (ts_byKey s) \<ge> tokenMax then (Inl ErrTokenLimit, s)
                          else (Inr (secret, t), ts_saveLocked mi (s\<lparr>ts_byKey := AList.update key t (ts_byKey s)\<rparr>)))"

text \<open>\<^verbatim>\<open>Lookup\<close>: the token, and whether a refused one was expired.\<close>

definition ts_Lookup ::
  "(string \<Rightarrow> string) \<Rightarrow> (tokenFile, 'w) mirror \<Rightarrow> string \<Rightarrow> string \<Rightarrow> gotime \<Rightarrow> 'w tokenStore \<Rightarrow> (Token option \<times> bool) \<times> 'w tokenStore" where
  "ts_Lookup sha mi secret ip now s =
     (if \<not> HasPrefix secret tokenPrefix then ((None, False), s)
      else case map_of (ts_byKey s) (sha secret) of
             None \<Rightarrow> ((None, False), s)
           | Some t \<Rightarrow>
               if Expired t now then ((None, True), s)
               else if (case tk_LastUsed t of None \<Rightarrow> True | Some u \<Rightarrow> Sub now u \<ge> tokenTouch \<or> Before now u) then
                 (let t' = t\<lparr>tk_LastUsed := Some now, tk_LastIP := ip\<rparr>
                  in ((Some t', False), ts_saveLocked mi (s\<lparr>ts_byKey := AList.update (sha secret) t' (ts_byKey s)\<rparr>)))
               else ((Some t, False), s))"

definition ts_Revoke :: "(tokenFile, 'w) mirror \<Rightarrow> string \<Rightarrow> 'w tokenStore \<Rightarrow> bool \<times> 'w tokenStore" where
  "ts_Revoke mi tid s = (case find (\<lambda>(k, t). tk_ID t = tid) (ts_byKey s) of
      None \<Rightarrow> (False, s)
    | Some (k, t) \<Rightarrow> (True, ts_saveLocked mi (s\<lparr>ts_byKey := AList.delete k (ts_byKey s)\<rparr>)))"

definition token_before :: "Token \<Rightarrow> Token \<Rightarrow> bool" where
  "token_before a b \<longleftrightarrow>
     (if Sub (tk_Created a) (tk_Created b) \<noteq> 0 then After (tk_Created a) (tk_Created b) else tk_ID a < tk_ID b)"

definition ts_List :: "'w tokenStore \<Rightarrow> Token list" where
  "ts_List s = sort_by token_before (map snd (ts_byKey s))"

fun load_tokens :: "(string \<times> Token) list \<Rightarrow> (string, Token) gomap \<Rightarrow> (string, Token) gomap" where
  "load_tokens [] m = m"
| "load_tokens ((k, t) # ts) m =
     (if length k \<noteq> 64 \<or> \<not> TokenNameRe (tk_Name t) \<or> scopeRank (tk_Scope t) = 0 then load_tokens ts m
      else let m' = AList.update k (t\<lparr>tk_ID := take tokenIDLen k\<rparr>) m
           in if length m' \<ge> tokenMax then m' else load_tokens ts m')"

definition NewTokenStore :: "(tokenFile, 'w) mirror \<Rightarrow> 'w \<Rightarrow> 'w tokenStore" where
  "NewTokenStore mi w =
     (let s = \<lparr>ts_byKey = [], ts_writeFailed = False, ts_log = [], ts_world = w\<rparr>
      in if \<not> mi_path mi then s
         else case mi_read mi w of
                Inl e \<Rightarrow> if errors_Is e ErrNotExist then s
                         else s\<lparr>ts_log := [Msg ''web: tokens: read %s: %v (starting empty)'' [AE e]]\<rparr>
              | Inr (Inl e) \<Rightarrow> s\<lparr>ts_log := [Msg ''web: tokens: %s: %v (starting empty)'' [AE e]]\<rparr>
              | Inr (Inr f) \<Rightarrow>
                  if tf_Format f \<noteq> 1
                  then s\<lparr>ts_log := [Msg ''web: tokens: %s: format %d not supported (starting empty)'' [AI (tf_Format f)]]\<rparr>
                  else s\<lparr>ts_byKey := load_tokens (tf_Tokens f) []\<rparr>)"

section \<open>Histories of a store\<close>

datatype session_op =
    SCreate "goerror + int list" string bool string
  | SLookup string
  | SRevoke string
  | SRevokeAll string string
  | SList
  | SSetEpoch string

definition session_apply ::
  "(string \<Rightarrow> string) \<Rightarrow> (sessionFile, 'w) mirror \<Rightarrow> gotime \<Rightarrow> session_op \<Rightarrow> 'w sessionStore \<Rightarrow> 'w sessionStore" where
  "session_apply sha mi now op s = (case op of
      SCreate rand user remember ip \<Rightarrow> snd (ss_Create sha mi rand user remember ip now s)
    | SLookup token \<Rightarrow> snd (ss_Lookup sha mi token now s)
    | SRevoke token \<Rightarrow> ss_Revoke sha mi token s
    | SRevokeAll keep newUser \<Rightarrow> ss_RevokeAllRename sha mi keep newUser s
    | SList \<Rightarrow> snd (ss_List mi now s)
    | SSetEpoch epoch \<Rightarrow> ss_SetEpoch mi epoch s)"

fun session_mints :: "(string \<Rightarrow> string) \<Rightarrow> gotime \<Rightarrow> session_op \<Rightarrow> (string \<times> gotime) option" where
  "session_mints sha now (SCreate (Inr raw) user remember ip) = Some (sha (sessionToken raw), Add now (ss_ttl remember))"
| "session_mints sha now _ = None"

fun session_kills :: "(string \<Rightarrow> string) \<Rightarrow> session_op \<Rightarrow> string \<Rightarrow> bool" where
  "session_kills sha (SRevoke token) k = (token \<noteq> [] \<and> k = sha token)"
| "session_kills sha (SRevokeAll keep newUser) k = (k \<noteq> (if keep \<noteq> [] then sha keep else []))"
| "session_kills sha _ k = False"

datatype token_op =
    TCreate "goerror + int list" string string "gotime option"
  | TLookup string string
  | TRevoke string

definition token_apply ::
  "(string \<Rightarrow> string) \<Rightarrow> (tokenFile, 'w) mirror \<Rightarrow> gotime \<Rightarrow> token_op \<Rightarrow> 'w tokenStore \<Rightarrow> 'w tokenStore" where
  "token_apply sha mi now op s = (case op of
      TCreate rand name scope expires \<Rightarrow> snd (ts_Create sha mi rand name scope expires now s)
    | TLookup secret ip \<Rightarrow> snd (ts_Lookup sha mi secret ip now s)
    | TRevoke tid \<Rightarrow> snd (ts_Revoke mi tid s))"

fun token_mints :: "(string \<Rightarrow> string) \<Rightarrow> gotime \<Rightarrow> token_op \<Rightarrow> (string \<times> gotime option \<times> string) option" where
  "token_mints sha now (TCreate (Inr raw) name scope expires) =
     Some (sha (tokenSecret raw), expires, if scope = [] then ''read'' else scope)"
| "token_mints sha now _ = None"

text \<open>The key a revocation by id hits: the entry the range meets first.\<close>

fun token_kills :: "'w tokenStore \<Rightarrow> token_op \<Rightarrow> string \<Rightarrow> bool" where
  "token_kills s (TRevoke tid) k = (map_option fst (find (\<lambda>(k, t). tk_ID t = tid) (ts_byKey s)) = Some k)"
| "token_kills s _ k = False"

section \<open>The contract of a credential store\<close>

text \<open>
  Of a store the server relies on one law: a key present after an operation was minted by that
  operation with its grant (expiry, scope), or was present with the same grant and the
  operation did not revoke it.
\<close>

locale credential_store =
  fixes tbl :: "'s \<Rightarrow> (string, 'e) gomap"
    and ok :: "'s \<Rightarrow> bool"
    and step :: "gotime \<Rightarrow> 'op \<Rightarrow> 's \<Rightarrow> 's"
    and mints :: "gotime \<Rightarrow> 'op \<Rightarrow> (string \<times> 'g) option"
    and kills :: "'s \<Rightarrow> 'op \<Rightarrow> string \<Rightarrow> bool"
    and grant :: "'e \<Rightarrow> 'g"
  assumes step_ok: "ok s \<Longrightarrow> ok (step now op s)"
    and step_law: "ok s \<Longrightarrow> map_of (tbl (step now op s)) k = Some e \<Longrightarrow>
      mints now op = Some (k, grant e) \<or>
      (\<exists>e0. map_of (tbl s) k = Some e0 \<and> grant e0 = grant e \<and> \<not> kills s op k)"
begin

definition run :: "(gotime \<times> 'op) list \<Rightarrow> 's \<Rightarrow> 's" where
  "run ops s = fold (\<lambda>(now, op). step now op) ops s"

lemma run_ok: "ok s \<Longrightarrow> ok (run ops s)"
  unfolding run_def by (induction ops arbitrary: s) (auto simp: step_ok)

definition spares :: "'s \<Rightarrow> (gotime \<times> 'op) list \<Rightarrow> string \<Rightarrow> bool" where
  "spares s ops k \<longleftrightarrow> (\<forall>q now op r. ops = q @ (now, op) # r \<longrightarrow> \<not> kills (run q s) op k)"

lemma spares_Nil [simp]: "spares s [] k"
  by (simp add: spares_def)

lemma spares_snoc:
  assumes "spares s ops k" "\<not> kills (run ops s) op k"
  shows "spares s (ops @ [(now, op)]) k"
  unfolding spares_def
proof (intro allI impI)
  fix q now' op' r
  assume eq: "ops @ [(now, op)] = q @ (now', op') # r"
  show "\<not> kills (run q s) op' k"
  proof (cases r rule: rev_cases)
    case Nil
    then show ?thesis using eq assms(2) by simp
  next
    case (snoc r' p)
    then have "ops = q @ (now', op') # r'" using eq by simp
    then show ?thesis using assms(1) by (auto simp: spares_def)
  qed
qed

lemma run_append: "run (a @ b) s = run b (run a s)"
  by (simp add: run_def)

lemma provenance:
  assumes "ok s" "map_of (tbl (run ops s)) k = Some e"
  shows "(\<exists>pre now op post. ops = pre @ (now, op) # post \<and> mints now op = Some (k, grant e) \<and>
            spares (run (pre @ [(now, op)]) s) post k) \<or>
         (\<exists>e0. map_of (tbl s) k = Some e0 \<and> grant e0 = grant e \<and> spares s ops k)"
  using assms(2)
proof (induction ops arbitrary: e rule: rev_induct)
  case Nil
  then show ?case by (simp add: run_def)
next
  case (snoc p ops)
  obtain now op where p: "p = (now, op)" by (cases p)
  have e: "map_of (tbl (step now op (run ops s))) k = Some e"
    using snoc.prems by (simp add: run_def p)
  consider "mints now op = Some (k, grant e)"
    | e0 where "map_of (tbl (run ops s)) k = Some e0" "grant e0 = grant e" "\<not> kills (run ops s) op k"
    using step_law [OF run_ok [OF assms(1)] e] by blast
  then show ?case
  proof cases
    case 1
    then have "ops @ [p] = ops @ (now, op) # [] \<and> mints now op = Some (k, grant e) \<and> spares (run (ops @ [(now, op)]) s) [] k"
      by (simp add: p)
    then show ?thesis by blast
  next
    case 2
    from snoc.IH [OF 2(1)] show ?thesis
    proof
      assume "\<exists>pre now op post. ops = pre @ (now, op) # post \<and> mints now op = Some (k, grant e0) \<and> spares (run (pre @ [(now, op)]) s) post k"
      then obtain pre now' op' post where ops: "ops = pre @ (now', op') # post" "mints now' op' = Some (k, grant e0)"
        "spares (run (pre @ [(now', op')]) s) post k" by blast
      have "run post (run (pre @ [(now', op')]) s) = run ops s" by (simp add: ops(1) run_append [symmetric])
      then have "spares (run (pre @ [(now', op')]) s) (post @ [p]) k"
        unfolding p using 2(3) by (intro spares_snoc [OF ops(3)]) simp
      then have "ops @ [p] = pre @ (now', op') # (post @ [p]) \<and> mints now' op' = Some (k, grant e) \<and>
          spares (run (pre @ [(now', op')]) s) (post @ [p]) k"
        using ops 2(2) by simp
      then show ?thesis by blast
    next
      assume "\<exists>e0'. map_of (tbl s) k = Some e0' \<and> grant e0' = grant e0 \<and> spares s ops k"
      then show ?thesis using 2 p spares_snoc [of s ops k op now] by auto
    qed
  qed
qed

end

section \<open>The stores meet the contract\<close>

named_theorems store_defs

declare ss_Create_def [store_defs] ss_Lookup_def [store_defs] ss_Revoke_def [store_defs] ss_RevokeAllRename_def [store_defs]
  ss_List_def [store_defs] ss_SetEpoch_def [store_defs] ts_Create_def [store_defs] ts_Lookup_def [store_defs] ts_Revoke_def [store_defs]

lemma ss_saveLocked_keeps [simp]:
  "ss_byKey (ss_saveLocked mi s) = ss_byKey s" "ss_epoch (ss_saveLocked mi s) = ss_epoch s"
  by (auto simp: ss_saveLocked_def split: option.splits prod.splits)

lemma ts_saveLocked_keeps [simp]: "ts_byKey (ts_saveLocked mi s) = ts_byKey s"
  by (auto simp: ts_saveLocked_def split: option.splits prod.splits)

lemma map_of_map_filter_key:
  "map_of (map (\<lambda>(k, e). (k, f e)) (filter (\<lambda>(k, e). k = keep) m)) k = (if k = keep then map_option f (map_of m k) else None)"
  by (induction m) auto

lemma wf_map_map_snd [simp]: "wf_map (map (\<lambda>(k, e). (k, f e)) m) = wf_map m"
  by (simp add: wf_map_def comp_def case_prod_beta)

lemma dropOldest_sub: "map_of (dropOldest m) k = Some e \<Longrightarrow> map_of m k = Some e"
  by (auto simp: dropOldest_def Let_def AList.delete_conv' split: if_splits)

lemma drop_rounds_sub: "map_of (drop_rounds n cap m) k = Some e \<Longrightarrow> map_of m k = Some e"
  by (induction n cap m rule: drop_rounds.induct) (auto split: if_splits dest: dropOldest_sub)

lemma drop_rounds_wf: "wf_map m \<Longrightarrow> wf_map (drop_rounds n cap m)"
  by (induction n cap m rule: drop_rounds.induct) (auto simp: dropOldest_def Let_def)

lemma prune_wf: "wf_map m \<Longrightarrow> wf_map (ss_prune now m)"
  by (simp add: ss_prune_def)

lemma prune_map_of:
  "wf_map m \<Longrightarrow> map_of (ss_prune now m) k = (case map_of m k of None \<Rightarrow> None | Some e \<Rightarrow> if live_session now e then Some e else None)"
  by (auto simp: ss_prune_def map_of_filter_wf split: option.splits)

lemma prune_sub: "wf_map m \<Longrightarrow> map_of (ss_prune now m) k = Some e \<Longrightarrow> map_of m k = Some e"
  by (auto simp: prune_map_of split: option.splits if_splits)

lemma rename_kept_grant [simp]: "se_Expires (rename_kept u e) = se_Expires e"
  by (simp add: rename_kept_def)

lemma RevokeAllRename_tbl:
  "ss_byKey (ss_RevokeAllRename sha mi keep u s) =
     map (\<lambda>(k, e). (k, rename_kept u e)) (filter (\<lambda>(k, e). k = (if keep \<noteq> [] then sha keep else [])) (ss_byKey s))"
  unfolding ss_RevokeAllRename_def Let_def by (auto split: if_splits)

lemma session_step_wf: "wf_map (ss_byKey s) \<Longrightarrow> wf_map (ss_byKey (session_apply sha mi now op s))"
  by (cases op) (auto simp: session_apply_def store_defs Let_def prune_wf drop_to_def drop_rounds_wf split: option.splits sum.splits)

lemma session_step_law:
  assumes "wf_map (ss_byKey s)" "map_of (ss_byKey (session_apply sha mi now op s)) k = Some e"
  shows "session_mints sha now op = Some (k, se_Expires e) \<or>
    (\<exists>e0. map_of (ss_byKey s) k = Some e0 \<and> se_Expires e0 = se_Expires e \<and> \<not> session_kills sha op k)"
proof (cases op)
  case (SCreate rand user remember ip)
  then show ?thesis using assms
    by (cases rand) (auto simp: session_apply_def store_defs Let_def AList.update_conv' drop_to_def split: if_splits
        dest!: drop_rounds_sub prune_sub [rotated])
next
  case (SLookup token)
  then show ?thesis using assms
    by (auto simp: session_apply_def store_defs Let_def AList.update_conv' AList.delete_conv' split: if_splits option.splits)
next
  case (SRevoke token)
  then show ?thesis using assms
    by (auto simp: session_apply_def store_defs AList.delete_conv' split: if_splits option.splits)
next
  case (SRevokeAll keep newUser)
  then show ?thesis using assms
    by (auto simp: session_apply_def RevokeAllRename_tbl map_of_map_filter_key split: if_splits)
next
  case SList
  then show ?thesis using assms
    by (auto simp: session_apply_def store_defs Let_def split: if_splits dest: prune_sub)
next
  case (SSetEpoch epoch)
  then show ?thesis using assms by (auto simp: session_apply_def store_defs split: if_splits)
qed

interpretation sess: credential_store ss_byKey "\<lambda>s. wf_map (ss_byKey s)" "session_apply sha mi" "session_mints sha"
    "\<lambda>s. session_kills sha" se_Expires for sha mi
  by unfold_locales (rule session_step_wf, assumption, rule session_step_law)

section \<open>The session table\<close>

text \<open>What the code relies on of \<^verbatim>\<open>hex(sha256(x))\<close>: 64 characters.\<close>

definition hash64 :: "(string \<Rightarrow> string) \<Rightarrow> bool" where
  "hash64 sha \<longleftrightarrow> (\<forall>t. length (sha t) = 64)"

definition keyed_session :: "string \<times> Session \<Rightarrow> bool" where
  "keyed_session p \<longleftrightarrow> length (fst p) = 64 \<and> se_ID (snd p) = take 8 (fst p)"

definition sessions_ok :: "'w sessionStore \<Rightarrow> bool" where
  "sessions_ok s \<longleftrightarrow> wf_map (ss_byKey s) \<and> length (ss_byKey s) \<le> sessionMax \<and> list_all keyed_session (ss_byKey s)"

lemma set_update_sub: "set (AList.update k v m) \<subseteq> insert (k, v) (set m)"
  by (induction m) auto

lemma list_all_update: "list_all P m \<Longrightarrow> P (k, v) \<Longrightarrow> list_all P (AList.update k v m)"
  using set_update_sub [of k v m] by (auto simp: list_all_iff)

lemma list_all_delete: "list_all P m \<Longrightarrow> list_all P (AList.delete k m)"
  by (auto simp: list_all_iff AList.delete_eq)

lemma list_all_filter: "list_all P m \<Longrightarrow> list_all P (filter Q m)"
  by (auto simp: list_all_iff)

lemma length_delete_le: "length (AList.delete k m) \<le> length m"
  by (simp add: AList.delete_eq)

lemma keyed_no_empty: "list_all keyed_session m \<Longrightarrow> [] \<notin> fst ` set m"
  by (auto simp: list_all_iff keyed_session_def)

lemma dropOldest_keyed: "list_all keyed_session m \<Longrightarrow> list_all keyed_session (dropOldest m)"
  by (simp add: dropOldest_def Let_def list_all_delete)

lemma drop_rounds_keyed: "list_all keyed_session m \<Longrightarrow> list_all keyed_session (drop_rounds n cap m)"
  by (induction n cap m rule: drop_rounds.induct) (auto simp: dropOldest_keyed)

text \<open>The eviction loop ends below its bound: every round drops an entry.\<close>

lemma dropOldest_shorter: "list_all keyed_session m \<Longrightarrow> m \<noteq> [] \<Longrightarrow> length (dropOldest m) < length m"
  using oldest_key_mem [of m se_Created] keyed_no_empty [of m]
  by (auto simp: dropOldest_def Let_def intro!: delete_shorter)

lemma drop_rounds_room:
  "list_all keyed_session m \<Longrightarrow> length m \<le> n \<Longrightarrow> 0 < cap \<Longrightarrow> length (drop_rounds n cap m) < cap"
proof (induction n cap m rule: drop_rounds.induct)
  case (2 n cap m)
  then show ?case
    using dropOldest_shorter [of m] dropOldest_keyed [of m] by (cases "m = []") auto
qed simp

lemma drop_to_room: "list_all keyed_session m \<Longrightarrow> 0 < cap \<Longrightarrow> length (drop_to cap m) < cap"
  unfolding drop_to_def by (rule drop_rounds_room) simp_all

lemma drop_to_id: "length m < cap \<Longrightarrow> drop_to cap m = m"
  by (cases m) (simp_all add: drop_to_def)

lemma keyed_map_of: "list_all keyed_session m \<Longrightarrow> map_of m k = Some e \<Longrightarrow> keyed_session (k, e)"
  by (auto simp: list_all_iff dest: map_of_SomeD)

lemma keyed_touch: "keyed_session (k, e) \<Longrightarrow> keyed_session (k, e\<lparr>se_LastSeen := t\<rparr>)"
  by (simp add: keyed_session_def)

lemma keyed_rename: "list_all keyed_session m \<Longrightarrow> list_all keyed_session (map (\<lambda>(k, e). (k, rename_kept u e)) m)"
  by (auto simp: list_all_iff keyed_session_def rename_kept_def)

lemma Create_ok:
  assumes "hash64 sha" "sessions_ok s"
  shows "sessions_ok (snd (ss_Create sha mi rand user remember ip now s))"
proof (cases rand)
  case (Inr raw)
  let ?m = "drop_to sessionMax (ss_prune now (ss_byKey s))"
  have keyed: "list_all keyed_session (ss_prune now (ss_byKey s))"
    using assms(2) by (simp add: sessions_ok_def ss_prune_def list_all_filter)
  have "length ?m < sessionMax" by (rule drop_to_room [OF keyed]) (simp add: sessionMax_def)
  then have "length (AList.update k e ?m) \<le> sessionMax" for k e
    using length_update_le [of k e ?m] by linarith
  moreover have "list_all keyed_session ?m" using drop_rounds_keyed [OF keyed] by (simp add: drop_to_def)
  moreover have "wf_map ?m" using assms(2) by (simp add: sessions_ok_def drop_to_def drop_rounds_wf prune_wf)
  ultimately show ?thesis
    using assms(1) Inr
    by (auto simp: ss_Create_def Let_def sessions_ok_def hash64_def keyed_session_def intro!: list_all_update)
qed (use assms in \<open>simp add: ss_Create_def\<close>)

lemma session_apply_ok:
  assumes "hash64 sha" "sessions_ok s"
  shows "sessions_ok (session_apply sha mi now op s)"
proof -
  note ok = assms(2) [unfolded sessions_ok_def]
  have wf: "wf_map (ss_byKey (session_apply sha mi now op s))" using session_step_wf ok by blast
  have del: "length (AList.delete k (ss_byKey s)) \<le> sessionMax" for k
    using ok length_delete_le [of k "ss_byKey s"] by linarith
  have upd: "length (AList.update k e (ss_byKey s)) \<le> sessionMax" if "map_of (ss_byKey s) k \<noteq> None" for k e
    using ok that by (auto simp: length_update_eq map_of_eq_None_iff)
  show ?thesis
  proof (cases op)
    case (SCreate rand user remember ip)
    then show ?thesis using Create_ok [OF assms] by (simp add: session_apply_def)
  next
    case (SLookup token)
    then show ?thesis using ok wf del upd
      by (auto simp: session_apply_def ss_Lookup_def sessions_ok_def Let_def list_all_delete
          intro!: list_all_update keyed_touch keyed_map_of split: option.splits)
  next
    case (SRevoke token)
    then show ?thesis using ok wf del
      by (auto simp: session_apply_def ss_Revoke_def sessions_ok_def list_all_delete split: option.splits)
  next
    case (SRevokeAll keep newUser)
    then show ?thesis using ok wf
      by (auto simp: session_apply_def sessions_ok_def RevokeAllRename_tbl intro!: keyed_rename list_all_filter
          intro: le_trans [OF length_filter_le])
  next
    case SList
    then show ?thesis using ok wf
      by (auto simp: session_apply_def ss_List_def Let_def sessions_ok_def ss_prune_def intro!: list_all_filter
          intro: le_trans [OF length_filter_le])
  next
    case (SSetEpoch epoch)
    then show ?thesis using ok by (simp add: session_apply_def ss_SetEpoch_def sessions_ok_def)
  qed
qed

definition session_run ::
  "(string \<Rightarrow> string) \<Rightarrow> (sessionFile, 'w) mirror \<Rightarrow> (gotime \<times> session_op) list \<Rightarrow> 'w sessionStore \<Rightarrow> 'w sessionStore" where
  "session_run sha mi ops s = fold (\<lambda>(now, op). session_apply sha mi now op) ops s"

lemma session_run_eq: "sess.run sha mi ops s = session_run sha mi ops s"
  by (simp add: sess.run_def session_run_def)

lemma session_run_ok: "hash64 sha \<Longrightarrow> sessions_ok s \<Longrightarrow> sessions_ok (session_run sha mi ops s)"
  unfolding session_run_def by (induction ops arbitrary: s) (auto simp: session_apply_ok)

subsection \<open>Loading the mirror file\<close>

lemma load_sessions_ok:
  "wf_map m \<Longrightarrow> list_all keyed_session m \<Longrightarrow>
     wf_map (load_sessions now es m) \<and> list_all keyed_session (load_sessions now es m)"
  by (induction now es m rule: load_sessions.induct) (auto simp: keyed_session_def list_all_update)

lemma load_sessions_from:
  "map_of (load_sessions now es m) k = Some e \<Longrightarrow>
     map_of m k = Some e \<or> (\<exists>e0. (k, e0) \<in> set es \<and> se_Expires e0 = se_Expires e)"
proof (induction now es m rule: load_sessions.induct)
  case (2 now k' e' es m)
  from "2.IH" [OF "2.prems" [unfolded load_sessions.simps]] show ?case
    by (auto simp: AList.update_conv' split: if_splits)
qed simp

lemma load_sessions_len: "length (load_sessions now es m) \<le> length es + length m"
proof (induction now es m rule: load_sessions.induct)
  case (2 now k e es m)
  then show ?case
    using length_update_le [of k "e\<lparr>se_ID := take 8 k\<rparr>" m] by (auto split: if_splits)
qed simp

lemma load_sessions_map_of:
  "wf_map es \<Longrightarrow> list_all keyed_session es \<Longrightarrow> map_of (load_sessions now es m) k =
     (case map_of es k of Some e \<Rightarrow> if live_session now e then Some e else map_of m k | None \<Rightarrow> map_of m k)"
proof (induction now es m rule: load_sessions.induct)
  case (2 now k' e' es m)
  have id: "e'\<lparr>se_ID := take 8 k'\<rparr> = e'" "length k' = 64" using 2(3) by (auto simp: keyed_session_def)
  have "map_of es k' = None" using 2(2) by (auto simp: wf_map_def map_of_eq_None_iff)
  moreover have "wf_map es" "list_all keyed_session es" using 2 by (auto simp: wf_map_def)
  ultimately show ?case
    using 2(1) id by (auto simp: AList.update_conv' split: option.splits)
qed simp

lemma NewSessionStoreEpoch_ok: "sessions_ok (NewSessionStoreEpoch mi epoch now w)"
proof -
  have "wf_map (drop_to (Suc sessionMax) (load_sessions now es []))"
    "list_all keyed_session (drop_to (Suc sessionMax) (load_sessions now es []))"
    "length (drop_to (Suc sessionMax) (load_sessions now es [])) \<le> sessionMax" for es
    using load_sessions_ok [of "[]" now es] drop_to_room [of "load_sessions now es []" "Suc sessionMax"]
    by (auto simp: wf_map_def [of "[]"] drop_to_def drop_rounds_wf drop_rounds_keyed)
  then show ?thesis
    by (auto simp: NewSessionStoreEpoch_def sessions_ok_def wf_map_def [of "[]"] Let_def split: sum.splits)
qed

lemma NewSessionStoreEpoch_from:
  assumes "map_of (ss_byKey (NewSessionStoreEpoch mi epoch now w)) k = Some e"
  shows "\<exists>f e0. mi_path mi \<and> mi_read mi w = Inr (Inr f) \<and> (epoch = [] \<or> sf_Epoch f = epoch) \<and>
    (k, e0) \<in> set (sf_Sessions f) \<and> se_Expires e0 = se_Expires e"
  using assms
  by (auto simp: NewSessionStoreEpoch_def Let_def drop_to_def split: if_splits sum.splits
      dest!: drop_rounds_sub load_sessions_from)

lemma Lookup_hit:
  assumes "fst (ss_Lookup sha mi token now s) = Some e"
  shows "\<exists>e0. map_of (ss_byKey s) (sha token) = Some e0 \<and> se_Expires e0 = se_Expires e \<and> live_session now e0"
  using assms by (auto simp: ss_Lookup_def Let_def split: if_splits option.splits)

text \<open>The image \<^verbatim>\<open>saveLocked\<close> writes, and how it reads back: JSON keeps the wall clock of an instant, not its monotonic reading.\<close>

definition session_image :: "'w sessionStore \<Rightarrow> sessionFile" where
  "session_image s = \<lparr>sf_Format = 1, sf_Epoch = ss_epoch s, sf_Sessions = sort_by (\<lambda>a b. fst a < fst b) (ss_byKey s)\<rparr>"

definition disk_time :: "gotime \<Rightarrow> gotime" where
  "disk_time t = t\<lparr>mono := None\<rparr>"

definition disk_session :: "Session \<Rightarrow> Session" where
  "disk_session e = e\<lparr>se_Created := disk_time (se_Created e), se_Expires := disk_time (se_Expires e), se_LastSeen := disk_time (se_LastSeen e)\<rparr>"

definition disk_image :: "sessionFile \<Rightarrow> sessionFile" where
  "disk_image f = f\<lparr>sf_Sessions := map (\<lambda>(k, e). (k, disk_session e)) (sf_Sessions f)\<rparr>"

lemma mset_insert_by: "mset (insert_by lt x ys) = add_mset x (mset ys)"
  by (induction ys) auto

lemma mset_sort_by [simp]: "mset (sort_by lt xs) = mset xs"
  unfolding sort_by_def by (induction xs) (auto simp: mset_insert_by)

lemma set_sort_by [simp]: "set (sort_by lt xs) = set xs"
  by (metis mset_sort_by set_mset_mset)

lemma length_sort_by [simp]: "length (sort_by lt xs) = length xs"
  by (metis mset_sort_by size_mset)

lemma wf_map_sort_by [simp]: "wf_map (sort_by lt m) = wf_map m"
  unfolding wf_map_def by (metis mset_map mset_sort_by mset_eq_imp_distinct_iff)

lemma map_of_sort_by: "wf_map m \<Longrightarrow> map_of (sort_by lt m) = map_of m"
  using map_of_inject_set [of "sort_by lt m" m] wf_map_sort_by [of lt m] by (simp add: wf_map_def)

lemma keyed_disk: "list_all keyed_session m \<Longrightarrow> list_all keyed_session (map (\<lambda>(k, e). (k, disk_session e)) m)"
  by (auto simp: list_all_iff keyed_session_def disk_session_def)

section \<open>The token table\<close>

definition token_grant :: "Token \<Rightarrow> gotime option \<times> string" where
  "token_grant t = (tk_Expires t, tk_Scope t)"

lemma token_step_wf: "wf_map (ts_byKey s) \<Longrightarrow> wf_map (ts_byKey (token_apply sha mi now op s))"
  by (cases op) (auto simp: token_apply_def store_defs Let_def split: option.splits sum.splits)

lemma token_step_law:
  assumes "wf_map (ts_byKey s)" "map_of (ts_byKey (token_apply sha mi now op s)) k = Some t"
  shows "token_mints sha now op = Some (k, token_grant t) \<or>
    (\<exists>t0. map_of (ts_byKey s) k = Some t0 \<and> token_grant t0 = token_grant t \<and> \<not> token_kills s op k)"
proof (cases op)
  case (TCreate rand name scope expires)
  then show ?thesis using assms
    by (cases rand) (auto simp: token_apply_def store_defs Let_def AList.update_conv' token_grant_def split: if_splits)
next
  case (TLookup secret ip)
  then show ?thesis using assms
    by (auto simp: token_apply_def store_defs Let_def AList.update_conv' token_grant_def split: if_splits option.splits)
next
  case (TRevoke tid)
  then show ?thesis using assms
    by (auto simp: token_apply_def store_defs AList.delete_conv' split: if_splits option.splits)
qed

definition valid_token :: "string \<times> Token \<Rightarrow> bool" where
  "valid_token p \<longleftrightarrow> TokenNameRe (tk_Name (snd p)) \<and> scopeRank (tk_Scope (snd p)) \<noteq> 0 \<and> tk_ID (snd p) = take tokenIDLen (fst p)"

definition tokens_ok :: "'w tokenStore \<Rightarrow> bool" where
  "tokens_ok s \<longleftrightarrow> wf_map (ts_byKey s) \<and> length (ts_byKey s) \<le> tokenMax \<and> list_all valid_token (ts_byKey s)"

lemma valid_token_map_of: "list_all valid_token m \<Longrightarrow> map_of m k = Some t \<Longrightarrow> valid_token (k, t)"
  by (auto simp: list_all_iff dest: map_of_SomeD)

lemma token_apply_ok:
  assumes "tokens_ok s"
  shows "tokens_ok (token_apply sha mi now op s)"
proof -
  note ok = assms [unfolded tokens_ok_def]
  have wf: "wf_map (ts_byKey (token_apply sha mi now op s))" using token_step_wf ok by blast
  show ?thesis
  proof (cases op)
    case (TCreate rand name scope expires)
    have "length (AList.update k t (ts_byKey s)) \<le> tokenMax" if "\<not> tokenMax \<le> length (ts_byKey s)" for k t
      using that length_update_le [of k t "ts_byKey s"] by linarith
    then show ?thesis using TCreate ok wf
      by (auto simp: token_apply_def ts_Create_def Let_def tokens_ok_def valid_token_def intro!: list_all_update split: sum.splits)
  next
    case (TLookup secret ip)
    have "length (AList.update k t (ts_byKey s)) \<le> tokenMax" if "map_of (ts_byKey s) k = Some t0" for k t t0
      using ok that by (auto simp: length_update_eq image_iff dest!: map_of_SomeD)
    then show ?thesis using TLookup ok wf valid_token_map_of [of "ts_byKey s" "sha secret"]
      by (auto simp: token_apply_def ts_Lookup_def Let_def tokens_ok_def valid_token_def intro!: list_all_update split: option.splits)
  next
    case (TRevoke tid)
    have "length (AList.delete k (ts_byKey s)) \<le> tokenMax" for k using ok length_delete_le [of k "ts_byKey s"] by linarith
    then show ?thesis using TRevoke ok wf
      by (auto simp: token_apply_def ts_Revoke_def tokens_ok_def list_all_delete split: option.splits)
  qed
qed

interpretation tok: credential_store ts_byKey tokens_ok "token_apply sha mi" "token_mints sha" token_kills token_grant
    for sha mi
  by unfold_locales (rule token_apply_ok, assumption, rule token_step_law, simp_all add: tokens_ok_def)

definition token_run ::
  "(string \<Rightarrow> string) \<Rightarrow> (tokenFile, 'w) mirror \<Rightarrow> (gotime \<times> token_op) list \<Rightarrow> 'w tokenStore \<Rightarrow> 'w tokenStore" where
  "token_run sha mi ops s = fold (\<lambda>(now, op). token_apply sha mi now op) ops s"

lemma token_run_eq: "tok.run sha mi ops s = token_run sha mi ops s"
  by (simp add: tok.run_def token_run_def)

lemma load_tokens_ok:
  "wf_map m \<Longrightarrow> length m < tokenMax \<Longrightarrow> list_all valid_token m \<Longrightarrow>
     wf_map (load_tokens ts m) \<and> length (load_tokens ts m) \<le> tokenMax \<and> list_all valid_token (load_tokens ts m)"
proof (induction ts m rule: load_tokens.induct)
  case (2 k t ts m)
  have "length (AList.update k v m) \<le> tokenMax" for v
    using length_update_le [of k v m] 2 by linarith
  then show ?case using 2 by (auto simp: Let_def list_all_update valid_token_def)
qed simp

lemma load_tokens_from:
  "map_of (load_tokens ts m) k = Some t \<Longrightarrow> map_of m k = Some t \<or> (\<exists>t0. (k, t0) \<in> set ts \<and> token_grant t0 = token_grant t)"
proof (induction ts m rule: load_tokens.induct)
  case (2 k' t' ts m)
  then show ?case
    by (fastforce simp: Let_def AList.update_conv' token_grant_def split: if_splits)
qed simp

lemma NewTokenStore_ok: "tokens_ok (NewTokenStore mi w)"
  using load_tokens_ok [of "[]"]
  by (auto simp: NewTokenStore_def Let_def tokens_ok_def wf_map_def [of "[]"] tokenMax_def split: sum.splits)

lemma NewTokenStore_from:
  assumes "map_of (ts_byKey (NewTokenStore mi w)) k = Some t"
  shows "\<exists>f t0. mi_path mi \<and> mi_read mi w = Inr (Inr f) \<and> tf_Format f = 1 \<and> (k, t0) \<in> set (tf_Tokens f) \<and> token_grant t0 = token_grant t"
  using assms by (auto simp: NewTokenStore_def Let_def split: if_splits sum.splits dest!: load_tokens_from)

lemma token_hit:
  assumes "fst (fst (ts_Lookup sha mi secret ip now s)) = Some t"
  shows "HasPrefix secret tokenPrefix \<and> \<not> Expired t now \<and>
    (\<exists>t0. map_of (ts_byKey s) (sha secret) = Some t0 \<and> token_grant t0 = token_grant t)"
  using assms by (auto simp: ts_Lookup_def Let_def token_grant_def Expired_def split: if_splits option.splits)

section \<open>Properties\<close>

text \<open>
  C20: a session token is accepted only within its grant. When \<^verbatim>\<open>Lookup\<close> accepts a token after any history
  of operations on a store just opened, the session has not expired, and it comes from a \<^verbatim>\<open>Create\<close> of that
  history whose token has the same hash and whose lifetime gives the expiry, no later revocation having named
  it, or from an entry of the mirror file whose epoch is the store's, not revoked since the start.
\<close>

theorem session_needs_grant:
  assumes "fst (ss_Lookup sha mi token now (session_run sha mi ops (NewSessionStoreEpoch mi epoch t0 w))) = Some e"
  shows "After (se_Expires e) now \<and>
    ((\<exists>pre t raw user remember ip post. ops = pre @ (t, SCreate (Inr raw) user remember ip) # post \<and>
        sha (sessionToken raw) = sha token \<and> se_Expires e = Add t (ss_ttl remember) \<and>
        (\<forall>p \<in> set post. \<not> session_kills sha (snd p) (sha token))) \<or>
     (\<exists>f e0. mi_path mi \<and> mi_read mi w = Inr (Inr f) \<and> (epoch = [] \<or> sf_Epoch f = epoch) \<and>
        (sha token, e0) \<in> set (sf_Sessions f) \<and> se_Expires e0 = se_Expires e \<and>
        (\<forall>p \<in> set ops. \<not> session_kills sha (snd p) (sha token))))"
proof -
  let ?s0 = "NewSessionStoreEpoch mi epoch t0 w"
  obtain e1 where e1: "map_of (ss_byKey (session_run sha mi ops ?s0)) (sha token) = Some e1"
    "se_Expires e1 = se_Expires e" "live_session now e1"
    using Lookup_hit [OF assms] by blast
  have spares: "\<forall>p \<in> set q. \<not> session_kills sha (snd p) (sha token)" if "sess.spares sha mi s q (sha token)" for s q
    using that unfolding sess.spares_def by (metis in_set_conv_decomp prod.collapse)
  have wf: "wf_map (ss_byKey ?s0)" using NewSessionStoreEpoch_ok [of mi epoch t0 w] by (simp add: sessions_ok_def)
  have "After (se_Expires e) now" using e1 by (simp add: live_session_def)
  moreover from sess.provenance [OF wf e1(1) [folded session_run_eq]] have
    "(\<exists>pre t raw user remember ip post. ops = pre @ (t, SCreate (Inr raw) user remember ip) # post \<and>
        sha (sessionToken raw) = sha token \<and> se_Expires e = Add t (ss_ttl remember) \<and>
        (\<forall>p \<in> set post. \<not> session_kills sha (snd p) (sha token))) \<or>
     (\<exists>e0. map_of (ss_byKey ?s0) (sha token) = Some e0 \<and> se_Expires e0 = se_Expires e \<and>
        (\<forall>p \<in> set ops. \<not> session_kills sha (snd p) (sha token)))"
  proof
    assume "\<exists>pre t op post. ops = pre @ (t, op) # post \<and> session_mints sha t op = Some (sha token, se_Expires e1) \<and>
      sess.spares sha mi (sess.run sha mi (pre @ [(t, op)]) ?s0) post (sha token)"
    then obtain pre t op post where op: "ops = pre @ (t, op) # post" "session_mints sha t op = Some (sha token, se_Expires e1)"
      "\<forall>p \<in> set post. \<not> session_kills sha (snd p) (sha token)" using spares by blast
    from op(2) obtain raw user remember ip where "op = SCreate (Inr raw) user remember ip"
      "sha (sessionToken raw) = sha token" "Add t (ss_ttl remember) = se_Expires e1"
      by (cases "(sha, t, op)" rule: session_mints.cases) auto
    then show ?thesis using op(1,3) e1(2) by metis
  qed (use e1(2) spares in fastforce)
  ultimately show ?thesis
    using NewSessionStoreEpoch_from [of mi epoch t0 w "sha token"] by metis
qed

definition sha_demo :: "string \<Rightarrow> string" where
  "sha_demo t = take 64 (t @ replicate 64 (CHR ''0''))"

definition mirror_off :: "('f, unit) mirror" where
  "mirror_off = \<lparr>mi_path = False, mi_read = (\<lambda>w. Inl \<lparr>err_text = ''no file'', err_chain = [ErrNotExist]\<rparr>), mi_write = (\<lambda>f w. (None, w))\<rparr>"

lemma session_demo:
  "fst (ss_Lookup sha_demo mirror_off ''AQID'' \<lparr>wall = Hour, mono = Some Hour\<rparr>
     (session_run sha_demo mirror_off [(\<lparr>wall = 0, mono = Some 0\<rparr>, SCreate (Inr [1, 2, 3]) ''admin'' False ''::1'')]
       (NewSessionStoreEpoch mirror_off ''e'' \<lparr>wall = 0, mono = Some 0\<rparr> ()))) =
   Some \<lparr>se_ID = ''AQID0000'', se_User = ''admin'', se_IP = ''::1'', se_Created = \<lparr>wall = 0, mono = Some 0\<rparr>,
     se_Expires = \<lparr>wall = 12 * Hour, mono = Some (12 * Hour)\<rparr>, se_LastSeen = \<lparr>wall = Hour, mono = Some Hour\<rparr>, se_Remember = False\<rparr>"
  by code_simp

theorem session_needs_grant_witness:
  "After \<lparr>wall = 12 * Hour, mono = Some (12 * Hour)\<rparr> \<lparr>wall = Hour, mono = Some Hour\<rparr>"
  using session_needs_grant [OF session_demo] by simp

text \<open>
  C21: the mirror file carries the sessions over a restart, and only under the same credentials. A store with
  a session table the operations produce, reopened from the image it last wrote, has every session whose expiry
  is still ahead on the wall clock and no other; under another credential epoch it has none.
\<close>

theorem restart_keeps_sessions:
  assumes "hash64 sha" "s = session_run sha mi0 ops (NewSessionStoreEpoch mi0 epoch0 t0 w0)"
    and "mi_path mi" "mi_read mi w = Inr (Inr (disk_image (session_image s)))"
  shows "map_of (ss_byKey (NewSessionStoreEpoch mi epoch now w)) k =
    (if epoch \<noteq> [] \<and> epoch \<noteq> ss_epoch s then None
     else case map_of (ss_byKey s) k of
            None \<Rightarrow> None
          | Some e \<Rightarrow> if live_session now (disk_session e) then Some (disk_session e) else None)"
proof -
  have ok: "sessions_ok s" using assms(1,2) by (simp add: session_run_ok NewSessionStoreEpoch_ok)
  let ?es = "map (\<lambda>(k, e). (k, disk_session e)) (sort_by (\<lambda>a b. fst a < fst b) (ss_byKey s))"
  have es: "wf_map ?es" "list_all keyed_session ?es" "length ?es \<le> sessionMax"
    using ok keyed_disk [of "sort_by (\<lambda>a b. fst a < fst b) (ss_byKey s)"] by (auto simp: sessions_ok_def list_all_iff)
  have "map_of ?es k = map_option disk_session (map_of (ss_byKey s) k)"
    using ok by (simp add: map_of_map map_of_sort_by sessions_ok_def)
  moreover have "length (load_sessions now ?es []) < Suc sessionMax"
    using load_sessions_len [of now ?es "[]"] es(3) by simp
  ultimately show ?thesis
    using assms(3,4) load_sessions_map_of [OF es(1,2), of now "[]" k]
    by (auto simp: NewSessionStoreEpoch_def Let_def disk_image_def session_image_def drop_to_id split: option.splits)
qed

definition store_demo :: "unit sessionStore" where
  "store_demo = session_run sha_demo mirror_off [(\<lparr>wall = 0, mono = Some 0\<rparr>, SCreate (Inr [1, 2, 3]) ''admin'' False ''::1'')]
     (NewSessionStoreEpoch mirror_off ''e'' \<lparr>wall = 0, mono = Some 0\<rparr> ())"

lemma store_demo_entry:
  "map_of (ss_byKey store_demo) (sha_demo ''AQID'') =
     Some \<lparr>se_ID = ''AQID0000'', se_User = ''admin'', se_IP = ''::1'', se_Created = \<lparr>wall = 0, mono = Some 0\<rparr>,
       se_Expires = \<lparr>wall = 12 * Hour, mono = Some (12 * Hour)\<rparr>, se_LastSeen = \<lparr>wall = 0, mono = Some 0\<rparr>, se_Remember = False\<rparr>"
  by code_simp

theorem restart_keeps_sessions_witness:
  "map_of (ss_byKey (NewSessionStoreEpoch
     \<lparr>mi_path = True, mi_read = (\<lambda>w. Inr (Inr (disk_image (session_image store_demo)))), mi_write = (\<lambda>f w. (None, w))\<rparr>
       [] \<lparr>wall = Hour, mono = Some 5\<rparr> ())) (sha_demo ''AQID'') =
   Some \<lparr>se_ID = ''AQID0000'', se_User = ''admin'', se_IP = ''::1'', se_Created = \<lparr>wall = 0, mono = None\<rparr>,
     se_Expires = \<lparr>wall = 12 * Hour, mono = None\<rparr>, se_LastSeen = \<lparr>wall = 0, mono = None\<rparr>, se_Remember = False\<rparr>"
proof -
  have "hash64 sha_demo" by (auto simp: hash64_def sha_demo_def)
  then show ?thesis
    by (subst restart_keeps_sessions [OF _ store_demo_def])
      (simp_all add: store_demo_entry disk_session_def disk_time_def live_session_def After_def Sub_def Hour_def)
qed

text \<open>
  C22: a bearer token is accepted only within its grant. When \<^verbatim>\<open>Lookup\<close> accepts a secret after any history of
  operations on a token store just opened, the token has not expired, its scope is one of the three,
  and expiry and scope are those of a \<^verbatim>\<open>Create\<close> of that history whose secret has the same hash, or of an
  entry of the file; no revocation in between hit its key.
\<close>

theorem token_needs_grant:
  assumes "fst (fst (ts_Lookup sha mi secret ip now (token_run sha mi ops (NewTokenStore mi w)))) = Some t"
  shows "\<not> Expired t now \<and> scopeRank (tk_Scope t) \<noteq> 0 \<and>
    ((\<exists>pre u raw name scope post. ops = pre @ (u, TCreate (Inr raw) name scope (tk_Expires t)) # post \<and>
        sha (tokenSecret raw) = sha secret \<and> tk_Scope t = (if scope = [] then ''read'' else scope) \<and>
        (\<forall>q v op r. post = q @ (v, op) # r \<longrightarrow>
           \<not> token_kills (token_run sha mi (pre @ (u, TCreate (Inr raw) name scope (tk_Expires t)) # q) (NewTokenStore mi w)) op (sha secret))) \<or>
     (\<exists>f t0. mi_path mi \<and> mi_read mi w = Inr (Inr f) \<and> (sha secret, t0) \<in> set (tf_Tokens f) \<and> token_grant t0 = token_grant t \<and>
        (\<forall>q v op r. ops = q @ (v, op) # r \<longrightarrow> \<not> token_kills (token_run sha mi q (NewTokenStore mi w)) op (sha secret))))"
proof -
  let ?init = "NewTokenStore mi w"
  let ?fin = "token_run sha mi ops ?init"
  obtain t1 where t1: "map_of (ts_byKey ?fin) (sha secret) = Some t1" "token_grant t1 = token_grant t" "\<not> Expired t now"
    using token_hit [OF assms] by blast
  have "tokens_ok ?fin" using tok.run_ok [OF NewTokenStore_ok] by (simp add: token_run_eq)
  then have "valid_token (sha secret, t1)" using t1(1) by (auto simp: tokens_ok_def dest: valid_token_map_of)
  then have scope: "scopeRank (tk_Scope t) \<noteq> 0" using t1(2) by (simp add: valid_token_def token_grant_def)
  have spares: "tok.spares sha mi s q k = (\<forall>q' v op r. q = q' @ (v, op) # r \<longrightarrow> \<not> token_kills (token_run sha mi q' s) op k)" for s :: "'a tokenStore" and q k
    by (simp add: tok.spares_def token_run_eq)
  have app: "token_run sha mi q (token_run sha mi (pre @ [p]) ?init) = token_run sha mi (pre @ p # q) ?init" for q pre p
    by (simp add: token_run_def)
  from tok.provenance [OF NewTokenStore_ok t1(1) [folded token_run_eq]] show ?thesis
  proof
    assume "\<exists>pre u op post. ops = pre @ (u, op) # post \<and> token_mints sha u op = Some (sha secret, token_grant t1) \<and>
      tok.spares sha mi (tok.run sha mi (pre @ [(u, op)]) ?init) post (sha secret)"
    then obtain pre u op post where op: "ops = pre @ (u, op) # post" "token_mints sha u op = Some (sha secret, token_grant t1)"
      "tok.spares sha mi (token_run sha mi (pre @ [(u, op)]) ?init) post (sha secret)" by (auto simp: token_run_eq)
    from op(2) obtain raw name scope where "op = TCreate (Inr raw) name scope (tk_Expires t)"
      "sha (tokenSecret raw) = sha secret" "tk_Scope t = (if scope = [] then ''read'' else scope)"
      using t1(2) by (cases "(sha, u, op)" rule: token_mints.cases) (auto simp: token_grant_def)
    then have "\<exists>pre u raw name scope post. ops = pre @ (u, TCreate (Inr raw) name scope (tk_Expires t)) # post \<and>
        sha (tokenSecret raw) = sha secret \<and> tk_Scope t = (if scope = [] then ''read'' else scope) \<and>
        (\<forall>q v op r. post = q @ (v, op) # r \<longrightarrow>
           \<not> token_kills (token_run sha mi (pre @ (u, TCreate (Inr raw) name scope (tk_Expires t)) # q) ?init) op (sha secret))"
      using op(1) op(3) [unfolded spares app] by (intro exI conjI) (assumption | simp)+
    then show ?thesis by (intro conjI t1(3) scope disjI1)
  next
    assume "\<exists>t0. map_of (ts_byKey ?init) (sha secret) = Some t0 \<and> token_grant t0 = token_grant t1 \<and> tok.spares sha mi ?init ops (sha secret)"
    then obtain t0 where t0: "map_of (ts_byKey ?init) (sha secret) = Some t0" "token_grant t0 = token_grant t1"
      "tok.spares sha mi ?init ops (sha secret)" by blast
    obtain f t2 where "mi_path mi" "mi_read mi w = Inr (Inr f)" "(sha secret, t2) \<in> set (tf_Tokens f)" "token_grant t2 = token_grant t"
      using NewTokenStore_from [OF t0(1)] t0(2) t1(2) by auto
    then have "\<exists>f t0. mi_path mi \<and> mi_read mi w = Inr (Inr f) \<and> (sha secret, t0) \<in> set (tf_Tokens f) \<and> token_grant t0 = token_grant t \<and>
        (\<forall>q v op r. ops = q @ (v, op) # r \<longrightarrow> \<not> token_kills (token_run sha mi q ?init) op (sha secret))"
      using t0(3) [unfolded spares] by (intro exI conjI)
    then show ?thesis by (intro conjI t1(3) scope disjI2)
  qed
qed

lemma token_demo:
  "fst (fst (ts_Lookup sha_demo mirror_off ''n5t_AQID'' ''::1'' \<lparr>wall = Hour, mono = Some Hour\<rparr>
     (token_run sha_demo mirror_off [(\<lparr>wall = 0, mono = Some 0\<rparr>, TCreate (Inr [1, 2, 3]) ''ha'' ''control'' None)] (NewTokenStore mirror_off ())))) =
   Some \<lparr>tk_ID = ''n5t_AQID'', tk_Name = ''ha'', tk_Scope = ''control'', tk_Created = \<lparr>wall = 0, mono = Some 0\<rparr>, tk_Expires = None,
     tk_LastUsed = Some \<lparr>wall = Hour, mono = Some Hour\<rparr>, tk_LastIP = ''::1''\<rparr>"
  by (simp add: ts_Lookup_def token_run_def token_apply_def ts_Create_def NewTokenStore_def mirror_off_def ts_saveLocked_def
      TokenNameRe_def in_class_def scopeRank_def tokenSecret_def tokenPrefix_def b64_char_def sha_demo_def tokenMax_def tokenIDLen_def
      Expired_def HasPrefix_def Let_def)

theorem token_needs_grant_witness: "scopeRank ''control'' \<noteq> 0"
  using token_needs_grant [OF token_demo] by simp

end
