(* ===== verification/WebRoutes.thy ===== *)
theory WebRoutes
  imports WebStores
begin

text \<open>
  Package \<^verbatim>\<open>internal/web\<close>, the route table of \<^verbatim>\<open>openapi.go\<close> and how \<^verbatim>\<open>http.ServeMux\<close> resolves
  a request against it and the two catch-alls. Of a route the method, the path, the handler, the
  visibility class and the scope are kept; the remaining members describe it in the OpenAPI document.
\<close>

section \<open>Escaped paths\<close>

text \<open>
  \<^verbatim>\<open>url.PathUnescape\<close>. \<^verbatim>\<open>net/url\<close> keeps a path in two forms; the decoded one is always the
  decoding of the escaped one.
\<close>

fun PathUnescape :: "string \<Rightarrow> string option" where
  "PathUnescape [] = Some []"
| "PathUnescape (c # s) =
     (if c = CHR ''%'' then
        (case s of
           a # b # r \<Rightarrow> (case (hex_val a, hex_val b) of
               (Some x, Some y) \<Rightarrow> map_option ((#) (char_of (nat (x * 16 + y)))) (PathUnescape r)
             | _ \<Rightarrow> None)
         | _ \<Rightarrow> None)
      else map_option ((#) c) (PathUnescape s))"

text \<open>The decoding inside the mux: what does not decode is used as it is.\<close>

definition pathUnescape :: "string \<Rightarrow> string" where
  "pathUnescape s = (case PathUnescape s of Some p \<Rightarrow> p | None \<Rightarrow> s)"

definition cleanPath :: "string \<Rightarrow> string" where
  "cleanPath p =
     (if p = [] then ''/''
      else let q = (if hd p \<noteq> CHR ''/'' then CHR ''/'' # p else p); np = path_Clean q
           in if last q = CHR ''/'' \<and> np \<noteq> ''/'' then np @ ''/'' else np)"

section \<open>Routes\<close>

datatype route_class = classPublic | classFiltered | classProtected

definition scopeRead :: string where "scopeRead = ''read''"
definition scopeControl :: string where "scopeControl = ''control''"
definition scopeAdmin :: string where "scopeAdmin = ''admin''"
definition scopeSession :: string where "scopeSession = ''session''"

lemmas scope_names = scopeRead_def scopeControl_def scopeAdmin_def scopeSession_def

record route =
  rt_Method :: string
  rt_Path :: string
  rt_Handler :: string
  rt_Class :: route_class
  rt_Scope :: string

abbreviation mk_route :: "string \<Rightarrow> string \<Rightarrow> string \<Rightarrow> route_class \<Rightarrow> string \<Rightarrow> route" where
  "mk_route m p h c s \<equiv> \<lparr>rt_Method = m, rt_Path = p, rt_Handler = h, rt_Class = c, rt_Scope = s\<rparr>"

definition routeTable :: "route list" where
  "routeTable = [
     mk_route ''GET'' ''/api/version'' ''getVersion'' classPublic scopeRead,
     mk_route ''GET'' ''/api/about'' ''getAbout'' classPublic scopeRead,
     mk_route ''GET'' ''/api/session'' ''getSession'' classPublic scopeRead,
     mk_route ''GET'' ''/api/openapi.json'' ''getOpenAPI'' classPublic scopeRead,
     mk_route ''GET'' ''/healthz'' ''healthz'' classPublic scopeRead,
     mk_route ''POST'' ''/api/login'' ''login'' classPublic scopeSession,
     mk_route ''POST'' ''/api/logout'' ''logout'' classPublic scopeSession,
     mk_route ''GET'' ''/api/state'' ''getState'' classFiltered scopeRead,
     mk_route ''GET'' ''/api/history'' ''getHistory'' classFiltered scopeRead,
     mk_route ''GET'' ''/api/history.csv'' ''historyCSV'' classProtected scopeRead,
     mk_route ''GET'' ''/api/schedules'' ''getSchedules'' classProtected scopeRead,
     mk_route ''GET'' ''/api/system'' ''getSystem'' classProtected scopeRead,
     mk_route ''GET'' ''/api/sensors'' ''getSensors'' classProtected scopeRead,
     mk_route ''GET'' ''/api/profiles'' ''getProfiles'' classProtected scopeRead,
     mk_route ''GET'' ''/api/presets'' ''getPresets'' classProtected scopeRead,
     mk_route ''GET'' ''/api/presets/{name}'' ''getPreset'' classProtected scopeRead,
     mk_route ''GET'' ''/api/alerts'' ''getAlerts'' classProtected scopeRead,
     mk_route ''GET'' ''/api/dashboard'' ''getDashboard'' classProtected scopeRead,
     mk_route ''GET'' ''/api/driver'' ''getDriver'' classProtected scopeRead,
     mk_route ''GET'' ''/api/health'' ''getHealth'' classProtected scopeRead,
     mk_route ''GET'' ''/api/tls'' ''getTLS'' classProtected scopeRead,
     mk_route ''PUT'' ''/api/override/{name}'' ''putOverride'' classProtected scopeControl,
     mk_route ''DELETE'' ''/api/override/{name}'' ''deleteOverride'' classProtected scopeControl,
     mk_route ''POST'' ''/api/presets/{name}/apply'' ''applyPreset'' classProtected scopeControl,
     mk_route ''POST'' ''/api/alerts/ack'' ''alertsAck'' classProtected scopeControl,
     mk_route ''PUT'' ''/api/dashboard'' ''putDashboard'' classProtected scopeControl,
     mk_route ''GET'' ''/api/config'' ''getConfig'' classProtected scopeAdmin,
     mk_route ''PUT'' ''/api/config'' ''putConfig'' classProtected scopeAdmin,
     mk_route ''GET'' ''/api/config/export'' ''exportConfig'' classProtected scopeAdmin,
     mk_route ''POST'' ''/api/config/import'' ''importConfig'' classProtected scopeAdmin,
     mk_route ''PUT'' ''/api/presets/{name}'' ''savePreset'' classProtected scopeAdmin,
     mk_route ''POST'' ''/api/presets/{name}/rename'' ''renamePreset'' classProtected scopeAdmin,
     mk_route ''DELETE'' ''/api/presets/{name}'' ''deletePreset'' classProtected scopeAdmin,
     mk_route ''GET'' ''/api/log'' ''getLog'' classProtected scopeAdmin,
     mk_route ''GET'' ''/api/log/export'' ''exportLog'' classProtected scopeAdmin,
     mk_route ''DELETE'' ''/api/log'' ''clearLog'' classProtected scopeAdmin,
     mk_route ''GET'' ''/api/tls/cert.crt'' ''tlsCertPEM'' classProtected scopeAdmin,
     mk_route ''GET'' ''/api/tls/cert.cer'' ''tlsCertDER'' classProtected scopeAdmin,
     mk_route ''POST'' ''/api/tls/regenerate'' ''tlsRegenerate'' classProtected scopeAdmin,
     mk_route ''POST'' ''/api/tls/upload'' ''tlsUpload'' classProtected scopeAdmin,
     mk_route ''POST'' ''/api/tls/reset'' ''tlsReset'' classProtected scopeAdmin,
     mk_route ''PUT'' ''/api/alerts'' ''putAlerts'' classProtected scopeAdmin,
     mk_route ''POST'' ''/api/alerts/test'' ''alertsTest'' classProtected scopeAdmin,
     mk_route ''POST'' ''/api/alerts/template'' ''alertsTemplate'' classProtected scopeAdmin,
     mk_route ''GET'' ''/api/account'' ''getAccount'' classProtected scopeSession,
     mk_route ''POST'' ''/api/account/password'' ''accountPassword'' classProtected scopeSession,
     mk_route ''POST'' ''/api/account/user'' ''accountUser'' classProtected scopeSession,
     mk_route ''POST'' ''/api/account/sessions/revoke'' ''accountRevoke'' classProtected scopeSession,
     mk_route ''GET'' ''/api/tokens'' ''getTokens'' classProtected scopeSession,
     mk_route ''POST'' ''/api/tokens'' ''createToken'' classProtected scopeSession,
     mk_route ''DELETE'' ''/api/tokens/{id}'' ''revokeToken'' classProtected scopeSession]"

section \<open>The mux\<close>

text \<open>
  \<^verbatim>\<open>firstSegment\<close> of the routing tree: a final slash is a segment of its own. A wildcard matches any
  segment but that one.
\<close>

definition firstSegment :: "string \<Rightarrow> string \<times> string" where
  "firstSegment path =
     (if path = ''/'' then (''/'', [])
      else (pathUnescape (takeWhile (\<lambda>c. c \<noteq> CHR ''/'') (tl path)), dropWhile (\<lambda>c. c \<noteq> CHR ''/'') (tl path)))"

datatype pattern_seg = Lit string | Wild

definition pattern_segs :: "string \<Rightarrow> pattern_seg list" where
  "pattern_segs path = map (\<lambda>s. if HasPrefix s ''{'' then Wild else Lit s) (tl (Split path (CHR ''/'')))"

fun seg_matches :: "pattern_seg \<Rightarrow> string \<Rightarrow> bool" where
  "seg_matches (Lit l) seg = (seg = l)"
| "seg_matches Wild seg = (seg \<noteq> ''/'')"

fun matchPath :: "pattern_seg list \<Rightarrow> string \<Rightarrow> bool" where
  "matchPath [] path = (path = [])"
| "matchPath (p # ps) path =
     (path \<noteq> [] \<and> seg_matches p (fst (firstSegment path)) \<and> matchPath ps (snd (firstSegment path)))"

text \<open>A GET pattern takes HEAD requests too.\<close>

definition methodMatches :: "string \<Rightarrow> string \<Rightarrow> bool" where
  "methodMatches pat m \<longleftrightarrow> m = pat \<or> pat = ''GET'' \<and> m = ''HEAD''"

datatype target = is_Route: Route route | ApiFallback | Static

definition mux_match :: "string \<Rightarrow> string \<Rightarrow> target" where
  "mux_match m path =
     (case find (\<lambda>rt. methodMatches (rt_Method rt) m \<and> matchPath (pattern_segs (rt_Path rt)) path) routeTable of
        Some rt \<Rightarrow> Route rt
      | None \<Rightarrow> if fst (firstSegment path) = ''api'' \<and> snd (firstSegment path) \<noteq> [] then ApiFallback else Static)"

text \<open>
  \<^verbatim>\<open>ServeMux.Handler\<close>: the target and whether the mux redirects instead of calling it, to the clean
  path or, where only a subtree pattern with a slash matches exactly, to the path with the slash.
\<close>

definition mux_Handler :: "string \<Rightarrow> string \<Rightarrow> bool \<times> target" where
  "mux_Handler m escaped =
     (let path = (if m = ''CONNECT'' then escaped else cleanPath escaped); tgt = mux_match m path
      in if \<not> is_Route tgt \<and> path \<noteq> [] \<and> last path \<noteq> CHR ''/'' \<and> mux_match m (path @ ''/'') = ApiFallback
              \<and> count_list path (CHR ''/'') = 1
         then (True, ApiFallback)
         else (path \<noteq> escaped, tgt))"

definition routeFor :: "string \<Rightarrow> string \<Rightarrow> route option" where
  "routeFor m escaped = (case snd (mux_Handler m escaped) of Route rt \<Rightarrow> Some rt | _ \<Rightarrow> None)"

section \<open>The table\<close>

text \<open>
  No two patterns of the table match the same request, so the order of the search does not matter: for
  each pair the methods differ or some position has two different literals.
\<close>

fun seg_apart :: "pattern_seg \<Rightarrow> pattern_seg \<Rightarrow> bool" where
  "seg_apart (Lit a) (Lit b) = (a \<noteq> b)"
| "seg_apart _ _ = False"

fun pats_apart :: "pattern_seg list \<Rightarrow> pattern_seg list \<Rightarrow> bool" where
  "pats_apart (p # ps) (q # qs) = (seg_apart p q \<or> pats_apart ps qs)"
| "pats_apart [] [] = False"
| "pats_apart _ _ = True"

lemma pats_apart_sound: "pats_apart ps qs \<Longrightarrow> matchPath ps path \<Longrightarrow> \<not> matchPath qs path"
proof (induction ps qs arbitrary: path rule: pats_apart.induct)
  case (1 p ps q qs)
  then show ?case by (cases p; cases q) auto
qed auto

definition routes_apart :: "(string \<times> pattern_seg list) list \<Rightarrow> bool" where
  "routes_apart rs = sorted_wrt (\<lambda>(m, ps) (m', qs). m \<noteq> m' \<or> pats_apart ps qs) rs"

lemma table_apart: "routes_apart (map (\<lambda>rt. (rt_Method rt, pattern_segs (rt_Path rt))) routeTable)"
  by code_simp

lemma table_protected_api:
  "list_all (\<lambda>rt. rt_Class rt = classProtected \<longrightarrow> take 1 (pattern_segs (rt_Path rt)) = [Lit ''api''] \<and> length (pattern_segs (rt_Path rt)) \<ge> 2) routeTable"
  by code_simp

lemma table_writes:
  "list_all (\<lambda>rt. rt_Method rt \<in> {''GET'', ''POST'', ''PUT'', ''DELETE''} \<and>
     (rt_Method rt \<noteq> ''GET'' \<longrightarrow> rt_Scope rt \<noteq> scopeRead \<and> (rt_Class rt = classProtected \<or> rt_Scope rt = scopeSession))) routeTable"
  by code_simp

lemma table_public_writes:
  "list_all (\<lambda>rt. rt_Method rt \<noteq> ''GET'' \<longrightarrow> rt_Class rt = classProtected \<or> rt_Handler rt = ''login'' \<or> rt_Handler rt = ''logout'') routeTable"
  by code_simp

lemma table_scopes: "list_all (\<lambda>rt. rt_Scope rt \<in> {scopeRead, scopeControl, scopeAdmin, scopeSession}) routeTable"
  by code_simp

lemma sorted_wrt_symp_set:
  "sorted_wrt P xs \<Longrightarrow> (\<And>x y. P x y \<Longrightarrow> P y x) \<Longrightarrow> x \<in> set xs \<Longrightarrow> y \<in> set xs \<Longrightarrow> x \<noteq> y \<Longrightarrow> P x y"
  by (induction xs) auto

lemma seg_apart_sym: "seg_apart p q \<Longrightarrow> seg_apart q p"
  by (cases p; cases q) auto

lemma pats_apart_sym: "pats_apart ps qs \<Longrightarrow> pats_apart qs ps"
  by (induction ps qs rule: pats_apart.induct) (auto dest: seg_apart_sym)

lemma distinct_routes: "distinct (map (\<lambda>rt. (rt_Method rt, pattern_segs (rt_Path rt))) routeTable)"
proof -
  have "distinct rs" if "routes_apart rs" for rs
    using that unfolding routes_apart_def
  proof (induction rs)
    case (Cons r rs)
    have "\<not> pats_apart ps ps" for ps by (induction ps) (auto elim: seg_apart.elims)
    then show ?case using Cons by (auto simp: case_prod_beta)
  qed simp
  then show ?thesis using table_apart by blast
qed

definition takes :: "route \<Rightarrow> string \<Rightarrow> string \<Rightarrow> bool" where
  "takes rt m path \<longleftrightarrow> methodMatches (rt_Method rt) m \<and> matchPath (pattern_segs (rt_Path rt)) path"

lemma route_unique:
  assumes "rt \<in> set routeTable" "rt' \<in> set routeTable" "takes rt m path" "takes rt' m path"
  shows "rt = rt'"
proof (rule ccontr)
  let ?k = "\<lambda>rt. (rt_Method rt, pattern_segs (rt_Path rt))"
  have apart_sym: "(case x of (m, ps) \<Rightarrow> \<lambda>(m', qs). m \<noteq> m' \<or> pats_apart ps qs) y \<Longrightarrow>
      (case y of (m, ps) \<Rightarrow> \<lambda>(m', qs). m \<noteq> m' \<or> pats_apart ps qs) x" for x y
    by (auto simp: case_prod_beta dest: pats_apart_sym)
  assume "rt \<noteq> rt'"
  then have "?k rt \<noteq> ?k rt'" using distinct_routes assms(1,2) by (auto simp: distinct_map dest: inj_onD)
  then have "rt_Method rt \<noteq> rt_Method rt' \<or> pats_apart (pattern_segs (rt_Path rt)) (pattern_segs (rt_Path rt'))"
    using sorted_wrt_symp_set [OF table_apart [unfolded routes_apart_def] apart_sym, of "?k rt" "?k rt'"] assms(1,2)
    by simp
  moreover have "rt_Method rt = rt_Method rt'"
  proof -
    have "rt_Method r \<in> {''GET'', ''POST'', ''PUT'', ''DELETE''}" if "r \<in> set routeTable" for r
      using table_writes that by (auto simp: list_all_iff)
    from this [OF assms(1)] this [OF assms(2)] show ?thesis using assms(3,4) by (auto simp: takes_def methodMatches_def)
  qed
  ultimately show False using assms(3,4) pats_apart_sound by (auto simp: takes_def)
qed

lemma mux_match_Route: "mux_match m path = Route rt \<longleftrightarrow> rt \<in> set routeTable \<and> takes rt m path"
proof
  show "mux_match m path = Route rt \<Longrightarrow> rt \<in> set routeTable \<and> takes rt m path"
    by (auto simp: mux_match_def takes_def find_Some_iff split: option.splits if_splits)
  assume rt: "rt \<in> set routeTable \<and> takes rt m path"
  then obtain rt' where "find (\<lambda>rt. methodMatches (rt_Method rt) m \<and> matchPath (pattern_segs (rt_Path rt)) path) routeTable = Some rt'"
    by (cases "find (\<lambda>rt. methodMatches (rt_Method rt) m \<and> matchPath (pattern_segs (rt_Path rt)) path) routeTable")
      (auto simp: find_None_iff takes_def)
  moreover from this have "rt' \<in> set routeTable" "takes rt' m path" by (auto simp: find_Some_iff takes_def)
  ultimately show "mux_match m path = Route rt" using route_unique rt by (auto simp: mux_match_def)
qed

section \<open>Decoding and the API prefix\<close>

lemma PathUnescape_append:
  assumes "PathUnescape (a @ CHR ''/'' # b) = Some u" "CHR ''/'' \<notin> set a"
  shows "\<exists>x y. PathUnescape a = Some x \<and> PathUnescape b = Some y \<and> u = x @ CHR ''/'' # y"
  using assms
proof (induction a arbitrary: u rule: PathUnescape.induct)
  case (2 c s)
  show ?case
  proof (cases "c = CHR ''%''")
    case False
    then show ?thesis using 2(2)[of] 2(3,4) by (cases "PathUnescape (s @ CHR ''/'' # b)") force+
  next
    case True
    have "hex_val (CHR ''/'') = None" by code_simp
    then obtain p q r where s: "s = p # q # r"
      using 2(3) True by (cases s; cases "tl s"; cases b) (auto split: option.splits)
    obtain x y where xy: "hex_val p = Some x" "hex_val q = Some y"
      using 2(3) True s by (auto split: option.splits)
    then obtain v where v: "PathUnescape (r @ CHR ''/'' # b) = Some v" "u = char_of (nat (x * 16 + y)) # v"
      using 2(3) True s by auto
    from 2(1) [OF True s refl refl xy v(1)] 2(4) s show ?thesis using True xy v(2) by force
  qed
qed auto

lemma matchPath_api:
  assumes "matchPath (Lit ''api'' # p # ps) path" "hd path = CHR ''/''" "PathUnescape path = Some u"
  shows "HasPrefix u ''/api/''"
proof -
  from assms(1) have first: "fst (firstSegment path) = ''api''" "snd (firstSegment path) \<noteq> []" "path \<noteq> []" by auto
  then have path: "path \<noteq> ''/''" by (auto simp: firstSegment_def)
  let ?seg = "takeWhile (\<lambda>c. c \<noteq> CHR ''/'') (tl path)"
  let ?rest = "dropWhile (\<lambda>c. c \<noteq> CHR ''/'') (tl path)"
  have split: "path = CHR ''/'' # ?seg @ ?rest" using assms(2) first(3) by (cases path) auto
  have rest: "?rest \<noteq> []" using first(2) path by (simp add: firstSegment_def)
  then have hd: "hd ?rest = CHR ''/''" using hd_dropWhile [OF rest] by simp
  then have rest_split: "?rest = CHR ''/'' # tl ?rest" using rest by (metis list.collapse)
  obtain v where v: "PathUnescape (?seg @ CHR ''/'' # tl ?rest) = Some v" "u = CHR ''/'' # v"
    using assms(3) by (subst (asm) split, subst (asm) rest_split) auto
  obtain x y where xy: "PathUnescape ?seg = Some x" "v = x @ CHR ''/'' # y"
    using PathUnescape_append [OF v(1)] by (auto dest: set_takeWhileD)
  have "x = ''api''" using first(1) path xy(1) by (simp add: firstSegment_def pathUnescape_def)
  then show ?thesis using xy v by (simp add: HasPrefix_def)
qed

lemma cleanPath_hd: "hd (cleanPath p) = CHR ''/''"
proof -
  have "path_Clean (CHR ''/'' # q) \<noteq> [] \<and> hd (path_Clean (CHR ''/'' # q)) = CHR ''/''" for q
    by (simp add: path_Clean_def HasPrefix_def Let_def)
  then show ?thesis by (cases p) (auto simp: cleanPath_def Let_def hd_append)
qed

text \<open>A request the mux hands to a protected route has a decoded path under \<^verbatim>\<open>/api/\<close>.\<close>

lemma protected_path:
  assumes "mux_Handler m escaped = (False, Route rt)" "rt_Class rt = classProtected" "PathUnescape escaped = Some u"
  shows "HasPrefix u ''/api/''"
proof -
  have m: "m \<noteq> ''CONNECT''"
  proof
    assume "m = ''CONNECT''"
    then have "mux_match m escaped = Route rt" using assms(1) by (auto simp: mux_Handler_def Let_def split: if_splits)
    then have "rt \<in> set routeTable" "methodMatches (rt_Method rt) m" by (auto simp: mux_match_Route takes_def)
    then show False using table_writes \<open>m = ''CONNECT''\<close> by (auto simp: list_all_iff methodMatches_def)
  qed
  then have path: "cleanPath escaped = escaped" "mux_match m escaped = Route rt"
    using assms(1) by (auto simp: mux_Handler_def Let_def split: if_splits)
  then have rt: "rt \<in> set routeTable" "matchPath (pattern_segs (rt_Path rt)) escaped" by (auto simp: mux_match_Route takes_def)
  have "take 1 (pattern_segs (rt_Path rt)) = [Lit ''api'']" "length (pattern_segs (rt_Path rt)) \<ge> 2"
    using table_protected_api rt(1) assms(2) by (auto simp: list_all_iff)
  then obtain p ps where "pattern_segs (rt_Path rt) = Lit ''api'' # p # ps"
    by (cases "pattern_segs (rt_Path rt)"; cases "tl (pattern_segs (rt_Path rt))") auto
  then show ?thesis using matchPath_api [of p ps escaped u] rt(2) cleanPath_hd [of escaped] path(1) assms(3) by simp
qed

end
