(* ===== verification/GoText.thy ===== *)
theory GoText
  imports GoNet
begin

text \<open>
  When \<^verbatim>\<open>strings.TrimSpace\<close> leaves a string, or its part up to some character, alone; shared by the
  parsers of password hashes and configuration lines.
\<close>

lemma no_lead_space: "s \<noteq> [] \<Longrightarrow> hd s \<notin> hd ` set space_seqs \<Longrightarrow> lead_space s = 0"
proof -
  assume s: "s \<noteq> []" "hd s \<notin> hd ` set space_seqs"
  have "\<not> HasPrefix s p" if "p \<in> set space_seqs" for p
  proof
    assume "HasPrefix s p"
    moreover have "p \<noteq> []" using that by (auto simp: space_seqs_def)
    ultimately have "hd s = hd p" by (cases p; cases s) (auto simp: HasPrefix_def)
    then show False using s that by blast
  qed
  then have "find (HasPrefix s) space_seqs = None" by (simp add: find_None_iff)
  then show "lead_space s = 0" by (simp add: lead_space_def)
qed

lemma no_tail_space: "s \<noteq> [] \<Longrightarrow> last s \<notin> last ` set space_seqs \<Longrightarrow> tail_space s = 0"
proof -
  assume s: "s \<noteq> []" "last s \<notin> last ` set space_seqs"
  have "\<not> HasSuffix s p" if "p \<in> set space_seqs" for p
  proof
    assume "HasSuffix s p"
    moreover have "p \<noteq> []" using that by (auto simp: space_seqs_def)
    ultimately have "last s = last p" by (auto simp: HasSuffix_def) (metis last_drop drop_all linorder_not_le)
    then show False using s that by blast
  qed
  then have "find (HasSuffix s) space_seqs = None" by (simp add: find_None_iff)
  then show "tail_space s = 0" by (simp add: tail_space_def)
qed

lemma trim_left_id: "lead_space s = 0 \<Longrightarrow> trim_left s = s"
  by (simp add: trim_left.simps [of s])

lemma TrimSpace_id: "s \<noteq> [] \<Longrightarrow> hd s \<notin> hd ` set space_seqs \<Longrightarrow> last s \<notin> last ` set space_seqs \<Longrightarrow> TrimSpace s = s"
  by (simp add: TrimSpace_def trim_left.simps [of s] trim_right.simps [of s] no_lead_space no_tail_space)

text \<open>A character no white space contains stops the trimming at the end.\<close>

lemma trim_right_stops:
  assumes "\<forall>q \<in> set space_seqs. c \<notin> set q"
  shows "\<exists>w'. trim_right (p @ c # w) = p @ c # w'"
proof (induction "length w" arbitrary: w rule: less_induct)
  case less
  let ?s = "p @ c # w"
  show ?case
  proof (cases "tail_space ?s = 0")
    case True
    then show ?thesis by (auto simp: trim_right.simps [of ?s])
  next
    case False
    then obtain q where q: "q \<in> set space_seqs" "HasSuffix ?s q" "tail_space ?s = length q"
      by (auto simp: tail_space_def find_Some_iff split: option.splits) (metis nth_mem)
    have len: "length q \<le> length w"
    proof (rule ccontr)
      assume "\<not> length q \<le> length w"
      then have "length ?s - length q \<le> length p" by (simp only: length_append list.size)
      then have "c \<in> set (drop (length ?s - length q) ?s)" by (simp add: drop_append)
      moreover have "drop (length ?s - length q) ?s = q" using q(2) by (simp only: HasSuffix_def)
      ultimately show False using q(1) assms by metis
    qed
    then have cut: "take (length ?s - length q) ?s = p @ c # take (length w - length q) w"
      by (simp add: Suc_diff_le)
    have "0 < length q" using q(3) False by linarith
    then have "length (take (length w - length q) w) < length w" using len by (simp only: length_take)
    from less [OF this] show ?thesis using False q(3) cut by (simp add: trim_right.simps [of ?s])
  qed
qed

end
