(* ===== verification/WebGuard.thy ===== *)
theory WebGuard
  imports WebRoutes GoText
begin

text \<open>
  Package \<^verbatim>\<open>internal/web\<close>, the way of a request over TCP: the server's state, the credential checks, the
  resolution of the caller, the guard in front of the mux (\<^verbatim>\<open>web.go\<close>), and the handlers that change
  credentials (\<^verbatim>\<open>session_api.go\<close>, \<^verbatim>\<open>account_api.go\<close>, \<^verbatim>\<open>token_api.go\<close>). Hash functions, random bytes, the
  mirror files, the account store behind \<^verbatim>\<open>AccountStore\<close> and the decoded JSON bodies are parameters.
  A request is handled at one instant, its delay after a failure included; how attempts interleave
  is the subject of \<open>WebLimit\<close>.
\<close>

section \<open>Server and requests\<close>

record AuthConfig =
  au_Mode :: string
  au_User :: string
  au_PasswordHash :: string

record ('w, 'v, 'u) webenv =
  wv_sha256 :: "string \<Rightarrow> int list"
  wv_pbkdf2 :: "string \<Rightarrow> int list \<Rightarrow> int \<Rightarrow> nat \<Rightarrow> int list option"
  wv_sessions :: "(sessionFile, 'w) mirror"
  wv_tokens :: "(tokenFile, 'v) mirror"
  wv_account :: "(string \<Rightarrow> string \<Rightarrow> 'u \<Rightarrow> (goerror + AuthConfig) \<times> 'u) option"

record ('w, 'v, 'u) server =
  sv_auth :: AuthConfig
  sv_allowed :: "string list"
  sv_anyHost :: bool
  sv_limiter :: authLimiter
  sv_sessions :: "'w sessionStore"
  sv_tokens :: "'v tokenStore"
  sv_tokenLimit :: tokenLimiter
  sv_log :: "msg list"
  sv_files :: 'u

record request =
  rq_Method :: string
  rq_Host :: string
  rq_Escaped :: string
  rq_Path :: string
  rq_RemoteAddr :: string
  rq_Cookie :: "string option"
  rq_Authz :: string
  rq_Basic :: "(string \<times> string) option"
  rq_Csrf :: string

text \<open>What \<^verbatim>\<open>net/url\<close> guarantees of the two forms of the path.\<close>

definition url_ok :: "request \<Rightarrow> bool" where
  "url_ok r \<longleftrightarrow> PathUnescape (rq_Escaped r) = Some (rq_Path r)"

record Caller =
  cl_Authenticated :: bool
  cl_User :: string
  cl_Via :: string
  cl_Scope :: string
  cl_TokenID :: string
  cl_token :: string

datatype response =
    Err int msg
  | Done int
  | SignedIn string string int
  | SignedOut
  | Revoked int
  | Minted string Token
  | Panicked

section \<open>Credentials\<close>

definition hex_sha :: "('w, 'v, 'u) webenv \<Rightarrow> string \<Rightarrow> string" where
  "hex_sha ev s = hex_EncodeToString (wv_sha256 ev s)"

definition CredentialEpoch :: "('w, 'v, 'u) webenv \<Rightarrow> string \<Rightarrow> string \<Rightarrow> string" where
  "CredentialEpoch ev user hash = hex_sha ev (user @ [CHR 0x0A] @ hash)"

definition PBKDF2Iter :: int where "PBKDF2Iter = 210000"

text \<open>\<^verbatim>\<open>PasswordHash\<close> for the random salt it drew; \<open>None\<close> is its panic.\<close>

definition PasswordHashOf :: "('w, 'v, 'u) webenv \<Rightarrow> int list \<Rightarrow> string \<Rightarrow> string option" where
  "PasswordHashOf ev salt password = (case wv_pbkdf2 ev password salt PBKDF2Iter PBKDF2KeyLen of
      None \<Rightarrow> None
    | Some key \<Rightarrow> Some (''pbkdf2$'' @ Itoa PBKDF2Iter @ ''$'' @ hex_EncodeToString salt @ ''$'' @ hex_EncodeToString key))"

definition LegacyPasswordHash :: "('w, 'v, 'u) webenv \<Rightarrow> string \<Rightarrow> string \<Rightarrow> string" where
  "LegacyPasswordHash ev user password = hex_sha ev (user @ '':'' @ password)"

definition VerifyPassword :: "('w, 'v, 'u) webenv \<Rightarrow> string \<Rightarrow> string \<Rightarrow> string \<Rightarrow> bool" where
  "VerifyPassword ev user password stored = (case ParsePasswordHash stored of
      Inl _ \<Rightarrow> False
    | Inr ph \<Rightarrow>
        (case ph_Legacy ph of
           Some legacy \<Rightarrow> wv_sha256 ev (user @ '':'' @ password) = legacy
         | None \<Rightarrow>
             (case wv_pbkdf2 ev password (ph_Salt ph) (ph_Iter ph) (length (ph_Key ph)) of
                None \<Rightarrow> False
              | Some key \<Rightarrow> key = ph_Key ph)))"

definition credentialsOK :: "('w, 'v, 'u) webenv \<Rightarrow> AuthConfig \<Rightarrow> string \<Rightarrow> string \<Rightarrow> bool" where
  "credentialsOK ev cfg user pass \<longleftrightarrow> user = au_User cfg \<and> VerifyPassword ev user pass (au_PasswordHash cfg)"

definition basicMode :: "('w, 'v, 'u) server \<Rightarrow> bool" where
  "basicMode s = EqualFold (au_Mode (sv_auth s)) ''basic''"

section \<open>Hosts and addresses\<close>

definition normalizeHost :: "string \<Rightarrow> string" where
  "normalizeHost host =
     (let h0 = TrimSpace host;
          h1 = (case SplitHostPort h0 of Some (hp, _) \<Rightarrow> hp | None \<Rightarrow> h0);
          h2 = TrimSuffix (TrimPrefix h1 ''['') '']''
      in ToLower (TrimSuffix h2 ''.''))"

definition hostAllowed :: "('w, 'v, 'u) server \<Rightarrow> string \<Rightarrow> bool" where
  "hostAllowed s host =
     (if sv_anyHost s then True
      else let h = normalizeHost host
           in if h = [] then False
              else if h = ''localhost'' \<or> ParseIP h \<noteq> None then True
              else h \<in> set (sv_allowed s))"

fun allow_hosts :: "string list \<Rightarrow> string list \<times> bool \<Rightarrow> string list \<times> bool" where
  "allow_hosts [] acc = acc"
| "allow_hosts (h # hs) acc =
     (let n = normalizeHost h
      in allow_hosts hs (if n = [] then acc else if n = ''*'' then (fst acc, True) else (n # fst acc, snd acc)))"

definition remoteIP :: "request \<Rightarrow> string" where
  "remoteIP r = (case SplitHostPort (rq_RemoteAddr r) of
      Some (h, _) \<Rightarrow> h
    | None \<Rightarrow> if rq_RemoteAddr r = [] \<or> rq_RemoteAddr r = ''@'' then ''local'' else rq_RemoteAddr r)"

text \<open>\<^verbatim>\<open>New\<close>: the stores are opened under the epoch of the configured credentials.\<close>

definition NewServer :: "('w, 'v, 'u) webenv \<Rightarrow> AuthConfig \<Rightarrow> string list \<Rightarrow> gotime \<Rightarrow> 'w \<Rightarrow> 'v \<Rightarrow> 'u \<Rightarrow> ('w, 'v, 'u) server" where
  "NewServer ev auth hosts now w v u =
     (let (al, any) = allow_hosts hosts ([], False)
      in \<lparr>sv_auth = auth, sv_allowed = al, sv_anyHost = any, sv_limiter = newAuthLimiter,
          sv_sessions = NewSessionStoreEpoch (wv_sessions ev) (CredentialEpoch ev (au_User auth) (au_PasswordHash auth)) now w,
          sv_tokens = NewTokenStore (wv_tokens ev) v, sv_tokenLimit = [], sv_log = [], sv_files = u\<rparr>)"

section \<open>The caller\<close>

definition slog :: "msg \<Rightarrow> ('w, 'v, 'u) server \<Rightarrow> ('w, 'v, 'u) server" where
  "slog m s = s\<lparr>sv_log := sv_log s @ [m]\<rparr>"

text \<open>A counted failure and its delay; the log line names both.\<close>

definition auth_failed :: "kind \<Rightarrow> string \<Rightarrow> gotime \<Rightarrow> string \<Rightarrow> msgarg list \<Rightarrow> ('w, 'v, 'u) server \<Rightarrow> ('w, 'v, 'u) server" where
  "auth_failed kd ip now fmt args s =
     (let ((n, d, tk), l) = failIn kd ip now (sv_limiter s);
          l' = (case tk of None \<Rightarrow> l | Some t \<Rightarrow> failEnd t l)
      in slog (Msg fmt (AS ip # args @ [AI n, AI d])) (s\<lparr>sv_limiter := l'\<rparr>))"

definition bearerSecret :: "string \<Rightarrow> string option" where
  "bearerSecret authz =
     (if length authz \<le> 7 \<or> \<not> EqualFold (take 7 authz) ''bearer '' then None
      else let secret = TrimSpace (drop 7 authz) in if secret \<noteq> [] then Some secret else None)"

definition resolveBearer ::
  "('w, 'v, 'u) webenv \<Rightarrow> gotime \<Rightarrow> request \<Rightarrow> string \<Rightarrow> ('w, 'v, 'u) server \<Rightarrow> (response + Caller) \<times> ('w, 'v, 'u) server" where
  "resolveBearer ev now r secret s =
     (let ip = remoteIP r
      in if busy ip (sv_limiter s) then (Inl (Err 429 (Msg ''too many concurrent authentication attempts'' [])), s)
         else let ((t, expired), ts) = ts_Lookup (hex_sha ev) (wv_tokens ev) secret ip now (sv_tokens s); s1 = s\<lparr>sv_tokens := ts\<rparr>
              in case t of
                   None \<Rightarrow>
                     let reason = (if expired then ''expired'' else ''unknown'')
                     in (Inl (Err 401 (Msg ''authentication failed: token '' [AS reason])),
                         auth_failed Bearer ip now ''web: bearer token rejected from %s: %s (%s %s, %d recent failures, delay %s)''
                           [AS reason, AS (rq_Method r), AS (rq_Path r)] s1)
                 | Some t \<Rightarrow>
                     let (ok, tl) = token_allow (tk_ID t) now (sv_tokenLimit s1);
                         s2 = s1\<lparr>sv_limiter := resetBearer ip (sv_limiter s1), sv_tokenLimit := tl\<rparr>
                     in if \<not> ok then (Inl (Err 429 (Msg ''token rate limit'' [])), s2)
                        else (Inr \<lparr>cl_Authenticated = True, cl_User = tk_Name t, cl_Via = ''bearer'', cl_Scope = tk_Scope t,
                                   cl_TokenID = tk_ID t, cl_token = []\<rparr>, s2))"

definition isLegacy :: "('w, 'v, 'u) server \<Rightarrow> bool" where
  "isLegacy s = (case ParsePasswordHash (au_PasswordHash (sv_auth s)) of Inl _ \<Rightarrow> False | Inr ph \<Rightarrow> ph_Legacy ph \<noteq> None)"

text \<open>\<open>None\<close>: the handler panicked and \<^verbatim>\<open>net/http\<close> dropped the connection.\<close>

definition upgradeLegacyHash ::
  "('w, 'v, 'u) webenv \<Rightarrow> int list \<Rightarrow> string \<Rightarrow> string \<Rightarrow> ('w, 'v, 'u) server \<Rightarrow> ('w, 'v, 'u) server option" where
  "upgradeLegacyHash ev salt user password s = (case wv_account ev of
      None \<Rightarrow> Some s
    | Some update \<Rightarrow>
        if \<not> isLegacy s then Some s
        else case PasswordHashOf ev salt password of
               None \<Rightarrow> None
             | Some hash \<Rightarrow>
                 (case update [] hash (sv_files s) of
                    (Inl e, u) \<Rightarrow> Some (slog (Msg ''web: legacy password hash not upgraded: %v'' [AE e]) (s\<lparr>sv_files := u\<rparr>))
                  | (Inr cfg, u) \<Rightarrow>
                      Some (slog (Msg ''web: legacy password hash upgraded to pbkdf2 for user %.64q'' [AS user])
                        (s\<lparr>sv_files := u, sv_auth := cfg,
                           sv_sessions := ss_SetEpoch (wv_sessions ev) (CredentialEpoch ev (au_User cfg) (au_PasswordHash cfg)) (sv_sessions s)\<rparr>))))"

definition anonymous :: Caller where
  "anonymous = \<lparr>cl_Authenticated = False, cl_User = [], cl_Via = ''none'', cl_Scope = [], cl_TokenID = [], cl_token = []\<rparr>"

definition authorized :: "('w, 'v, 'u) webenv \<Rightarrow> AuthConfig \<Rightarrow> request \<Rightarrow> bool" where
  "authorized ev cfg r = (case rq_Basic r of None \<Rightarrow> False | Some (user, pass) \<Rightarrow> credentialsOK ev cfg user pass)"

definition resolveBasic ::
  "('w, 'v, 'u) webenv \<Rightarrow> int list \<Rightarrow> gotime \<Rightarrow> request \<Rightarrow> ('w, 'v, 'u) server \<Rightarrow> (response + Caller) \<times> ('w, 'v, 'u) server" where
  "resolveBasic ev salt now r s =
     (let ip = remoteIP r; (got, l) = (if busy ip (sv_limiter s) then (False, sv_limiter s) else acquire (sv_limiter s))
      in if \<not> got then (Inl (Err 429 (Msg ''too many concurrent authentication attempts'' [])), s)
         else let s1 = s\<lparr>sv_limiter := release l\<rparr>; (user, pass) = (case rq_Basic r of None \<Rightarrow> ([], []) | Some up \<Rightarrow> up)
              in if \<not> authorized ev (sv_auth s) r then
                   (Inl (Err 401 (Msg ''authentication required'' [])),
                    auth_failed Password ip now ''web: auth failure from %s (user %.64q, %s %s, %d recent failures, delay %s)''
                      [AS user, AS (rq_Method r), AS (rq_Path r)] s1)
                 else (case upgradeLegacyHash ev salt user pass (s1\<lparr>sv_limiter := reset_pw ip (sv_limiter s1)\<rparr>) of
                         None \<Rightarrow> (Inl Panicked, s1\<lparr>sv_limiter := reset_pw ip (sv_limiter s1)\<rparr>)
                       | Some s2 \<Rightarrow> (Inr (anonymous\<lparr>cl_Authenticated := True, cl_User := user, cl_Via := ''basic''\<rparr>), s2)))"

definition resolveCaller ::
  "('w, 'v, 'u) webenv \<Rightarrow> int list \<Rightarrow> gotime \<Rightarrow> request \<Rightarrow> ('w, 'v, 'u) server \<Rightarrow> (response + Caller) \<times> ('w, 'v, 'u) server" where
  "resolveCaller ev salt now r s =
     (if \<not> basicMode s then (Inr (anonymous\<lparr>cl_Authenticated := True\<rparr>), s)
      else let (hit, ss) = (case rq_Cookie r of
                 None \<Rightarrow> (None, sv_sessions s)
               | Some tok \<Rightarrow> if tok = [] then (None, sv_sessions s) else ss_Lookup (hex_sha ev) (wv_sessions ev) tok now (sv_sessions s));
               s1 = s\<lparr>sv_sessions := ss\<rparr>
           in case hit of
                Some sess \<Rightarrow> (Inr (anonymous\<lparr>cl_Authenticated := True, cl_User := se_User sess, cl_Via := ''cookie'', cl_token := the (rq_Cookie r)\<rparr>), s1)
              | None \<Rightarrow>
                  if rq_Authz r = [] then (Inr anonymous, s1)
                  else case bearerSecret (rq_Authz r) of
                         Some secret \<Rightarrow> resolveBearer ev now r secret s1
                       | None \<Rightarrow> resolveBasic ev salt now r s1)"

section \<open>The guard\<close>

definition publicPath :: "request \<Rightarrow> bool" where
  "publicPath r =
     (if \<not> HasPrefix (rq_Path r) ''/api/'' then True
      else case routeFor (rq_Method r) (rq_Escaped r) of
             Some rt \<Rightarrow> rt_Class rt \<noteq> classProtected
           | None \<Rightarrow>
               list_ex (\<lambda>m. case routeFor m (rq_Escaped r) of Some rt \<Rightarrow> rt_Class rt \<noteq> classProtected | None \<Rightarrow> False)
                 [''GET'', ''POST'', ''PUT'', ''DELETE''])"

definition scopeAllowed :: "request \<Rightarrow> Caller \<Rightarrow> response option" where
  "scopeAllowed r c = (case routeFor (rq_Method r) (rq_Escaped r) of
      None \<Rightarrow> None
    | Some rt \<Rightarrow>
        if rt_Scope rt = scopeSession
        then Some (Err 403 (Msg ''token scope %s does not allow %s %s (session only)'' [AS (cl_Scope c), AS (rq_Method r), AS (rq_Path r)]))
        else if \<not> ScopeAllows (cl_Scope c) (rt_Scope rt)
        then Some (Err 403 (Msg ''token scope %s does not allow %s %s'' [AS (cl_Scope c), AS (rq_Method r), AS (rq_Path r)]))
        else None)"

definition is_write :: "string \<Rightarrow> bool" where
  "is_write m \<longleftrightarrow> m \<notin> {''GET'', ''HEAD'', ''OPTIONS''}"

definition guard ::
  "('w, 'v, 'u) webenv \<Rightarrow> int list \<Rightarrow> gotime \<Rightarrow> request \<Rightarrow> ('w, 'v, 'u) server \<Rightarrow> (response + Caller) \<times> ('w, 'v, 'u) server" where
  "guard ev salt now r s =
     (if \<not> hostAllowed s (rq_Host r)
      then (Inl (Err 421 (Msg ''host header not allowed; use the IP address, localhost or a configured allowed_hosts entry'' [])), s)
      else case resolveCaller ev salt now r s of
             (Inl resp, s1) \<Rightarrow> (Inl resp, s1)
           | (Inr c, s1) \<Rightarrow>
               if is_write (rq_Method r) \<and> cl_Via c \<noteq> ''bearer'' \<and> rq_Csrf r \<noteq> ''1''
               then (Inl (Err 403 (Msg ''missing X-N5-Fangov-Csrf header'' [])), s1)
               else if \<not> cl_Authenticated c \<and> \<not> publicPath r
               then (Inl (Err 401 (Msg ''authentication required'' [])), s1)
               else if cl_Via c = ''bearer'' then
                 (case scopeAllowed r c of Some resp \<Rightarrow> (Inl resp, s1) | None \<Rightarrow> (Inr c, s1))
               else (Inr c, s1))"

section \<open>The handlers that change credentials\<close>

record login_body =
  lb_User :: string
  lb_Password :: string
  lb_Remember :: bool

text \<open>\<open>body\<close> is the outcome of \<^verbatim>\<open>decodeJSON\<close>, \<open>rand\<close> the random bytes of the new token, \<open>later\<close> the instant the cookie is written.\<close>

definition login ::
  "('w, 'v, 'u) webenv \<Rightarrow> int list \<Rightarrow> goerror + int list \<Rightarrow> gotime \<Rightarrow> gotime \<Rightarrow> request \<Rightarrow> response + login_body
   \<Rightarrow> ('w, 'v, 'u) server \<Rightarrow> response \<times> ('w, 'v, 'u) server" where
  "login ev salt rand now later r body s =
     (let ip = remoteIP r
      in if \<not> basicMode s then (Err 409 (Msg ''auth is none'' []), s)
         else if busy ip (sv_limiter s) then (Err 429 (Msg ''too many concurrent authentication attempts'' []), s)
         else case body of
                Inl resp \<Rightarrow> (resp, s)
              | Inr b \<Rightarrow>
                  (case acquire (sv_limiter s) of
                     (False, l) \<Rightarrow> (Err 429 (Msg ''too many concurrent authentication attempts'' []), s)
                   | (True, l) \<Rightarrow>
                       let s1 = s\<lparr>sv_limiter := release l\<rparr>
                       in if \<not> credentialsOK ev (sv_auth s) (lb_User b) (lb_Password b) then
                            (Err 401 (Msg ''invalid user or password'' []),
                             auth_failed Password ip now ''web: login failure from %s (user %.64q, %d recent failures, delay %s)'' [AS (lb_User b)] s1)
                          else case upgradeLegacyHash ev salt (lb_User b) (lb_Password b) (s1\<lparr>sv_limiter := reset_pw ip (sv_limiter s1)\<rparr>) of
                                 None \<Rightarrow> (Panicked, s1\<lparr>sv_limiter := reset_pw ip (sv_limiter s1)\<rparr>)
                               | Some s2 \<Rightarrow>
                                   (case ss_Create (hex_sha ev) (wv_sessions ev) rand (lb_User b) (lb_Remember b) ip now (sv_sessions s2) of
                                      (Inl e, ss) \<Rightarrow> (Err 500 (Msg ''create session: '' [AE e]), s2\<lparr>sv_sessions := ss\<rparr>)
                                    | (Inr (token, sess), ss) \<Rightarrow>
                                        (SignedIn token (se_User sess) (f_trunc (dur_Seconds (Sub (se_Expires sess) later))), s2\<lparr>sv_sessions := ss\<rparr>))))"

definition logout :: "('w, 'v, 'u) webenv \<Rightarrow> request \<Rightarrow> ('w, 'v, 'u) server \<Rightarrow> response \<times> ('w, 'v, 'u) server" where
  "logout ev r s = (SignedOut, case rq_Cookie r of
      None \<Rightarrow> s
    | Some tok \<Rightarrow> if tok = [] then s else s\<lparr>sv_sessions := ss_Revoke (hex_sha ev) (wv_sessions ev) tok (sv_sessions s)\<rparr>)"

text \<open>\<^verbatim>\<open>utf8.RuneCountInString\<close>: a byte that starts no valid sequence counts as one.\<close>

definition cont_in :: "nat \<Rightarrow> nat \<Rightarrow> string \<Rightarrow> bool" where
  "cont_in lo hi s = (case s of [] \<Rightarrow> False | c # _ \<Rightarrow> lo \<le> (of_char c :: nat) \<and> (of_char c :: nat) \<le> hi)"

definition rune_size :: "char \<Rightarrow> string \<Rightarrow> nat" where
  "rune_size c s =
     (let n = (of_char c :: nat); tail1 = cont_in 0x80 0xBF (drop 1 s); tail2 = tail1 \<and> cont_in 0x80 0xBF (drop 2 s)
      in if 0xC2 \<le> n \<and> n \<le> 0xDF \<and> cont_in 0x80 0xBF s then 2
         else if n = 0xE0 \<and> cont_in 0xA0 0xBF s \<and> tail1 then 3
         else if n = 0xED \<and> cont_in 0x80 0x9F s \<and> tail1 then 3
         else if 0xE1 \<le> n \<and> n \<le> 0xEF \<and> n \<noteq> 0xED \<and> cont_in 0x80 0xBF s \<and> tail1 then 3
         else if n = 0xF0 \<and> cont_in 0x90 0xBF s \<and> tail2 then 4
         else if n = 0xF4 \<and> cont_in 0x80 0x8F s \<and> tail2 then 4
         else if 0xF1 \<le> n \<and> n \<le> 0xF3 \<and> cont_in 0x80 0xBF s \<and> tail2 then 4
         else 1)"

fun RuneCount :: "string \<Rightarrow> nat" where
  "RuneCount [] = 0"
| "RuneCount (c # s) = Suc (RuneCount (drop (rune_size c s - 1) s))"

definition MinPasswordLen :: nat where "MinPasswordLen = 8"
definition MaxPasswordLen :: nat where "MaxPasswordLen = 128"

definition account :: "('w, 'v, 'u) webenv \<Rightarrow> bool \<Rightarrow> ('w, 'v, 'u) server \<Rightarrow> response option" where
  "account ev change s =
     (if wv_account ev = None then Some (Err 501 (Msg ''no account store'' []))
      else if change \<and> \<not> basicMode s then Some (Err 409 (Msg ''auth is none'' []))
      else None)"

definition verifyCurrent ::
  "('w, 'v, 'u) webenv \<Rightarrow> gotime \<Rightarrow> request \<Rightarrow> string \<Rightarrow> ('w, 'v, 'u) server \<Rightarrow> response option \<times> ('w, 'v, 'u) server" where
  "verifyCurrent ev now r current s =
     (let ip = remoteIP r; (got, l) = (if busy ip (sv_limiter s) then (False, sv_limiter s) else acquire (sv_limiter s))
      in if \<not> got then (Some (Err 429 (Msg ''too many concurrent authentication attempts'' [])), s)
         else let s1 = s\<lparr>sv_limiter := release l\<rparr>; cfg = sv_auth s
              in if \<not> VerifyPassword ev (au_User cfg) current (au_PasswordHash cfg) then
                   (Some (Err 403 (Msg ''current password wrong'' [])),
                    auth_failed Password ip now ''web: auth failure from %s (user %.64q, account change, %d recent failures, delay %s)'' [AS (au_User cfg)] s1)
                 else (None, s1\<lparr>sv_limiter := reset_pw ip (sv_limiter s1)\<rparr>))"

definition applyAccount ::
  "('w, 'v, 'u) webenv \<Rightarrow> request \<Rightarrow> Caller \<Rightarrow> string \<Rightarrow> string \<Rightarrow> string \<Rightarrow> ('w, 'v, 'u) server \<Rightarrow> response option \<times> ('w, 'v, 'u) server" where
  "applyAccount ev r c what user hash s = (case the (wv_account ev) user hash (sv_files s) of
      (Inl e, u) \<Rightarrow> (Some (Err 500 (Msg ''update account: '' [AE e])), s\<lparr>sv_files := u\<rparr>)
    | (Inr cfg, u) \<Rightarrow>
        let ss1 = ss_SetEpoch (wv_sessions ev) (CredentialEpoch ev (au_User cfg) (au_PasswordHash cfg)) (sv_sessions s);
            ss2 = ss_RevokeAllRename (hex_sha ev) (wv_sessions ev) (cl_token c) (au_User cfg) ss1
        in (None, slog (Msg ''web: account %s changed by %s'' [AS what, AS (remoteIP r)]) (s\<lparr>sv_files := u, sv_auth := cfg, sv_sessions := ss2\<rparr>)))"

definition accountPassword ::
  "('w, 'v, 'u) webenv \<Rightarrow> int list \<Rightarrow> gotime \<Rightarrow> request \<Rightarrow> Caller \<Rightarrow> response + string \<times> string
   \<Rightarrow> ('w, 'v, 'u) server \<Rightarrow> response \<times> ('w, 'v, 'u) server" where
  "accountPassword ev salt now r c body s = (case account ev True s of
      Some resp \<Rightarrow> (resp, s)
    | None \<Rightarrow> (case body of
        Inl resp \<Rightarrow> (resp, s)
      | Inr (current, new) \<Rightarrow>
          if RuneCount new < MinPasswordLen \<or> RuneCount new > MaxPasswordLen
          then (Err 400 (Msg ''new password must be %d..%d characters'' [AI (int MinPasswordLen), AI (int MaxPasswordLen)]), s)
          else case verifyCurrent ev now r current s of
                 (Some resp, s1) \<Rightarrow> (resp, s1)
               | (None, s1) \<Rightarrow>
                   (case PasswordHashOf ev salt new of
                      None \<Rightarrow> (Panicked, s1)
                    | Some hash \<Rightarrow>
                        (case applyAccount ev r c ''password'' [] hash s1 of
                           (Some resp, s2) \<Rightarrow> (resp, s2)
                         | (None, s2) \<Rightarrow> (Done 200, s2)))))"

definition accountUser ::
  "('w, 'v, 'u) webenv \<Rightarrow> int list \<Rightarrow> gotime \<Rightarrow> request \<Rightarrow> Caller \<Rightarrow> response + string \<times> string
   \<Rightarrow> ('w, 'v, 'u) server \<Rightarrow> response \<times> ('w, 'v, 'u) server" where
  "accountUser ev salt now r c body s = (case account ev True s of
      Some resp \<Rightarrow> (resp, s)
    | None \<Rightarrow> (case body of
        Inl resp \<Rightarrow> (resp, s)
      | Inr (current, user) \<Rightarrow>
          if \<not> UserRe user then (Err 400 (Msg ''user must match '' []), s)
          else case verifyCurrent ev now r current s of
                 (Some resp, s1) \<Rightarrow> (resp, s1)
               | (None, s1) \<Rightarrow>
                   (case PasswordHashOf ev salt current of
                      None \<Rightarrow> (Panicked, s1)
                    | Some hash \<Rightarrow>
                        (case applyAccount ev r c ''user'' user hash s1 of
                           (Some resp, s2) \<Rightarrow> (resp, s2)
                         | (None, s2) \<Rightarrow> (Done 200, s2)))))"

definition accountRevoke ::
  "('w, 'v, 'u) webenv \<Rightarrow> gotime \<Rightarrow> request \<Rightarrow> Caller \<Rightarrow> response + bool \<Rightarrow> ('w, 'v, 'u) server \<Rightarrow> response \<times> ('w, 'v, 'u) server" where
  "accountRevoke ev now r c body s = (case account ev False s of
      Some resp \<Rightarrow> (resp, s)
    | None \<Rightarrow> (case body of
        Inl resp \<Rightarrow> (resp, s)
      | Inr others \<Rightarrow>
          if \<not> others then (Err 400 (Msg ''\"others\" must be true'' []), s)
          else let (before, ss1) = ss_List (wv_sessions ev) now (sv_sessions s);
                   ss2 = ss_RevokeAllRename (hex_sha ev) (wv_sessions ev) (cl_token c) [] ss1;
                   (after, ss3) = ss_List (wv_sessions ev) now ss2;
                   revoked = int (length before) - int (length after)
               in (Revoked revoked, slog (Msg ''web: %d session(s) revoked by %s'' [AI revoked, AS (remoteIP r)]) (s\<lparr>sv_sessions := ss3\<rparr>))))"

definition TokenTTLDefault :: int where "TokenTTLDefault = 90"
definition TokenTTLMax :: int where "TokenTTLMax = 3650"

record token_body =
  to_Name :: string
  to_Scope :: string
  to_TTLDays :: "int option"

definition createToken ::
  "('w, 'v, 'u) webenv \<Rightarrow> goerror + int list \<Rightarrow> gotime \<Rightarrow> request \<Rightarrow> Caller \<Rightarrow> response + token_body
   \<Rightarrow> ('w, 'v, 'u) server \<Rightarrow> response \<times> ('w, 'v, 'u) server" where
  "createToken ev rand now r c body s =
     (if \<not> basicMode s then (Err 409 (Msg ''auth is none'' []), s)
      else case body of
             Inl resp \<Rightarrow> (resp, s)
           | Inr b \<Rightarrow>
               let ttl = (case to_TTLDays b of None \<Rightarrow> TokenTTLDefault | Some d \<Rightarrow> d)
               in if ttl < 0 \<or> ttl > TokenTTLMax then (Err 400 (Msg ''ttl_days must be 0..%d'' [AI TokenTTLMax]), s)
                  else let expires = (if ttl > 0 then Some (Add now (ttl * 24 * Hour)) else None)
                       in case ts_Create (hex_sha ev) (wv_tokens ev) rand (to_Name b) (to_Scope b) expires now (sv_tokens s) of
                            (Inl e, ts) \<Rightarrow>
                              ((case e of
                                  ErrTokenTaken \<Rightarrow> Err 409 (Msg ''token name already in use'' [])
                                | ErrTokenLimit \<Rightarrow> Err 409 (Msg ''at most %d tokens'' [AI (int tokenMax)])
                                | ErrTokenName \<Rightarrow> Err 400 (Msg ''token name must match '' [])
                                | ErrTokenScope \<Rightarrow> Err 400 (Msg ''token scope must be read, control or admin'' [])
                                | ErrRandom g \<Rightarrow> Err 500 (Msg ''create token: '' [AE g])), s\<lparr>sv_tokens := ts\<rparr>)
                          | (Inr (secret, t), ts) \<Rightarrow>
                              (Minted secret t,
                               slog (Msg ''web: api token %q (%s, scope %s, expires %s) created by %s via %s''
                                 [AS (tk_Name t), AS (tk_ID t), AS (tk_Scope t), AS (remoteIP r), AS (cl_Via c)]) (s\<lparr>sv_tokens := ts\<rparr>)))"

definition revokeToken ::
  "('w, 'v, 'u) webenv \<Rightarrow> request \<Rightarrow> Caller \<Rightarrow> string \<Rightarrow> ('w, 'v, 'u) server \<Rightarrow> response \<times> ('w, 'v, 'u) server" where
  "revokeToken ev r c tid s =
     (if \<not> ValidTokenID tid then (Err 400 (Msg ''token id must be 8 hex characters'' []), s)
      else case ts_Revoke (wv_tokens ev) tid (sv_tokens s) of
             (False, ts) \<Rightarrow> (Err 404 (Msg ''unknown token '' [AS tid]), s\<lparr>sv_tokens := ts\<rparr>)
           | (True, ts) \<Rightarrow>
               (Done 200, slog (Msg ''web: api token %s revoked by %s via %s'' [AS tid, AS (remoteIP r), AS (cl_Via c)]) (s\<lparr>sv_tokens := ts\<rparr>)))"

section \<open>Who gets past the guard\<close>

text \<open>The evidence behind a resolved caller.\<close>

definition cookie_evidence :: "('w, 'v, 'u) webenv \<Rightarrow> gotime \<Rightarrow> request \<Rightarrow> ('w, 'v, 'u) server \<Rightarrow> Caller \<Rightarrow> bool" where
  "cookie_evidence ev now r s c \<longleftrightarrow> (\<exists>tok sess. rq_Cookie r = Some tok \<and>
     fst (ss_Lookup (hex_sha ev) (wv_sessions ev) tok now (sv_sessions s)) = Some sess \<and>
     cl_Via c = ''cookie'' \<and> cl_User c = se_User sess \<and> cl_token c = tok)"

definition bearer_evidence :: "('w, 'v, 'u) webenv \<Rightarrow> gotime \<Rightarrow> request \<Rightarrow> ('w, 'v, 'u) server \<Rightarrow> Caller \<Rightarrow> bool" where
  "bearer_evidence ev now r s c \<longleftrightarrow> (\<exists>secret t. bearerSecret (rq_Authz r) = Some secret \<and>
     fst (fst (ts_Lookup (hex_sha ev) (wv_tokens ev) secret (remoteIP r) now (sv_tokens s))) = Some t \<and>
     cl_Via c = ''bearer'' \<and> cl_User c = tk_Name t \<and> cl_Scope c = tk_Scope t)"

definition basic_evidence :: "('w, 'v, 'u) webenv \<Rightarrow> request \<Rightarrow> ('w, 'v, 'u) server \<Rightarrow> Caller \<Rightarrow> bool" where
  "basic_evidence ev r s c \<longleftrightarrow> (\<exists>user pass. rq_Basic r = Some (user, pass) \<and> credentialsOK ev (sv_auth s) user pass \<and>
     cl_Via c = ''basic'' \<and> cl_User c = user)"

lemmas evidence_defs = cookie_evidence_def bearer_evidence_def basic_evidence_def

lemma resolveBearer_evidence:
  assumes "resolveBearer ev now r secret s = (Inr c, s')" "bearerSecret (rq_Authz r) = Some secret"
  shows "cl_Authenticated c \<and> bearer_evidence ev now r s c"
  using assms by (auto simp: resolveBearer_def bearer_evidence_def Let_def split: if_splits option.splits prod.splits)

lemma resolveBasic_evidence:
  assumes "resolveBasic ev salt now r s = (Inr c, s')"
  shows "cl_Authenticated c \<and> basic_evidence ev r s c"
proof -
  obtain up where up: "rq_Basic r = Some up" "authorized ev (sv_auth s) r"
    using assms by (cases "rq_Basic r") (auto simp: resolveBasic_def authorized_def Let_def split: if_splits prod.splits)
  then have "cl_Authenticated c \<and> cl_User c = fst up \<and> cl_Via c = ''basic''"
    using assms by (auto simp: resolveBasic_def Let_def split: if_splits prod.splits option.splits)
  then show ?thesis using up by (cases up) (auto simp: basic_evidence_def authorized_def)
qed

lemma resolveCaller_evidence:
  assumes "resolveCaller ev salt now r s = (Inr c, s')" "basicMode s"
  shows "c = anonymous \<or> cl_Authenticated c \<and> (cookie_evidence ev now r s c \<or> bearer_evidence ev now r s c \<or> basic_evidence ev r s c)"
proof -
  define look where "look = (case rq_Cookie r of None \<Rightarrow> (None, sv_sessions s)
    | Some tok \<Rightarrow> if tok = [] then (None, sv_sessions s) else ss_Lookup (hex_sha ev) (wv_sessions ev) tok now (sv_sessions s))"
  obtain hit ss where hs: "look = (hit, ss)" by (cases look)
  have res: "resolveCaller ev salt now r s = (case hit of
      Some sess \<Rightarrow> (Inr (anonymous\<lparr>cl_Authenticated := True, cl_User := se_User sess, cl_Via := ''cookie'', cl_token := the (rq_Cookie r)\<rparr>), s\<lparr>sv_sessions := ss\<rparr>)
    | None \<Rightarrow> if rq_Authz r = [] then (Inr anonymous, s\<lparr>sv_sessions := ss\<rparr>)
        else case bearerSecret (rq_Authz r) of Some secret \<Rightarrow> resolveBearer ev now r secret (s\<lparr>sv_sessions := ss\<rparr>)
             | None \<Rightarrow> resolveBasic ev salt now r (s\<lparr>sv_sessions := ss\<rparr>))"
    using assms(2) hs unfolding look_def by (simp add: resolveCaller_def Let_def)
  show ?thesis
  proof (cases hit)
    case (Some sess)
    then show ?thesis using assms(1) res hs
      by (auto simp: look_def cookie_evidence_def split: option.splits if_splits)
  next
    case None
    then show ?thesis
      using assms(1) res resolveBearer_evidence [of ev now r _ "s\<lparr>sv_sessions := ss\<rparr>" c s'] resolveBasic_evidence [of ev salt now r "s\<lparr>sv_sessions := ss\<rparr>" c s']
      by (auto simp: bearer_evidence_def basic_evidence_def split: option.splits if_splits)
  qed
qed

lemma guard_passes:
  assumes "guard ev salt now r s = (Inr c, s')"
  shows "hostAllowed s (rq_Host r)" "resolveCaller ev salt now r s = (Inr c, s')"
    "is_write (rq_Method r) \<Longrightarrow> cl_Via c \<noteq> ''bearer'' \<Longrightarrow> rq_Csrf r = ''1''"
    "cl_Authenticated c \<or> publicPath r" "cl_Via c = ''bearer'' \<Longrightarrow> scopeAllowed r c = None"
  using assms by (auto simp: guard_def split: if_splits sum.splits prod.splits option.splits)

lemma anonymous_via [simp]: "cl_Via anonymous = ''none''" "\<not> cl_Authenticated anonymous"
  by (simp_all add: anonymous_def)

lemma handed_route:
  assumes "mux_Handler (rq_Method r) (rq_Escaped r) = (b, Route rt)"
  shows "routeFor (rq_Method r) (rq_Escaped r) = Some rt" "rt \<in> set routeTable" "methodMatches (rt_Method rt) (rq_Method r)"
  using assms by (auto simp: routeFor_def mux_Handler_def Let_def mux_match_Route takes_def split: if_splits)

text \<open>
  C17: with basic authentication nothing protected is served without a credential. When the guard lets a
  request through and the mux hands it to a protected route, the host header is allowed, the caller
  has a session the store accepts now, the configured user name with a password that verifies, or a
  token the store accepts now whose scope covers the route and which is not on a session-only route; a
  state-changing request that is not by token carries the CSRF header.
\<close>

theorem protected_needs_credential:
  assumes "basicMode s" "url_ok r" "guard ev salt now r s = (Inr c, s')"
    and "mux_Handler (rq_Method r) (rq_Escaped r) = (False, Route rt)" "rt_Class rt = classProtected"
  shows "hostAllowed s (rq_Host r) \<and> cl_Authenticated c \<and>
    (cookie_evidence ev now r s c \<or> basic_evidence ev r s c \<or>
     bearer_evidence ev now r s c \<and> rt_Scope rt \<noteq> scopeSession \<and> ScopeAllows (cl_Scope c) (rt_Scope rt)) \<and>
    (is_write (rq_Method r) \<and> cl_Via c \<noteq> ''bearer'' \<longrightarrow> rq_Csrf r = ''1'')"
proof -
  note g = guard_passes [OF assms(3)]
  have rt: "routeFor (rq_Method r) (rq_Escaped r) = Some rt" using handed_route [OF assms(4)] by blast
  have "HasPrefix (rq_Path r) ''/api/''"
    using protected_path [OF assms(4,5)] assms(2) by (simp add: url_ok_def)
  then have "\<not> publicPath r" using rt assms(5) by (simp add: publicPath_def)
  then have auth: "cl_Authenticated c" using g(4) by blast
  then have "cookie_evidence ev now r s c \<or> bearer_evidence ev now r s c \<or> basic_evidence ev r s c"
    using resolveCaller_evidence [OF g(2) assms(1)] by auto
  moreover have "rt_Scope rt \<noteq> scopeSession \<and> ScopeAllows (cl_Scope c) (rt_Scope rt)" if "bearer_evidence ev now r s c"
    using g(5) that rt by (auto simp: bearer_evidence_def scopeAllowed_def split: if_splits)
  ultimately show ?thesis using g(1,3) auth by blast
qed

text \<open>
  C18: nothing is changed without a verified caller of sufficient scope. Whatever route other than a GET one
  the mux hands a passed request to, it is the login or the logout, or the caller authenticated; a caller
  with a token has control or admin scope there and never reaches the credential handlers, any other
  caller sent the CSRF header.
\<close>

theorem writes_need_control:
  assumes "basicMode s" "url_ok r" "guard ev salt now r s = (Inr c, s')"
    and "mux_Handler (rq_Method r) (rq_Escaped r) = (False, Route rt)" "rt_Method rt \<noteq> ''GET''"
  shows "(rt_Handler rt = ''login'' \<or> rt_Handler rt = ''logout'' \<or> cl_Authenticated c) \<and>
    (if cl_Via c = ''bearer'' then cl_Scope c \<in> {''control'', ''admin''} \<and> rt_Scope rt \<noteq> scopeSession else rq_Csrf r = ''1'')"
proof -
  note g = guard_passes [OF assms(3)] and h = handed_route [OF assms(4)]
  have tbl: "rt_Method rt \<in> {''POST'', ''PUT'', ''DELETE''}" "rt_Scope rt \<noteq> scopeRead"
    "rt_Class rt = classProtected \<or> rt_Handler rt = ''login'' \<or> rt_Handler rt = ''logout''"
    using table_writes table_public_writes h(2) assms(5) by (auto simp: list_all_iff)
  have w: "is_write (rq_Method r)" using h(3) tbl(1) by (auto simp: methodMatches_def is_write_def)
  have auth: "cl_Authenticated c" if "rt_Class rt = classProtected"
  proof -
    have "HasPrefix (rq_Path r) ''/api/''" using protected_path [OF assms(4) that] assms(2) by (simp add: url_ok_def)
    then show ?thesis using g(4) h(1) that by (simp add: publicPath_def)
  qed
  have "cl_Scope c \<in> {''control'', ''admin''} \<and> rt_Scope rt \<noteq> scopeSession" if "cl_Via c = ''bearer''"
    using g(5) [OF that] h(1) tbl(2) table_scopes h(2)
    by (auto simp: scopeAllowed_def ScopeAllows_def scopeRank_def scope_names list_all_iff split: if_splits)
  then show ?thesis using auth tbl(3) g(3) w by auto
qed

section \<open>Stored hashes verify\<close>

lemma hex_digit_plain: "0 \<le> d \<Longrightarrow> d < 16 \<Longrightarrow> hex_digit d \<notin> last ` set space_seqs \<and> hex_digit d \<noteq> CHR ''$''"
proof -
  assume d: "0 \<le> d" "d < 16"
  have all: "list_all (\<lambda>d. hex_digit d \<notin> last ` set space_seqs \<and> hex_digit d \<noteq> CHR ''$'') [0..15]" by code_simp
  show ?thesis using all d by (auto simp: list_all_iff)
qed

lemma hex_Encode_plain: "\<forall>b \<in> set bs. 0 \<le> b \<and> b < 256 \<Longrightarrow> \<forall>c \<in> set (hex_EncodeToString bs). c \<notin> last ` set space_seqs \<and> c \<noteq> CHR ''$''"
proof (induction bs)
  case (Cons b bs)
  have "0 \<le> b div 16" "b div 16 < 16" "0 \<le> b mod 16" "b mod 16 < 16" using Cons.prems by auto
  then show ?case
    using Cons hex_digit_plain [of "b div 16"] hex_digit_plain [of "b mod 16"] by (simp add: hex_EncodeToString_def)
qed (simp add: hex_EncodeToString_def)

lemma Parse_written_hash:
  assumes "\<forall>b \<in> set salt. 0 \<le> b \<and> b < 256" "8 \<le> length salt" "\<forall>b \<in> set key. 0 \<le> b \<and> b < 256" "length key = PBKDF2KeyLen"
  shows "ParsePasswordHash (''pbkdf2$'' @ Itoa PBKDF2Iter @ ''$'' @ hex_EncodeToString salt @ ''$'' @ hex_EncodeToString key) =
    Inr \<lparr>ph_Legacy = None, ph_Iter = PBKDF2Iter, ph_Salt = salt, ph_Key = key\<rparr>"
proof -
  let ?s = "''pbkdf2$'' @ Itoa PBKDF2Iter @ ''$'' @ hex_EncodeToString salt @ ''$'' @ hex_EncodeToString key"
  have ne: "hex_EncodeToString key \<noteq> []"
    using hex_EncodeToString_length [of key] assms(4) by (force simp: PBKDF2KeyLen_def simp del: hex_EncodeToString_length)
  have itoa: "Itoa PBKDF2Iter = ''210000''" by code_simp
  have "last ?s = last (hex_EncodeToString key)" using ne by simp
  then have "last ?s \<notin> last ` set space_seqs" using hex_Encode_plain [OF assms(3)] last_in_set [OF ne] by auto
  moreover have "hd ?s \<notin> hd ` set space_seqs" by (auto simp: space_seqs_def)
  ultimately have trim: "TrimSpace ?s = ?s" by (intro TrimSpace_id) simp_all
  have dollar: "CHR ''$'' \<notin> set (hex_EncodeToString salt)" "CHR ''$'' \<notin> set (hex_EncodeToString key)"
    using hex_Encode_plain [OF assms(1)] hex_Encode_plain [OF assms(3)] by auto
  have "?s = ''pbkdf2'' @ CHR ''$'' # ''210000'' @ CHR ''$'' # hex_EncodeToString salt @ CHR ''$'' # hex_EncodeToString key"
    by (simp add: itoa)
  then have split: "Split ?s (CHR ''$'') = [''pbkdf2'', ''210000'', hex_EncodeToString salt, hex_EncodeToString key]"
    using Split_append [OF dollar(1), of "hex_EncodeToString key"] Split_no_sep [OF dollar(2)] by simp
  have atoi: "Atoi ''210000'' = Some PBKDF2Iter" by code_simp
  have range: "\<not> (PBKDF2Iter < PBKDF2MinIter \<or> PBKDF2Iter > PBKDF2MaxIter)" by code_simp
  have pre: "HasPrefix ?s ''pbkdf2$''" by (simp add: HasPrefix_def)
  show ?thesis
    unfolding ParsePasswordHash_def Let_def trim split using assms pre atoi range by (simp add: hex_roundtrip)
qed

text \<open>What the code relies on of the key derivation: it yields the bytes asked for, or an error.\<close>

definition kdf_ok :: "('w, 'v, 'u) webenv \<Rightarrow> bool" where
  "kdf_ok ev \<longleftrightarrow> (\<forall>pw salt it n key. wv_pbkdf2 ev pw salt it n = Some key \<longrightarrow> length key = n \<and> (\<forall>b \<in> set key. 0 \<le> b \<and> b < 256))"

lemma PasswordHashOf_verifies:
  assumes "kdf_ok ev" "PasswordHashOf ev salt pw = Some hash" "\<forall>b \<in> set salt. 0 \<le> b \<and> b < 256" "8 \<le> length salt"
  shows "VerifyPassword ev user pw hash"
proof -
  obtain key where key: "wv_pbkdf2 ev pw salt PBKDF2Iter PBKDF2KeyLen = Some key"
    "hash = ''pbkdf2$'' @ Itoa PBKDF2Iter @ ''$'' @ hex_EncodeToString salt @ ''$'' @ hex_EncodeToString key"
    using assms(2) by (auto simp: PasswordHashOf_def split: option.splits)
  have "length key = PBKDF2KeyLen" "\<forall>b \<in> set key. 0 \<le> b \<and> b < 256" using assms(1) key(1) by (auto simp: kdf_ok_def)
  then show ?thesis
    using Parse_written_hash [OF assms(3,4), of key] key by (simp add: VerifyPassword_def)
qed

section \<open>Changing the password\<close>

text \<open>
  What the server relies on of \<^verbatim>\<open>AccountStore.Update\<close>: the credentials it returns are the ones in effect
  with the named values replaced, the empty string keeping a value.
\<close>

definition account_ok :: "('w, 'v, 'u) webenv \<Rightarrow> AuthConfig \<Rightarrow> bool" where
  "account_ok ev cur \<longleftrightarrow> (\<forall>update user hash u cfg u'. wv_account ev = Some update \<longrightarrow> update user hash u = (Inr cfg, u') \<longrightarrow>
     cfg = cur\<lparr>au_User := (if user = [] then au_User cur else user), au_PasswordHash := (if hash = [] then au_PasswordHash cur else hash)\<rparr>)"

lemma RevokeAllRename_lookup:
  assumes "sha tok \<noteq> (if keep \<noteq> [] then sha keep else [])"
  shows "fst (ss_Lookup sha mi tok now (ss_RevokeAllRename sha mi keep u s)) = None"
  using assms by (auto simp: ss_Lookup_def RevokeAllRename_tbl map_of_map_filter_key split: option.splits)

lemma verifyCurrent_auth: "verifyCurrent ev now r current s = (resp, s1) \<Longrightarrow> sv_auth s1 = sv_auth s"
  by (auto simp: verifyCurrent_def Let_def auth_failed_def slog_def split: if_splits prod.splits option.splits)

lemma ss_SetEpoch_epoch [simp]: "ss_epoch (ss_SetEpoch mi epoch s) = epoch"
  by (simp add: ss_SetEpoch_def)

lemma RevokeAllRename_epoch [simp]: "ss_epoch (ss_RevokeAllRename sha mi keep u s) = ss_epoch s"
  by (auto simp: ss_RevokeAllRename_def Let_def)

lemma applyAccount_done:
  assumes "applyAccount ev r c what user hash s = (None, s')"
  shows "\<exists>cfg u. the (wv_account ev) user hash (sv_files s) = (Inr cfg, u) \<and> sv_auth s' = cfg \<and>
    ss_epoch (sv_sessions s') = CredentialEpoch ev (au_User cfg) (au_PasswordHash cfg) \<and>
    (\<exists>ss. sv_sessions s' = ss_RevokeAllRename (hex_sha ev) (wv_sessions ev) (cl_token c) (au_User cfg) ss)"
  using assms by (auto simp: applyAccount_def Let_def slog_def split: prod.splits sum.splits)

lemma refusals_are_errors:
  "verifyCurrent ev now r current s \<noteq> (Some (Done n), s')" "applyAccount ev r c what user hash s \<noteq> (Some (Done n), s')"
  by (auto simp: verifyCurrent_def applyAccount_def Let_def split: prod.splits sum.splits)


section \<open>Signing in\<close>

text \<open>
  A login is accepted with the configured credentials only, and its cookie works. When the login
  handler signs a client in, the user name is the configured one and the password verifies; a later
  request with that cookie, while the lifetime asked for lasts, resolves to that user by session.
\<close>

theorem login_works:
  assumes "login ev salt rand now later r (Inr b) s = (SignedIn token user age, s')" "token \<noteq> []"
  shows "credentialsOK ev (sv_auth s) (lb_User b) (lb_Password b) \<and> user = lb_User b \<and>
    (basicMode s' \<and> rq_Cookie r' = Some token \<and> After (Add now (ss_ttl (lb_Remember b))) t \<longrightarrow>
       fst (resolveCaller ev salt' t r' s') =
         Inr \<lparr>cl_Authenticated = True, cl_User = user, cl_Via = ''cookie'', cl_Scope = [], cl_TokenID = [], cl_token = token\<rparr>)"
proof -
  obtain s2 ss sess where ok: "credentialsOK ev (sv_auth s) (lb_User b) (lb_Password b)"
    "ss_Create (hex_sha ev) (wv_sessions ev) rand (lb_User b) (lb_Remember b) (remoteIP r) now (sv_sessions s2) = (Inr (token, sess), ss)"
    "user = se_User sess" "s' = s2\<lparr>sv_sessions := ss\<rparr>"
    using assms(1) by (auto simp: login_def Let_def split: if_splits bool.splits prod.splits option.splits sum.splits)
  from ok(2) have cr: "sess = \<lparr>se_ID = take 8 (hex_sha ev token), se_User = lb_User b, se_IP = remoteIP r, se_Created = now,
      se_Expires = Add now (ss_ttl (lb_Remember b)), se_LastSeen = now, se_Remember = lb_Remember b\<rparr>"
    "map_of (ss_byKey ss) (hex_sha ev token) = Some sess"
    by (auto simp: ss_Create_def Let_def AList.update_conv' split: sum.splits)
  have "map_option se_User (fst (ss_Lookup (hex_sha ev) (wv_sessions ev) token t ss)) = Some user"
    if "After (Add now (ss_ttl (lb_Remember b))) t"
    using that cr ok(3) assms(2) by (auto simp: ss_Lookup_def live_session_def Let_def)
  then show ?thesis
    using ok assms(2) cr(1) by (auto simp: resolveCaller_def anonymous_def Let_def split: prod.splits)
qed

section \<open>A server at work\<close>

definition bytes_of :: "string \<Rightarrow> int list" where
  "bytes_of s = map (\<lambda>c. int (of_char c)) s"

definition auth_demo :: AuthConfig where
  "auth_demo = \<lparr>au_Mode = ''basic'', au_User = ''admin'', au_PasswordHash = ''pbkdf2$'' @ Itoa PBKDF2Iter @ ''$'' @ hex_EncodeToString (replicate 16 7) @
     ''$'' @ hex_EncodeToString (take 32 (bytes_of ''old password'' @ replicate 32 0))\<rparr>"

definition ev_demo :: "(unit, unit, unit) webenv" where
  "ev_demo = \<lparr>wv_sha256 = (\<lambda>t. take 32 (bytes_of t @ replicate 32 0)), wv_pbkdf2 = (\<lambda>pw salt it n. Some (take n (bytes_of pw @ replicate n 0))),
     wv_sessions = mirror_off, wv_tokens = mirror_off,
     wv_account = Some (\<lambda>user hash u. (Inr \<lparr>au_Mode = ''basic'', au_User = (if user = [] then ''admin'' else user),
        au_PasswordHash = (if hash = [] then au_PasswordHash auth_demo else hash)\<rparr>, u))\<rparr>"

abbreviation noon :: gotime where "noon \<equiv> \<lparr>wall = 12 * Hour, mono = Some 0\<rparr>"

definition server_demo :: "(unit, unit, unit) server" where
  "server_demo = (NewServer ev_demo auth_demo [] noon () () ())\<lparr>sv_sessions :=
     snd (ss_Create (hex_sha ev_demo) mirror_off (Inr [1, 2, 3]) ''admin'' False ''10.0.0.2'' noon (sv_sessions (NewServer ev_demo auth_demo [] noon () () ())))\<rparr>"

definition req_demo :: "string \<Rightarrow> string \<Rightarrow> request" where
  "req_demo m path = \<lparr>rq_Method = m, rq_Host = ''10.0.0.1:8086'', rq_Escaped = path, rq_Path = path, rq_RemoteAddr = ''10.0.0.2:5000'',
     rq_Cookie = Some ''AQID'', rq_Authz = [], rq_Basic = None, rq_Csrf = ''1''\<rparr>"

definition caller_demo :: Caller where
  "caller_demo = \<lparr>cl_Authenticated = True, cl_User = ''admin'', cl_Via = ''cookie'', cl_Scope = [], cl_TokenID = [], cl_token = ''AQID''\<rparr>"

lemma server_demo_basic: "basicMode server_demo"
  by code_simp

lemma guard_demo: "fst (guard ev_demo [] noon (req_demo ''PUT'' ''/api/override/cpu'') server_demo) = Inr caller_demo"
  by code_simp

lemma route_demo:
  "mux_Handler (rq_Method (req_demo ''PUT'' ''/api/override/cpu'')) (rq_Escaped (req_demo ''PUT'' ''/api/override/cpu'')) =
     (False, Route (mk_route ''PUT'' ''/api/override/{name}'' ''putOverride'' classProtected scopeControl))"
  by code_simp

lemma url_demo: "url_ok (req_demo ''PUT'' ''/api/override/cpu'')"
  by code_simp

lemma guard_demo_pair:
  "guard ev_demo [] noon (req_demo ''PUT'' ''/api/override/cpu'') server_demo =
     (Inr caller_demo, snd (guard ev_demo [] noon (req_demo ''PUT'' ''/api/override/cpu'') server_demo))"
  using guard_demo by (simp add: prod_eq_iff)

theorem protected_needs_credential_witness:
  "cookie_evidence ev_demo noon (req_demo ''PUT'' ''/api/override/cpu'') server_demo caller_demo"
  using protected_needs_credential [OF server_demo_basic url_demo guard_demo_pair route_demo]
  by (auto simp: caller_demo_def bearer_evidence_def basic_evidence_def)

theorem writes_need_control_witness: "rq_Csrf (req_demo ''PUT'' ''/api/override/cpu'') = ''1''"
  using writes_need_control [OF server_demo_basic url_demo guard_demo_pair route_demo] by (simp add: caller_demo_def)

lemma kdf_demo: "kdf_ok ev_demo"
proof -
  have "0 \<le> b \<and> b < 256" if "b \<in> set (bytes_of pw)" for b pw
    using that nat_of_char_less_256 by (fastforce simp: bytes_of_def simp del: of_nat_of_char)
  then show ?thesis by (auto simp: kdf_ok_def ev_demo_def dest!: in_set_takeD)
qed

lemma account_demo: "account_ok ev_demo (sv_auth server_demo)"
  by (simp add: account_ok_def ev_demo_def server_demo_def NewServer_def auth_demo_def split: prod.splits)

lemma password_demo:
  "PasswordHashOf ev_demo (replicate 16 7) ''old password'' = Some (au_PasswordHash (sv_auth server_demo))"
  "PasswordHashOf ev_demo (replicate 16 9) ''new password'' \<noteq> None"
  by (simp_all add: PasswordHashOf_def ev_demo_def server_demo_def NewServer_def auth_demo_def PBKDF2KeyLen_def split: prod.splits)

lemma old_password_demo: "VerifyPassword ev_demo user ''old password'' (au_PasswordHash (sv_auth server_demo))"
  by (rule PasswordHashOf_verifies [OF kdf_demo password_demo(1)]) simp_all

lemma limiter_demo: "sv_limiter server_demo = newAuthLimiter" "acquire newAuthLimiter = (True, newAuthLimiter\<lparr>al_slots := 1\<rparr>)"
  "busy ip newAuthLimiter = False"
  by (simp_all add: server_demo_def NewServer_def acquire_def busy_def newAuthLimiter_def limitHashConcurrent_def split: prod.splits)

lemma update_demo:
  "wv_account ev_demo = Some (\<lambda>user hash u. (Inr \<lparr>au_Mode = ''basic'', au_User = (if user = [] then ''admin'' else user),
     au_PasswordHash = (if hash = [] then au_PasswordHash auth_demo else hash)\<rparr>, u))"
  by (simp add: ev_demo_def)

lemma account_changed_demo:
  "fst (accountPassword ev_demo (replicate 16 9) noon (req_demo ''POST'' ''/api/account/password'') caller_demo
     (Inr (''old password'', ''new password'')) server_demo) = Done 200"
proof -
  have runes: "RuneCount ''new password'' = 12" by code_simp
  show ?thesis
    using password_demo(2) old_password_demo server_demo_basic
    by (auto simp: accountPassword_def account_def runes MinPasswordLen_def MaxPasswordLen_def verifyCurrent_def limiter_demo
        applyAccount_def Let_def update_demo simp del: RuneCount.simps)
qed


lemma login_demo:
  "fst (login ev_demo [] (Inr [4, 5, 6]) noon noon (req_demo ''POST'' ''/api/login'') (Inr \<lparr>lb_User = ''admin'', lb_Password = ''old password'', lb_Remember = False\<rparr>)
     server_demo) = SignedIn ''BAUG'' ''admin'' 43200"
proof -
  have parse: "ParsePasswordHash (au_PasswordHash (sv_auth server_demo)) =
      Inr \<lparr>ph_Legacy = None, ph_Iter = PBKDF2Iter, ph_Salt = replicate 16 7, ph_Key = take 32 (bytes_of ''old password'' @ replicate 32 0)\<rparr>"
    unfolding server_demo_def by (simp add: NewServer_def auth_demo_def split: prod.splits)
      (rule Parse_written_hash [simplified]; simp add: bytes_of_def PBKDF2KeyLen_def)
  have user: "au_User (sv_auth server_demo) = ''admin''" by (simp add: server_demo_def NewServer_def auth_demo_def split: prod.splits)
  have tok: "RawURLEncoding [4, 5, 6] = ''BAUG''" by code_simp
  have age: "f_trunc (dur_Seconds (12 * Hour)) = 43200" by code_simp
  show ?thesis
    using old_password_demo [of "''admin''"] server_demo_basic user parse
    by (auto simp: login_def limiter_demo credentialsOK_def upgradeLegacyHash_def isLegacy_def update_demo ss_Create_def sessionToken_def tok Let_def
        ss_ttl_def sessionTTL_def Sub_Add_same age simp del: RawURLEncoding.simps)
qed

definition signed_in_demo :: "(unit, unit, unit) server" where
  "signed_in_demo = snd (login ev_demo [] (Inr [4, 5, 6]) noon noon (req_demo ''POST'' ''/api/login'')
     (Inr \<lparr>lb_User = ''admin'', lb_Password = ''old password'', lb_Remember = False\<rparr>) server_demo)"

lemma login_demo_pair:
  "login ev_demo [] (Inr [4, 5, 6]) noon noon (req_demo ''POST'' ''/api/login'') (Inr \<lparr>lb_User = ''admin'', lb_Password = ''old password'', lb_Remember = False\<rparr>)
     server_demo = (SignedIn ''BAUG'' ''admin'' 43200, signed_in_demo)"
  using login_demo by (simp add: prod_eq_iff signed_in_demo_def)

theorem login_works_witness: "credentialsOK ev_demo (sv_auth server_demo) ''admin'' ''old password''"
  using login_works [OF login_demo_pair] by simp

end
