(* ===== verification/DebVer.thy ===== *)
theory DebVer
  imports GoNet
begin

text \<open>
  Package \<^verbatim>\<open>internal/debver\<close>: the comparison of Debian version strings. The indices \<^verbatim>\<open>i\<close> and \<^verbatim>\<open>j\<close> of
  \<^verbatim>\<open>verrevcmp\<close> are the rests of the two strings. The loops are compared with a reference: the
  lexicographic order of the character weights and numbers of a version.
\<close>

section \<open>The comparison\<close>

definition isAlpha :: "char \<Rightarrow> bool" where
  "isAlpha c \<longleftrightarrow> (let n = (of_char c :: nat) in 97 \<le> n \<and> n \<le> 122 \<or> 65 \<le> n \<and> n \<le> 90)"

definition order_of :: "string \<Rightarrow> int" where
  "order_of s = (case s of
      [] \<Rightarrow> 0
    | c # _ \<Rightarrow> if is_digit c then 0 else if isAlpha c then of_char c else if c = CHR ''~'' then - 1 else of_char c + 256)"

definition starts_digit :: "string \<Rightarrow> bool" where
  "starts_digit s \<longleftrightarrow> s \<noteq> [] \<and> is_digit (hd s)"

text \<open>The loop over the characters that are no digits: the difference it returns, or the rests.\<close>

fun other_loop :: "string \<Rightarrow> string \<Rightarrow> int + string \<times> string" where
  "other_loop (x # a) (y # b) =
     (if \<not> is_digit x \<or> \<not> is_digit y then
        (if order_of (x # a) \<noteq> order_of (y # b) then Inl (order_of (x # a) - order_of (y # b)) else other_loop a b)
      else Inr (x # a, y # b))"
| "other_loop (x # a) [] =
     (if \<not> is_digit x then
        (if order_of (x # a) \<noteq> order_of [] then Inl (order_of (x # a) - order_of []) else other_loop a [])
      else Inr (x # a, []))"
| "other_loop [] (y # b) =
     (if \<not> is_digit y then
        (if order_of [] \<noteq> order_of (y # b) then Inl (order_of [] - order_of (y # b)) else other_loop [] b)
      else Inr ([], y # b))"
| "other_loop [] [] = Inr ([], [])"

definition skip_zeros :: "string \<Rightarrow> string" where
  "skip_zeros s = dropWhile (\<lambda>c. c = CHR ''0'') s"

fun digit_loop :: "int \<Rightarrow> string \<Rightarrow> string \<Rightarrow> int \<times> string \<times> string" where
  "digit_loop firstDiff (x # a) (y # b) =
     (if is_digit x \<and> is_digit y
      then digit_loop (if firstDiff = 0 then of_char x - of_char y else firstDiff) a b
      else (firstDiff, x # a, y # b))"
| "digit_loop firstDiff a b = (firstDiff, a, b)"

lemma other_loop_rest:
  "other_loop a b = Inr (a', b') \<Longrightarrow> (\<exists>p. a = p @ a') \<and> (\<exists>p. b = p @ b') \<and> (a' = [] \<or> starts_digit a') \<and> (b' = [] \<or> starts_digit b')"
  by (induction a b rule: other_loop.induct) (auto simp: starts_digit_def split: if_splits)

lemma digit_loop_rest: "digit_loop d a b = (d', a', b') \<Longrightarrow> (\<exists>p. a = p @ a') \<and> (\<exists>p. b = p @ b')"
proof (induction d a b rule: digit_loop.induct)
  case (1 d x a y b)
  then show ?case by (cases "is_digit x \<and> is_digit y") auto
qed auto

lemma skip_zeros_rest: "\<exists>p. a = p @ skip_zeros a"
  unfolding skip_zeros_def by (metis takeWhile_dropWhile_id)

lemma rest_shorter: "a = p @ a' \<Longrightarrow> P a \<Longrightarrow> \<not> P a' \<Longrightarrow> length a' < length a"
  by (cases p) auto

lemma segment_shorter:
  assumes "a \<noteq> [] \<or> b \<noteq> []" "other_loop a b = Inr (a1, b1)" "digit_loop 0 (skip_zeros a1) (skip_zeros b1) = (d, a2, b2)"
    and "\<not> starts_digit a2" "\<not> starts_digit b2"
  shows "length a2 + length b2 < length a + length b"
proof -
  obtain p q where pq: "a = p @ a1" "b = q @ b1" using other_loop_rest [OF assms(2)] by blast
  obtain r t where rt: "a1 = r @ a2" "b1 = t @ b2"
    using digit_loop_rest [OF assms(3)] skip_zeros_rest [of a1] skip_zeros_rest [of b1] by (metis append.assoc)
  have "length a2 < length a1" if "starts_digit a1" by (rule rest_shorter [of _ r _ starts_digit]) (use rt that assms in auto)
  moreover have "length b2 < length b1" if "starts_digit b1" by (rule rest_shorter [of _ t _ starts_digit]) (use rt that assms in auto)
  moreover have "length a2 \<le> length a1" "length b2 \<le> length b1" "length a1 \<le> length a" "length b1 \<le> length b" using pq rt by auto
  moreover have "a1 = [] \<or> starts_digit a1" "b1 = [] \<or> starts_digit b1" using other_loop_rest [OF assms(2)] by auto
  moreover have "length a + length b > 0" using assms(1) by auto
  ultimately show ?thesis by fastforce
qed

function verrevcmp :: "string \<Rightarrow> string \<Rightarrow> int" where
  "verrevcmp a b =
     (if a = [] \<and> b = [] then 0
      else case other_loop a b of
             Inl diff \<Rightarrow> diff
           | Inr (a1, b1) \<Rightarrow>
               (case digit_loop 0 (skip_zeros a1) (skip_zeros b1) of (firstDiff, a2, b2) \<Rightarrow>
                  if starts_digit a2 then 1
                  else if starts_digit b2 then - 1
                  else if firstDiff \<noteq> 0 then firstDiff
                  else verrevcmp a2 b2))"
  by pat_completeness auto
termination
  by (relation "measure (\<lambda>(a, b). length a + length b)") (auto intro: segment_shorter [OF _ _ sym])

declare verrevcmp.simps [simp del]

fun atoi_loop :: "int \<Rightarrow> string \<Rightarrow> int option" where
  "atoi_loop n [] = Some n"
| "atoi_loop n (c # s) = (if is_digit c then atoi_loop (wrap64 (n * 10 + digit_val c)) s else None)"

definition debver_atoi :: "string \<Rightarrow> int option" where
  "debver_atoi s = (if s = [] then None else atoi_loop 0 s)"

definition split_version :: "string \<Rightarrow> int \<times> string \<times> string" where
  "split_version v0 =
     (let v = TrimSpace v0;
          (epoch, v1) = (case IndexByte v (CHR '':'') of
             None \<Rightarrow> (0, v)
           | Some i \<Rightarrow> (case debver_atoi (take i v) of None \<Rightarrow> 0 | Some n \<Rightarrow> n, drop (Suc i) v))
      in case LastIndexByte v1 (CHR ''-'') of
           None \<Rightarrow> (epoch, v1, [])
         | Some i \<Rightarrow> (epoch, take i v1, drop (Suc i) v1))"

definition sign_of :: "int \<Rightarrow> int" where
  "sign_of n = (if n < 0 then - 1 else if n > 0 then 1 else 0)"

definition cmpInt :: "int \<Rightarrow> int \<Rightarrow> int" where
  "cmpInt a b = (if a < b then - 1 else if a > b then 1 else 0)"

definition Compare :: "string \<Rightarrow> string \<Rightarrow> int" where
  "Compare a b =
     (let (ae, au, ar) = split_version a; (be, bu, br) = split_version b
      in if cmpInt ae be \<noteq> 0 then cmpInt ae be
         else if verrevcmp au bu \<noteq> 0 then sign_of (verrevcmp au bu)
         else sign_of (verrevcmp ar br))"

definition Less :: "string \<Rightarrow> string \<Rightarrow> bool" where
  "Less a b \<longleftrightarrow> Compare a b < 0"

definition UpstreamOf :: "string \<Rightarrow> string" where
  "UpstreamOf v = fst (snd (split_version v))"

section \<open>The reference order\<close>

text \<open>
  A version as a sequence of integers: the weights of the characters up to the next digit, a zero, the
  value of the digits, and so on. Sequences are compared element by element, the shorter one
  continued with zeros.
\<close>

function version_key :: "string \<Rightarrow> int list" where
  "version_key s =
     (if s = [] then []
      else let run = takeWhile (\<lambda>c. \<not> is_digit c) s; rest = dropWhile (\<lambda>c. \<not> is_digit c) s
           in map (\<lambda>c. order_of [c]) run @ [0, digits_val (takeWhile is_digit rest)] @ version_key (dropWhile is_digit rest))"
  by pat_completeness auto
termination
proof (relation "measure length")
  fix s run rest :: string
  assume s: "s \<noteq> []" and run: "run = takeWhile (\<lambda>c. \<not> is_digit c) s" and rest: "rest = dropWhile (\<lambda>c. \<not> is_digit c) s"
  have "length (dropWhile is_digit rest) < length s"
  proof (cases "is_digit (hd s)")
    case True
    then have "rest = s" using s rest by (cases s) auto
    then show ?thesis using True s by (cases s) (auto simp: length_dropWhile_le less_Suc_eq_le)
  next
    case False
    then have "length rest < length s" using s rest by (cases s) (auto simp: length_dropWhile_le less_Suc_eq_le)
    then show ?thesis using length_dropWhile_le [of is_digit rest] by linarith
  qed
  then show "(dropWhile is_digit rest, s) \<in> measure length" by simp
qed simp

declare version_key.simps [simp del]

fun cmp_pad :: "int list \<Rightarrow> int list \<Rightarrow> int" where
  "cmp_pad (x # xs) (y # ys) = (if x < y then - 1 else if x > y then 1 else cmp_pad xs ys)"
| "cmp_pad (x # xs) [] = (if x < 0 then - 1 else if x > 0 then 1 else cmp_pad xs [])"
| "cmp_pad [] (y # ys) = (if 0 < y then - 1 else if 0 > y then 1 else cmp_pad [] ys)"
| "cmp_pad [] [] = 0"

section \<open>The loops compute the reference order\<close>

lemma sign_of_simps [simp]: "sign_of 0 = 0" "sign_of 1 = 1" "sign_of (- 1) = - 1" "sign_of n = 0 \<longleftrightarrow> n = 0" "sign_of (sign_of n) = sign_of n"
  by (auto simp: sign_of_def)

lemma order_of_Cons: "order_of (c # s) = order_of [c]"
  by (simp add: order_of_def)

lemma order_of_digit [simp]: "is_digit c \<Longrightarrow> order_of (c # s) = 0"
  by (simp add: order_of_def)

lemma order_of_Nil [simp]: "order_of [] = 0"
  by (simp add: order_of_def)

lemma of_char_int: "(of_char c :: int) = int (of_char c)"
  by (simp only: of_nat_of_char)

lemma order_of_other: "\<not> is_digit c \<Longrightarrow> order_of (c # s) \<noteq> 0"
proof -
  assume c: "\<not> is_digit c"
  define n where "n = (of_char c :: nat)"
  have n: "(of_char c :: int) = int n" unfolding n_def by (rule of_char_int)
  have "isAlpha c \<Longrightarrow> n > 0" by (auto simp: isAlpha_def Let_def n_def)
  then show ?thesis using c by (simp add: order_of_def n)
qed

abbreviation other_run :: "string \<Rightarrow> string" where "other_run s \<equiv> takeWhile (\<lambda>c. \<not> is_digit c) s"
abbreviation after_run :: "string \<Rightarrow> string" where "after_run s \<equiv> dropWhile (\<lambda>c. \<not> is_digit c) s"
abbreviation weights :: "string \<Rightarrow> int list" where "weights s \<equiv> map (\<lambda>c. order_of [c]) s"

lemma other_loop_Inl:
  "other_loop a b = Inl d \<Longrightarrow> cmp_pad (weights (other_run a) @ 0 # xs) (weights (other_run b) @ 0 # ys) = sign_of d \<and> d \<noteq> 0"
proof (induction a b rule: other_loop.induct)
  case (1 x a y b)
  then show ?case
    by (cases "is_digit x"; cases "is_digit y") (auto simp: order_of_Cons [of _ a] order_of_Cons [of _ b] sign_of_def order_of_other split: if_splits)
next
  case (2 x a)
  then show ?case using order_of_other [of x "[]"] by (auto simp: order_of_Cons [of _ a] sign_of_def split: if_splits)
next
  case (3 y b)
  then show ?case using order_of_other [of y "[]"] by (auto simp: order_of_Cons [of _ b] sign_of_def split: if_splits)
qed simp

lemma other_loop_Inr:
  "other_loop a b = Inr (a', b') \<Longrightarrow> a' = after_run a \<and> b' = after_run b \<and> weights (other_run a) = weights (other_run b)"
proof (induction a b rule: other_loop.induct)
  case (1 x a y b)
  then show ?case
    using order_of_other [of x "[]"] order_of_other [of y "[]"]
    by (cases "is_digit x"; cases "is_digit y") (auto simp: order_of_Cons [of _ a] order_of_Cons [of _ b] split: if_splits)
next
  case (2 x a)
  then show ?case using order_of_other [of x a] by (auto split: if_splits)
next
  case (3 y b)
  then show ?case using order_of_other [of y b] by (auto split: if_splits)
qed simp

subsection \<open>Numbers\<close>

lemma digits_val_Cons: "digits_val (c # ds) = digit_val c * 10 ^ length ds + digits_val ds"
proof (induction ds rule: rev_induct)
  case (snoc d ds)
  have "digits_val (c # ds @ [d]) = digits_val (c # ds) * 10 + digit_val d"
    using digits_val_snoc [of "c # ds" d] by simp
  then show ?case using snoc by (simp add: digits_val_snoc algebra_simps)
qed (simp add: digits_val_def)

lemma digits_val_range: "list_all is_digit ds \<Longrightarrow> 0 \<le> digits_val ds \<and> digits_val ds < 10 ^ length ds"
proof (induction ds)
  case (Cons d ds)
  then have d: "0 \<le> digit_val d" "digit_val d \<le> 9" using digit_val_range by auto
  have "digit_val d * 10 ^ length ds \<le> 9 * 10 ^ length ds" using d(2) by (rule mult_right_mono) simp
  moreover have "0 \<le> digit_val d * 10 ^ length ds" using d(1) by simp
  moreover have "0 \<le> digits_val ds" "digits_val ds < 10 ^ length ds" using Cons by auto
  ultimately show ?case unfolding digits_val_Cons length_Cons power_Suc by linarith
qed (simp add: digits_val_def)

lemma digits_val_skip: "digits_val (takeWhile is_digit (skip_zeros s)) = digits_val (takeWhile is_digit s)"
proof (induction s)
  case (Cons c s)
  have "digit_val (CHR ''0'') = 0" "is_digit (CHR ''0'')" by code_simp+
  then show ?case using Cons by (auto simp: skip_zeros_def digits_val_Cons)
qed (simp add: skip_zeros_def)

lemma after_skip: "dropWhile is_digit (skip_zeros s) = dropWhile is_digit s"
proof (induction s)
  case (Cons c s)
  have "is_digit (CHR ''0'')" by code_simp
  then show ?case using Cons by (auto simp: skip_zeros_def)
qed (simp add: skip_zeros_def)

lemma of_char_diff: "is_digit x \<Longrightarrow> is_digit y \<Longrightarrow> (of_char x - of_char y :: int) = digit_val x - digit_val y"
  by (simp add: digit_val_def of_char_int)

lemma lead_decides:
  assumes "0 \<le> x" "x < m" "0 \<le> y" "y < m"
  shows "sign_of (d * m + (x - y)) = (if d \<noteq> 0 then sign_of d else sign_of (x - y))"
proof (cases d "0::int" rule: linorder_cases)
  case less
  then have "d * m \<le> (- 1) * m" by (intro mult_right_mono) (use assms in auto)
  then have "d * m + (x - y) < 0" using assms by linarith
  then show ?thesis using less by (simp add: sign_of_def)
next
  case greater
  then have "1 * m \<le> d * m" by (intro mult_right_mono) (use assms in auto)
  then have "0 < d * m + (x - y)" using assms by linarith
  then show ?thesis using greater by (simp add: sign_of_def)
qed simp

lemma digit_front:
  "starts_digit s \<longleftrightarrow> takeWhile is_digit s \<noteq> []" "takeWhile is_digit s = [] \<Longrightarrow> dropWhile is_digit s = s"
  by (cases s, auto simp: starts_digit_def)+

lemma digit_loop_result:
  assumes "digit_loop d a b = (d', a', b')"
  shows "starts_digit a' \<longleftrightarrow> length (takeWhile is_digit a) > length (takeWhile is_digit b)"
    "starts_digit b' \<longleftrightarrow> length (takeWhile is_digit a) < length (takeWhile is_digit b)"
    "length (takeWhile is_digit a) = length (takeWhile is_digit b) \<Longrightarrow>
       a' = dropWhile is_digit a \<and> b' = dropWhile is_digit b \<and>
       sign_of d' = (if d \<noteq> 0 then sign_of d else sign_of (digits_val (takeWhile is_digit a) - digits_val (takeWhile is_digit b)))"
proof -
  have "(starts_digit a' \<longleftrightarrow> length (takeWhile is_digit a) > length (takeWhile is_digit b)) \<and>
    (starts_digit b' \<longleftrightarrow> length (takeWhile is_digit a) < length (takeWhile is_digit b)) \<and>
    (length (takeWhile is_digit a) = length (takeWhile is_digit b) \<longrightarrow>
       a' = dropWhile is_digit a \<and> b' = dropWhile is_digit b \<and>
       sign_of d' = (if d \<noteq> 0 then sign_of d else sign_of (digits_val (takeWhile is_digit a) - digits_val (takeWhile is_digit b))))"
    using assms
  proof (induction d a b rule: digit_loop.induct)
    case (1 d x a y b)
    show ?case
    proof (cases "is_digit x \<and> is_digit y")
      case True
      let ?A = "takeWhile is_digit a" and ?B = "takeWhile is_digit b"
      have "sign_of (digits_val (x # ?A) - digits_val (y # ?B)) =
          (if digit_val x \<noteq> digit_val y then sign_of (digit_val x - digit_val y) else sign_of (digits_val ?A - digits_val ?B))"
        if len: "length ?A = length ?B"
      proof -
        have r: "0 \<le> digits_val ?A" "digits_val ?A < 10 ^ length ?A" "0 \<le> digits_val ?B" "digits_val ?B < 10 ^ length ?A"
          using digits_val_range [of ?A] digits_val_range [of ?B] len by (auto simp: list_all_iff dest: set_takeWhileD)
        have "digits_val (x # ?A) - digits_val (y # ?B) = (digit_val x - digit_val y) * 10 ^ length ?A + (digits_val ?A - digits_val ?B)"
          by (simp add: digits_val_Cons len left_diff_distrib)
        then show ?thesis using lead_decides [OF r, of "digit_val x - digit_val y"] by simp
      qed
      then show ?thesis using 1 True by (auto simp: of_char_diff)
    next
      case False
      then show ?thesis using "1.prems" by (auto simp: starts_digit_def digits_val_def)
    qed
  qed (auto simp: digit_front digits_val_def)
  then show "starts_digit a' \<longleftrightarrow> length (takeWhile is_digit a) > length (takeWhile is_digit b)"
    "starts_digit b' \<longleftrightarrow> length (takeWhile is_digit a) < length (takeWhile is_digit b)"
    "length (takeWhile is_digit a) = length (takeWhile is_digit b) \<Longrightarrow>
       a' = dropWhile is_digit a \<and> b' = dropWhile is_digit b \<and>
       sign_of d' = (if d \<noteq> 0 then sign_of d else sign_of (digits_val (takeWhile is_digit a) - digits_val (takeWhile is_digit b)))"
    by blast+
qed

text \<open>Without leading zeros the longer number is the greater.\<close>

lemma longer_greater:
  assumes "length (takeWhile is_digit (skip_zeros b)) < length (takeWhile is_digit (skip_zeros a))"
  shows "digits_val (takeWhile is_digit b) < digits_val (takeWhile is_digit a)"
proof -
  let ?A = "takeWhile is_digit (skip_zeros a)" and ?B = "takeWhile is_digit (skip_zeros b)"
  obtain c cs where A: "?A = c # cs" using assms by (cases ?A) auto
  have "is_digit c" using A by (metis list.set_intros(1) set_takeWhileD)
  have "skip_zeros a \<noteq> []" "hd (skip_zeros a) = c" using A by (cases "skip_zeros a"; auto split: if_splits)+
  then have "c \<noteq> CHR ''0''" using hd_dropWhile [of "\<lambda>c. c = CHR ''0''" a] by (auto simp: skip_zeros_def)
  moreover have "c = CHR ''0''" if "digit_val c = 0"
  proof -
    have "(of_char c :: nat) = of_char (CHR ''0'')" using that by (simp add: digit_val_def)
    then show ?thesis by (simp only: of_char_eq_iff)
  qed
  ultimately have "1 \<le> digit_val c" using digit_val_range [OF \<open>is_digit c\<close>] by force
  then have "10 ^ length cs \<le> digit_val c * 10 ^ length cs" using mult_right_mono [of 1 "digit_val c" "10 ^ length cs"] by simp
  moreover have "list_all is_digit cs" "list_all is_digit ?B"
    using A by (metis list.set_intros(2) list_all_iff set_takeWhileD) (auto simp: list_all_iff dest: set_takeWhileD)
  then have "0 \<le> digits_val cs" "digits_val ?B < 10 ^ length ?B" using digits_val_range by blast+
  moreover have "(10::int) ^ length ?B \<le> 10 ^ length cs" using assms A by (intro power_increasing) auto
  ultimately have "digits_val ?B < digits_val ?A" unfolding A digits_val_Cons by linarith
  then show ?thesis by (simp add: digits_val_skip)
qed

definition full_key :: "string \<Rightarrow> int list" where
  "full_key s = weights (other_run s) @ [0, digits_val (takeWhile is_digit (after_run s))] @ version_key (dropWhile is_digit (after_run s))"

lemma cmp_pad_zero: "cmp_pad [0, 0] ys = cmp_pad [] ys" "cmp_pad xs [0, 0] = cmp_pad xs []"
  by (cases ys; cases "tl ys"; simp) (cases xs; cases "tl xs"; simp)

lemma cmp_full: "cmp_pad (version_key a) (version_key b) = cmp_pad (full_key a) (full_key b)"
proof -
  have "full_key s = (if s = [] then [0, 0] else version_key s)" for s
    by (simp add: full_key_def version_key.simps [of s] version_key.simps [of "[]"] Let_def digits_val_def)
  then show ?thesis by (simp add: cmp_pad_zero version_key.simps [of "[]"])
qed

lemma cmp_pad_append: "cmp_pad (xs @ ys) (xs @ zs) = cmp_pad ys zs"
  by (induction xs) auto

lemma verrevcmp_ref: "sign_of (verrevcmp a b) = cmp_pad (version_key a) (version_key b)"
proof (induction a b rule: verrevcmp.induct)
  case (1 a b)
  show ?case
  proof (cases "a = [] \<and> b = []")
    case True
    then show ?thesis by (simp add: verrevcmp.simps [of "[]" "[]"] version_key.simps [of "[]"])
  next
    case ne: False
    show ?thesis
    proof (cases "other_loop a b")
      case (Inl d)
      then show ?thesis using ne other_loop_Inl [OF Inl] by (simp add: verrevcmp.simps [of a b] cmp_full full_key_def)
    next
      case (Inr ab)
      obtain a1 b1 where ab: "ab = (a1, b1)" by (cases ab)
      obtain d a2 b2 where dl: "digit_loop 0 (skip_zeros a1) (skip_zeros b1) = (d, a2, b2)" by (cases "digit_loop 0 (skip_zeros a1) (skip_zeros b1)")
      note o = other_loop_Inr [OF Inr [unfolded ab]] and r = digit_loop_result [OF dl]
      let ?x = "digits_val (takeWhile is_digit a1)" and ?y = "digits_val (takeWhile is_digit b1)"
      have full: "cmp_pad (version_key a) (version_key b) =
          cmp_pad (?x # version_key (dropWhile is_digit a1)) (?y # version_key (dropWhile is_digit b1))"
        using o by (simp add: cmp_full full_key_def cmp_pad_append)
      have v: "verrevcmp a b = (if starts_digit a2 then 1 else if starts_digit b2 then - 1 else if d \<noteq> 0 then d else verrevcmp a2 b2)"
        by (simp only: verrevcmp.simps [of a b] if_not_P [OF ne] Inr ab dl sum.case prod.case)
      consider "starts_digit a2" | "starts_digit b2" "\<not> starts_digit a2" | "\<not> starts_digit a2" "\<not> starts_digit b2" by blast
      then show ?thesis
      proof cases
        case 3
        then have len: "length (takeWhile is_digit (skip_zeros a1)) = length (takeWhile is_digit (skip_zeros b1))" using r(1,2) by linarith
        have eq: "a2 = dropWhile is_digit a1" "b2 = dropWhile is_digit b1" "sign_of d = sign_of (?x - ?y)"
          using r(3) [OF len] by (simp_all add: after_skip digits_val_skip)
        have "sign_of (verrevcmp a2 b2) = cmp_pad (version_key a2) (version_key b2)" if "d = 0"
          using "1.IH" [OF ne Inr ab [symmetric] dl [symmetric] refl] 3 that by simp
        then show ?thesis using 3 v full eq by (auto simp: sign_of_def split: if_splits)
      qed (use v full r longer_greater [of a1 b1] longer_greater [of b1 a1] in auto)
    qed
  qed
qed

section \<open>A total order\<close>

lemma cmp_pad_range: "cmp_pad xs ys \<in> {- 1, 0, 1}"
  by (induction xs ys rule: cmp_pad.induct) auto

lemma cmp_pad_refl [simp]: "cmp_pad xs xs = 0"
  by (induction xs) auto

lemma cmp_pad_flip: "cmp_pad ys xs = - cmp_pad xs ys"
  by (induction xs ys rule: cmp_pad.induct) auto

lemma cmp_pad_Nil: "cmp_pad xs ys \<le> 0 \<longleftrightarrow> cmp_pad xs ys = - 1 \<or> cmp_pad xs ys = 0"
  using cmp_pad_range [of xs ys] by auto

lemma cmp_pad_split:
  "cmp_pad xs ys = (if xs = [] \<and> ys = [] then 0
     else let x = (case xs of [] \<Rightarrow> 0 | x # _ \<Rightarrow> x); y = (case ys of [] \<Rightarrow> 0 | y # _ \<Rightarrow> y)
          in if x < y then - 1 else if x > y then 1 else cmp_pad (tl xs) (tl ys))"
  by (cases xs; cases ys) auto

lemma cmp_pad_trans: "cmp_pad xs ys \<le> 0 \<Longrightarrow> cmp_pad ys zs \<le> 0 \<Longrightarrow> cmp_pad xs zs \<le> 0 \<and> (cmp_pad xs zs = 0 \<longrightarrow> cmp_pad xs ys = 0 \<and> cmp_pad ys zs = 0)"
proof (induction "length xs + length ys + length zs" arbitrary: xs ys zs rule: less_induct)
  case less
  show ?case
  proof (cases "xs = [] \<and> ys = [] \<and> zs = []")
    case False
    then have "length (tl xs) + length (tl ys) + length (tl zs) < length xs + length ys + length zs"
      by (cases xs; cases ys; cases zs) auto
    note IH = less.hyps [OF this]
    show ?thesis
      using less.prems IH False
      unfolding cmp_pad_split [of xs ys] cmp_pad_split [of ys zs] cmp_pad_split [of xs zs]
      by (auto simp: Let_def split: if_splits list.splits)
  qed simp
qed

definition Compare_ref :: "string \<Rightarrow> string \<Rightarrow> int" where
  "Compare_ref a b =
     (let (ae, au, ar) = split_version a; (be, bu, br) = split_version b
      in if ae < be then - 1 else if ae > be then 1
         else if cmp_pad (version_key au) (version_key bu) \<noteq> 0 then cmp_pad (version_key au) (version_key bu)
         else cmp_pad (version_key ar) (version_key br))"

lemma Compare_eq_ref: "Compare a b = Compare_ref a b"
proof -
  have "verrevcmp x y = 0 \<longleftrightarrow> cmp_pad (version_key x) (version_key y) = 0" for x y
    using verrevcmp_ref [of x y] by (metis sign_of_simps(1,4))
  then show ?thesis
    by (auto simp: Compare_def Compare_ref_def cmpInt_def verrevcmp_ref Let_def split: prod.splits)
qed

text \<open>
  C31: \<^verbatim>\<open>Compare\<close> is the Debian order of versions: it returns -1, 0 or 1 as the epoch, then the upstream version,
  then the revision compare in the reference order (character weights up to the next digit, then
  the value of the digits, shorter versions continued with zeros, so that a tilde sorts before the end).
  It is a total preorder: reflexive, antisymmetric in sign, transitive.
\<close>

theorem Compare_is_order:
  "Compare a b = Compare_ref a b \<and> Compare a b \<in> {- 1, 0, 1} \<and> Compare a a = 0 \<and> Compare b a = - Compare a b \<and>
   (Compare a b \<le> 0 \<and> Compare b c \<le> 0 \<longrightarrow> Compare a c \<le> 0)"
proof -
  obtain ae au ar where a: "split_version a = (ae, au, ar)" by (cases "split_version a")
  obtain be bu br where b: "split_version b = (be, bu, br)" by (cases "split_version b")
  obtain ce cu cr where c: "split_version c = (ce, cu, cr)" by (cases "split_version c")
  have "Compare_ref a c \<le> 0" if "Compare_ref a b \<le> 0" "Compare_ref b c \<le> 0"
    using that cmp_pad_trans [of "version_key au" "version_key bu" "version_key cu"] cmp_pad_trans [of "version_key ar" "version_key br" "version_key cr"]
      cmp_pad_range [of "version_key au" "version_key cu"]
    by (auto simp: Compare_ref_def a b c split: if_splits)
  then show ?thesis
    using cmp_pad_range [of "version_key au" "version_key bu"] cmp_pad_range [of "version_key ar" "version_key br"]
      cmp_pad_flip [of "version_key bu" "version_key au"] cmp_pad_flip [of "version_key br" "version_key ar"]
    by (auto simp: Compare_eq_ref Compare_ref_def a b)
qed

theorem Compare_is_order_witness:
  "Compare ''1:0.9'' ''1:0.10~rc1'' = - 1 \<and> Compare ''1:0.10~rc1'' ''1:0.10-1'' = - 1 \<and> Compare ''1:0.9'' ''1:0.10-1'' \<le> 0"
proof -
  have *: "Compare ''1:0.9'' ''1:0.10~rc1'' = - 1" "Compare ''1:0.10~rc1'' ''1:0.10-1'' = - 1" by code_simp+
  then show ?thesis using Compare_is_order [of "''1:0.9''" "''1:0.10~rc1''" "''1:0.10-1''"] by simp
qed

end
