(* ===== verification/AlertRing.thy ===== *)
theory AlertRing
  imports GoNet
begin

text \<open>
  Package \<^verbatim>\<open>internal/alert\<close>, the ring of recent alerts (\<^verbatim>\<open>ring.go\<close>): every alert is delivered through the
  wrapped sink and recorded with the outcome, numbered, mirrored to a file, and acknowledged by the
  operator. The sink, the JSON file and the clock are parameters; the numbers are 64-bit words.
\<close>

section \<open>State\<close>

definition RingSize :: nat where "RingSize = 50"

record Record =
  rec_ID :: "64 word"
  rec_TS :: int
  rec_Kind :: string
  rec_Msg :: string
  rec_Error :: string
  rec_AckTS :: int
  rec_AckBy :: string

record 'w ringenv =
  rv_inner :: "(string \<Rightarrow> string \<Rightarrow> 'w \<Rightarrow> goerror option \<times> 'w) option"
  rv_path :: bool
  rv_read :: "'w \<Rightarrow> goerror + (goerror + Record list)"
  rv_write :: "Record list \<Rightarrow> 'w \<Rightarrow> goerror option \<times> 'w"

record 'w Ring =
  rg_recs :: "Record list"
  rg_lastID :: "64 word"
  rg_warnedIO :: bool
  rg_log :: "msg list"
  rg_world :: 'w

section \<open>Operations\<close>

definition rg_saveLocked :: "'w ringenv \<Rightarrow> 'w Ring \<Rightarrow> 'w Ring" where
  "rg_saveLocked rv r =
     (if \<not> rv_path rv then r
      else case rv_write rv (rg_recs r) (rg_world r) of
             (Some e, w) \<Rightarrow>
               if \<not> rg_warnedIO r
               then r\<lparr>rg_world := w, rg_warnedIO := True, rg_log := rg_log r @ [Msg ''alert history %s: %v (history kept in memory only)'' [AE e]]\<rparr>
               else r\<lparr>rg_world := w\<rparr>
           | (None, w) \<Rightarrow> r\<lparr>rg_world := w, rg_warnedIO := False\<rparr>)"

definition last_n :: "nat \<Rightarrow> 'a list \<Rightarrow> 'a list" where
  "last_n n xs = (if length xs > n then drop (length xs - n) xs else xs)"

definition ring_record :: "'w ringenv \<Rightarrow> Record \<Rightarrow> 'w Ring \<Rightarrow> 'w Ring" where
  "ring_record rv rc r =
     (let i = rg_lastID r + 1
      in rg_saveLocked rv (r\<lparr>rg_lastID := i, rg_recs := last_n RingSize (rg_recs r @ [rc\<lparr>rec_ID := i\<rparr>])\<rparr>))"

definition errText :: "goerror option \<Rightarrow> string" where
  "errText e = (case e of None \<Rightarrow> [] | Some g \<Rightarrow> err_text g)"

text \<open>\<^verbatim>\<open>SendCtx\<close>: the record carries the instant the delivery started.\<close>

definition ring_Send :: "'w ringenv \<Rightarrow> gotime \<Rightarrow> string \<Rightarrow> string \<Rightarrow> 'w Ring \<Rightarrow> goerror option \<times> 'w Ring" where
  "ring_Send rv now kind m r =
     (let (err, w) = (case rv_inner rv of
            None \<Rightarrow> (Some (mk_err ''no alert sink configured''), rg_world r)
          | Some sink \<Rightarrow> sink kind m (rg_world r))
      in (err, ring_record rv \<lparr>rec_ID = 0, rec_TS = Unix now, rec_Kind = kind, rec_Msg = m, rec_Error = errText err, rec_AckTS = 0, rec_AckBy = []\<rparr>
                 (r\<lparr>rg_world := w\<rparr>)))"

definition ring_Alert :: "'w ringenv \<Rightarrow> gotime \<Rightarrow> string \<Rightarrow> string \<Rightarrow> 'w Ring \<Rightarrow> 'w Ring" where
  "ring_Alert rv now kind m r = (case ring_Send rv now kind m r of
      (None, r') \<Rightarrow> r'
    | (Some e, r') \<Rightarrow> r'\<lparr>rg_log := rg_log r' @ [Msg ''alert: %v'' [AE e]]\<rparr>)"

definition Recent :: "int \<Rightarrow> 'w Ring \<Rightarrow> Record list" where
  "Recent n r =
     (let k = (if n \<le> 0 \<or> n > int (length (rg_recs r)) then length (rg_recs r) else nat n)
      in take k (rev (rg_recs r)))"

fun last_loop :: "Record list \<Rightarrow> (string \<rightharpoonup> int) \<Rightarrow> (string \<rightharpoonup> int)" where
  "last_loop [] out = out"
| "last_loop (rc # rs) out =
     last_loop rs (if rec_TS rc > (case out (rec_Kind rc) of None \<Rightarrow> 0 | Some t \<Rightarrow> t) then out(rec_Kind rc \<mapsto> rec_TS rc) else out)"

definition ring_Last :: "'w Ring \<Rightarrow> (string \<rightharpoonup> int)" where
  "ring_Last r = last_loop (rg_recs r) Map.empty"

definition Open :: "'w Ring \<Rightarrow> nat" where
  "Open r = length (filter (\<lambda>rc. rec_AckTS rc = 0) (rg_recs r))"

text \<open>The index map of \<^verbatim>\<open>Ack\<close>: of equal numbers the last position.\<close>

definition id_index :: "Record list \<Rightarrow> 64 word \<Rightarrow> nat option" where
  "id_index rs i = (case filter (\<lambda>k. rec_ID (rs ! k) = i) [0..<length rs] of [] \<Rightarrow> None | ks \<Rightarrow> Some (last ks))"

definition acknowledge :: "int \<Rightarrow> string \<Rightarrow> Record \<Rightarrow> Record" where
  "acknowledge ts who rc = rc\<lparr>rec_AckTS := ts, rec_AckBy := who\<rparr>"

fun ack_loop :: "int \<Rightarrow> string \<Rightarrow> (64 word \<Rightarrow> nat option) \<Rightarrow> 64 word list \<Rightarrow> nat \<times> Record list \<Rightarrow> nat \<times> Record list" where
  "ack_loop ts who idx [] acc = acc"
| "ack_loop ts who idx (i # ids) (n, rs) =
     (case idx i of
        None \<Rightarrow> ack_loop ts who idx ids (n, rs)
      | Some k \<Rightarrow>
          if rec_AckTS (rs ! k) = 0 then ack_loop ts who idx ids (Suc n, rs[k := acknowledge ts who (rs ! k)])
          else ack_loop ts who idx ids (n, rs))"

definition Ack :: "'w ringenv \<Rightarrow> gotime \<Rightarrow> 64 word list \<Rightarrow> string \<Rightarrow> 'w Ring \<Rightarrow> (nat \<times> 64 word list) \<times> 'w Ring" where
  "Ack rv now ids who r =
     (let idx = id_index (rg_recs r); unknown = filter (\<lambda>i. idx i = None) ids
      in if unknown \<noteq> [] then ((0, unknown), r)
         else let (n, rs) = ack_loop (Unix now) who idx ids (0, rg_recs r)
              in ((n, []), if n > 0 then rg_saveLocked rv (r\<lparr>rg_recs := rs\<rparr>) else r\<lparr>rg_recs := rs\<rparr>))"

definition AckUpTo :: "'w ringenv \<Rightarrow> gotime \<Rightarrow> 64 word \<Rightarrow> string \<Rightarrow> 'w Ring \<Rightarrow> nat \<times> 'w Ring" where
  "AckUpTo rv now upTo who r =
     (let hit = (\<lambda>rc. rec_ID rc \<le> upTo \<and> rec_AckTS rc = 0);
          n = length (filter hit (rg_recs r));
          r' = r\<lparr>rg_recs := map (\<lambda>rc. if hit rc then acknowledge (Unix now) who rc else rc) (rg_recs r)\<rparr>
      in (n, if n > 0 then rg_saveLocked rv r' else r'))"

fun number_loop :: "64 word \<Rightarrow> Record list \<Rightarrow> 64 word \<times> Record list" where
  "number_loop l [] = (l, [])"
| "number_loop l (rc # rs) =
     (if rec_ID rc = 0 then (let (l', rs') = number_loop (l + 1) rs in (l', rc\<lparr>rec_ID := l + 1\<rparr> # rs'))
      else (let (l', rs') = number_loop l rs in (l', rc # rs')))"

definition highest_id :: "Record list \<Rightarrow> 64 word" where
  "highest_id rs = foldl (\<lambda>l rc. max l (rec_ID rc)) 0 rs"

definition NewRing :: "'w ringenv \<Rightarrow> 'w \<Rightarrow> 'w Ring" where
  "NewRing rv w =
     (let r = \<lparr>rg_recs = [], rg_lastID = 0, rg_warnedIO = False, rg_log = [], rg_world = w\<rparr>
      in if \<not> rv_path rv then r
         else case rv_read rv w of
                Inl e \<Rightarrow> r
              | Inr (Inl e) \<Rightarrow> r\<lparr>rg_log := [Msg ''alert history %s: %v (ignored)'' [AE e]]\<rparr>
              | Inr (Inr recs) \<Rightarrow>
                  let kept = last_n RingSize recs; (l, numbered) = number_loop (highest_id kept) kept
                  in r\<lparr>rg_recs := numbered, rg_lastID := l\<rparr>)"

section \<open>The numbering\<close>

text \<open>The numbers increase strictly, start at one and end with the last one handed out.\<close>

definition ring_ok :: "'w Ring \<Rightarrow> bool" where
  "ring_ok r \<longleftrightarrow> length (rg_recs r) \<le> RingSize \<and> sorted_wrt (<) (map rec_ID (rg_recs r)) \<and>
     (\<forall>rc \<in> set (rg_recs r). rec_ID rc \<noteq> 0) \<and> (rg_recs r \<noteq> [] \<longrightarrow> rec_ID (last (rg_recs r)) = rg_lastID r)"

lemma ring_ok_ids:
  "ring_ok r \<longleftrightarrow> length (map rec_ID (rg_recs r)) \<le> RingSize \<and> sorted_wrt (<) (map rec_ID (rg_recs r)) \<and>
     0 \<notin> set (map rec_ID (rg_recs r)) \<and> (map rec_ID (rg_recs r) \<noteq> [] \<longrightarrow> last (map rec_ID (rg_recs r)) = rg_lastID r)"
  by (cases "rg_recs r = []") (auto simp: ring_ok_def last_map image_iff)

lemma saveLocked_keeps [simp]:
  "rg_recs (rg_saveLocked rv r) = rg_recs r" "rg_lastID (rg_saveLocked rv r) = rg_lastID r"
  by (auto simp: rg_saveLocked_def split: option.splits prod.splits)

lemma last_n_length: "length (last_n n xs) = min n (length xs)"
  by (simp add: last_n_def)

lemma last_n_set: "set (last_n n xs) \<subseteq> set xs"
  by (auto simp: last_n_def dest: in_set_dropD)

lemma last_n_last: "0 < n \<Longrightarrow> xs \<noteq> [] \<Longrightarrow> last_n n xs \<noteq> [] \<and> last (last_n n xs) = last xs"
  by (auto simp: last_n_def)

lemma last_n_sorted: "sorted_wrt P xs \<Longrightarrow> sorted_wrt P (last_n n xs)"
  by (auto simp: last_n_def sorted_wrt_drop)

lemma last_n_map: "map f (last_n n xs) = last_n n (map f xs)"
  by (simp add: last_n_def drop_map)

lemma sorted_le_last: "sorted_wrt (<) xs \<Longrightarrow> x \<in> set xs \<Longrightarrow> x \<le> last xs" for xs :: "('a::linorder) list"
proof (induction xs)
  case (Cons y ys)
  then show ?case by (cases "ys = []") (auto simp: less_imp_le)
qed simp

lemma ring_ok_le: "ring_ok r \<Longrightarrow> rc \<in> set (rg_recs r) \<Longrightarrow> rec_ID rc \<le> rg_lastID r"
  using sorted_le_last [of "map rec_ID (rg_recs r)" "rec_ID rc"] by (cases "rg_recs r = []") (auto simp: ring_ok_def last_map)

lemma word_step:
  fixes l :: "64 word"
  assumes "unat l < 2 ^ 64 - 1"
  shows "l < l + 1" "unat (l + 1) = Suc (unat l)"
proof -
  have "unat (l + 1) = (unat l + 1) mod 2 ^ 64" by (simp add: unat_word_ariths)
  also have "\<dots> = Suc (unat l)" using assms by simp
  finally show "unat (l + 1) = Suc (unat l)" .
  then show "l < l + 1" by (simp add: word_less_nat_alt)
qed

text \<open>One delivery keeps the numbering and adds one open record with the next number.\<close>

lemma Send_recs:
  "\<exists>rc. rg_recs (snd (ring_Send rv now kind m r)) = last_n RingSize (rg_recs r @ [rc]) \<and> rec_ID rc = rg_lastID r + 1 \<and> rec_AckTS rc = 0 \<and>
     rg_lastID (snd (ring_Send rv now kind m r)) = rg_lastID r + 1"
  by (auto simp: ring_Send_def ring_record_def Let_def split: prod.splits)

lemma Send_ok:
  assumes "ring_ok r" "unat (rg_lastID r) < 2 ^ 64 - 1"
  shows "ring_ok (snd (ring_Send rv now kind m r))"
proof -
  obtain rc where rc: "rg_recs (snd (ring_Send rv now kind m r)) = last_n RingSize (rg_recs r @ [rc])" "rec_ID rc = rg_lastID r + 1"
    "rg_lastID (snd (ring_Send rv now kind m r)) = rg_lastID r + 1" using Send_recs by blast
  note w = word_step [OF assms(2)]
  have "rec_ID x < rg_lastID r + 1" if "x \<in> set (rg_recs r)" for x
    using ring_ok_le [OF assms(1) that] w(1) by (rule le_less_trans)
  then have srt: "sorted_wrt (<) (map rec_ID (rg_recs r @ [rc]))"
    using assms(1) rc(2) by (auto simp: ring_ok_def sorted_wrt_append)
  have "rg_lastID r + 1 \<noteq> 0" using w(2) by (metis nat.distinct(1) unat_0)
  then have "\<forall>x \<in> set (rg_recs r @ [rc]). rec_ID x \<noteq> 0" using assms(1) rc(2) by (auto simp: ring_ok_def)
  then show ?thesis
    using srt rc last_n_last [of RingSize "rg_recs r @ [rc]"] last_n_set [of RingSize "rg_recs r @ [rc]"]
    by (auto simp: ring_ok_def last_n_length last_n_map last_n_sorted RingSize_def)
qed

text \<open>A run of deliveries: instant, kind, message.\<close>

definition sends :: "'w ringenv \<Rightarrow> (gotime \<times> string \<times> string) list \<Rightarrow> 'w Ring \<Rightarrow> 'w Ring" where
  "sends rv ms r = fold (\<lambda>(now, kind, m) r. snd (ring_Send rv now kind m r)) ms r"

lemma sends_recs:
  assumes "ring_ok r" "unat (rg_lastID r) + length ms < 2 ^ 64 - 1"
  shows "ring_ok (sends rv ms r) \<and> unat (rg_lastID (sends rv ms r)) = unat (rg_lastID r) + length ms \<and>
    (\<forall>rc \<in> set (rg_recs (sends rv ms r)). rc \<in> set (rg_recs r) \<or> rec_ID rc > rg_lastID r \<and> rec_AckTS rc = 0)"
  using assms
proof (induction ms arbitrary: r)
  case (Cons p ms)
  obtain now kind m where p: "p = (now, kind, m)" by (cases p)
  let ?r1 = "snd (ring_Send rv now kind m r)"
  obtain rc where rc: "rg_recs ?r1 = last_n RingSize (rg_recs r @ [rc])" "rec_ID rc = rg_lastID r + 1" "rec_AckTS rc = 0"
    "rg_lastID ?r1 = rg_lastID r + 1" using Send_recs by blast
  have lim: "unat (rg_lastID r) < 2 ^ 64 - 1" using Cons.prems(2) by simp
  note w = word_step [OF lim]
  have "ring_ok ?r1" by (rule Send_ok [OF Cons.prems(1) lim])
  moreover have "unat (rg_lastID ?r1) + length ms < 2 ^ 64 - 1" using Cons.prems(2) w(2) rc(4) by simp
  ultimately have IH: "ring_ok (sends rv ms ?r1)" "unat (rg_lastID (sends rv ms ?r1)) = unat (rg_lastID ?r1) + length ms"
    "\<forall>x \<in> set (rg_recs (sends rv ms ?r1)). x \<in> set (rg_recs ?r1) \<or> rec_ID x > rg_lastID ?r1 \<and> rec_AckTS x = 0"
    using Cons.IH by blast+
  have "x \<in> set (rg_recs r) \<or> rec_ID x > rg_lastID r \<and> rec_AckTS x = 0" if "x \<in> set (rg_recs (sends rv ms ?r1))" for x
    using IH(3) that rc w(1) last_n_set [of RingSize "rg_recs r @ [rc]"] less_trans [OF w(1)] by force
  then show ?case using IH(1,2) rc(4) w(2) by (simp add: sends_def p)
qed (simp add: sends_def)

lemma AckUpTo_recs:
  "rg_recs (snd (AckUpTo rv now upTo who r)) =
     map (\<lambda>rc. if rec_ID rc \<le> upTo \<and> rec_AckTS rc = 0 then acknowledge (Unix now) who rc else rc) (rg_recs r)"
  by (simp add: AckUpTo_def Let_def)

section \<open>The file\<close>

lemma number_loop_numbered: "\<forall>rc \<in> set rs. rec_ID rc \<noteq> 0 \<Longrightarrow> number_loop l rs = (l, rs)"
  by (induction rs) auto

lemma foldl_max: "foldl (\<lambda>l rc. max l (rec_ID rc)) l rs = (if rs = [] then l else max l (Max (rec_ID ` set rs)))"
  by (induction rs arbitrary: l) (auto simp: max.assoc)

lemma highest_id_sorted:
  assumes "sorted_wrt (<) (map rec_ID rs)" "rs \<noteq> []"
  shows "highest_id rs = rec_ID (last rs)"
proof -
  have "Max (rec_ID ` set rs) = rec_ID (last rs)"
    using sorted_le_last [OF assms(1)] assms(2) by (intro Max_eqI) (auto simp: last_map)
  then show ?thesis using assms(2) by (simp add: highest_id_def foldl_max)
qed

lemma NewRing_reload:
  assumes "ring_ok r" "rg_recs r \<noteq> []" "rv_path rv" "rv_read rv w = Inr (Inr (rg_recs r))"
  shows "rg_recs (NewRing rv w) = rg_recs r \<and> rg_lastID (NewRing rv w) = rg_lastID r \<and> ring_ok (NewRing rv w)"
proof -
  have "last_n RingSize (rg_recs r) = rg_recs r" using assms(1) by (simp add: ring_ok_def last_n_def)
  moreover have "highest_id (rg_recs r) = rg_lastID r" using assms(1,2) by (simp add: ring_ok_def highest_id_sorted)
  moreover have "number_loop (rg_lastID r) (rg_recs r) = (rg_lastID r, rg_recs r)"
    using assms(1) by (intro number_loop_numbered) (auto simp: ring_ok_def)
  ultimately show ?thesis using assms by (simp add: NewRing_def Let_def ring_ok_def)
qed

lemma NewRing_empty_ok: "\<not> rv_path rv \<Longrightarrow> ring_ok (NewRing rv w)"
  by (simp add: NewRing_def ring_ok_def)

section \<open>Properties\<close>

text \<open>
  C32: acknowledging the alerts shown leaves later ones open. From a ring in order, with the highest
  number shown and any number of alerts delivered since, \<^verbatim>\<open>AckUpTo\<close> with that number acknowledges every
  shown alert still in the ring (one already acknowledged keeps its first acknowledgement), touches no
  later one, and the ring holds at most 50 records with strictly increasing numbers; the ring read
  back from its file continues with the same records and number.
\<close>

theorem ack_spares_new_alerts:
  assumes "ring_ok r" "unat (rg_lastID r) + length ms < 2 ^ 64 - 1" "Unix now \<noteq> 0"
  shows "let r1 = sends rv ms r; r2 = snd (AckUpTo rv now (rg_lastID r) who r1)
    in length (rg_recs r2) = length (rg_recs r1) \<and> length (rg_recs r2) \<le> 50 \<and> sorted_wrt (<) (map rec_ID (rg_recs r2)) \<and>
       (\<forall>k < length (rg_recs r1). if rec_ID (rg_recs r1 ! k) \<le> rg_lastID r then rec_AckTS (rg_recs r2 ! k) \<noteq> 0 \<and>
            (rec_AckTS (rg_recs r1 ! k) \<noteq> 0 \<longrightarrow> rg_recs r2 ! k = rg_recs r1 ! k)
          else rg_recs r2 ! k = rg_recs r1 ! k \<and> rec_AckTS (rg_recs r2 ! k) = 0) \<and>
       (rg_recs r2 \<noteq> [] \<and> rv_path rv' \<and> rv_read rv' w = Inr (Inr (rg_recs r2)) \<longrightarrow>
          rg_recs (NewRing rv' w) = rg_recs r2 \<and> rg_lastID (NewRing rv' w) = rg_lastID r2)"
proof -
  let ?r1 = "sends rv ms r"
  let ?r2 = "snd (AckUpTo rv now (rg_lastID r) who ?r1)"
  have s: "ring_ok ?r1" "\<forall>rc \<in> set (rg_recs ?r1). rc \<in> set (rg_recs r) \<or> rec_ID rc > rg_lastID r \<and> rec_AckTS rc = 0"
    using sends_recs [OF assms(1,2)] by blast+
  have ids: "map rec_ID (rg_recs ?r2) = map rec_ID (rg_recs ?r1)" by (simp add: AckUpTo_recs acknowledge_def)
  have l2: "rg_lastID ?r2 = rg_lastID ?r1" by (simp add: AckUpTo_def Let_def)
  have len: "length (rg_recs ?r2) = length (rg_recs ?r1)" by (simp add: AckUpTo_recs)
  have ok2: "ring_ok ?r2"
    using s(1) unfolding ring_ok_ids ids l2 .
  have elem: "if rec_ID (rg_recs ?r1 ! k) \<le> rg_lastID r then rec_AckTS (rg_recs ?r2 ! k) \<noteq> 0 \<and>
            (rec_AckTS (rg_recs ?r1 ! k) \<noteq> 0 \<longrightarrow> rg_recs ?r2 ! k = rg_recs ?r1 ! k)
          else rg_recs ?r2 ! k = rg_recs ?r1 ! k \<and> rec_AckTS (rg_recs ?r2 ! k) = 0" if "k < length (rg_recs ?r1)" for k
  proof -
    let ?x = "rg_recs ?r1 ! k"
    have "?x \<in> set (rg_recs r) \<or> rec_ID ?x > rg_lastID r \<and> rec_AckTS ?x = 0" using s(2) nth_mem [OF that] by blast
    then have "rec_ID ?x \<le> rg_lastID r \<or> rec_ID ?x > rg_lastID r \<and> rec_AckTS ?x = 0" using ring_ok_le [OF assms(1)] by blast
    then show ?thesis using that assms(3) by (auto simp: AckUpTo_recs acknowledge_def)
  qed
  have bounds: "length (rg_recs ?r2) \<le> 50" "sorted_wrt (<) (map rec_ID (rg_recs ?r2))"
    using ok2 by (simp_all add: ring_ok_def RingSize_def)
  have reload: "rg_recs ?r2 \<noteq> [] \<and> rv_path rv' \<and> rv_read rv' w = Inr (Inr (rg_recs ?r2)) \<longrightarrow>
      rg_recs (NewRing rv' w) = rg_recs ?r2 \<and> rg_lastID (NewRing rv' w) = rg_lastID ?r2"
    by (intro impI, elim conjE, drule (2) NewRing_reload [OF ok2]) simp
  show ?thesis
    unfolding Let_def
  proof (intro conjI)
    show "\<forall>k < length (rg_recs ?r1). if rec_ID (rg_recs ?r1 ! k) \<le> rg_lastID r then rec_AckTS (rg_recs ?r2 ! k) \<noteq> 0 \<and>
            (rec_AckTS (rg_recs ?r1 ! k) \<noteq> 0 \<longrightarrow> rg_recs ?r2 ! k = rg_recs ?r1 ! k)
          else rg_recs ?r2 ! k = rg_recs ?r1 ! k \<and> rec_AckTS (rg_recs ?r2 ! k) = 0"
      by (intro allI impI) (rule elem)
  qed (fact len bounds reload)+
qed

definition ring_env_demo :: "unit ringenv" where
  "ring_env_demo = \<lparr>rv_inner = None, rv_path = False, rv_read = (\<lambda>w. Inr (Inr [])), rv_write = (\<lambda>f w. (None, w))\<rparr>"

definition ring_demo :: "unit Ring" where
  "ring_demo = snd (ring_Send ring_env_demo \<lparr>wall = Hour, mono = None\<rparr> ''stall'' ''fan 1'' (NewRing ring_env_demo ()))"

theorem ack_spares_new_alerts_witness:
  "length (rg_recs (snd (AckUpTo ring_env_demo \<lparr>wall = Hour, mono = None\<rparr> (rg_lastID ring_demo) ''cli''
     (sends ring_env_demo [(\<lparr>wall = Hour, mono = None\<rparr>, ''failsafe'', ''x'')] ring_demo)))) \<le> 50"
proof -
  have lim: "unat (rg_lastID (NewRing ring_env_demo ())) < 2 ^ 64 - 1" by (simp add: NewRing_def ring_env_demo_def)
  have ok: "ring_ok ring_demo" unfolding ring_demo_def by (rule Send_ok [OF NewRing_empty_ok lim]) (simp add: ring_env_demo_def)
  have "rg_lastID ring_demo = 1"
    using Send_recs [of ring_env_demo "\<lparr>wall = Hour, mono = None\<rparr>" "''stall''" "''fan 1''" "NewRing ring_env_demo ()"]
    by (auto simp: ring_demo_def NewRing_def ring_env_demo_def)
  then have "unat (rg_lastID ring_demo) + length [(\<lparr>wall = Hour, mono = None\<rparr>, ''failsafe'', ''x'')] < 2 ^ 64 - 1" by simp
  moreover have "Unix \<lparr>wall = Hour, mono = None\<rparr> \<noteq> 0" by (simp add: Unix_def Hour_def Second_def)
  ultimately show ?thesis by (rule ack_spares_new_alerts [OF ok, unfolded Let_def, THEN conjunct2, THEN conjunct1])
qed

end
