(* ===== verification/History.thy ===== *)
theory History
  imports GoFloat
begin

text \<open>
  Package \<^verbatim>\<open>internal/history\<close>: the tiered history store behind the charts. A point maps channel names (and
  sensor ids) to values; the maps are partial functions, copied where the code copies them. An
  averaged tier keeps its closed buckets, oldest first, and the sums of the open one; the means are
  float64. Times are Unix seconds; the file is a parameter.
\<close>

section \<open>Points and sums\<close>

record Point =
  p_TS :: int
  p_Temp :: "string \<rightharpoonup> rat"
  p_Duty :: "string \<rightharpoonup> int"
  p_RPM :: "string \<rightharpoonup> int"
  p_Extra :: "string \<rightharpoonup> rat"

definition RawSpan :: duration where "RawSpan = 2 * Hour"
definition Min1Span :: duration where "Min1Span = 24 * Hour"
definition Min1Bucket :: duration where "Min1Bucket = Minute"
definition Min5Span :: duration where "Min5Span = 7 * 24 * Hour"
definition Min5Bucket :: duration where "Min5Bucket = 5 * Minute"

definition RawCapacity :: "duration \<Rightarrow> nat" where
  "RawCapacity interval = (if interval \<le> 0 then 1 else let n = nat (RawSpan div interval) in if n < 1 then 1 else n)"

record meansum =
  su_total :: rat
  su_n :: nat

definition zero_sum :: meansum where "zero_sum = \<lparr>su_total = 0, su_n = 0\<rparr>"

definition sum_add :: "meansum \<Rightarrow> rat \<Rightarrow> meansum" where
  "sum_add s v = \<lparr>su_total = f_add (su_total s) v, su_n = Suc (su_n s)\<rparr>"

definition sum_mean :: "meansum \<Rightarrow> rat" where
  "sum_mean s = f_div (su_total s) (f_int (int (su_n s)))"

text \<open>\<^verbatim>\<open>math.Round\<close>: halves away from zero.\<close>

definition math_Round :: "rat \<Rightarrow> int" where
  "math_Round x = (if 0 \<le> x then \<lfloor>x + 1 / 2\<rfloor> else - \<lfloor>- x + 1 / 2\<rfloor>)"

record acc =
  ac_start :: int
  ac_temp :: "string \<rightharpoonup> meansum"
  ac_duty :: "string \<rightharpoonup> meansum"
  ac_rpm :: "string \<rightharpoonup> meansum"
  ac_extra :: "string \<rightharpoonup> meansum"

definition newAcc :: "int \<Rightarrow> acc" where
  "newAcc start = \<lparr>ac_start = start, ac_temp = Map.empty, ac_duty = Map.empty, ac_rpm = Map.empty, ac_extra = Map.empty\<rparr>"

text \<open>The loop \<^verbatim>\<open>for k, v := range m { a[k] = a[k].add(v) }\<close>: every key is met once.\<close>

definition add_all :: "(string \<rightharpoonup> rat) \<Rightarrow> (string \<rightharpoonup> meansum) \<Rightarrow> (string \<rightharpoonup> meansum)" where
  "add_all m a = (\<lambda>k. case m k of
      None \<Rightarrow> a k
    | Some v \<Rightarrow> Some (sum_add (case a k of None \<Rightarrow> zero_sum | Some s \<Rightarrow> s) v))"

definition acc_add :: "Point \<Rightarrow> acc \<Rightarrow> acc" where
  "acc_add p a = a\<lparr>
     ac_temp := add_all (p_Temp p) (ac_temp a),
     ac_duty := add_all (\<lambda>k. case p_Duty p k of None \<Rightarrow> None | Some v \<Rightarrow> if v < 0 then None else Some (f_int v)) (ac_duty a),
     ac_rpm := add_all (\<lambda>k. map_option f_int (p_RPM p k)) (ac_rpm a),
     ac_extra := add_all (p_Extra p) (ac_extra a)\<rparr>"

definition milli_mean :: "meansum \<Rightarrow> rat" where
  "milli_mean s = f_div (of_int (math_Round (f_mul (sum_mean s) (f_int 1000)))) (f_int 1000)"

definition acc_point :: "acc \<Rightarrow> Point" where
  "acc_point a = \<lparr>p_TS = ac_start a,
     p_Temp = (\<lambda>k. map_option milli_mean (ac_temp a k)),
     p_Duty = (\<lambda>k. map_option (\<lambda>s. math_Round (sum_mean s)) (ac_duty a k)),
     p_RPM = (\<lambda>k. map_option (\<lambda>s. math_Round (sum_mean s)) (ac_rpm a k)),
     p_Extra = (\<lambda>k. map_option milli_mean (ac_extra a k))\<rparr>"

section \<open>Tiers\<close>

record tier =
  ti_bucket :: int
  ti_span :: duration
  ti_capacity :: nat
  ti_pts :: "Point list"
  ti_open :: "acc option"

text \<open>\<^verbatim>\<open>((ts % b) + b) % b\<close> with Go's truncated remainder.\<close>

definition bucketStart :: "tier \<Rightarrow> int \<Rightarrow> int" where
  "bucketStart t ts = ts - trem (trem ts (ti_bucket t) + ti_bucket t) (ti_bucket t)"

definition cap_last :: "nat \<Rightarrow> 'a list \<Rightarrow> 'a list" where
  "cap_last n xs = (if length xs > n then drop (length xs - n) xs else xs)"

definition closeOpen :: "tier \<Rightarrow> tier" where
  "closeOpen t = (case ti_open t of
      None \<Rightarrow> t
    | Some a \<Rightarrow> t\<lparr>ti_open := None, ti_pts := cap_last (ti_capacity t) (ti_pts t @ [acc_point a])\<rparr>)"

definition open_bucket :: "Point \<Rightarrow> tier \<Rightarrow> tier" where
  "open_bucket p t =
     (let start = bucketStart t (p_TS p)
      in if ti_pts t \<noteq> [] \<and> start \<le> p_TS (last (ti_pts t))
         then t\<lparr>ti_pts := butlast (ti_pts t), ti_open := Some (acc_add p (acc_add (last (ti_pts t)) (newAcc (p_TS (last (ti_pts t))))))\<rparr>
         else t\<lparr>ti_open := Some (acc_add p (newAcc start))\<rparr>)"

definition tier_push :: "Point \<Rightarrow> tier \<Rightarrow> tier" where
  "tier_push p t = (case ti_open t of
      Some a \<Rightarrow>
        if bucketStart t (p_TS p) > ac_start a then open_bucket p (closeOpen t)
        else t\<lparr>ti_open := Some (acc_add p a)\<rparr>
    | None \<Rightarrow> open_bucket p t)"

definition tier_all :: "tier \<Rightarrow> Point list" where
  "tier_all t = (case ti_open t of None \<Rightarrow> ti_pts t | Some a \<Rightarrow> ti_pts t @ [acc_point a])"

definition keepSince :: "Point list \<Rightarrow> int \<Rightarrow> Point list" where
  "keepSince pts t0 = filter (\<lambda>p. p_TS p \<ge> t0) pts"

definition tier_load :: "Point list \<Rightarrow> gotime \<Rightarrow> Point list \<Rightarrow> tier \<Rightarrow> tier" where
  "tier_load pts now raw t0 =
     (let t = t0\<lparr>ti_open := None, ti_pts := cap_last (ti_capacity t0) (keepSince pts (Unix (Add now (- ti_span t0))))\<rparr>
      in if ti_pts t = [] then t
         else let l = p_TS (last (ti_pts t));
                  later = filter (\<lambda>p. p_TS p \<ge> l) raw;
                  rebuild = list_ex (\<lambda>p. bucketStart t (p_TS p) = l) later;
                  t1 = (if rebuild then t\<lparr>ti_pts := butlast (ti_pts t)\<rparr> else t)
              in fold tier_push later t1)"

section \<open>The store\<close>

record hist_file =
  hf_Format :: int
  hf_Raw :: "Point list"
  hf_Min1 :: "Point list"
  hf_Min5 :: "Point list"

record 'w Store =
  hs_interval :: duration
  hs_raw :: "Point list"
  hs_rawCap :: nat
  hs_min1 :: tier
  hs_min5 :: tier
  hs_saveFailed :: bool
  hs_log :: "msg list"
  hs_world :: 'w

record 'w histenv =
  hv_path :: bool
  hv_read :: "'w \<Rightarrow> goerror + (goerror + hist_file)"
  hv_write :: "hist_file \<Rightarrow> 'w \<Rightarrow> goerror option \<times> 'w"

definition SetInterval :: "duration \<Rightarrow> 'w Store \<Rightarrow> 'w Store" where
  "SetInterval interval s =
     s\<lparr>hs_interval := interval, hs_rawCap := RawCapacity interval, hs_raw := cap_last (RawCapacity interval) (hs_raw s)\<rparr>"

definition Push :: "Point \<Rightarrow> 'w Store \<Rightarrow> 'w Store" where
  "Push p s = s\<lparr>hs_raw := cap_last (hs_rawCap s) (hs_raw s @ [p]), hs_min1 := tier_push p (hs_min1 s), hs_min5 := tier_push p (hs_min5 s)\<rparr>"

definition Range_of :: "gotime \<Rightarrow> duration \<Rightarrow> int \<Rightarrow> 'w Store \<Rightarrow> Point list" where
  "Range_of now sp since s =
     (let t0 = Unix (Add now (- sp));
          src = (if sp \<le> RawSpan then hs_raw s else if sp \<le> Min1Span then tier_all (hs_min1 s) else tier_all (hs_min5 s))
      in filter (\<lambda>p. p_TS p \<ge> t0 \<and> p_TS p > since) src)"

definition hist_Save :: "'w histenv \<Rightarrow> 'w Store \<Rightarrow> goerror option \<times> 'w Store" where
  "hist_Save hv s =
     (if \<not> hv_path hv then (None, s)
      else case hv_write hv \<lparr>hf_Format = 1, hf_Raw = hs_raw s, hf_Min1 = tier_all (hs_min1 s), hf_Min5 = tier_all (hs_min5 s)\<rparr> (hs_world s) of
             (None, w) \<Rightarrow> (None, s\<lparr>hs_world := w\<rparr>)
           | (Some e, w) \<Rightarrow>
               (Some e, s\<lparr>hs_world := w, hs_saveFailed := True,
                  hs_log := (if hs_saveFailed s then hs_log s else hs_log s @ [Msg ''history: cannot write %s: %v (history kept in memory only)'' [AE e]])\<rparr>))"

definition hist_Load :: "'w histenv \<Rightarrow> gotime \<Rightarrow> 'w Store \<Rightarrow> 'w Store" where
  "hist_Load hv now s =
     (if \<not> hv_path hv then s
      else case hv_read hv (hs_world s) of
             Inl e \<Rightarrow>
               if errors_Is e ErrNotExist then s\<lparr>hs_log := hs_log s @ [Msg ''history: no %s yet, starting empty'' []]\<rparr>
               else s\<lparr>hs_log := hs_log s @ [Msg ''history: cannot read %s: %v, starting empty'' [AE e]]\<rparr>
           | Inr (Inl e) \<Rightarrow> s\<lparr>hs_log := hs_log s @ [Msg ''history: %s unusable (%v), starting empty'' [AE e]]\<rparr>
           | Inr (Inr f) \<Rightarrow>
               if hf_Format f \<noteq> 1
               then s\<lparr>hs_log := hs_log s @ [Msg ''history: %s unusable (%v), starting empty'' [AM (Msg ''format %d, want %d'' [AI (hf_Format f), AI 1])]]\<rparr>
               else let raw = cap_last (hs_rawCap s) (keepSince (hf_Raw f) (Unix (Add now (- RawSpan))));
                        m1 = tier_load (hf_Min1 f) now raw (hs_min1 s);
                        m5 = tier_load (hf_Min5 f) now raw (hs_min5 s)
                    in s\<lparr>hs_raw := raw, hs_min1 := m1, hs_min5 := m5,
                         hs_log := hs_log s @ [Msg ''history: loaded %s (%d raw, %d 1-min, %d 5-min points kept)''
                           [AI (int (length raw)), AI (int (length (ti_pts m1))), AI (int (length (ti_pts m5)))]]\<rparr>)"

definition new_tier :: "duration \<Rightarrow> duration \<Rightarrow> tier" where
  "new_tier bucket sp = \<lparr>ti_bucket = bucket div Second, ti_span = sp, ti_capacity = nat (sp div bucket), ti_pts = [], ti_open = None\<rparr>"

definition NewStore :: "'w histenv \<Rightarrow> duration \<Rightarrow> gotime \<Rightarrow> 'w \<Rightarrow> 'w Store" where
  "NewStore hv interval now w = hist_Load hv now
     \<lparr>hs_interval = interval, hs_raw = [], hs_rawCap = RawCapacity interval, hs_min1 = new_tier Min1Bucket Min1Span,
      hs_min5 = new_tier Min5Bucket Min5Span, hs_saveFailed = False, hs_log = [], hs_world = w\<rparr>"

section \<open>Buckets\<close>

lemma trem_range: "0 < b \<Longrightarrow> - b < trem a b \<and> (trem a b) mod b = a mod b"
proof -
  assume b: "0 < b"
  have "trem a b mod b = a mod b" unfolding trem_def by (metis mod_mult_self4 diff_add_cancel add.commute)
  moreover have "- b < trem a b"
  proof (cases "0 \<le> a")
    case False
    then have "trem a b = - ((- a) mod b)" using b by (simp add: trem_def tquot_def sgn_if minus_mult_div_eq_mod [of "- a" b, symmetric])
    then show ?thesis using b by (simp add: pos_mod_bound)
  qed (use b pos_mod_sign [of b a] in \<open>simp add: trem_nonneg; linarith\<close>)
  ultimately show ?thesis by simp
qed

lemma bucketStart_mod: "0 < ti_bucket t \<Longrightarrow> bucketStart t ts = ts - ts mod ti_bucket t"
  using trem_range [of "ti_bucket t" ts] by (simp add: bucketStart_def trem_nonneg)

lemma bucketStart_le: "0 < ti_bucket t \<Longrightarrow> bucketStart t ts \<le> ts"
  by (simp add: bucketStart_mod)

lemma bucketStart_div: "0 < ti_bucket t \<Longrightarrow> bucketStart t ts = ti_bucket t * (ts div ti_bucket t)"
  by (simp add: bucketStart_mod minus_mod_eq_mult_div)

lemma bucketStart_mono: "0 < ti_bucket t \<Longrightarrow> x \<le> y \<Longrightarrow> bucketStart t x \<le> bucketStart t y"
  by (simp add: bucketStart_div zdiv_mono1)

lemma bucketStart_between: "0 < ti_bucket t \<Longrightarrow> bucketStart t y \<le> x \<Longrightarrow> x \<le> y \<Longrightarrow> bucketStart t x = bucketStart t y"
proof -
  assume b: "0 < ti_bucket t" "bucketStart t y \<le> x" "x \<le> y"
  then have "y div ti_bucket t \<le> x div ti_bucket t"
    using zdiv_mono1 [OF b(2) b(1)] by (simp add: bucketStart_div)
  then have "x div ti_bucket t = y div ti_bucket t" using zdiv_mono1 [OF b(3) b(1)] by simp
  then show ?thesis using b(1) by (simp add: bucketStart_div)
qed

lemma bucketStart_cong [simp]: "bucketStart (t\<lparr>ti_pts := x\<rparr>) = bucketStart t" "bucketStart (t\<lparr>ti_open := y\<rparr>) = bucketStart t"
  by (auto simp: bucketStart_def fun_eq_iff)

lemma push_params [simp]:
  "ti_bucket (tier_push p t) = ti_bucket t" "ti_span (tier_push p t) = ti_span t" "ti_capacity (tier_push p t) = ti_capacity t"
  by (auto simp: tier_push_def open_bucket_def closeOpen_def Let_def split: option.splits)

lemma pushes_params [simp]:
  "ti_bucket (fold tier_push ps t) = ti_bucket t" "ti_span (fold tier_push ps t) = ti_span t" "ti_capacity (fold tier_push ps t) = ti_capacity t"
  by (induction ps arbitrary: t) simp_all

lemma bucketStart_push [simp]: "bucketStart (tier_push p t) = bucketStart t" "bucketStart (fold tier_push ps t) = bucketStart t"
  by (auto simp: bucketStart_def fun_eq_iff)

section \<open>Points in order\<close>

text \<open>
  The points of a run of pushes in the order of their times: the open bucket is the sum of the
  points that fall into it, and the closed ones start earlier.
\<close>

definition in_order :: "Point list \<Rightarrow> bool" where
  "in_order ps = sorted (map p_TS ps)"

definition bucket_points :: "tier \<Rightarrow> Point list \<Rightarrow> Point list" where
  "bucket_points t ps = filter (\<lambda>p. bucketStart t (p_TS p) = bucketStart t (p_TS (last ps))) ps"

lemma open_bucket_new:
  "\<forall>q \<in> set (ti_pts t). p_TS q < bucketStart t (p_TS p) \<Longrightarrow>
     open_bucket p t = t\<lparr>ti_open := Some (acc_add p (newAcc (bucketStart t (p_TS p))))\<rparr>"
proof -
  assume q: "\<forall>q \<in> set (ti_pts t). p_TS q < bucketStart t (p_TS p)"
  have "\<not> (ti_pts t \<noteq> [] \<and> bucketStart t (p_TS p) \<le> p_TS (last (ti_pts t)))" using q last_in_set [of "ti_pts t"] by fastforce
  then show ?thesis by (auto simp: open_bucket_def Let_def)
qed

lemma cap_last_set: "set (cap_last n xs) \<subseteq> set xs"
  by (auto simp: cap_last_def dest: in_set_dropD)

lemma acc_start_add [simp]: "ac_start (acc_add p a) = ac_start a" "ac_start (fold acc_add ps a) = ac_start a" "ac_start (newAcc s) = s"
proof -
  show "ac_start (acc_add p a) = ac_start a" for p a by (simp add: acc_add_def)
  then show "ac_start (fold acc_add ps a) = ac_start a" by (induction ps arbitrary: a) simp_all
  show "ac_start (newAcc s) = s" by (simp add: newAcc_def)
qed

lemma acc_point_TS [simp]: "p_TS (acc_point a) = ac_start a"
  by (simp add: acc_point_def)

lemma in_order_last: "in_order ps \<Longrightarrow> q \<in> set ps \<Longrightarrow> p_TS q \<le> p_TS (last ps)"
proof (induction ps)
  case (Cons p ps)
  then show ?case by (cases "ps = []") (auto simp: in_order_def)
qed simp

lemma pushes_in_order:
  assumes "0 < ti_bucket t0" "ti_pts t0 = []" "ti_open t0 = None" "in_order ps" "ps \<noteq> []"
  shows "ti_open (fold tier_push ps t0) = Some (fold acc_add (bucket_points t0 ps) (newAcc (bucketStart t0 (p_TS (last ps))))) \<and>
    (\<forall>q \<in> set (ti_pts (fold tier_push ps t0)). p_TS q < bucketStart t0 (p_TS (last ps)))"
  using assms(4,5)
proof (induction ps rule: rev_induct)
  case (snoc p ps)
  let ?t = "fold tier_push ps t0"
  show ?case
  proof (cases "ps = []")
    case True
    then show ?thesis using assms(2,3) open_bucket_new [of t0 p] by (simp add: tier_push_def [of p t0] bucket_points_def)
  next
    case False
    let ?s = "bucketStart t0 (p_TS (last ps))" and ?u = "bucketStart t0 (p_TS p)"
    have ord: "in_order ps" "p_TS (last ps) \<le> p_TS p" using snoc.prems(1) False by (auto simp: in_order_def sorted_append)
    then have late: "\<forall>q \<in> set ps. p_TS q \<le> p_TS (last ps)" using in_order_last False by blast
    have IH: "ti_open ?t = Some (fold acc_add (bucket_points t0 ps) (newAcc ?s))" "\<forall>q \<in> set (ti_pts ?t). p_TS q < ?s"
      using snoc.IH [OF ord(1) False] by blast+
    have le: "?s \<le> ?u" using bucketStart_mono [OF assms(1) ord(2)] .
    have early: "bucketStart t0 (p_TS q) \<le> ?s" if "q \<in> set ps" for q
      using bucketStart_mono [OF assms(1)] late that by blast
    show ?thesis
    proof (cases "?u = ?s")
      case True
      have "bucket_points t0 (ps @ [p]) = bucket_points t0 ps @ [p]" using True by (simp add: bucket_points_def)
      then show ?thesis using IH True by (simp add: tier_push_def [of p ?t])
    next
      case False
      then have gt: "?u > ?s" using le by simp
      have "\<forall>q \<in> set (ti_pts (closeOpen ?t)). p_TS q < bucketStart (closeOpen ?t) (p_TS p)"
        using IH gt cap_last_set [of "ti_capacity ?t" "ti_pts ?t @ [acc_point (fold acc_add (bucket_points t0 ps) (newAcc ?s))]"]
        by (fastforce simp: closeOpen_def)
      moreover have "bucketStart (closeOpen ?t) = bucketStart t0" using IH(1) by (simp add: closeOpen_def)
      moreover have "bucket_points t0 (ps @ [p]) = [p]" using early gt by (force simp: bucket_points_def filter_empty_conv)
      ultimately show ?thesis
        using IH(1) gt open_bucket_new [of "closeOpen ?t" p] by (simp add: tier_push_def [of p ?t])
    qed
  qed
qed simp

section \<open>Restart\<close>

lemma bucket_points_late:
  assumes "0 < ti_bucket t" "in_order ps"
  shows "filter (\<lambda>p. p_TS p \<ge> bucketStart t (p_TS (last ps))) ps = bucket_points t ps"
  unfolding bucket_points_def
proof (rule filter_cong [OF refl])
  fix p assume p: "p \<in> set ps"
  have le: "p_TS p \<le> p_TS (last ps)" by (rule in_order_last [OF assms(2) p])
  show "bucketStart t (p_TS (last ps)) \<le> p_TS p \<longleftrightarrow> bucketStart t (p_TS p) = bucketStart t (p_TS (last ps))"
    using bucketStart_between [OF assms(1) _ le] bucketStart_le [OF assms(1), of "p_TS p"] by (intro iffI) simp_all
qed

lemma push_same_bucket:
  assumes "ti_open t = Some a" "\<forall>p \<in> set ps. bucketStart t (p_TS p) = ac_start a"
  shows "fold tier_push ps t = t\<lparr>ti_open := Some (fold acc_add ps a)\<rparr>"
  using assms
proof (induction ps arbitrary: t a)
  case (Cons p ps)
  then show ?case using Cons.IH [of "t\<lparr>ti_open := Some (acc_add p a)\<rparr>" "acc_add p a"] by (simp add: tier_push_def [of p t])
qed simp

lemma push_fresh_bucket:
  assumes "ti_open t = None" "\<forall>q \<in> set (ti_pts t). p_TS q < start" "\<forall>p \<in> set ps. bucketStart t (p_TS p) = start" "ps \<noteq> []"
  shows "fold tier_push ps t = t\<lparr>ti_open := Some (fold acc_add ps (newAcc start))\<rparr>"
proof (cases ps)
  case (Cons p qs)
  have "tier_push p t = t\<lparr>ti_open := Some (acc_add p (newAcc start))\<rparr>"
    using assms Cons open_bucket_new [of t p] by (simp add: tier_push_def [of p t])
  then show ?thesis using Cons assms(3) push_same_bucket [of "t\<lparr>ti_open := Some (acc_add p (newAcc start))\<rparr>" "acc_add p (newAcc start)" qs] by simp
qed (use assms in simp)

lemma tier_reload:
  assumes "0 < ti_bucket t0" "ti_pts t0 = []" "ti_open t0 = None" "in_order ps" "ps \<noteq> []"
    and t: "t = fold tier_push ps t0" and st: "start = bucketStart t0 (p_TS (last ps))"
    and raw: "filter (\<lambda>p. p_TS p \<ge> start) raw = filter (\<lambda>p. p_TS p \<ge> start) ps"
    and fresh: "\<forall>q \<in> set (tier_all t). p_TS q \<ge> Unix (Add now (- ti_span t0))" "length (tier_all t) \<le> ti_capacity t0"
  shows "tier_load (tier_all t) now raw t0 = t"
proof -
  have o: "ti_open t = Some (fold acc_add (bucket_points t0 ps) (newAcc start))" "\<forall>q \<in> set (ti_pts t). p_TS q < start"
    using pushes_in_order [OF assms(1-5)] t st by auto
  then have all: "tier_all t = ti_pts t @ [acc_point (fold acc_add (bucket_points t0 ps) (newAcc start))]" by (simp add: tier_all_def)
  then have ends: "tier_all t \<noteq> []" "p_TS (last (tier_all t)) = start" "butlast (tier_all t) = ti_pts t" by simp_all
  have "keepSince (tier_all t) (Unix (Add now (- ti_span t0))) = tier_all t" using fresh(1) by (simp add: keepSince_def)
  then have kept: "cap_last (ti_capacity t0) (keepSince (tier_all t) (Unix (Add now (- ti_span t0)))) = tier_all t"
    using fresh(2) by (simp add: cap_last_def)
  have later: "filter (\<lambda>p. p_TS p \<ge> start) raw = bucket_points t0 ps" using raw bucket_points_late [OF assms(1,4)] st by simp
  have bp: "bucket_points t0 ps \<noteq> []" "\<forall>p \<in> set (bucket_points t0 ps). bucketStart t0 (p_TS p) = start"
    using assms(5) st by (auto simp: bucket_points_def filter_empty_conv)
  then have ex: "list_ex (\<lambda>p. bucketStart t0 (p_TS p) = start) (bucket_points t0 ps)" by (cases "bucket_points t0 ps") auto
  have "tier_load (tier_all t) now raw t0 = fold tier_push (bucket_points t0 ps) (t0\<lparr>ti_open := None, ti_pts := ti_pts t\<rparr>)"
    using later ex by (simp add: tier_load_def Let_def kept ends)
  also have "\<dots> = t0\<lparr>ti_open := Some (fold acc_add (bucket_points t0 ps) (newAcc start)), ti_pts := ti_pts t\<rparr>"
    using push_fresh_bucket [of "t0\<lparr>ti_open := None, ti_pts := ti_pts t\<rparr>" start "bucket_points t0 ps"] o(2) bp by simp
  also have "\<dots> = t"
    using o(1) t by (intro tier.equality) simp_all
  finally show ?thesis .
qed

lemma cap_last_late:
  assumes "in_order ps" "length (filter (\<lambda>p. p_TS p \<ge> start) ps) \<le> n"
  shows "filter (\<lambda>p. p_TS p \<ge> start) (cap_last n ps) = filter (\<lambda>p. p_TS p \<ge> start) ps"
proof (cases "length ps > n")
  case True
  obtain a b where ab: "ps = a @ b" "length b = n" "cap_last n ps = b"
    using True that [of "take (length ps - n) ps" "drop (length ps - n) ps"] by (simp add: cap_last_def)
  have "p_TS x < start" if x: "x \<in> set a" for x
  proof (rule ccontr)
    assume "\<not> p_TS x < start"
    moreover have "\<forall>y \<in> set b. p_TS x \<le> p_TS y" using assms(1) ab(1) x by (auto simp: in_order_def sorted_append)
    ultimately have "filter (\<lambda>p. p_TS p \<ge> start) b = b" "filter (\<lambda>p. p_TS p \<ge> start) a \<noteq> []"
      using x by (auto simp: filter_id_conv filter_empty_conv intro!: bexI [of _ x])
    then show False using assms(2) ab by simp
  qed
  then have "filter (\<lambda>p. p_TS p \<ge> start) a = []" by (fastforce simp: filter_empty_conv)
  then show ?thesis using ab by simp
qed (simp add: cap_last_def)

lemma cap_last_snoc: "0 < n \<Longrightarrow> cap_last n (cap_last n xs @ [x]) = cap_last n (xs @ [x])"
  by (auto simp: cap_last_def Suc_diff_le)

lemma cap_last_cap: "cap_last n (cap_last n xs) = cap_last n xs"
  by (auto simp: cap_last_def)

lemma pushes_store:
  "0 < hs_rawCap s \<Longrightarrow> hs_raw s = [] \<Longrightarrow>
     hs_raw (fold Push ps s) = cap_last (hs_rawCap s) ps \<and> hs_rawCap (fold Push ps s) = hs_rawCap s \<and>
     hs_min1 (fold Push ps s) = fold tier_push ps (hs_min1 s) \<and> hs_min5 (fold Push ps s) = fold tier_push ps (hs_min5 s)"
proof (induction ps rule: rev_induct)
  case (snoc p ps)
  then show ?case using cap_last_snoc [of "hs_rawCap s" ps p] by (simp add: Push_def)
qed (simp add: cap_last_def)

lemma RawCapacity_pos: "0 < RawCapacity interval"
  by (simp add: RawCapacity_def Let_def)

definition empty_store :: "duration \<Rightarrow> 'w \<Rightarrow> 'w Store" where
  "empty_store interval w = \<lparr>hs_interval = interval, hs_raw = [], hs_rawCap = RawCapacity interval, hs_min1 = new_tier Min1Bucket Min1Span,
     hs_min5 = new_tier Min5Bucket Min5Span, hs_saveFailed = False, hs_log = [], hs_world = w\<rparr>"

definition store_image :: "'w Store \<Rightarrow> hist_file" where
  "store_image s = \<lparr>hf_Format = 1, hf_Raw = hs_raw s, hf_Min1 = tier_all (hs_min1 s), hf_Min5 = tier_all (hs_min5 s)\<rparr>"

lemma new_tier_params [simp]:
  "ti_bucket (new_tier b sp) = b div Second" "ti_span (new_tier b sp) = sp" "ti_pts (new_tier b sp) = []" "ti_open (new_tier b sp) = None"
  "ti_capacity (new_tier b sp) = nat (sp div b)"
  by (simp_all add: new_tier_def)


definition point_demo :: "int \<Rightarrow> int \<Rightarrow> Point" where
  "point_demo ts duty = \<lparr>p_TS = ts, p_Temp = [''cpu'' \<mapsto> 42], p_Duty = [''cpu'' \<mapsto> duty], p_RPM = [''cpu'' \<mapsto> 900], p_Extra = Map.empty\<rparr>"

definition hist_demo :: "unit Store" where
  "hist_demo = fold Push [point_demo 600 80, point_demo 610 90] (empty_store (10 * Second) ())"

lemma hist_demo_tiers:
  "map p_TS (tier_all (hs_min1 hist_demo)) = [600]" "map p_TS (tier_all (hs_min5 hist_demo)) = [600]"
proof -
  have *: "map p_TS (tier_all (fold tier_push [point_demo 600 80, point_demo 610 90] t)) = [600]"
    if "ti_bucket t = 60 \<or> ti_bucket t = 300" "ti_pts t = []" "ti_open t = None" for t
  proof -
    have o: "in_order [point_demo 600 80, point_demo 610 90]" by (simp add: in_order_def point_demo_def)
    have b: "0 < ti_bucket t" using that(1) by auto
    have st: "bucketStart t 600 = 600" "bucketStart t 610 = 600" using that(1) b by (auto simp: bucketStart_mod)
    then have "ti_pts (tier_push (point_demo 610 90) (tier_push (point_demo 600 80) t)) = []"
      using that by (simp add: tier_push_def open_bucket_def Let_def point_demo_def)
    then show ?thesis
      using pushes_in_order [OF b that(2,3) o] st by (simp add: tier_all_def point_demo_def)
  qed
  have h: "hs_min1 hist_demo = fold tier_push [point_demo 600 80, point_demo 610 90] (new_tier Min1Bucket Min1Span)"
    "hs_min5 hist_demo = fold tier_push [point_demo 600 80, point_demo 610 90] (new_tier Min5Bucket Min5Span)"
    by (simp_all add: hist_demo_def empty_store_def Push_def)
  show "map p_TS (tier_all (hs_min1 hist_demo)) = [600]" "map p_TS (tier_all (hs_min5 hist_demo)) = [600]"
    unfolding h by (rule *; simp add: Min1Bucket_def Min5Bucket_def duration_units)+
qed


section \<open>Mean duties\<close>

definition sum_ok :: "nat \<Rightarrow> meansum \<Rightarrow> bool" where
  "sum_ok n s \<longleftrightarrow> su_n s \<le> n \<and> 0 \<le> su_total s \<and> su_total s \<le> 255 * of_nat (su_n s)"

lemma sum_add_ok:
  assumes "sum_ok n s" "0 \<le> v" "v \<le> 255" "n < 2 ^ 43"
  shows "sum_ok (Suc n) (sum_add s (f_int v))" "0 < su_n (sum_add s (f_int v))"
proof -
  let ?k = "255 * int (Suc (su_n s))"
  have v: "f_int v = of_int v" unfolding f_int_def by (rule f64.rnd_int) (use assms in simp)
  have k: "\<bar>?k\<bar> < 2 ^ 52" using assms(1,4) by (simp add: sum_ok_def)
  have "of_int 0 \<le> su_total s + of_int v" "su_total s + of_int v \<le> of_int ?k"
    using assms(1-3) by (auto simp: sum_ok_def algebra_simps intro: add_mono)
  from f64.rnd_between [OF this _ k] show "sum_ok (Suc n) (sum_add s (f_int v))"
    using assms(1) by (simp add: sum_ok_def sum_add_def f_add_def v algebra_simps)
  show "0 < su_n (sum_add s (f_int v))" by (simp add: sum_add_def)
qed

lemma mean_ok:
  assumes "sum_ok n s" "0 < su_n s" "n < 2 ^ 43"
  shows "0 \<le> math_Round (sum_mean s) \<and> math_Round (sum_mean s) \<le> 255"
proof -
  have n: "f_int (int (su_n s)) = of_nat (su_n s)"
    using f64.rnd_int [of "int (su_n s)"] assms by (simp add: f_int_def sum_ok_def)
  have "of_int 0 \<le> su_total s / of_nat (su_n s)" "su_total s / of_nat (su_n s) \<le> of_int 255"
    using assms(1,2) by (auto simp: sum_ok_def divide_le_eq)
  from f64.rnd_between [OF this] have "0 \<le> sum_mean s" "sum_mean s \<le> 255" by (simp_all add: sum_mean_def f_div_def n)
  then show ?thesis by (simp add: math_Round_def floor_le_iff)
qed

text \<open>A duty as the controller records it: at most 255, negative when unknown.\<close>

definition duties_at_most :: "Point \<Rightarrow> bool" where
  "duties_at_most p \<longleftrightarrow> (\<forall>k d. p_Duty p k = Some d \<longrightarrow> d \<le> 255)"

definition duties_known :: "Point \<Rightarrow> bool" where
  "duties_known p \<longleftrightarrow> (\<forall>k d. p_Duty p k = Some d \<longrightarrow> 0 \<le> d \<and> d \<le> 255)"

definition acc_ok :: "nat \<Rightarrow> acc \<Rightarrow> bool" where
  "acc_ok n a \<longleftrightarrow> (\<forall>k s. ac_duty a k = Some s \<longrightarrow> sum_ok n s \<and> 0 < su_n s)"

definition tier_ok :: "nat \<Rightarrow> tier \<Rightarrow> bool" where
  "tier_ok n t \<longleftrightarrow> (\<forall>q \<in> set (ti_pts t). duties_known q) \<and> (\<forall>a. ti_open t = Some a \<longrightarrow> acc_ok n a)"

lemma sum_ok_mono: "sum_ok n s \<Longrightarrow> n \<le> m \<Longrightarrow> sum_ok m s"
  by (simp add: sum_ok_def)

lemma acc_ok_new: "acc_ok n (newAcc s)"
  by (simp add: acc_ok_def newAcc_def)

lemma acc_ok_mono: "acc_ok n a \<Longrightarrow> n \<le> m \<Longrightarrow> acc_ok m a"
  using sum_ok_mono by (fastforce simp: acc_ok_def)

lemma acc_add_ok:
  assumes "acc_ok n a" "duties_at_most p" "n < 2 ^ 43"
  shows "acc_ok (Suc n) (acc_add p a)"
  unfolding acc_ok_def
proof (intro allI impI)
  fix k s
  assume s: "ac_duty (acc_add p a) k = Some s"
  show "sum_ok (Suc n) s \<and> 0 < su_n s"
  proof (cases "\<exists>v. p_Duty p k = Some v \<and> 0 \<le> v")
    case True
    then obtain v where v: "p_Duty p k = Some v" "0 \<le> v" "v \<le> 255" using assms(2) by (auto simp: duties_at_most_def)
    have "sum_ok n (case ac_duty a k of None \<Rightarrow> zero_sum | Some s \<Rightarrow> s)"
      using assms(1) by (auto simp: acc_ok_def zero_sum_def sum_ok_def split: option.splits)
    from sum_add_ok [OF this v(2,3) assms(3)] show ?thesis using s v by (simp add: acc_add_def add_all_def)
  next
    case False
    then have "ac_duty a k = Some s" using s by (auto simp: acc_add_def add_all_def split: option.splits if_splits)
    then show ?thesis using assms(1) sum_ok_mono [of n s "Suc n"] by (auto simp: acc_ok_def)
  qed
qed

lemma acc_point_known: "acc_ok n a \<Longrightarrow> n < 2 ^ 43 \<Longrightarrow> duties_known (acc_point a)"
  using mean_ok by (fastforce simp: acc_ok_def duties_known_def acc_point_def)

lemma closeOpen_ok: "tier_ok n t \<Longrightarrow> n < 2 ^ 43 \<Longrightarrow> tier_ok n (closeOpen t)"
  using cap_last_set [of "ti_capacity t"] acc_point_known
  by (fastforce simp: tier_ok_def closeOpen_def split: option.splits)

lemma open_bucket_ok:
  assumes "tier_ok n t" "duties_at_most p" "1 \<le> n"
  shows "tier_ok (Suc n) (open_bucket p t)"
proof -
  have one: "acc_ok 1 (acc_add q (newAcc s))" if "duties_at_most q" for q s
    using acc_add_ok [OF acc_ok_new [of 0 s] that] by simp
  have "duties_at_most (last (ti_pts t))" if "ti_pts t \<noteq> []"
    using assms(1) last_in_set [OF that] by (auto simp: tier_ok_def duties_known_def duties_at_most_def)
  then have two: "acc_ok (Suc n) (acc_add p (acc_add (last (ti_pts t)) (newAcc s)))" if "ti_pts t \<noteq> []" for s
    using acc_ok_mono [OF acc_add_ok [OF one assms(2)], of "last (ti_pts t)" "Suc n" s] that assms(3) by simp
  show ?thesis
    using assms(1) two acc_ok_mono [OF one [OF assms(2)], of "Suc n"] by (auto simp: open_bucket_def Let_def tier_ok_def dest: in_set_butlastD)
qed

lemma tier_push_ok:
  assumes "tier_ok n t" "duties_at_most p" "1 \<le> n" "n < 2 ^ 43"
  shows "tier_ok (Suc n) (tier_push p t)"
proof (cases "ti_open t")
  case None
  then show ?thesis using open_bucket_ok [OF assms(1-3)] by (simp add: tier_push_def)
next
  case (Some a)
  have "tier_ok (Suc n) (open_bucket p (closeOpen t))" by (rule open_bucket_ok [OF closeOpen_ok [OF assms(1,4)] assms(2,3)])
  moreover have "acc_ok (Suc n) (acc_add p a)" using assms Some by (intro acc_add_ok) (auto simp: tier_ok_def)
  ultimately show ?thesis using Some assms(1) by (auto simp: tier_push_def tier_ok_def)
qed

lemma tier_pushes_ok:
  assumes "\<forall>p \<in> set ps. duties_at_most p" "tier_ok n t" "1 \<le> n" "n + length ps < 2 ^ 43"
  shows "tier_ok (n + length ps) (fold tier_push ps t)"
  using assms
proof (induction ps arbitrary: n t)
  case (Cons p ps)
  then have "tier_ok (Suc n) (tier_push p t)" by (intro tier_push_ok) auto
  then show ?case using Cons.IH [of "Suc n" "tier_push p t"] Cons.prems by simp
qed simp



end
