(* ===== verification/ConfigEdit.thy ===== *)
theory ConfigEdit
  imports ConfigOk GoText
begin

text \<open>
  Package \<^verbatim>\<open>internal/config\<close>, editing the file in place (\<^verbatim>\<open>file.go\<close>): \<^verbatim>\<open>SetKey\<close> sets one key of a section,
  \<^verbatim>\<open>ReplaceChannels\<close> swaps the channel tables, both line by line with everything else kept. The
  index ranges of the code are the lists before, at and after them. The text \<^verbatim>\<open>MarshalChannels\<close>
  produces (the encoder of the TOML library) is an argument.
\<close>

section \<open>Lines\<close>

abbreviation NL :: char where "NL \<equiv> CHR 0x0A"

definition text_lines :: "string \<Rightarrow> string list" where
  "text_lines text = (if text = [] then [] else Split (TrimSuffix text [NL]) NL)"

definition join_lines :: "string list \<Rightarrow> string" where
  "join_lines ls = Join ls [NL] @ [NL]"

definition is_table :: "string \<Rightarrow> bool" where
  "is_table line = HasPrefix (TrimSpace line) ''[''"

definition is_blank :: "string \<Rightarrow> bool" where
  "is_blank line \<longleftrightarrow> TrimSpace line = []"

definition Cut_eq :: "string \<Rightarrow> (string \<times> string) option" where
  "Cut_eq t = (case IndexByte t (CHR ''='') of None \<Rightarrow> None | Some i \<Rightarrow> Some (take i t, drop (Suc i) t))"

definition assignedKey :: "string \<Rightarrow> string" where
  "assignedKey line =
     (let t = TrimSpace line
      in if t = [] \<or> HasPrefix t ''#'' then [] else case Cut_eq t of None \<Rightarrow> [] | Some (k, _) \<Rightarrow> TrimSpace k)"

section \<open>SetKey\<close>

definition is_header :: "string \<Rightarrow> string \<Rightarrow> bool" where
  "is_header header line =
     (let t = TrimSpace line
      in HasPrefix t header \<and> (length t = length header \<or> t ! length header = CHR '' '' \<or> t ! length header = CHR ''#''))"

fun replace_first :: "(string \<Rightarrow> bool) \<Rightarrow> string \<Rightarrow> string list \<Rightarrow> string list" where
  "replace_first P new [] = []"
| "replace_first P new (l # ls) = (if P l then new # ls else l # replace_first P new ls)"

text \<open>Insertion behind the last line that satisfies the predicate.\<close>

definition insert_after_last :: "(string \<Rightarrow> bool) \<Rightarrow> string \<Rightarrow> string list \<Rightarrow> string list" where
  "insert_after_last P new ls =
     rev (dropWhile (\<lambda>l. \<not> P l) (rev ls)) @ new # rev (takeWhile (\<lambda>l. \<not> P l) (rev ls))"

definition set_top :: "string \<Rightarrow> string \<Rightarrow> string \<Rightarrow> string list \<Rightarrow> string list" where
  "set_top sec key val ls =
     (let dotted = sec @ ''.'' @ key; tops = takeWhile (\<lambda>l. \<not> is_table l) ls; rest = dropWhile (\<lambda>l. \<not> is_table l) ls
      in if list_ex (\<lambda>l. assignedKey l = dotted) tops
         then replace_first (\<lambda>l. assignedKey l = dotted) (dotted @ '' = '' @ val) tops @ rest
         else if list_ex (\<lambda>l. HasPrefix (assignedKey l) (sec @ ''.'')) tops
         then insert_after_last (\<lambda>l. HasPrefix (assignedKey l) (sec @ ''.'')) (dotted @ '' = '' @ val) tops @ rest
         else (if ls \<noteq> [] \<and> \<not> is_blank (last ls) then ls @ [[]] else ls) @ [''['' @ sec @ '']'', key @ '' = '' @ val])"

definition set_body :: "string \<Rightarrow> string \<Rightarrow> string list \<Rightarrow> string list" where
  "set_body key val body =
     (if list_ex (\<lambda>l. assignedKey l = key) body
      then replace_first (\<lambda>l. assignedKey l = key) (key @ '' = '' @ val) body
      else insert_after_last (\<lambda>l. \<not> is_blank l) (key @ '' = '' @ val) body)"

definition set_lines :: "string \<Rightarrow> string \<Rightarrow> string \<Rightarrow> string list \<Rightarrow> string list" where
  "set_lines sec key val ls =
     (let header = ''['' @ sec @ '']''; pre = takeWhile (\<lambda>l. \<not> is_header header l) ls
      in case dropWhile (\<lambda>l. \<not> is_header header l) ls of
           [] \<Rightarrow> set_top sec key val ls
         | h # r \<Rightarrow> pre @ h # set_body key val (takeWhile (\<lambda>l. \<not> is_table l) r) @ dropWhile (\<lambda>l. \<not> is_table l) r)"

definition SetKey :: "string \<Rightarrow> string \<Rightarrow> string \<Rightarrow> string \<Rightarrow> string" where
  "SetKey raw sec key val = join_lines (set_lines sec key val (text_lines raw))"

section \<open>ReplaceChannels\<close>

definition find_close2 :: "string \<Rightarrow> nat option" where
  "find_close2 t = (case filter (\<lambda>i. HasPrefix (drop i t) '']]'') [0..<length t] of [] \<Rightarrow> None | i # _ \<Rightarrow> Some i)"

definition tableHeader :: "string \<Rightarrow> string option" where
  "tableHeader line =
     (let t = TrimSpace line
      in if \<not> HasPrefix t ''['' then None
         else if HasPrefix t ''[['' then
           (case find_close2 t of None \<Rightarrow> None | Some e \<Rightarrow> Some (TrimSpace (drop 2 (take e t))))
         else (case IndexByte t (CHR '']'') of None \<Rightarrow> None | Some e \<Rightarrow> Some (TrimSpace (drop 1 (take e t)))))"

text \<open>
  Pass 1 as one walk: of the open block the lines up to its last key are \<open>blk\<close>, the blank and comment
  lines since are \<open>pend\<close>. A closed block is marked removed, the lines pending stay.
\<close>

datatype mark = Kept string | Removed string

fun mark_lines :: "(string list \<times> string list) option \<Rightarrow> string list \<Rightarrow> mark list" where
  "mark_lines None [] = []"
| "mark_lines (Some (blk, pend)) [] = map Removed blk @ map Kept pend"
| "mark_lines None (l # ls) =
     (case tableHeader l of
        Some n \<Rightarrow> if n = ''channel'' \<or> HasPrefix n ''channel.'' then mark_lines (Some ([l], [])) ls else Kept l # mark_lines None ls
      | None \<Rightarrow> Kept l # mark_lines None ls)"
| "mark_lines (Some (blk, pend)) (l # ls) =
     (case tableHeader l of
        Some n \<Rightarrow>
          if n = ''channel'' then map Removed blk @ map Kept pend @ mark_lines (Some ([l], [])) ls
          else if HasPrefix n ''channel.'' then mark_lines (Some (blk @ pend @ [l], [])) ls
          else map Removed blk @ map Kept pend @ Kept l # mark_lines None ls
      | None \<Rightarrow>
          if \<not> is_blank l \<and> \<not> HasPrefix (TrimSpace l) ''#'' then mark_lines (Some (blk @ pend @ [l], [])) ls
          else mark_lines (Some (blk, pend @ [l])) ls)"

text \<open>Pass 2: the new tables in the place of the first removed line, or at the end.\<close>

fun splice :: "string \<Rightarrow> mark list \<Rightarrow> string list" where
  "splice body [] = []"
| "splice body (Kept l # ms) = l # splice body ms"
| "splice body (Removed l # ms) = body # concat (map (\<lambda>m. case m of Kept l \<Rightarrow> [l] | Removed l \<Rightarrow> []) ms)"

definition is_removed :: "mark \<Rightarrow> bool" where
  "is_removed m = (case m of Kept _ \<Rightarrow> False | Removed _ \<Rightarrow> True)"

definition ReplaceChannels :: "string \<Rightarrow> string \<Rightarrow> string" where
  "ReplaceChannels raw marshalled =
     (let body = TrimSuffix marshalled [NL]; ms = mark_lines None (text_lines raw); out = splice body ms
      in if list_ex is_removed ms then join_lines out
         else join_lines ((if out \<noteq> [] \<and> \<not> is_blank (last out) then out @ [[]] else out) @ [body]))"

section \<open>Text and lines\<close>

definition no_NL :: "string list \<Rightarrow> bool" where
  "no_NL ls \<longleftrightarrow> (\<forall>l \<in> set ls. NL \<notin> set l)"

lemma text_lines_no_NL: "no_NL (text_lines raw)"
  by (auto simp: no_NL_def text_lines_def dest: Split_pieces)

lemma text_join: "no_NL ls \<Longrightarrow> ls \<noteq> [] \<Longrightarrow> text_lines (join_lines ls) = ls"
  by (simp add: text_lines_def join_lines_def TrimSuffix_def HasSuffix_def Split_Join no_NL_def)

text \<open>A bare word: what sections and keys are made of.\<close>

definition bare :: "string \<Rightarrow> bool" where
  "bare k \<longleftrightarrow> k \<noteq> [] \<and> list_all (in_class ''_.-'') k"

lemma space_ends:
  "c \<in> hd ` set space_seqs \<Longrightarrow> \<not> in_class ''_.-'' c" "c \<in> last ` set space_seqs \<Longrightarrow> \<not> in_class ''_.-'' c"
  by (auto simp: space_seqs_def in_class_def)

lemma word_char_plain:
  assumes "in_class ''_.-'' c"
  shows "c \<notin> hd ` set space_seqs" "c \<notin> last ` set space_seqs" "c \<notin> {CHR ''='', CHR ''#'', CHR ''['', NL, CHR '']''}"
proof -
  show "c \<notin> hd ` set space_seqs" "c \<notin> last ` set space_seqs" using assms space_ends by blast+
  show "c \<notin> {CHR ''='', CHR ''#'', CHR ''['', NL, CHR '']''}" using assms by (auto simp: in_class_def)
qed

lemma bare_ends: "bare k \<Longrightarrow> in_class ''_.-'' (hd k) \<and> in_class ''_.-'' (last k)"
  by (cases k) (auto simp: bare_def list_all_iff)

lemma bare_chars: "bare k \<Longrightarrow> c \<in> {CHR ''='', CHR ''#'', CHR ''['', NL, CHR '']''} \<Longrightarrow> c \<notin> set k"
  using word_char_plain(3) by (fastforce simp: bare_def list_all_iff)

lemma TrimSpace_bare: "bare k \<Longrightarrow> TrimSpace k = k"
  using bare_ends [of k] word_char_plain by (intro TrimSpace_id) (auto simp: bare_def)

lemma TrimSpace_bare_blank: "bare k \<Longrightarrow> TrimSpace (k @ '' '') = k"
proof -
  assume k: "bare k"
  let ?s = "k @ '' ''"
  have "hd ?s = hd k" using k by (cases k) (auto simp: bare_def)
  then have "lead_space ?s = 0" using word_char_plain(1) bare_ends [OF k] by (intro no_lead_space) auto
  moreover have "tail_space ?s = 1"
  proof -
    have "HasSuffix ?s q \<longleftrightarrow> q = '' ''" if "q \<in> set space_seqs" for q
      using that by (auto simp: space_seqs_def HasSuffix_def drop_Cons')
    then have "find (HasSuffix ?s) space_seqs = find (\<lambda>q. q = '' '') space_seqs" by (intro find_cong) auto
    also have "\<dots> = Some '' ''" by code_simp
    finally show ?thesis by (simp add: tail_space_def)
  qed
  moreover have "tail_space k = 0" using k bare_ends [OF k] word_char_plain(2) by (intro no_tail_space) (auto simp: bare_def)
  ultimately show ?thesis by (simp add: TrimSpace_def trim_left.simps [of ?s] trim_right.simps [of ?s] trim_right.simps [of k])
qed

lemma TrimSpace_assignment:
  assumes "bare k"
  shows "\<exists>w. TrimSpace (k @ '' = '' @ v) = k @ '' ='' @ w"
proof -
  let ?s = "k @ '' = '' @ v"
  have "hd ?s = hd k" using assms by (cases k) (auto simp: bare_def)
  then have "lead_space ?s = 0" using word_char_plain(1) bare_ends [OF assms] by (intro no_lead_space) auto
  then have "trim_left ?s = ?s" by (rule trim_left_id)
  moreover have "\<forall>q \<in> set space_seqs. CHR ''='' \<notin> set q" by (simp add: space_seqs_def)
  then obtain w where "trim_right ((k @ '' '') @ CHR ''='' # ('' '' @ v)) = (k @ '' '') @ CHR ''='' # w"
    using trim_right_stops by blast
  ultimately show ?thesis by (auto simp: TrimSpace_def)
qed

lemma assigned_line:
  assumes "bare k"
  shows "assignedKey (k @ '' = '' @ v) = k" "\<not> is_table (k @ '' = '' @ v)" "\<not> is_header (CHR ''['' # h) (k @ '' = '' @ v)"
    "\<not> is_blank (k @ '' = '' @ v)"
proof -
  obtain w where w: "TrimSpace (k @ '' = '' @ v) = k @ '' ='' @ w" using TrimSpace_assignment [OF assms] by blast
  obtain c k' where k: "k = c # k'" using assms by (cases k) (auto simp: bare_def)
  have c: "c \<noteq> CHR ''#''" "c \<noteq> CHR ''[''" using word_char_plain(3) bare_ends [OF assms] k by auto
  have "IndexByte (k @ '' ='' @ w) (CHR ''='') = Some (Suc (length k))"
    using IndexByte_append [of "CHR ''=''" "k @ '' ''" w] bare_chars [OF assms, of "CHR ''=''"] by simp
  then have cut: "Cut_eq (k @ '' ='' @ w) = Some (k @ '' '', w)" by (simp add: Cut_eq_def)
  have "\<not> (k @ '' ='' @ w = [] \<or> HasPrefix (k @ '' ='' @ w) ''#'')" using c k by (simp add: HasPrefix_def)
  then show "assignedKey (k @ '' = '' @ v) = k"
    by (simp only: assignedKey_def w cut Let_def if_False option.case prod.case TrimSpace_bare_blank [OF assms])
  show "\<not> is_table (k @ '' = '' @ v)" "\<not> is_header (CHR ''['' # h) (k @ '' = '' @ v)" "\<not> is_blank (k @ '' = '' @ v)"
    unfolding is_table_def is_header_def is_blank_def w using c k by (simp_all add: HasPrefix_def)
qed

lemma header_line:
  assumes "bare sec"
  shows "is_header (''['' @ sec @ '']'') (''['' @ sec @ '']'')" "is_table (''['' @ sec @ '']'')"
proof -
  have "CHR ''['' \<notin> hd ` set space_seqs" "CHR '']'' \<notin> last ` set space_seqs" by code_simp+
  then have "TrimSpace (''['' @ sec @ '']'') = ''['' @ sec @ '']''" by (intro TrimSpace_id) simp_all
  then show "is_header (''['' @ sec @ '']'') (''['' @ sec @ '']'')" "is_table (''['' @ sec @ '']'')"
    by (simp_all add: is_header_def is_table_def HasPrefix_def)
qed

section \<open>SetKey overwrites one line\<close>

lemma replace_first_split:
  "list_ex P ls \<Longrightarrow> \<exists>a l b. ls = a @ l # b \<and> P l \<and> \<not> list_ex P a \<and> (\<forall>new. replace_first P new ls = a @ new # b)"
proof (induction ls)
  case (Cons x ls)
  show ?case
  proof (cases "P x")
    case True
    then show ?thesis by (intro exI [of _ "[]"] exI [of _ x] exI [of _ ls]) simp
  next
    case False
    then obtain a l b where "ls = a @ l # b" "P l" "\<not> list_ex P a" "\<forall>new. replace_first P new ls = a @ new # b"
      using Cons by auto
    then show ?thesis using False by (intro exI [of _ "x # a"] exI [of _ l] exI [of _ b]) simp
  qed
qed simp

lemma insert_after_last_split:
  "\<exists>a b. ls = a @ b \<and> (\<forall>new. insert_after_last P new ls = a @ new # b)"
  unfolding insert_after_last_def
  by (rule exI [of _ "rev (dropWhile (\<lambda>l. \<not> P l) (rev ls))"], rule exI [of _ "rev (takeWhile (\<lambda>l. \<not> P l) (rev ls))"])
     (metis rev_append rev_rev_ident takeWhile_dropWhile_id)

lemma replace_first_mid: "\<not> list_ex P a \<Longrightarrow> P new \<Longrightarrow> replace_first P new' (a @ new # b) = a @ new' # b"
  by (induction a) auto

text \<open>Both edits of a region put the new line at one place of it.\<close>

definition edits :: "(string \<Rightarrow> bool) \<Rightarrow> (string \<Rightarrow> string list) \<Rightarrow> string list \<Rightarrow> bool" where
  "edits P f ls \<longleftrightarrow>
     (\<exists>a old b. ls = a @ old @ b \<and> length old \<le> 1 \<and> list_all P old \<and> \<not> list_ex P a \<and> (\<forall>new. f new = a @ new # b))"

lemma edits_replace: "list_ex P ls \<Longrightarrow> edits P (\<lambda>new. replace_first P new ls) ls"
proof -
  assume "list_ex P ls"
  then obtain a l b where s: "ls = a @ l # b" "P l" "\<not> list_ex P a" "\<forall>new. replace_first P new ls = a @ new # b"
    using replace_first_split by metis
  then show ?thesis unfolding edits_def by (intro exI [of _ a] exI [of _ "[l]"] exI [of _ b]) simp
qed

lemma edits_insert: "\<not> list_ex P ls \<Longrightarrow> edits P (\<lambda>new. insert_after_last Q new ls) ls"
proof -
  assume n: "\<not> list_ex P ls"
  obtain a b where s: "ls = a @ b" "\<forall>new. insert_after_last Q new ls = a @ new # b" using insert_after_last_split by metis
  then show ?thesis using n unfolding edits_def by (intro exI [of _ a] exI [of _ "[]"] exI [of _ b]) simp
qed

lemma edits_again: "edits P f ls \<Longrightarrow> P new \<Longrightarrow> list_ex P (f new) \<and> replace_first P new' (f new) = f new'"
  by (auto simp: edits_def replace_first_mid)

lemma edits_all: "edits P f ls \<Longrightarrow> list_all R ls \<Longrightarrow> R new \<Longrightarrow> list_all R (f new)"
  by (auto simp: edits_def)

lemma assignment_no_NL: "bare k \<Longrightarrow> NL \<notin> set v \<Longrightarrow> NL \<notin> set (k @ '' = '' @ v)"
  using bare_chars [of k NL] by simp

lemma bare_dotted: "bare sec \<Longrightarrow> bare key \<Longrightarrow> bare (sec @ ''.'' @ key)"
  by (simp add: bare_def in_class_def)

text \<open>The edit of a region, by its way of finding the key.\<close>

definition put :: "(string \<Rightarrow> bool) \<Rightarrow> (string \<Rightarrow> bool) \<Rightarrow> string \<Rightarrow> string list \<Rightarrow> string list" where
  "put P Q new ls = (if list_ex P ls then replace_first P new ls else insert_after_last Q new ls)"

lemma edits_put: "edits P (\<lambda>new. put P Q new ls) ls"
  by (cases "list_ex P ls") (simp_all add: put_def edits_replace edits_insert)

lemma put_put: "P new \<Longrightarrow> put P Q new' (put P Q new ls) = put P Q new' ls"
  using edits_again [OF edits_put [of P Q ls], of new new'] by (subst put_def) simp

lemma put_has: "P new \<Longrightarrow> list_ex P (put P Q new ls)"
  using edits_again [OF edits_put [of P Q ls], of new new] by simp

lemma put_all: "list_all R ls \<Longrightarrow> R new \<Longrightarrow> list_all R (put P Q new ls)"
  using edits_all [OF edits_put [of P Q ls]] by simp

lemma set_body_put: "set_body key val body = put (\<lambda>l. assignedKey l = key) (\<lambda>l. \<not> is_blank l) (key @ '' = '' @ val) body"
  by (simp add: set_body_def put_def)

lemma set_top_put:
  "set_top sec key val ls =
     (let dotted = sec @ ''.'' @ key; P = (\<lambda>l. assignedKey l = dotted); Q = (\<lambda>l. HasPrefix (assignedKey l) (sec @ ''.''));
          tops = takeWhile (\<lambda>l. \<not> is_table l) ls
      in if list_ex P tops \<or> list_ex Q tops
         then put P Q (dotted @ '' = '' @ val) tops @ dropWhile (\<lambda>l. \<not> is_table l) ls
         else (if ls \<noteq> [] \<and> \<not> is_blank (last ls) then ls @ [[]] else ls) @ [''['' @ sec @ '']'', key @ '' = '' @ val])"
  by (simp add: set_top_def put_def Let_def)

text \<open>The first table line splits a list in one way.\<close>

lemma takeWhile_region:
  assumes "list_all (\<lambda>l. \<not> T l) a"
  shows "takeWhile (\<lambda>l. \<not> T l) (a @ dropWhile (\<lambda>l. \<not> T l) r) = a" (is ?t)
    "dropWhile (\<lambda>l. \<not> T l) (a @ dropWhile (\<lambda>l. \<not> T l) r) = dropWhile (\<lambda>l. \<not> T l) r" (is ?d)
proof -
  have e: "takeWhile (\<lambda>l. \<not> T l) (dropWhile (\<lambda>l. \<not> T l) r) = []" by (induction r) auto
  have d: "dropWhile (\<lambda>l. \<not> T l) (dropWhile (\<lambda>l. \<not> T l) r) = dropWhile (\<lambda>l. \<not> T l) r" by simp
  show ?t using assms e by (induction a) auto
  show ?d using assms d by (induction a) auto
qed

lemma takeWhile_all: "list_all P (takeWhile P ls)"
  by (auto simp: list_all_iff dest: set_takeWhileD)

lemma set_lines_header:
  assumes "list_all (\<lambda>l. \<not> is_header (''['' @ sec @ '']'') l) pre" "is_header (''['' @ sec @ '']'') h"
  shows "set_lines sec key val (pre @ h # r) =
           pre @ h # set_body key val (takeWhile (\<lambda>l. \<not> is_table l) r) @ dropWhile (\<lambda>l. \<not> is_table l) r"
proof -
  have "takeWhile (\<lambda>l. \<not> is_header (''['' @ sec @ '']'') l) (pre @ h # r) = pre"
    "dropWhile (\<lambda>l. \<not> is_header (''['' @ sec @ '']'') l) (pre @ h # r) = h # r"
    using assms by (induction pre) auto
  then show ?thesis by (simp add: set_lines_def Let_def)
qed

lemma set_lines_top:
  assumes "list_all (\<lambda>l. \<not> is_header (''['' @ sec @ '']'') l) ls"
  shows "set_lines sec key val ls = set_top sec key val ls"
proof -
  have "dropWhile (\<lambda>l. \<not> is_header (''['' @ sec @ '']'') l) ls = []" using assms by (induction ls) auto
  then show ?thesis by (simp only: set_lines_def Let_def list.case)
qed

lemma header_or_top:
  obtains (header) pre h r where "ls = pre @ h # r" "list_all (\<lambda>l. \<not> is_header H l) pre" "is_header H h"
  | (top) "list_all (\<lambda>l. \<not> is_header H l) ls"
proof (cases "list_ex (is_header H) ls")
  case True
  then obtain a l b where "ls = a @ l # b" "is_header H l" "\<not> list_ex (is_header H) a" using replace_first_split by metis
  then show ?thesis using header by (simp add: list_ex_iff list_all_iff)
next
  case False
  then show ?thesis using top by (simp add: list_ex_iff list_all_iff)
qed

lemma blank_not_header: "\<not> is_header (CHR ''['' # h) []"
proof -
  have "TrimSpace [] = []" by code_simp
  then show ?thesis by (simp add: is_header_def HasPrefix_def)
qed

lemma set_top_set_top:
  assumes "bare sec" "bare key" "list_all (\<lambda>l. \<not> is_header (''['' @ sec @ '']'') l) ls"
  shows "set_lines sec key w (set_top sec key v ls) = set_top sec key w ls"
proof -
  let ?dot = "sec @ ''.'' @ key" and ?H = "''['' @ sec @ '']''"
  let ?P = "\<lambda>l. assignedKey l = ?dot" and ?Q = "\<lambda>l. HasPrefix (assignedKey l) (sec @ ''.'')"
  let ?tops = "takeWhile (\<lambda>l. \<not> is_table l) ls" and ?rest = "dropWhile (\<lambda>l. \<not> is_table l) ls"
  note dot = bare_dotted [OF assms(1,2)] note line = assigned_line [OF dot] and kline = assigned_line [OF assms(2)]
  show ?thesis
  proof (cases "list_ex ?P ?tops \<or> list_ex ?Q ?tops")
    case True
    let ?new = "put ?P ?Q (?dot @ '' = '' @ v) ?tops"
    have top: "set_top sec key x ls = put ?P ?Q (?dot @ '' = '' @ x) ?tops @ ?rest" for x
      using True by (subst set_top_put) (simp only: Let_def if_True)
    have nt: "list_all (\<lambda>l. \<not> is_table l) ?new" using line(2) by (intro put_all takeWhile_all)
    have "list_all (\<lambda>l. \<not> is_header ?H l) ?tops" "list_all (\<lambda>l. \<not> is_header ?H l) ?rest"
      using assms(3) by (auto simp: list_all_iff dest: set_takeWhileD set_dropWhileD)
    moreover have "list_all (\<lambda>l. \<not> is_header ?H l) ?new" using calculation(1) line(3) by (intro put_all) simp_all
    ultimately have "set_lines sec key w (?new @ ?rest) = set_top sec key w (?new @ ?rest)" by (intro set_lines_top) simp
    also have "list_ex ?P ?new" using line(1) by (intro put_has)
    then have "set_top sec key w (?new @ ?rest) = put ?P ?Q (?dot @ '' = '' @ w) ?new @ ?rest"
      by (subst set_top_put) (simp only: Let_def takeWhile_region [OF nt] if_True simp_thms)
    also have "put ?P ?Q (?dot @ '' = '' @ w) ?new = put ?P ?Q (?dot @ '' = '' @ w) ?tops" using line(1) by (intro put_put)
    finally show ?thesis by (simp only: top)
  next
    case False
    let ?pre = "if ls \<noteq> [] \<and> \<not> is_blank (last ls) then ls @ [[]] else ls"
    have top: "set_top sec key x ls = ?pre @ ?H # [key @ '' = '' @ x]" for x
      using False by (subst set_top_put) (simp only: Let_def if_False append_Cons append_Nil)
    have "list_all (\<lambda>l. \<not> is_header ?H l) ?pre" using assms(3) blank_not_header by simp
    from set_lines_header [OF this header_line(1) [OF assms(1)], of key w "[key @ '' = '' @ v]"]
    show ?thesis unfolding top using kline(1,2) by (simp add: set_body_def)
  qed
qed

lemma set_lines_set_lines:
  assumes "bare sec" "bare key"
  shows "set_lines sec key w (set_lines sec key v ls) = set_lines sec key w ls"
proof (cases ls rule: header_or_top [where H = "''['' @ sec @ '']''"])
  case (header pre h r)
  let ?body = "takeWhile (\<lambda>l. \<not> is_table l) r" and ?rest = "dropWhile (\<lambda>l. \<not> is_table l) r"
  note line = assigned_line [OF assms(2)]
  have "list_all (\<lambda>l. \<not> is_table l) (set_body key v ?body)" unfolding set_body_put using line(2) by (intro put_all takeWhile_all)
  note region = takeWhile_region [OF this]
  have "set_body key w (set_body key v ?body) = set_body key w ?body" unfolding set_body_put using line(1) by (intro put_put)
  then show ?thesis unfolding header(1) by (simp only: set_lines_header [OF header(2,3)] region)
next
  case top
  then show ?thesis using set_top_set_top [OF assms] by (simp only: set_lines_top)
qed

text \<open>What one edit does to the lines: \<open>old\<close> becomes \<open>new\<close> between \<open>a\<close> and \<open>b\<close>.\<close>

definition one_edit :: "string \<Rightarrow> string \<Rightarrow> string \<Rightarrow> string list \<Rightarrow> string list \<Rightarrow> string list \<Rightarrow> bool" where
  "one_edit sec key val old new b =
     (let dotted = sec @ ''.'' @ key; line = key @ '' = '' @ val
      in length old \<le> 1 \<and> list_all (\<lambda>l. assignedKey l = key) old \<and> new = [line] \<or>
         length old \<le> 1 \<and> list_all (\<lambda>l. assignedKey l = dotted) old \<and> new = [dotted @ '' = '' @ val] \<or>
         old = [] \<and> b = [] \<and> (new = [''['' @ sec @ '']'', line] \<or> new = [[], ''['' @ sec @ '']'', line]))"

lemma put_edit:
  obtains a old b where "ls = a @ old @ b" "put P Q new ls = a @ new # b" "length old \<le> 1" "list_all P old"
  using edits_put [of P Q ls] unfolding edits_def by metis

lemma set_lines_one_edit: "\<exists>a old new b. ls = a @ old @ b \<and> set_lines sec key val ls = a @ new @ b \<and> one_edit sec key val old new b"
proof (cases ls rule: header_or_top [where H = "''['' @ sec @ '']''"])
  case (header pre h r)
  let ?rest = "dropWhile (\<lambda>l. \<not> is_table l) r"
  obtain a old b where e: "takeWhile (\<lambda>l. \<not> is_table l) r = a @ old @ b"
    "set_body key val (takeWhile (\<lambda>l. \<not> is_table l) r) = a @ (key @ '' = '' @ val) # b" "length old \<le> 1"
    "list_all (\<lambda>l. assignedKey l = key) old"
    unfolding set_body_put by (rule put_edit)
  have "r = a @ old @ b @ ?rest" using e(1) takeWhile_dropWhile_id [of "\<lambda>l. \<not> is_table l" r] by simp
  then have "ls = (pre @ h # a) @ old @ (b @ ?rest)" using header(1) by simp
  moreover have "set_lines sec key val ls = (pre @ h # a) @ [key @ '' = '' @ val] @ (b @ ?rest)"
    unfolding header(1) set_lines_header [OF header(2,3)] e(2) by simp
  moreover have "one_edit sec key val old [key @ '' = '' @ val] (b @ ?rest)" using e(3,4) by (simp add: one_edit_def Let_def)
  ultimately show ?thesis by blast
next
  case top
  let ?dot = "sec @ ''.'' @ key" and ?H = "''['' @ sec @ '']''"
  let ?P = "\<lambda>l. assignedKey l = ?dot" and ?Q = "\<lambda>l. HasPrefix (assignedKey l) (sec @ ''.'')"
  let ?tops = "takeWhile (\<lambda>l. \<not> is_table l) ls" and ?rest = "dropWhile (\<lambda>l. \<not> is_table l) ls"
  show ?thesis
  proof (cases "list_ex ?P ?tops \<or> list_ex ?Q ?tops")
    case True
    obtain a old b where e: "?tops = a @ old @ b" "put ?P ?Q (?dot @ '' = '' @ val) ?tops = a @ (?dot @ '' = '' @ val) # b"
      "length old \<le> 1" "list_all ?P old" by (rule put_edit)
    have "ls = a @ old @ (b @ ?rest)" using e(1) takeWhile_dropWhile_id [of "\<lambda>l. \<not> is_table l" ls] by simp
    moreover have "set_lines sec key val ls = a @ [?dot @ '' = '' @ val] @ (b @ ?rest)"
      unfolding set_lines_top [OF top] set_top_put Let_def using True e(2) by (simp only: if_True append_assoc append_Cons append_Nil)
    moreover have "one_edit sec key val old [?dot @ '' = '' @ val] (b @ ?rest)"
      unfolding one_edit_def Let_def using e(3,4) by blast
    ultimately show ?thesis by blast
  next
    case False
    define new where "new = (if ls \<noteq> [] \<and> \<not> is_blank (last ls) then [[]] else []) @ [?H, key @ '' = '' @ val]"
    have "set_lines sec key val ls = ls @ new @ []"
      unfolding set_lines_top [OF top] set_top_put Let_def new_def using False by simp
    moreover have "one_edit sec key val [] new []" by (simp add: one_edit_def new_def Let_def)
    ultimately show ?thesis by (metis append_Nil append_Nil2)
  qed
qed

lemma one_edit_no_NL: "bare sec \<Longrightarrow> bare key \<Longrightarrow> NL \<notin> set val \<Longrightarrow> one_edit sec key val old new b \<Longrightarrow> no_NL new"
  using bare_chars [of sec NL] bare_chars [of key NL] by (auto simp: one_edit_def no_NL_def Let_def)

lemma text_lines_SetKey:
  assumes "bare sec" "bare key" "NL \<notin> set val"
  shows "text_lines (SetKey raw sec key val) = set_lines sec key val (text_lines raw)"
proof -
  obtain a old new b where e: "text_lines raw = a @ old @ b" "set_lines sec key val (text_lines raw) = a @ new @ b"
    "one_edit sec key val old new b" using set_lines_one_edit by metis
  then have "no_NL (a @ new @ b)" using text_lines_no_NL [of raw] one_edit_no_NL [OF assms e(3)] by (auto simp: no_NL_def)
  moreover have "a @ new @ b \<noteq> []" using e(3) by (auto simp: one_edit_def Let_def)
  ultimately show ?thesis unfolding SetKey_def e(2) by (rule text_join)
qed

text \<open>
  C39: \<^verbatim>\<open>SetKey\<close> overwrites: setting a key a second time gives the text that setting it once to the
  second value gives, for bare section and key names and values without a line break, whatever the
  text (the key assigned, missing, dotted, the section missing).
\<close>

theorem SetKey_overwrites:
  assumes "bare sec" "bare key" "NL \<notin> set v"
  shows "SetKey (SetKey raw sec key v) sec key w = SetKey raw sec key w"
proof -
  have "SetKey (SetKey raw sec key v) sec key w = join_lines (set_lines sec key w (text_lines (SetKey raw sec key v)))"
    by (rule SetKey_def)
  also have "\<dots> = join_lines (set_lines sec key w (text_lines raw))"
    by (simp only: text_lines_SetKey [OF assms] set_lines_set_lines [OF assms(1,2)])
  finally show ?thesis by (simp only: SetKey_def [of raw sec key w])
qed

theorem SetKey_overwrites_witness:
  "bare ''web'' \<and> bare ''tls'' \<and> NL \<notin> set ''1'' \<and>
   SetKey (SetKey ''[web]'' ''web'' ''tls'' ''1'') ''web'' ''tls'' ''2'' = SetKey ''[web]'' ''web'' ''tls'' ''2''"
proof -
  have "bare ''web''" "bare ''tls''" "NL \<notin> set ''1''" by (simp_all add: bare_def in_class_def)
  with SetKey_overwrites [OF this, of "''[web]''" "''2''"] show ?thesis by blast
qed

text \<open>
  \<^verbatim>\<open>SetKey\<close> leaves everything else untouched: of the lines of the text at most one, an assignment of
  that key, is replaced, or one line is inserted, or the section is appended at the end of the file;
  all other lines are kept in their order.
\<close>

theorem SetKey_keeps_rest:
  assumes "bare sec" "bare key" "NL \<notin> set val"
  shows "\<exists>a old new b. text_lines raw = a @ old @ b \<and> text_lines (SetKey raw sec key val) = a @ new @ b \<and>
           one_edit sec key val old new b"
  unfolding text_lines_SetKey [OF assms] by (rule set_lines_one_edit)

theorem SetKey_keeps_rest_witness:
  "\<exists>a old new b. text_lines ''# x'' = a @ old @ b \<and> text_lines (SetKey ''# x'' ''web'' ''tls'' ''1'') = a @ new @ b \<and>
     one_edit ''web'' ''tls'' ''1'' old new b"
proof -
  have "bare ''web''" "bare ''tls''" "NL \<notin> set ''1''" by (simp_all add: bare_def in_class_def)
  then show ?thesis by (rule SetKey_keeps_rest)
qed

section \<open>ReplaceChannels on its own output\<close>

text \<open>
  A channel table as the encoder writes it: the header, then lines with a key. The encoder separates
  tables by an empty line.
\<close>

definition key_line :: "string \<Rightarrow> bool" where
  "key_line l \<longleftrightarrow> NL \<notin> set l \<and> tableHeader l = None \<and> \<not> is_blank l \<and> \<not> HasPrefix (TrimSpace l) ''#''"

definition chan_table :: "string list \<Rightarrow> bool" where
  "chan_table t = (case t of [] \<Rightarrow> False | h # ks \<Rightarrow> h = ''[[channel]]'' \<and> list_all key_line ks)"

fun table_lines :: "string list list \<Rightarrow> string list" where
  "table_lines [] = []"
| "table_lines [t] = t"
| "table_lines (t # ts) = t @ [] # table_lines ts"

lemma channel_header: "tableHeader ''[[channel]]'' = Some ''channel''"
  by code_simp

lemma empty_line: "tableHeader [] = None" "is_blank []"
  by code_simp+

lemma mark_keys: "list_all key_line ks \<Longrightarrow> mark_lines (Some (blk, [])) (ks @ ls) = mark_lines (Some (blk @ ks, [])) ls"
  by (induction ks arbitrary: blk) (auto simp: key_line_def)

lemma mark_blanks: "mark_lines (Some (blk, replicate j [])) (replicate k []) = map Removed blk @ replicate (j + k) (Kept [])"
proof (induction k arbitrary: j)
  case 0
  then show ?case by (simp add: map_replicate)
next
  case (Suc k)
  have "mark_lines (Some (blk, replicate j [])) (replicate (Suc k) []) = mark_lines (Some (blk, replicate (Suc j) [])) (replicate k [])"
    by (simp add: empty_line replicate_append_same)
  then show ?case using Suc [of "Suc j"] by simp
qed

definition kept :: "mark list \<Rightarrow> string list" where
  "kept ms = concat (map (\<lambda>m. case m of Kept l \<Rightarrow> [l] | Removed l \<Rightarrow> []) ms)"

lemma kept_simps [simp]: "kept (map Removed b) = []" "kept (ms @ ms') = kept ms @ kept ms'" "kept (Kept l # ms) = l # kept ms"
  "kept (Removed l # ms) = kept ms" "kept (replicate n (Kept l)) = replicate n l"
proof -
  show "kept (map Removed b) = []" by (induction b) (simp_all add: kept_def)
  show "kept (replicate n (Kept l)) = replicate n l" by (induction n) (simp_all add: kept_def)
qed (simp_all add: kept_def)

lemma mark_tables:
  assumes "list_all key_line ks" "list_all chan_table ts"
  shows "kept (mark_lines (Some (h # b, [])) (ks @ (if ts = [] then [] else [] # table_lines ts) @ replicate k [])) =
           replicate (length ts + k) []"
  using assms
proof (induction ts arbitrary: h b ks)
  case Nil
  then show ?case using mark_blanks [of "h # b @ ks" 0 k] by (simp add: mark_keys)
next
  case (Cons t ts)
  then obtain ks' where t: "t = ''[[channel]]'' # ks'" "list_all key_line ks'" by (auto simp: chan_table_def split: list.splits)
  have e: "table_lines (t # ts) = t @ (if ts = [] then [] else [] # table_lines ts)" by (cases ts) simp_all
  have "kept (mark_lines (Some (h # b, [])) (ks @ [] # table_lines (t # ts) @ replicate k [])) =
        [] # kept (mark_lines (Some ([''[[channel]]''], [])) (ks' @ (if ts = [] then [] else [] # table_lines ts) @ replicate k []))"
    unfolding e using Cons.prems(1) by (simp only: mark_keys) (simp add: t(1) channel_header empty_line)
  then show ?case using Cons.IH [OF t(2), of "''[[channel]]''" "[]"] Cons.prems(2) by simp
qed

lemma mark_open: "\<exists>ms. mark_lines (Some (h # b, p)) ls = Removed h # ms"
proof (induction ls arbitrary: b p)
  case (Cons l ls)
  then show ?case by (auto split: option.splits)
qed simp

lemma join_body: "xs \<noteq> [] \<Longrightarrow> Join (Join xs [NL] # ys) [NL] = Join (xs @ ys) [NL]"
proof (induction xs "[NL]" rule: Join.induct)
  case (2 w)
  then show ?case by simp
next
  case (3 w v ws)
  then show ?case by (cases ys) simp_all
qed simp

lemma table_lines_no_NL: "list_all chan_table ts \<Longrightarrow> no_NL (table_lines ts)"
  by (induction ts rule: table_lines.induct)
     (auto simp: no_NL_def chan_table_def list_all_iff key_line_def split: list.splits)

text \<open>
  C40: \<^verbatim>\<open>ReplaceChannels\<close> is not idempotent: on a file whose channel tables are the ones the encoder
  writes for the same channels, it keeps the empty lines between the tables as if they were the
  user's, so that each application of a preset of \<open>n\<close> channels moves \<open>n - 1\<close> empty lines behind the
  tables, and the file grows with every application.
\<close>

theorem ReplaceChannels_grows:
  assumes "ts \<noteq> []" "list_all chan_table ts"
  shows "ReplaceChannels (join_lines (table_lines ts @ replicate k [])) (join_lines (table_lines ts)) =
           join_lines (table_lines ts @ replicate (length ts - 1 + k) [])"
proof -
  obtain t ts' where ts: "ts = t # ts'" using assms(1) by (cases ts) auto
  then obtain ks where t: "t = ''[[channel]]'' # ks" "list_all key_line ks" using assms(2)
    by (auto simp: chan_table_def split: list.splits)
  let ?all = "table_lines ts @ replicate k []" and ?body = "Join (table_lines ts) [NL]"
  have e: "table_lines ts = ''[[channel]]'' # ks @ (if ts' = [] then [] else [] # table_lines ts')"
    by (cases ts') (simp_all add: ts t(1))
  have "text_lines (join_lines ?all) = ?all" using table_lines_no_NL [OF assms(2)] e
    by (intro text_join) (auto simp: no_NL_def)
  moreover obtain ms where ms: "mark_lines None ?all = Removed ''[[channel]]'' # ms" "kept ms = replicate (length ts - 1 + k) []"
  proof -
    let ?rest = "ks @ (if ts' = [] then [] else [] # table_lines ts') @ replicate k []"
    have "mark_lines None ?all = mark_lines (Some ([''[[channel]]''], [])) ?rest" unfolding e by (simp add: channel_header)
    moreover obtain ms where "mark_lines (Some ([''[[channel]]''], [])) ?rest = Removed ''[[channel]]'' # ms" using mark_open by metis
    moreover have "kept (mark_lines (Some ([''[[channel]]''], [])) ?rest) = replicate (length ts' + k) []"
      using assms(2) ts by (intro mark_tables t(2)) simp
    ultimately show ?thesis using that ts by simp
  qed
  ultimately have "ReplaceChannels (join_lines ?all) (join_lines (table_lines ts)) = join_lines (?body # replicate (length ts - 1 + k) [])"
    by (simp add: ReplaceChannels_def Let_def kept_def is_removed_def TrimSuffix_def HasSuffix_def join_lines_def)
  then show ?thesis using e by (simp add: join_lines_def join_body)
qed

theorem ReplaceChannels_grows_witness:
  "ReplaceChannels (join_lines (table_lines [[''[[channel]]'', ''pwm = 1''], [''[[channel]]'', ''pwm = 2'']] @ replicate 5 []))
     (join_lines (table_lines [[''[[channel]]'', ''pwm = 1''], [''[[channel]]'', ''pwm = 2'']])) =
   join_lines (table_lines [[''[[channel]]'', ''pwm = 1''], [''[[channel]]'', ''pwm = 2'']] @ replicate 6 [])"
proof -
  have "key_line ''pwm = 1''" "key_line ''pwm = 2''" by code_simp+
  then have "list_all chan_table [[''[[channel]]'', ''pwm = 1''], [''[[channel]]'', ''pwm = 2'']]" by (simp add: chan_table_def)
  from ReplaceChannels_grows [OF _ this, of 5] show ?thesis by (simp add: numeral_eq_Suc)
qed

end
