(* ===== verification/FileStore.thy ===== *)
theory FileStore
  imports ConfigEdit
begin

unbundle bit_operations_syntax

text \<open>
  Writing files: package \<^verbatim>\<open>internal/fsutil\<close> and the file operations of \<^verbatim>\<open>internal/config/file.go\<close>, over a disk.
  The disk holds the files, the file maps of earlier moments (what a crash at that moment would have left), the
  outcome of the calls to come (any call may fail, a write after any number of bytes) and the random
  numbers of \<^verbatim>\<open>os.CreateTemp\<close>. Symbolic links are not followed.
\<close>

section \<open>The disk\<close>

type_synonym FileMode = "32 word"

datatype fkind = Regular | Directory | Symlink | Special

record inode =
  in_Kind :: fkind
  in_Data :: string
  in_Mode :: FileMode

datatype fault = Works | Fails goerror nat

type_synonym files = "(string, inode) gomap"

record disk =
  dk_files :: files
  dk_past :: "files list"
  dk_faults :: "fault list"
  dk_random :: "nat list"
  dk_errors :: nat
  dk_log :: "msg list"

definition file_error :: "string \<Rightarrow> goerror" where
  "file_error s = mk_err s"

definition not_exist :: "string \<Rightarrow> goerror" where
  "not_exist p = \<lparr>err_text = p @ '': no such file or directory'', err_chain = [ErrNotExist]\<rparr>"

definition next_fault :: "disk \<Rightarrow> fault \<times> disk" where
  "next_fault d = (case dk_faults d of [] \<Rightarrow> (Works, d) | f # fs \<Rightarrow> (f, d\<lparr>dk_faults := fs\<rparr>))"

definition failed :: "disk \<Rightarrow> disk" where
  "failed d = d\<lparr>dk_errors := Suc (dk_errors d)\<rparr>"

definition set_files :: "files \<Rightarrow> disk \<Rightarrow> disk" where
  "set_files fs d = d\<lparr>dk_files := fs, dk_past := dk_files d # dk_past d\<rparr>"

text \<open>A call that changes the files at once or not at all, and one that only reads.\<close>

definition os_change :: "(files \<Rightarrow> goerror + files) \<Rightarrow> disk \<Rightarrow> goerror option \<times> disk" where
  "os_change op d =
     (let (f, d1) = next_fault d
      in case f of
           Fails e n \<Rightarrow> (Some e, failed d1)
         | Works \<Rightarrow> (case op (dk_files d1) of Inl e \<Rightarrow> (Some e, failed d1) | Inr fs \<Rightarrow> (None, set_files fs d1)))"

definition os_query :: "(files \<Rightarrow> goerror + 'a) \<Rightarrow> disk \<Rightarrow> (goerror + 'a) \<times> disk" where
  "os_query op d =
     (let (f, d1) = next_fault d
      in case f of
           Fails e n \<Rightarrow> (Inl e, failed d1)
         | Works \<Rightarrow> (case op (dk_files d1) of Inl e \<Rightarrow> (Inl e, failed d1) | Inr x \<Rightarrow> (Inr x, d1)))"

definition is_dir :: "files \<Rightarrow> string \<Rightarrow> bool" where
  "is_dir fs p \<longleftrightarrow> p = ''/'' \<or> p = ''.'' \<or> (case map_of fs p of Some i \<Rightarrow> in_Kind i = Directory | None \<Rightarrow> False)"

definition os_Rename :: "string \<Rightarrow> string \<Rightarrow> disk \<Rightarrow> goerror option \<times> disk" where
  "os_Rename src dst = os_change (\<lambda>fs. case map_of fs src of
      None \<Rightarrow> Inl (not_exist src)
    | Some i \<Rightarrow> if is_dir fs dst then Inl (file_error (dst @ '': file exists'')) else Inr (AList.update dst i (AList.delete src fs)))"

definition os_Remove :: "string \<Rightarrow> disk \<Rightarrow> goerror option \<times> disk" where
  "os_Remove p = os_change (\<lambda>fs. case map_of fs p of None \<Rightarrow> Inl (not_exist p) | Some i \<Rightarrow> Inr (AList.delete p fs))"

definition os_Stat :: "string \<Rightarrow> disk \<Rightarrow> (goerror + inode) \<times> disk" where
  "os_Stat p = os_query (\<lambda>fs. case map_of fs p of None \<Rightarrow> Inl (not_exist p) | Some i \<Rightarrow> Inr i)"

definition os_ReadFile :: "string \<Rightarrow> disk \<Rightarrow> (goerror + string) \<times> disk" where
  "os_ReadFile p = os_query (\<lambda>fs. case map_of fs p of
      None \<Rightarrow> Inl (not_exist p)
    | Some i \<Rightarrow> if in_Kind i = Directory then Inl (file_error (p @ '': is a directory'')) else Inr (in_Data i))"

text \<open>\<^verbatim>\<open>os.MkdirAll\<close> makes the directories on the way one after the other.\<close>

definition dir_chain :: "string \<Rightarrow> string list" where
  "dir_chain p = (let es = Split p (CHR ''/'') in filter (\<lambda>q. q \<noteq> []) (map (\<lambda>k. Join (take k es) ''/'') [1..<Suc (length es)]))"

definition make_dir :: "FileMode \<Rightarrow> string \<Rightarrow> goerror + files \<Rightarrow> goerror + files" where
  "make_dir perm p r = (case r of
      Inl e \<Rightarrow> Inl e
    | Inr fs \<Rightarrow> if is_dir fs p then Inr fs
               else (case map_of fs p of
                   Some i \<Rightarrow> Inl (file_error (p @ '': not a directory''))
                 | None \<Rightarrow> Inr (AList.update p \<lparr>in_Kind = Directory, in_Data = [], in_Mode = perm\<rparr> fs)))"

definition os_MkdirAll :: "string \<Rightarrow> FileMode \<Rightarrow> disk \<Rightarrow> goerror option \<times> disk" where
  "os_MkdirAll p perm = os_change (\<lambda>fs. fold (make_dir perm) (dir_chain p) (Inr fs))"

section \<open>Paths and temporary files\<close>

definition path_Dir :: "string \<Rightarrow> string" where
  "path_Dir p = path_Clean (rev (dropWhile (\<lambda>c. c \<noteq> CHR ''/'') (rev p)))"

definition path_Base :: "string \<Rightarrow> string" where
  "path_Base p =
     (let q = rev (dropWhile (\<lambda>c. c = CHR ''/'') (rev p))
      in if p = [] then ''.'' else if q = [] then ''/'' else last (Split q (CHR ''/'')))"

definition temp_name :: "string \<Rightarrow> string \<Rightarrow> nat \<Rightarrow> string" where
  "temp_name dir base n =
     (if HasSuffix dir ''/'' then dir else dir @ ''/'') @ ''.'' @ base @ ''.'' @ Itoa (int n) @ ''.tmp''"

fun fresh_name :: "(nat \<Rightarrow> string) \<Rightarrow> files \<Rightarrow> nat list \<Rightarrow> (string \<times> nat list) option" where
  "fresh_name nm fs [] = None"
| "fresh_name nm fs (r # rs) = (if map_of fs (nm r) = None then Some (nm r, rs) else fresh_name nm fs rs)"

definition os_CreateTemp :: "string \<Rightarrow> string \<Rightarrow> disk \<Rightarrow> (goerror + string) \<times> disk" where
  "os_CreateTemp dir base d =
     (let (f, d1) = next_fault d
      in case f of
           Fails e n \<Rightarrow> (Inl e, failed d1)
         | Works \<Rightarrow>
             if \<not> is_dir (dk_files d1) dir then (Inl (not_exist dir), failed d1)
             else (case fresh_name (temp_name dir base) (dk_files d1) (dk_random d1) of
                 None \<Rightarrow> (Inl (file_error ''file exists''), failed d1)
               | Some (tmp, rs) \<Rightarrow>
                   (Inr tmp, set_files (AList.update tmp \<lparr>in_Kind = Regular, in_Data = [], in_Mode = 0x180\<rparr> (dk_files d1)) (d1\<lparr>dk_random := rs\<rparr>))))"

text \<open>Operations on the open temporary file; its name keeps referring to it until the rename.\<close>

definition append_data :: "string \<Rightarrow> string \<Rightarrow> files \<Rightarrow> files" where
  "append_data p s fs = (case map_of fs p of None \<Rightarrow> fs | Some i \<Rightarrow> AList.update p (i\<lparr>in_Data := in_Data i @ s\<rparr>) fs)"

definition file_Write :: "string \<Rightarrow> string \<Rightarrow> disk \<Rightarrow> goerror option \<times> disk" where
  "file_Write p s d =
     (let (f, d1) = next_fault d
      in case f of
           Fails e n \<Rightarrow> (Some e, failed (set_files (append_data p (take n s) (dk_files d1)) d1))
         | Works \<Rightarrow> (None, set_files (append_data p s (dk_files d1)) d1))"

definition file_Chmod :: "string \<Rightarrow> FileMode \<Rightarrow> disk \<Rightarrow> goerror option \<times> disk" where
  "file_Chmod p m = os_change (\<lambda>fs. case map_of fs p of None \<Rightarrow> Inr fs | Some i \<Rightarrow> Inr (AList.update p (i\<lparr>in_Mode := m\<rparr>) fs))"

definition file_Sync :: "disk \<Rightarrow> goerror option \<times> disk" where
  "file_Sync = os_change Inr"

definition file_Close :: "disk \<Rightarrow> goerror option \<times> disk" where
  "file_Close = os_change Inr"

section \<open>Atomic writes\<close>

definition ModeKeep :: FileMode where "ModeKeep = 0"

definition stage_fail :: "string \<Rightarrow> goerror \<Rightarrow> disk \<Rightarrow> (goerror + string) \<times> disk" where
  "stage_fail tmp e d = (Inl e, snd (os_Remove tmp (snd (file_Close d))))"

definition Stage :: "string \<Rightarrow> string \<Rightarrow> FileMode \<Rightarrow> disk \<Rightarrow> (goerror + string) \<times> disk" where
  "Stage path data perm d =
     (case os_CreateTemp (path_Dir path) (path_Base path) d of
        (Inl e, d1) \<Rightarrow> (Inl e, d1)
      | (Inr tmp, d1) \<Rightarrow> (case file_Write tmp data d1 of
          (Some e, d2) \<Rightarrow> stage_fail tmp e d2
        | (None, d2) \<Rightarrow> (case file_Sync d2 of
            (Some e, d3) \<Rightarrow> stage_fail tmp e d3
          | (None, d3) \<Rightarrow> (case (if perm = ModeKeep then (None, d3) else file_Chmod tmp perm d3) of
              (Some e, d4) \<Rightarrow> stage_fail tmp e d4
            | (None, d4) \<Rightarrow> (case file_Close d4 of
                (Some e, d5) \<Rightarrow> (Inl e, snd (os_Remove tmp d5))
              | (None, d5) \<Rightarrow> (Inr tmp, d5))))))"

definition WriteAtomic :: "string \<Rightarrow> string \<Rightarrow> FileMode \<Rightarrow> disk \<Rightarrow> goerror option \<times> disk" where
  "WriteAtomic path data perm d =
     (case Stage path data perm d of
        (Inl e, d1) \<Rightarrow> (Some e, d1)
      | (Inr tmp, d1) \<Rightarrow> (case os_Rename tmp path d1 of
          (Some e, d2) \<Rightarrow> (Some e, snd (os_Remove tmp d2))
        | (None, d2) \<Rightarrow> (None, d2)))"

section \<open>The configuration file\<close>

type_synonym 'p decoder = "string \<Rightarrow> string + ('p toml \<times> 'p sec)"

definition Load :: "parse_env \<Rightarrow> 'p decoder \<Rightarrow> string \<Rightarrow> disk \<Rightarrow> (Config \<times> Warning list \<times> msg option) \<times> disk" where
  "Load pe dec path d =
     (case os_ReadFile path d of
        (Inr raw, d1) \<Rightarrow> (Parse_config pe dec raw, d1)
      | (Inl e, d1) \<Rightarrow>
          (if errors_Is e ErrNotExist
           then ((Default, [\<lparr>warn_Field = ''file'', warn_Msg = Msg ''%s not found, built-in defaults active'' [AS path]\<rparr>], None), d1)
           else ((Default, [\<lparr>warn_Field = ''file'', warn_Msg = Msg ''%s'' [AE e]\<rparr>], Some (Msg ''config: config file unreadable: %w'' [AE e])), d1)))"

text \<open>The pattern \<^verbatim>\<open>secretLine\<close> on one line: a non-empty quoted value is assigned to the password hash.\<close>

definition is_blank_char :: "char \<Rightarrow> bool" where
  "is_blank_char c \<longleftrightarrow> c = CHR '' '' \<or> c = CHR 0x09"

definition quoted_value :: "string \<Rightarrow> bool" where
  "quoted_value s = (case s of
      [] \<Rightarrow> False
    | q # r \<Rightarrow> (q = CHR 0x22 \<or> q = CHR 0x27) \<and> (let v = takeWhile (\<lambda>c. c \<noteq> q) r in v \<noteq> [] \<and> length v < length r))"

definition secretLine :: "string \<Rightarrow> bool" where
  "secretLine l =
     (let l1 = TrimPrefix (dropWhile is_blank_char l) ''web.''
      in HasPrefix l1 ''password_hash'' \<and>
         (case dropWhile is_blank_char (drop 13 l1) of
            [] \<Rightarrow> False
          | c # r \<Rightarrow> c = CHR ''='' \<and> quoted_value (dropWhile is_blank_char r)))"

definition HasSecret :: "parse_env \<Rightarrow> 'p decoder \<Rightarrow> string \<Rightarrow> bool" where
  "HasSecret pe dec raw = (case Parse_config pe dec raw of
      (cf, ws, None) \<Rightarrow> w_PasswordHash (c_Web cf) \<noteq> []
    | (cf, ws, Some e) \<Rightarrow> list_ex secretLine (Split raw NL))"

definition writeAtomic :: "string \<Rightarrow> string \<Rightarrow> FileMode \<Rightarrow> disk \<Rightarrow> goerror option \<times> disk" where
  "writeAtomic path data perm d =
     (case os_MkdirAll (path_Dir path) 0x1ED d of
        (Some e, d1) \<Rightarrow> (Some e, d1)
      | (None, d1) \<Rightarrow> WriteAtomic path data perm d1)"

definition Save :: "parse_env \<Rightarrow> 'p decoder \<Rightarrow> string \<Rightarrow> string \<Rightarrow> disk \<Rightarrow> goerror option \<times> disk" where
  "Save pe dec path raw d =
     (let (st, d1) = os_Stat path d;
          perm = (case st of Inr i \<Rightarrow> if in_Kind i = Regular then in_Mode i else 0x180 | Inl e \<Rightarrow> 0x180)
      in if HasSecret pe dec raw \<and> perm AND 0x3F \<noteq> 0
         then writeAtomic path raw 0x180 (d1\<lparr>dk_log := dk_log d1 @ [Msg ''config: %s carries password_hash, mode %04o tightened to 0600'' [AS path, AI (uint perm)]]\<rparr>)
         else writeAtomic path raw perm d1)"


section \<open>Every moment of a sequence of calls\<close>

definition moments :: "disk \<Rightarrow> disk \<Rightarrow> files list" where
  "moments d d' = dk_files d' # take (length (dk_past d') - length (dk_past d)) (dk_past d')"

definition evolves :: "(files \<Rightarrow> bool) \<Rightarrow> disk \<Rightarrow> disk \<Rightarrow> bool" where
  "evolves Q d d' \<longleftrightarrow> Q (dk_files d') \<and> (\<exists>new. dk_past d' = new @ dk_past d \<and> list_all Q new)"

lemma evolves_moments: "evolves Q d d' \<Longrightarrow> list_all Q (moments d d')"
  by (auto simp: evolves_def moments_def)

lemma evolves_refl: "Q (dk_files d) \<Longrightarrow> evolves Q d d"
  by (simp add: evolves_def)

lemma evolves_trans: "evolves Q d d1 \<Longrightarrow> evolves Q d1 d2 \<Longrightarrow> evolves Q d d2"
  by (fastforce simp: evolves_def)

lemma evolves_mono: "evolves Q d d' \<Longrightarrow> (\<And>fs. Q fs \<Longrightarrow> R fs) \<Longrightarrow> evolves R d d'"
  by (auto simp: evolves_def list_all_iff)

definition next_moment :: "disk \<Rightarrow> disk \<Rightarrow> bool" where
  "next_moment d d' \<longleftrightarrow> dk_past d' = dk_past d \<and> dk_files d' = dk_files d \<or> dk_past d' = dk_files d # dk_past d"

lemma evolves_next: "next_moment d d' \<Longrightarrow> Q (dk_files d) \<Longrightarrow> Q (dk_files d') \<Longrightarrow> evolves Q d d'"
  by (auto simp: next_moment_def evolves_def)

lemma evolves_step: "evolves Q d d1 \<Longrightarrow> next_moment d1 d2 \<Longrightarrow> Q (dk_files d2) \<Longrightarrow> evolves Q d d2"
  using evolves_trans [of Q d d1 d2] evolves_next [of d1 d2 Q] by (simp add: evolves_def)

lemma next_fault_fields: "next_fault d = (f, d1) \<Longrightarrow> dk_files d1 = dk_files d \<and> dk_past d1 = dk_past d \<and> dk_errors d1 = dk_errors d \<and> dk_random d1 = dk_random d"
  by (auto simp: next_fault_def split: list.splits)

lemma disk_fields [simp]:
  "dk_files (failed d) = dk_files d" "dk_past (failed d) = dk_past d" "dk_errors (failed d) = Suc (dk_errors d)"
  "dk_files (set_files fs d) = fs" "dk_past (set_files fs d) = dk_files d # dk_past d" "dk_errors (set_files fs d) = dk_errors d"
  by (simp_all add: failed_def set_files_def)

lemma os_change_cases:
  assumes "os_change op d = (e, d')"
  shows "next_moment d d'" "e = None \<Longrightarrow> op (dk_files d) = Inr (dk_files d') \<and> dk_errors d' = dk_errors d"
    "e \<noteq> None \<Longrightarrow> dk_files d' = dk_files d \<and> dk_errors d' = Suc (dk_errors d)"
proof -
  obtain f d1 where n: "next_fault d = (f, d1)" by (metis surj_pair)
  note nf = next_fault_fields [OF n]
  show "next_moment d d'" "e = None \<Longrightarrow> op (dk_files d) = Inr (dk_files d') \<and> dk_errors d' = dk_errors d"
    "e \<noteq> None \<Longrightarrow> dk_files d' = dk_files d \<and> dk_errors d' = Suc (dk_errors d)"
    using assms nf by (auto simp: os_change_def n next_moment_def split: fault.splits sum.splits)
qed

lemma os_change_Inr:
  assumes "os_change Inr d = (e, d')"
  shows "next_moment d d' \<and> dk_files d' = dk_files d \<and> dk_errors d' = (if e = None then dk_errors d else Suc (dk_errors d))"
proof (cases "e = None")
  case True
  then show ?thesis using os_change_cases(1,2) [OF assms] by simp
next
  case False
  then show ?thesis using os_change_cases(1,3) [OF assms] by simp
qed

lemma os_query_cases:
  assumes "os_query op d = (r, d')"
  shows "dk_files d' = dk_files d" "dk_past d' = dk_past d"
  using assms next_fault_fields [of d] by (auto simp: os_query_def split: prod.splits fault.splits sum.splits)

lemma os_Remove_files:
  assumes "os_Remove p d = (e, d')"
  shows "next_moment d d'" "(map_of (dk_files d'))(p := None) = (map_of (dk_files d))(p := None)"
    "map_of (dk_files d') = (map_of (dk_files d))(p := None) \<or> map_of (dk_files d') = map_of (dk_files d)"
    "map_of (dk_files d') p = None \<or> dk_errors d' = Suc (dk_errors d)" "dk_errors d \<le> dk_errors d'"
proof -
  note c = os_change_cases [OF assms [unfolded os_Remove_def]]
  show "next_moment d d'" by (fact c(1))
  have "e = None \<and> map_of (dk_files d') = (map_of (dk_files d))(p := None) \<and> dk_errors d' = dk_errors d \<or>
      dk_files d' = dk_files d \<and> dk_errors d' = Suc (dk_errors d)"
    using c(2,3) by (cases e) (auto split: option.splits simp: delete_conv' [symmetric])
  then show "(map_of (dk_files d'))(p := None) = (map_of (dk_files d))(p := None)"
    "map_of (dk_files d') = (map_of (dk_files d))(p := None) \<or> map_of (dk_files d') = map_of (dk_files d)"
    "map_of (dk_files d') p = None \<or> dk_errors d' = Suc (dk_errors d)" "dk_errors d \<le> dk_errors d'"
    by auto
qed

section \<open>Names of temporary files\<close>

lemma Split_app: "Split (a @ sep # b) sep = Split a sep @ Split b sep"
proof (induction a)
  case (Cons c a)
  then show ?case using Split_nonempty [of a sep] by (cases "Split a sep") simp_all
qed simp

lemma last_Split: "sep \<notin> set b \<Longrightarrow> last (Split (a @ sep # b) sep) = b"
  by (simp add: Split_app Split_no_sep)

lemma Itoa_no_slash: "CHR ''/'' \<notin> set (Itoa (int n))"
proof -
  have "list_all is_digit (itoa_nonneg (int n))" using itoa_nonneg_ok [of "int n"] by (simp add: list_all_iff)
  then show ?thesis by (auto simp: Itoa_def list_all_iff is_digit_def)
qed

lemma temp_differs: "temp_name dir (path_Base path) n \<noteq> path"
proof
  let ?b = "path_Base path" and ?sl = "CHR ''/''"
  assume e: "temp_name dir ?b n = path"
  then have "path = ((if HasSuffix dir ''/'' then dir else dir @ ''/'') @ ''.'' @ ?b @ ''.'' @ Itoa (int n)) @ ''.tmp''"
    by (simp add: temp_name_def)
  then obtain a where "path = a @ ''.tmp''" by blast
  then have l: "rev path = CHR ''p'' # rev (a @ ''.tm'')" "path \<noteq> []" by simp_all
  have "dropWhile (\<lambda>c. c = ?sl) (rev path) = rev path" unfolding l(1) by simp
  then have b: "?b = last (Split path ?sl)" using l(2) by (simp add: path_Base_def)
  then have ns: "?sl \<notin> set ?b" using Split_pieces [of "last (Split path ?sl)" path ?sl] by simp
  let ?d = "if HasSuffix dir ''/'' then take (length dir - 1) dir else dir" and ?e = "''.'' @ ?b @ ''.'' @ Itoa (int n) @ ''.tmp''"
  have "dir = take (length dir - 1) dir @ ''/''" if "HasSuffix dir ''/''"
    using that append_take_drop_id [of "length dir - 1" dir] by (simp add: HasSuffix_def)
  then have "(if HasSuffix dir ''/'' then dir else dir @ ''/'') = ?d @ ''/''" by simp
  then have "path = ?d @ ?sl # ?e" using e [symmetric] by (simp only: temp_name_def append_assoc) simp
  moreover have "?sl \<notin> set ?e" using ns by (simp add: Itoa_no_slash)
  ultimately have "last (Split path ?sl) = ?e" using last_Split by metis
  then have "length ?b = length ?e" using b by simp
  then show False by simp
qed

section \<open>What an atomic write does\<close>

definition new_file :: "string \<Rightarrow> FileMode \<Rightarrow> inode" where
  "new_file data m = \<lparr>in_Kind = Regular, in_Data = data, in_Mode = m\<rparr>"

definition final_mode :: "FileMode \<Rightarrow> FileMode" where
  "final_mode perm = (if perm = ModeKeep then 0x180 else perm)"

text \<open>The files while a write is under way: only the target and the temporary file differ.\<close>

definition writing :: "files \<Rightarrow> string \<Rightarrow> string \<Rightarrow> string \<Rightarrow> FileMode \<Rightarrow> files \<Rightarrow> bool" where
  "writing fs0 path tmp data m fs \<longleftrightarrow>
     (map_of fs path = map_of fs0 path \<or> map_of fs path = Some (new_file data m)) \<and>
     (\<forall>p. p \<noteq> path \<and> p \<noteq> tmp \<longrightarrow> map_of fs p = map_of fs0 p) \<and>
     (map_of fs tmp = None \<or> (\<exists>k md. (md = 0x180 \<or> md = m) \<and> map_of fs tmp = Some (new_file (take k data) md)))"

definition temp_of :: "disk \<Rightarrow> string \<Rightarrow> string \<Rightarrow> bool" where
  "temp_of d path tmp \<longleftrightarrow> tmp \<noteq> path \<and> map_of (dk_files d) tmp = None"

lemma writing_start: "temp_of d path tmp \<Longrightarrow> writing (dk_files d) path tmp data m (dk_files d)"
  by (auto simp: writing_def temp_of_def)

lemma writing_temp:
  assumes "temp_of d path tmp" "map_of fs = (map_of (dk_files d))(tmp \<mapsto> new_file (take k data) md)" "md = 0x180 \<or> md = m"
  shows "writing (dk_files d) path tmp data m fs"
  using assms by (auto simp: writing_def temp_of_def)

lemma exists_temp: "\<exists>tmp. temp_of d path tmp"
proof -
  have "finite (insert path (fst ` set (dk_files d)))" by simp
  then obtain tmp where "tmp \<notin> insert path (fst ` set (dk_files d))" using ex_new_if_finite [OF infinite_UNIV_listI] by blast
  then show ?thesis by (auto simp: temp_of_def map_of_eq_None_iff)
qed

lemma fresh_name_Some: "fresh_name nm fs rs = Some (t, rs') \<Longrightarrow> map_of fs t = None \<and> (\<exists>n. t = nm n)"
  by (induction rs) (auto split: if_splits)

lemma CreateTemp_cases:
  assumes "os_CreateTemp (path_Dir path) (path_Base path) d = (r, d')"
  shows "r = Inr tmp \<Longrightarrow> temp_of d path tmp \<and> map_of (dk_files d') = (map_of (dk_files d))(tmp \<mapsto> new_file [] 0x180) \<and> dk_errors d' = dk_errors d \<and> next_moment d d'"
    "r = Inl e \<Longrightarrow> dk_files d' = dk_files d \<and> dk_errors d' = Suc (dk_errors d) \<and> next_moment d d'"
proof -
  obtain f d1 where n: "next_fault d = (f, d1)" by (metis surj_pair)
  note nf = next_fault_fields [OF n]
  note def = assms [unfolded os_CreateTemp_def n Let_def prod.case]
  show "r = Inl e \<Longrightarrow> dk_files d' = dk_files d \<and> dk_errors d' = Suc (dk_errors d) \<and> next_moment d d'"
    using def nf by (auto simp: next_moment_def split: fault.splits if_splits option.splits)
  assume r: "r = Inr tmp"
  then obtain rs where fn: "fresh_name (temp_name (path_Dir path) (path_Base path)) (dk_files d1) (dk_random d1) = Some (tmp, rs)"
    and d': "d' = set_files (AList.update tmp (new_file [] 0x180) (dk_files d1)) (d1\<lparr>dk_random := rs\<rparr>)"
    using def by (auto simp: new_file_def split: fault.splits if_splits option.splits)
  have "temp_of d path tmp" using fresh_name_Some [OF fn] nf temp_differs unfolding temp_of_def by metis
  then show "temp_of d path tmp \<and> map_of (dk_files d') = (map_of (dk_files d))(tmp \<mapsto> new_file [] 0x180) \<and> dk_errors d' = dk_errors d \<and> next_moment d d'"
    using nf by (simp add: d' update_conv' next_moment_def)
qed

lemma file_Write_cases:
  assumes "file_Write tmp data d = (e, d')" "map_of (dk_files d) tmp = Some (new_file [] 0x180)"
  shows "next_moment d d'" "\<exists>k. map_of (dk_files d') = (map_of (dk_files d))(tmp \<mapsto> new_file (take k data) 0x180)"
    "e = None \<Longrightarrow> map_of (dk_files d') = (map_of (dk_files d))(tmp \<mapsto> new_file data 0x180) \<and> dk_errors d' = dk_errors d"
    "e \<noteq> None \<Longrightarrow> dk_errors d' = Suc (dk_errors d)"
proof -
  obtain f d1 where n: "next_fault d = (f, d1)" by (metis surj_pair)
  note nf = next_fault_fields [OF n]
  have ad: "map_of (append_data tmp s (dk_files d1)) = (map_of (dk_files d))(tmp \<mapsto> new_file s 0x180)" for s
    using assms(2) nf by (simp add: append_data_def update_conv' new_file_def)
  note def = assms(1) [unfolded file_Write_def n Let_def prod.case]
  show "next_moment d d'" using def nf by (auto simp: next_moment_def split: fault.splits)
  show "\<exists>k. map_of (dk_files d') = (map_of (dk_files d))(tmp \<mapsto> new_file (take k data) 0x180)"
  proof (cases f)
    case Works
    then have "dk_files d' = append_data tmp data (dk_files d1)" using def by auto
    then have "map_of (dk_files d') = (map_of (dk_files d))(tmp \<mapsto> new_file (take (length data) data) 0x180)" by (simp add: ad)
    then show ?thesis ..
  next
    case (Fails e n)
    then show ?thesis using def ad by auto
  qed
  show "e = None \<Longrightarrow> map_of (dk_files d') = (map_of (dk_files d))(tmp \<mapsto> new_file data 0x180) \<and> dk_errors d' = dk_errors d"
    "e \<noteq> None \<Longrightarrow> dk_errors d' = Suc (dk_errors d)"
    using def nf ad by (auto split: fault.splits)
qed

text \<open>
  The state of a write: the temporary file holds part of the text and nothing else has changed; and how a write
  that failed ends.
\<close>

definition staged :: "disk \<Rightarrow> string \<Rightarrow> string \<Rightarrow> string \<Rightarrow> FileMode \<Rightarrow> nat \<Rightarrow> FileMode \<Rightarrow> disk \<Rightarrow> bool" where
  "staged d path tmp data m k md d' \<longleftrightarrow> temp_of d path tmp \<and> evolves (writing (dk_files d) path tmp data m) d d' \<and>
     map_of (dk_files d') = (map_of (dk_files d))(tmp \<mapsto> new_file (take k data) md) \<and> (md = 0x180 \<or> md = m)"

definition given_up :: "disk \<Rightarrow> string \<Rightarrow> string \<Rightarrow> string \<Rightarrow> FileMode \<Rightarrow> disk \<Rightarrow> bool" where
  "given_up d path tmp data m d' \<longleftrightarrow> temp_of d path tmp \<and> evolves (writing (dk_files d) path tmp data m) d d' \<and>
     (map_of (dk_files d'))(tmp := None) = map_of (dk_files d) \<and>
     (map_of (dk_files d') = map_of (dk_files d) \<or> dk_errors d' \<ge> dk_errors d + 2)"

lemma staged_same:
  assumes "staged d path tmp data m k md d1" "next_moment d1 d2" "dk_files d2 = dk_files d1"
  shows "staged d path tmp data m k md d2"
  using assms evolves_step [of "writing (dk_files d) path tmp data m" d d1 d2] by (auto simp: staged_def evolves_def)

lemma staged_removed:
  assumes s: "staged d path tmp data m k md d1" and err: "dk_errors d1 > dk_errors d" and r: "os_Remove tmp d1 = (e, d2)"
  shows "given_up d path tmp data m d2"
proof -
  note f = os_Remove_files [OF r]
  have t: "temp_of d path tmp" and ev: "evolves (writing (dk_files d) path tmp data m) d d1"
    and m1: "map_of (dk_files d1) = (map_of (dk_files d))(tmp \<mapsto> new_file (take k data) md)" and md: "md = 0x180 \<or> md = m"
    using s by (auto simp: staged_def)
  have bk: "(map_of (dk_files d))(tmp := None) = map_of (dk_files d)" using t by (auto simp: temp_of_def)
  have "writing (dk_files d) path tmp data m (dk_files d2)"
    using f(3) m1 writing_temp [OF t _ md, of "dk_files d2" k data] t by (auto simp: writing_def temp_of_def)
  then have "evolves (writing (dk_files d) path tmp data m) d d2" by (rule evolves_step [OF ev f(1)])
  moreover have "(map_of (dk_files d2))(tmp := None) = map_of (dk_files d)" using f(2) m1 bk by simp
  moreover have "map_of (dk_files d2) = map_of (dk_files d) \<or> dk_errors d2 \<ge> dk_errors d + 2"
    using f(4) err calculation(2) by (metis Suc_leI add_2_eq_Suc' fun_upd_triv less_eq_Suc_le not_less_eq_eq)
  ultimately show ?thesis using t by (simp add: given_up_def)
qed

lemma stage_fail_given_up:
  assumes s: "staged d path tmp data m k md d1" and err: "dk_errors d1 > dk_errors d" and r: "stage_fail tmp e d1 = (r, d2)"
  shows "r = Inl e \<and> given_up d path tmp data m d2"
proof -
  obtain e1 dc where c: "file_Close d1 = (e1, dc)" by (metis surj_pair)
  note cc = os_change_Inr [OF c [unfolded file_Close_def]]
  have same: "dk_files dc = dk_files d1" "dk_errors dc \<ge> dk_errors d1" using cc by auto
  obtain e2 dr where rm: "os_Remove tmp dc = (e2, dr)" by (metis surj_pair)
  have "staged d path tmp data m k md dc" by (rule staged_same [OF s _ same(1)]) (use cc in blast)
  from staged_removed [OF this _ rm] err same(2) r show ?thesis by (simp add: stage_fail_def c rm)
qed

lemma Chmod_cases:
  assumes "(if perm = ModeKeep then (None, d) else file_Chmod tmp perm d) = (e, d')" "staged d0 path tmp data (final_mode perm) k 0x180 d"
  shows "e = None \<Longrightarrow> staged d0 path tmp data (final_mode perm) k (final_mode perm) d' \<and> dk_errors d' = dk_errors d"
    "e \<noteq> None \<Longrightarrow> staged d0 path tmp data (final_mode perm) k 0x180 d' \<and> dk_errors d' = Suc (dk_errors d)"
proof -
  have *: "(e = None \<longrightarrow> staged d0 path tmp data (final_mode perm) k (final_mode perm) d' \<and> dk_errors d' = dk_errors d) \<and>
     (e \<noteq> None \<longrightarrow> staged d0 path tmp data (final_mode perm) k 0x180 d' \<and> dk_errors d' = Suc (dk_errors d))"
  proof (cases "perm = ModeKeep")
    case True
    then have "e = None" "d' = d" "final_mode perm = 0x180" using assms(1) by (auto simp: final_mode_def)
    then show ?thesis using assms(2) by simp
  next
    case False
    then have fm: "final_mode perm = perm" by (simp add: final_mode_def)
    have ch: "file_Chmod tmp perm d = (e, d')" using assms(1) False by simp
    note c = os_change_cases [OF ch [unfolded file_Chmod_def]]
    have st: "temp_of d0 path tmp" "evolves (writing (dk_files d0) path tmp data perm) d0 d"
      "map_of (dk_files d) = (map_of (dk_files d0))(tmp \<mapsto> new_file (take k data) 0x180)" using assms(2) by (auto simp: staged_def fm)
    have "staged d0 path tmp data perm k perm d' \<and> dk_errors d' = dk_errors d" if "e = None"
    proof -
      have "map_of (dk_files d) tmp = Some (new_file (take k data) 0x180)" using st(3) by simp
      then have "dk_files d' = AList.update tmp (new_file (take k data) perm) (dk_files d)" using c(2) [OF that] by (simp add: new_file_def)
      then have m: "map_of (dk_files d') = (map_of (dk_files d0))(tmp \<mapsto> new_file (take k data) perm)" using st(3) by (simp add: update_conv')
      have "writing (dk_files d0) path tmp data perm (dk_files d')" by (rule writing_temp [OF st(1) m]) simp
      then have "evolves (writing (dk_files d0) path tmp data perm) d0 d'" by (rule evolves_step [OF st(2) c(1)])
      then show ?thesis using st(1) m c(2) [OF that] by (simp add: staged_def)
    qed
    moreover have "staged d0 path tmp data perm k 0x180 d' \<and> dk_errors d' = Suc (dk_errors d)" if "e \<noteq> None"
      using staged_same [OF assms(2) [unfolded fm] c(1)] c(3) [OF that] by simp
    ultimately show ?thesis by (simp add: fm)
  qed
  then show "e = None \<Longrightarrow> staged d0 path tmp data (final_mode perm) k (final_mode perm) d' \<and> dk_errors d' = dk_errors d"
    "e \<noteq> None \<Longrightarrow> staged d0 path tmp data (final_mode perm) k 0x180 d' \<and> dk_errors d' = Suc (dk_errors d)" by blast+
qed

text \<open>After the text is written: synchronise, set the mode, close.\<close>

definition finish_stage :: "string \<Rightarrow> FileMode \<Rightarrow> disk \<Rightarrow> (goerror + string) \<times> disk" where
  "finish_stage tmp perm d2 = (case file_Sync d2 of
            (Some e, d3) \<Rightarrow> stage_fail tmp e d3
          | (None, d3) \<Rightarrow> (case (if perm = ModeKeep then (None, d3) else file_Chmod tmp perm d3) of
              (Some e, d4) \<Rightarrow> stage_fail tmp e d4
            | (None, d4) \<Rightarrow> (case file_Close d4 of
                (Some e, d5) \<Rightarrow> (Inl e, snd (os_Remove tmp d5))
              | (None, d5) \<Rightarrow> (Inr tmp, d5))))"

lemma finish_stage_cases:
  assumes s2: "staged d path tmp data (final_mode perm) (length data) 0x180 d2" and er2: "dk_errors d2 = dk_errors d"
    and def2: "finish_stage tmp perm d2 = (r, d')"
  shows "r = Inr tmp \<and> staged d path tmp data (final_mode perm) (length data) (final_mode perm) d' \<and> dk_errors d' = dk_errors d \<or>
    (\<exists>e. r = Inl e \<and> given_up d path tmp data (final_mode perm) d')"
proof -
  let ?m = "final_mode perm"
  obtain e3 d3 where sy: "file_Sync d2 = (e3, d3)" by (metis surj_pair)
  note c3 = os_change_Inr [OF sy [unfolded file_Sync_def]]
  have s3: "staged d path tmp data ?m (length data) 0x180 d3" using staged_same [OF s2] c3 by blast
  note def3 = def2 [unfolded finish_stage_def sy prod.case]
  show ?thesis
  proof (cases e3)
    case (Some e)
    then have "dk_errors d3 > dk_errors d" using c3 er2 by simp
    from stage_fail_given_up [OF s3 this] def3 Some show ?thesis by auto
  next
    case None
    obtain e4 d4 where cm: "(if perm = ModeKeep then (None, d3) else file_Chmod tmp perm d3) = (e4, d4)" by (metis surj_pair)
    note c4 = Chmod_cases [OF cm s3]
    note def4 = def3 [unfolded None option.case cm prod.case]
    have er3: "dk_errors d3 = dk_errors d" using c3 er2 None by simp
    show ?thesis
    proof (cases e4)
      case (Some e)
      then have "staged d path tmp data ?m (length data) 0x180 d4" "dk_errors d4 > dk_errors d" using c4(2) er3 by simp_all
      from stage_fail_given_up [OF this] def4 Some show ?thesis by auto
    next
      case None
      then have s4: "staged d path tmp data ?m (length data) ?m d4" and er4: "dk_errors d4 = dk_errors d" using c4(1) er3 by simp_all
      obtain e5 d5 where cl: "file_Close d4 = (e5, d5)" by (metis surj_pair)
      note c5 = os_change_Inr [OF cl [unfolded file_Close_def]]
      have s5: "staged d path tmp data ?m (length data) ?m d5" using staged_same [OF s4] c5 by blast
      note def5 = def4 [unfolded None option.case cl prod.case]
      show ?thesis
      proof (cases e5)
        case (Some e)
        obtain e6 d6 where rm: "os_Remove tmp d5 = (e6, d6)" by (metis surj_pair)
        have "dk_errors d5 > dk_errors d" using c5 er4 Some by simp
        from staged_removed [OF s5 this rm] def5 Some rm show ?thesis by auto
      next
        case None
        then show ?thesis using def5 s5 c5 er4 by auto
      qed
    qed
  qed
qed

lemma Stage_cases:
  assumes "Stage path data perm d = (r, d')"
  shows "(\<exists>tmp. r = Inr tmp \<and> staged d path tmp data (final_mode perm) (length data) (final_mode perm) d' \<and> dk_errors d' = dk_errors d) \<or>
    (\<exists>e tmp. r = Inl e \<and> given_up d path tmp data (final_mode perm) d')"
proof -
  let ?m = "final_mode perm"
  obtain r1 d1 where ct: "os_CreateTemp (path_Dir path) (path_Base path) d = (r1, d1)" by (metis surj_pair)
  note def = assms [unfolded Stage_def ct prod.case]
  show ?thesis
  proof (cases r1)
    case (Inl e)
    note c = CreateTemp_cases(2) [OF ct Inl]
    obtain tmp where t: "temp_of d path tmp" using exists_temp by blast
    have "evolves (writing (dk_files d) path tmp data ?m) d d1" using evolves_next [of d d1] c writing_start [OF t] by simp
    then have "given_up d path tmp data ?m d1" using t c by (auto simp: given_up_def temp_of_def)
    then show ?thesis using def Inl by auto
  next
    case (Inr tmp)
    note c = CreateTemp_cases(1) [OF ct Inr]
    have t: "temp_of d path tmp" using c by blast
    have w1: "writing (dk_files d) path tmp data ?m (dk_files d1)" by (rule writing_temp [OF t, of _ 0 _ "0x180"]) (use c in simp_all)
    have ev1: "evolves (writing (dk_files d) path tmp data ?m) d d1" by (rule evolves_next [OF _ writing_start [OF t] w1]) (use c in blast)
    obtain e2 d2 where wr: "file_Write tmp data d1 = (e2, d2)" by (metis surj_pair)
    have "map_of (dk_files d1) tmp = Some (new_file [] 0x180)" using c by simp
    note w = file_Write_cases [OF wr this]
    have m2: "\<exists>k. map_of (dk_files d2) = (map_of (dk_files d))(tmp \<mapsto> new_file (take k data) 0x180)" using w(2) c by auto
    then have "writing (dk_files d) path tmp data ?m (dk_files d2)" using writing_temp [OF t] by blast
    then have ev2: "evolves (writing (dk_files d) path tmp data ?m) d d2" by (rule evolves_step [OF ev1 w(1)])
    obtain k where s2: "staged d path tmp data ?m k 0x180 d2" using m2 ev2 t by (auto simp: staged_def)
    note def2 = def [unfolded Inr sum.case wr prod.case]
    show ?thesis
    proof (cases e2)
      case (Some e)
      then have "dk_errors d2 > dk_errors d" using w(4) c by simp
      from stage_fail_given_up [OF s2 this] def2 Some show ?thesis by auto
    next
      case None
      then have "map_of (dk_files d2) = (map_of (dk_files d))(tmp \<mapsto> new_file (take (length data) data) 0x180)" "dk_errors d2 = dk_errors d"
        using w(3) c by auto
      then have s2: "staged d path tmp data ?m (length data) 0x180 d2" and er2: "dk_errors d2 = dk_errors d"
        using ev2 t by (auto simp: staged_def)
      have "finish_stage tmp perm d2 = (r, d')" unfolding def2 [unfolded None option.case, symmetric] finish_stage_def ..
      from finish_stage_cases [OF s2 er2 this] show ?thesis by blast
    qed
  qed
qed

lemma WriteAtomic_cases:
  assumes "WriteAtomic path data perm d = (e, d')"
  shows "\<exists>tmp. temp_of d path tmp \<and> evolves (writing (dk_files d) path tmp data (final_mode perm)) d d' \<and>
    (if e = None then map_of (dk_files d') = (map_of (dk_files d))(path \<mapsto> new_file data (final_mode perm))
     else (map_of (dk_files d'))(tmp := None) = map_of (dk_files d) \<and> (map_of (dk_files d') = map_of (dk_files d) \<or> dk_errors d' \<ge> dk_errors d + 2))"
proof -
  let ?m = "final_mode perm"
  obtain r1 d1 where st: "Stage path data perm d = (r1, d1)" by (metis surj_pair)
  note def = assms [unfolded WriteAtomic_def st prod.case]
  from Stage_cases [OF st] show ?thesis
  proof (elim disjE exE conjE)
    fix x tmp assume "r1 = Inl x" "given_up d path tmp data ?m d1"
    then show ?thesis using def by (auto simp: given_up_def)
  next
    fix tmp assume r1: "r1 = Inr tmp" and s1: "staged d path tmp data ?m (length data) ?m d1" and er1: "dk_errors d1 = dk_errors d"
    obtain e2 d2 where rn: "os_Rename tmp path d1 = (e2, d2)" by (metis surj_pair)
    note c = os_change_cases [OF rn [unfolded os_Rename_def]]
    note def1 = def [unfolded r1 sum.case rn prod.case]
    show ?thesis
    proof (cases "e2 = None")
      case True
      then have e: "e = None" "d' = d2" using def1 by auto
      have t: "temp_of d path tmp" and m1: "map_of (dk_files d1) = (map_of (dk_files d))(tmp \<mapsto> new_file data ?m)"
        and ev: "evolves (writing (dk_files d) path tmp data ?m) d d1" using s1 by (auto simp: staged_def)
      have "dk_files d2 = AList.update path (new_file data ?m) (AList.delete tmp (dk_files d1))"
        using c(2) [OF True] m1 by (auto split: if_splits)
      then have m2: "map_of (dk_files d2) = (map_of (dk_files d))(path \<mapsto> new_file data ?m)"
        using t m1 by (auto simp: update_conv' delete_conv' temp_of_def)
      then have "writing (dk_files d) path tmp data ?m (dk_files d2)" using t by (simp add: writing_def temp_of_def)
      then have "evolves (writing (dk_files d) path tmp data ?m) d d2" by (rule evolves_step [OF ev c(1)])
      then show ?thesis using e t m2 by auto
    next
      case False
      obtain e3 d3 where rm: "os_Remove tmp d2 = (e3, d3)" by (metis surj_pair)
      have s2: "staged d path tmp data ?m (length data) ?m d2" using staged_same [OF s1 c(1)] c(3) [OF False] by blast
      have "dk_errors d2 > dk_errors d" using c(3) [OF False] er1 by simp
      from staged_removed [OF s2 this rm] show ?thesis using def1 False rm by (auto simp: given_up_def)
    qed
  qed
qed

lemma MkdirAll_existing:
  assumes "list_all (is_dir (dk_files d)) (dir_chain p)" "os_MkdirAll p m d = (e, d')"
  shows "dk_files d' = dk_files d" "next_moment d d'" "dk_errors d' \<ge> dk_errors d"
proof -
  have "fold (make_dir m) ps (Inr fs) = Inr fs" if "list_all (is_dir fs) ps" for ps fs
    using that by (induction ps) (simp_all add: make_dir_def)
  note made = this [OF assms(1)] and c = os_change_cases [OF assms(2) [unfolded os_MkdirAll_def]]
  show "next_moment d d'" by (fact c(1))
  have "dk_files d' = dk_files d \<and> dk_errors d' \<ge> dk_errors d"
  proof (cases "e = None")
    case True
    then show ?thesis using c(2) [OF True, unfolded made] by simp
  next
    case False
    then show ?thesis using c(3) [OF False] by simp
  qed
  then show "dk_files d' = dk_files d" "dk_errors d' \<ge> dk_errors d" by blast+
qed

lemma writeAtomic_cases:
  assumes dirs: "list_all (is_dir (dk_files d)) (dir_chain (path_Dir path))" and run: "writeAtomic path data perm d = (e, d')"
  shows "\<exists>tmp. temp_of d path tmp \<and> evolves (writing (dk_files d) path tmp data (final_mode perm)) d d' \<and>
    (if e = None then map_of (dk_files d') = (map_of (dk_files d))(path \<mapsto> new_file data (final_mode perm))
     else (map_of (dk_files d'))(tmp := None) = map_of (dk_files d) \<and> (map_of (dk_files d') = map_of (dk_files d) \<or> dk_errors d' \<ge> dk_errors d + 2))"
proof -
  obtain e1 d1 where mk: "os_MkdirAll (path_Dir path) 0x1ED d = (e1, d1)" by (metis surj_pair)
  note c = MkdirAll_existing [OF dirs mk]
  note def = run [unfolded writeAtomic_def mk prod.case]
  have ev: "evolves (writing (dk_files d) path tmp data (final_mode perm)) d d1" if "temp_of d path tmp" for tmp
    using evolves_next [OF c(2)] writing_start [OF that] c(1) by simp
  show ?thesis
  proof (cases e1)
    case (Some x)
    obtain tmp where t: "temp_of d path tmp" using exists_temp by blast
    then have "(map_of (dk_files d))(tmp := None) = map_of (dk_files d)" by (simp add: temp_of_def fun_upd_idem)
    then show ?thesis using Some def c(1) t ev [OF t] by (intro exI [of _ tmp]) auto
  next
    case None
    then have "WriteAtomic path data perm d1 = (e, d')" using def by simp
    from WriteAtomic_cases [OF this, unfolded c(1)] obtain tmp where t: "temp_of d1 path tmp"
      and r: "evolves (writing (dk_files d) path tmp data (final_mode perm)) d1 d'"
        "if e = None then map_of (dk_files d') = (map_of (dk_files d))(path \<mapsto> new_file data (final_mode perm))
         else (map_of (dk_files d'))(tmp := None) = map_of (dk_files d) \<and> (map_of (dk_files d') = map_of (dk_files d) \<or> dk_errors d' \<ge> dk_errors d1 + 2)"
      by blast
    have t': "temp_of d path tmp" using t c(1) by (simp add: temp_of_def)
    then show ?thesis using evolves_trans [OF ev [OF t'] r(1)] r(2) c(3) by (intro exI [of _ tmp]) (auto split: if_splits)
  qed
qed

section \<open>Saving the configuration\<close>

definition owner_only :: "FileMode \<Rightarrow> bool" where
  "owner_only m \<longleftrightarrow> m AND 0x3F = 0"

lemma writing_private:
  assumes "writing fs0 path tmp data m fs" "owner_only m" "map_of fs0 tmp = None"
  shows "\<forall>p. map_of fs p = map_of fs0 p \<or> (\<exists>i. map_of fs p = Some i \<and> owner_only (in_Mode i))"
proof
  fix p
  have p600: "owner_only 0x180" by (simp add: owner_only_def)
  show "map_of fs p = map_of fs0 p \<or> (\<exists>i. map_of fs p = Some i \<and> owner_only (in_Mode i))"
    using assms p600 by (cases "p = path"; cases "p = tmp") (auto simp: writing_def new_file_def)
qed

lemma Save_cases:
  assumes "list_all (is_dir (dk_files d)) (dir_chain (path_Dir path))" and "Save pe dec path raw d = (e, d')"
  shows "\<exists>tmp m. temp_of d path tmp \<and> evolves (writing (dk_files d) path tmp raw m) d d' \<and>
    (if e = None then map_of (dk_files d') = (map_of (dk_files d))(path \<mapsto> new_file raw m)
     else (map_of (dk_files d'))(tmp := None) = map_of (dk_files d) \<and> (map_of (dk_files d') = map_of (dk_files d) \<or> dk_errors d' \<ge> dk_errors d + 2)) \<and>
    (m = 0x180 \<or> (\<exists>i. map_of (dk_files d) path = Some i \<and> m = in_Mode i)) \<and> (HasSecret pe dec raw \<longrightarrow> owner_only m)"
proof -
  obtain st d1 where sq: "os_Stat path d = (st, d1)" by (metis surj_pair)
  note q = os_query_cases [OF sq [unfolded os_Stat_def]]
  define perm where "perm = (case st of Inr i \<Rightarrow> if in_Kind i = Regular then in_Mode i else 0x180 | Inl e \<Rightarrow> 0x180)"
  define p2 where "p2 = (if HasSecret pe dec raw \<and> \<not> owner_only perm then 0x180 else perm)"
  define d2 where "d2 = (if HasSecret pe dec raw \<and> \<not> owner_only perm
    then d1\<lparr>dk_log := dk_log d1 @ [Msg ''config: %s carries password_hash, mode %04o tightened to 0600'' [AS path, AI (uint perm)]]\<rparr> else d1)"
  have d2: "dk_files d2 = dk_files d" "dk_past d2 = dk_past d" using q by (simp_all add: d2_def)
  have er: "dk_errors d2 \<ge> dk_errors d" using sq next_fault_fields [of d] by (auto simp: d2_def os_Stat_def os_query_def split: prod.splits fault.splits option.splits)
  have wa: "writeAtomic path raw p2 d2 = (e, d')"
    using assms(2) by (auto simp: Save_def sq perm_def [symmetric] p2_def d2_def owner_only_def Let_def split: if_splits)
  have Inr: "map_of (dk_files d) path = Some i" if "st = Inr i" for i
    using sq that next_fault_fields [of d] by (auto simp: os_Stat_def os_query_def split: prod.splits fault.splits option.splits)
  let ?m = "final_mode p2"
  have m: "?m = 0x180 \<or> (\<exists>i. map_of (dk_files d) path = Some i \<and> ?m = in_Mode i)"
    using Inr by (auto simp: final_mode_def p2_def perm_def split: sum.splits)
  have pm: "owner_only ?m" if "HasSecret pe dec raw" using that by (auto simp: final_mode_def p2_def owner_only_def)
  from writeAtomic_cases [OF assms(1) [folded d2(1)] wa, unfolded d2(1)] obtain tmp where t: "temp_of d2 path tmp"
    and ev2: "evolves (writing (dk_files d) path tmp raw ?m) d2 d'"
    and r: "if e = None then map_of (dk_files d') = (map_of (dk_files d))(path \<mapsto> new_file raw ?m)
      else (map_of (dk_files d'))(tmp := None) = map_of (dk_files d) \<and> (map_of (dk_files d') = map_of (dk_files d) \<or> dk_errors d' \<ge> dk_errors d2 + 2)"
    by blast
  have ev: "evolves (writing (dk_files d) path tmp raw ?m) d d'" using ev2 d2(2) by (simp add: evolves_def)
  have tn: "temp_of d path tmp" using t d2(1) by (simp add: temp_of_def)
  have r': "if e = None then map_of (dk_files d') = (map_of (dk_files d))(path \<mapsto> new_file raw ?m)
      else (map_of (dk_files d'))(tmp := None) = map_of (dk_files d) \<and> (map_of (dk_files d') = map_of (dk_files d) \<or> dk_errors d' \<ge> dk_errors d + 2)"
    using r er by (auto split: if_splits)
  show ?thesis using tn ev r' m pm by blast
qed

text \<open>
  C33: saving the configuration is all or nothing, and keeps a password hash private. Whatever calls fail, at every moment
  the file is the old one or the complete new one; a save that reports success has changed exactly that
  file, one that reports an error has changed nothing, apart from a temporary file that is left only when a second
  call failed too. The mode is the one the file had or 0600. When the new text carries a password hash, no file
  that others can read ever holds a part of it.
\<close>

theorem Save_atomic_and_private:
  assumes "list_all (is_dir (dk_files d)) (dir_chain (path_Dir path))" and "Save pe dec path raw d = (e, d')"
  shows "\<exists>tmp m. map_of (dk_files d) tmp = None \<and>
    list_all (\<lambda>fs. map_of fs path = map_of (dk_files d) path \<or> map_of fs path = Some (new_file raw m)) (moments d d') \<and>
    (if e = None then map_of (dk_files d') = (map_of (dk_files d))(path \<mapsto> new_file raw m)
     else (map_of (dk_files d'))(tmp := None) = map_of (dk_files d) \<and> (map_of (dk_files d') = map_of (dk_files d) \<or> dk_errors d' \<ge> dk_errors d + 2)) \<and>
    (m = 0x180 \<or> (\<exists>i. map_of (dk_files d) path = Some i \<and> m = in_Mode i)) \<and>
    (HasSecret pe dec raw \<longrightarrow> owner_only m \<and>
       list_all (\<lambda>fs. \<forall>p. map_of fs p = map_of (dk_files d) p \<or> (\<exists>i. map_of fs p = Some i \<and> owner_only (in_Mode i))) (moments d d'))"
proof -
  from Save_cases [OF assms] obtain tmp m where t: "temp_of d path tmp"
    and ev: "evolves (writing (dk_files d) path tmp raw m) d d'"
    and r: "if e = None then map_of (dk_files d') = (map_of (dk_files d))(path \<mapsto> new_file raw m)
     else (map_of (dk_files d'))(tmp := None) = map_of (dk_files d) \<and> (map_of (dk_files d') = map_of (dk_files d) \<or> dk_errors d' \<ge> dk_errors d + 2)"
    and m: "m = 0x180 \<or> (\<exists>i. map_of (dk_files d) path = Some i \<and> m = in_Mode i)" and pm: "HasSecret pe dec raw \<longrightarrow> owner_only m" by blast
  have tn: "map_of (dk_files d) tmp = None" using t by (simp add: temp_of_def)
  have a: "list_all (\<lambda>fs. map_of fs path = map_of (dk_files d) path \<or> map_of fs path = Some (new_file raw m)) (moments d d')"
    by (rule evolves_moments, rule evolves_mono [OF ev]) (simp add: writing_def)
  have b: "list_all (\<lambda>fs. \<forall>p. map_of fs p = map_of (dk_files d) p \<or> (\<exists>i. map_of fs p = Some i \<and> owner_only (in_Mode i))) (moments d d')"
    if "HasSecret pe dec raw"
    by (rule evolves_moments, rule evolves_mono [OF ev], rule writing_private [OF _ _ tn]) (use pm that in simp_all)
  show ?thesis using tn a r m pm b by blast
qed

definition disk_demo :: disk where
  "disk_demo = \<lparr>dk_files = [(''/etc'', \<lparr>in_Kind = Directory, in_Data = [], in_Mode = 0x1ED\<rparr>), (''/etc/c'', new_file ''old'' 0x1A4)],
     dk_past = [], dk_faults = [Works, Works, Works, Fails (mk_err ''full'') 3], dk_random = [7], dk_errors = 0, dk_log = []\<rparr>"

definition secret_demo :: string where
  "secret_demo = ''password_hash = '' @ [CHR 0x22, CHR ''x'', CHR 0x22, NL]"

lemma save_demo:
  fixes dec :: "tval decoder"
  assumes "dec = (\<lambda>_. Inl ''bare keys'')"
  shows "list_all (is_dir (dk_files disk_demo)) (dir_chain (path_Dir ''/etc/c''))" "HasSecret pe dec secret_demo"
proof -
  show "list_all (is_dir (dk_files disk_demo)) (dir_chain (path_Dir ''/etc/c''))" by code_simp
  have "list_ex secretLine (Split secret_demo NL)" by code_simp
  then show "HasSecret pe dec secret_demo" by (simp add: HasSecret_def Parse_config_def assms Let_def)
qed

theorem Save_atomic_and_private_witness:
  "let dec = (\<lambda>_. Inl ''bare keys'') :: tval decoder; pe = \<lparr>pe_LogRoot = [], pe_url = \<lambda>_. None\<rparr>;
       d' = snd (Save pe dec ''/etc/c'' secret_demo disk_demo)
   in HasSecret pe dec secret_demo \<and>
      (\<exists>m. owner_only m \<and> list_all (\<lambda>fs. map_of fs ''/etc/c'' = Some (new_file ''old'' 0x1A4) \<or> map_of fs ''/etc/c'' = Some (new_file secret_demo m)) (moments disk_demo d'))"
proof -
  define dec where "dec = ((\<lambda>_. Inl ''bare keys'') :: tval decoder)"
  define pe where "pe = \<lparr>pe_LogRoot = [], pe_url = \<lambda>_ :: string. None\<rparr>"
  note demo = save_demo(1) [OF dec_def] save_demo(2) [OF dec_def, of pe]
  obtain e d' where run: "Save pe dec ''/etc/c'' secret_demo disk_demo = (e, d')" by (metis surj_pair)
  have old: "map_of (dk_files disk_demo) ''/etc/c'' = Some (new_file ''old'' 0x1A4)" by (simp add: disk_demo_def)
  from Save_atomic_and_private [OF demo(1) run] demo(2)
  obtain m where "owner_only m" "list_all (\<lambda>fs. map_of fs ''/etc/c'' = map_of (dk_files disk_demo) ''/etc/c'' \<or> map_of fs ''/etc/c'' = Some (new_file secret_demo m)) (moments disk_demo d')"
    by blast
  then show ?thesis using demo(2) run unfolding Let_def dec_def [symmetric] pe_def [symmetric] old by auto
qed

end
