(* ===== verification/Presets.thy ===== *)
theory Presets
  imports FileStore
begin

text \<open>
  Presets: the embedded ones (\<^verbatim>\<open>internal/config/presets.go\<close>), the preset files (\<^verbatim>\<open>internal/config/file.go\<close>) and
  the store behind \<^verbatim>\<open>/api/presets\<close> (\<^verbatim>\<open>cmd/n5-fangov/wiring_presets.go\<close>), over the disk of \<open>FileStore\<close>.
  Arguments are the TOML decoder, the encoder of the channel tables and of a whole configuration, the embedded
  files and the reload of the running daemon.
\<close>

section \<open>Embedded presets\<close>

record BuiltinPreset =
  bp_Name :: string
  bp_Description :: string
  bp_Profile :: string
  bp_Raw :: string

fun header_loop :: "string list \<Rightarrow> string \<times> string \<Rightarrow> string \<times> string" where
  "header_loop [] r = r"
| "header_loop (l # ls) (desc, prof) =
     (let line = TrimSpace l
      in if line = [] then header_loop ls (desc, prof)
         else if \<not> HasPrefix line ''#'' then (desc, prof)
         else let body = TrimSpace (TrimPrefix line ''#'')
              in if HasPrefix body ''description:'' then header_loop ls (TrimSpace (TrimPrefix body ''description:''), prof)
                 else if HasPrefix body ''profile:'' then header_loop ls (desc, TrimSpace (TrimPrefix body ''profile:''))
                 else header_loop ls (desc, prof))"

definition presetHeader :: "string \<Rightarrow> string \<times> string" where
  "presetHeader raw = header_loop (Split raw NL) ([], [])"

definition loadBuiltinPresets :: "(string \<times> string) list \<Rightarrow> BuiltinPreset list" where
  "loadBuiltinPresets presetFS =
     sort_key bp_Name (map (\<lambda>(n, raw). let (desc, prof) = presetHeader raw
                                       in \<lparr>bp_Name = TrimSuffix n ''.toml'', bp_Description = desc, bp_Profile = prof, bp_Raw = raw\<rparr>)
                           (filter (\<lambda>(n, raw). HasSuffix n ''.toml'') presetFS))"

definition BuiltinPresets :: "BuiltinPreset list \<Rightarrow> string \<Rightarrow> BuiltinPreset list" where
  "BuiltinPresets bs profile = filter (\<lambda>p. profile = [] \<or> bp_Profile p = profile) bs"

definition BuiltinPresetByName :: "BuiltinPreset list \<Rightarrow> string \<Rightarrow> BuiltinPreset option" where
  "BuiltinPresetByName bs name = find (\<lambda>p. bp_Name p = name) bs"

definition IsBuiltinPreset :: "BuiltinPreset list \<Rightarrow> string \<Rightarrow> bool" where
  "IsBuiltinPreset bs name = (BuiltinPresetByName bs name \<noteq> None)"

section \<open>Preset files\<close>

definition ValidPresetName :: "string \<Rightarrow> bool" where
  "ValidPresetName name = presetRe name"

text \<open>The entries of a directory are the files one level below it, sorted.\<close>

definition entry_of :: "string \<Rightarrow> string \<Rightarrow> string option" where
  "entry_of dir p =
     (let pre = (if HasSuffix dir ''/'' then dir else dir @ ''/''); n = drop (length pre) p
      in if HasPrefix p pre \<and> n \<noteq> [] \<and> CHR ''/'' \<notin> set n then Some n else None)"

definition os_ReadDir :: "string \<Rightarrow> disk \<Rightarrow> (goerror + (string \<times> fkind) list) \<times> disk" where
  "os_ReadDir dir = os_query (\<lambda>fs.
     if is_dir fs dir
     then Inr (sort_key fst (List.map_filter (\<lambda>(p, i). map_option (\<lambda>n. (n, in_Kind i)) (entry_of dir p)) fs))
     else Inl (not_exist dir))"

definition PresetNames :: "string \<Rightarrow> disk \<Rightarrow> string list \<times> disk" where
  "PresetNames dir d = (case os_ReadDir dir d of
      (Inl e, d1) \<Rightarrow> ([], d1)
    | (Inr es, d1) \<Rightarrow>
        (sort (filter ValidPresetName (map (\<lambda>e. TrimSuffix (fst e) ''.toml'') (filter (\<lambda>e. snd e \<noteq> Directory \<and> HasSuffix (fst e) ''.toml'') es))), d1))"

definition presetPath :: "string \<Rightarrow> string \<Rightarrow> string" where
  "presetPath dir name = path_Clean (dir @ ''/'' @ name @ ''.toml'')"

datatype preset_error =
    NotFound | Invalid msg | WriteFailed msg | Builtin | Exists | RestartRequired | ReloadError goerror | Other msg

definition os_error :: "goerror \<Rightarrow> preset_error" where
  "os_error e = (if errors_Is e ErrNotExist then NotFound else Other (Msg ''preset: %w'' [AE e]))"

type_synonym loaded = "preset_error + (Channel list \<times> Warning list)"

definition parse_preset :: "parse_env \<Rightarrow> 'p decoder \<Rightarrow> string \<Rightarrow> loaded" where
  "parse_preset pe dec raw = (case ParseChannels pe dec raw of
      (chans, ws, None) \<Rightarrow> Inr (chans, ws)
    | (chans, ws, Some e) \<Rightarrow> Inl (Other e))"

definition LoadPreset :: "parse_env \<Rightarrow> 'p decoder \<Rightarrow> string \<Rightarrow> string \<Rightarrow> disk \<Rightarrow> loaded \<times> disk" where
  "LoadPreset pe dec dir name d =
     (if \<not> ValidPresetName name then (Inl (Other (Msg ''preset: invalid name %q'' [AS name])), d)
      else (case os_ReadFile (presetPath dir name) d of
          (Inl e, d1) \<Rightarrow> (Inl (os_error e), d1)
        | (Inr raw, d1) \<Rightarrow> (parse_preset pe dec raw, d1)))"

fun load_presets :: "parse_env \<Rightarrow> 'p decoder \<Rightarrow> string \<Rightarrow> string list \<Rightarrow> disk \<Rightarrow> (string, Channel list) gomap \<times> disk" where
  "load_presets pe dec dir [] d = ([], d)"
| "load_presets pe dec dir (n # ns) d =
     (let (r, d1) = LoadPreset pe dec dir n d; (out, d2) = load_presets pe dec dir ns d1
      in (case r of Inl e \<Rightarrow> out | Inr (chans, ws) \<Rightarrow> (n, chans) # out, d2))"

definition LoadPresets :: "parse_env \<Rightarrow> 'p decoder \<Rightarrow> string \<Rightarrow> disk \<Rightarrow> (string, Channel list) gomap \<times> disk" where
  "LoadPresets pe dec dir d = (let (ns, d1) = PresetNames dir d in load_presets pe dec dir ns d1)"

definition SavePresetRaw :: "string \<Rightarrow> string \<Rightarrow> string \<Rightarrow> disk \<Rightarrow> preset_error option \<times> disk" where
  "SavePresetRaw dir name raw d =
     (if \<not> ValidPresetName name then (Some (Other (Msg ''preset: invalid name %q (use [a-z0-9_-], 1..64 characters)'' [AS name])), d)
      else let (e, d1) = writeAtomic (presetPath dir name) raw 0x1A4 d
           in (map_option os_error e, d1))"

definition SavePreset :: "(Channel list \<Rightarrow> string) \<Rightarrow> string \<Rightarrow> string \<Rightarrow> Channel list \<Rightarrow> disk \<Rightarrow> preset_error option \<times> disk" where
  "SavePreset MarshalChannels dir name chans = SavePresetRaw dir name (MarshalChannels chans)"

definition DeletePreset :: "string \<Rightarrow> string \<Rightarrow> disk \<Rightarrow> preset_error option \<times> disk" where
  "DeletePreset dir name d =
     (if \<not> ValidPresetName name then (Some (Other (Msg ''preset: invalid name %q'' [AS name])), d)
      else let (e, d1) = os_Remove (presetPath dir name) d in (map_option os_error e, d1))"

section \<open>Merging by pwm\<close>

definition adopt :: "Channel \<Rightarrow> Channel \<Rightarrow> Channel" where
  "adopt old pc =
     (let p1 = pc\<lparr>ch_Name := ch_Name old\<rparr>;
          p2 = (if ch_PostSet p1 then p1 else p1\<lparr>ch_Hysteresis := ch_Hysteresis old, ch_MinOn := ch_MinOn old, ch_PostSet := ch_PostSet old\<rparr>)
      in if ch_Ceiling p2 = 0 then p2\<lparr>ch_Ceiling := ch_Ceiling old\<rparr> else p2)"

definition replace_at :: "Channel \<Rightarrow> Channel list \<Rightarrow> Channel list" where
  "replace_at pc out = (case filter (\<lambda>i. ch_PWM (out ! i) = ch_PWM pc) [0..<length out] of
      [] \<Rightarrow> out
    | is \<Rightarrow> out[last is := adopt (out ! last is) pc])"

fun merge_loop :: "Channel list \<Rightarrow> Channel list \<Rightarrow> Channel list \<times> Channel list" where
  "merge_loop out [] = (out, [])"
| "merge_loop out (pc # ps) =
     (if list_ex (\<lambda>c. ch_PWM c = ch_PWM pc) out then merge_loop (replace_at pc out) ps
      else let (out', adds) = merge_loop out ps in (out', pc # adds))"

definition pwm_name :: "int \<Rightarrow> nat \<Rightarrow> string" where
  "pwm_name pwm n = ''pwm'' @ Itoa pwm @ ''_'' @ Itoa (int n)"

lemma pwm_name_inj: "inj (pwm_name pwm)"
proof (rule injI)
  fix a b assume "pwm_name pwm a = pwm_name pwm b"
  then have "itoa_nonneg (int a) = itoa_nonneg (int b)" by (simp add: pwm_name_def Itoa_def)
  then show "a = b" using itoa_nonneg_ok [of "int a"] itoa_nonneg_ok [of "int b"] by (metis of_nat_0_le_iff of_nat_eq_iff)
qed

lemma finite_pwm_names: "finite {k. n \<le> k \<and> pwm_name pwm k \<in> set names}"
proof -
  have "finite (pwm_name pwm -` set names)" by (rule finite_vimageI [OF _ pwm_name_inj]) simp
  then show ?thesis by (rule rev_finite_subset) auto
qed

function free_name :: "int \<Rightarrow> string list \<Rightarrow> nat \<Rightarrow> string" where
  "free_name pwm names n = (if pwm_name pwm n \<in> set names then free_name pwm names (Suc n) else pwm_name pwm n)"
  by pat_completeness auto

termination
proof (relation "measure (\<lambda>(pwm, names, n). card {k. n \<le> k \<and> pwm_name pwm k \<in> set names})")
  fix pwm names n assume u: "pwm_name pwm n \<in> set names"
  have "{k. Suc n \<le> k \<and> pwm_name pwm k \<in> set names} \<subset> {k. n \<le> k \<and> pwm_name pwm k \<in> set names}"
    using u by (auto intro: psubsetI dest: Suc_leD) (metis (mono_tags, lifting) mem_Collect_eq not_less_eq_eq order_refl)
  from psubset_card_mono [OF finite_pwm_names this]
  show "((pwm, names, Suc n), (pwm, names, n)) \<in> measure (\<lambda>(pwm, names, n). card {k. n \<le> k \<and> pwm_name pwm k \<in> set names})" by simp
qed simp

declare free_name.simps [simp del]

definition add_name :: "string list \<Rightarrow> Channel \<Rightarrow> string" where
  "add_name names pc =
     (if ch_Name pc \<notin> set names then ch_Name pc
      else let p = ''pwm'' @ Itoa (ch_PWM pc) in if p \<notin> set names then p else free_name (ch_PWM pc) names 2)"

fun add_loop :: "string list \<Rightarrow> Channel list \<Rightarrow> Channel list" where
  "add_loop names [] = []"
| "add_loop names (pc # ps) = (let n = add_name names pc in pc\<lparr>ch_Name := n\<rparr> # add_loop (n # names) ps)"

definition mergeChannelsByPWM :: "Channel list \<Rightarrow> Channel list \<Rightarrow> Channel list" where
  "mergeChannelsByPWM cfgChans preset =
     (let (out, adds) = merge_loop cfgChans preset in out @ add_loop (map ch_Name out) adds)"

section \<open>The preset store\<close>

record preset_store =
  ps_dir :: string
  ps_cfgPath :: string
  ps_pin :: "(string \<Rightarrow> string) option"
  ps_profile :: string

datatype reload_result = Reloaded | Restart | ReloadFailed goerror

record 'p codec =
  cd_pe :: parse_env
  cd_dec :: "'p decoder"
  cd_MarshalChannels :: "Channel list \<Rightarrow> string"
  cd_Marshal :: "Config \<Rightarrow> string"

record Preset =
  pr_Name :: string
  pr_Channels :: "string list"
  pr_Builtin :: bool
  pr_Description :: string

definition channelNames :: "Channel list \<Rightarrow> string list" where
  "channelNames chans = map ch_Name chans"

definition listed_builtin :: "'p codec \<Rightarrow> BuiltinPreset \<Rightarrow> Preset option" where
  "listed_builtin cd b = (case ParseChannels (cd_pe cd) (cd_dec cd) (bp_Raw b) of
      (chans, ws, Some e) \<Rightarrow> None
    | (chans, ws, None) \<Rightarrow> Some \<lparr>pr_Name = bp_Name b, pr_Channels = channelNames chans, pr_Builtin = True, pr_Description = bp_Description b\<rparr>)"

definition ps_List :: "'p codec \<Rightarrow> BuiltinPreset list \<Rightarrow> preset_store \<Rightarrow> disk \<Rightarrow> Preset list \<times> disk" where
  "ps_List cd bs s d =
     (let (found, d1) = LoadPresets (cd_pe cd) (cd_dec cd) (ps_dir s) d;
          (ns, d2) = PresetNames (ps_dir s) d1
      in (List.map_filter (listed_builtin cd) (BuiltinPresets bs (ps_profile s)) @
          List.map_filter (\<lambda>n. case map_of found n of
              None \<Rightarrow> None
            | Some chans \<Rightarrow> if IsBuiltinPreset bs n then None
                else Some \<lparr>pr_Name = n, pr_Channels = channelNames chans, pr_Builtin = False, pr_Description = []\<rparr>) ns, d2))"

definition ps_load :: "'p codec \<Rightarrow> BuiltinPreset list \<Rightarrow> preset_store \<Rightarrow> string \<Rightarrow> disk \<Rightarrow> loaded \<times> disk" where
  "ps_load cd bs s name d = (case BuiltinPresetByName bs name of
      Some p \<Rightarrow> (if bp_Profile p \<noteq> ps_profile s then Inl NotFound else parse_preset (cd_pe cd) (cd_dec cd) (bp_Raw p), d)
    | None \<Rightarrow> LoadPreset (cd_pe cd) (cd_dec cd) (ps_dir s) name d)"

definition ps_write :: "'p codec \<Rightarrow> preset_store \<Rightarrow> string \<Rightarrow> Channel list \<Rightarrow> disk \<Rightarrow> (msg + (string \<times> nat)) \<times> disk" where
  "ps_write cd s name chans d = (case os_ReadFile (ps_cfgPath s) d of (r, d1) \<Rightarrow>
     (case (case r of Inr old \<Rightarrow> Inr old | Inl e \<Rightarrow> if errors_Is e ErrNotExist then Inr [] else Inl e) of
        Inl e \<Rightarrow> (Inl (Msg ''current config: %w'' [AE e]), d1)
      | Inr old \<Rightarrow> (case Parse_config (cd_pe cd) (cd_dec cd) old of
          (cf, ws, Some e) \<Rightarrow> (Inl (Msg ''current config: %w'' [AM e]), d1)
        | (cf, ws, None) \<Rightarrow>
            (let cf1 = cf\<lparr>c_Channels := mergeChannelsByPWM (c_Channels cf) chans\<rparr>;
                 raw = ReplaceChannels old (cd_MarshalChannels cd (c_Channels cf1));
                 raw1 = (case Parse_config (cd_pe cd) (cd_dec cd) raw of
                     (bk, ws, None) \<Rightarrow> if length (c_Channels bk) \<noteq> length (c_Channels cf1) then cd_Marshal cd cf1 else raw
                   | (bk, ws, Some e) \<Rightarrow> cd_Marshal cd cf1);
                 raw2 = (case ps_pin s of None \<Rightarrow> raw1 | Some pin \<Rightarrow> pin raw1)
             in case Save (cd_pe cd) (cd_dec cd) (ps_cfgPath s) raw2 d1 of
                  (Some e, d2) \<Rightarrow> (Inl (Msg ''%w'' [AE e]), d2)
                | (None, d2) \<Rightarrow> (Inr (raw2, length (c_Channels cf1)), d2)))))"

definition ps_Apply ::
  "'p codec \<Rightarrow> BuiltinPreset list \<Rightarrow> (string \<Rightarrow> 's \<Rightarrow> reload_result \<times> 's) \<Rightarrow> preset_store \<Rightarrow> string \<Rightarrow> disk \<Rightarrow> 's \<Rightarrow> preset_error option \<times> disk \<times> 's" where
  "ps_Apply cd bs reload s name d w = (case ps_load cd bs s name d of
      (Inl NotFound, d1) \<Rightarrow> (Some NotFound, d1, w)
    | (Inl e, d1) \<Rightarrow> (Some (Invalid (case e of Other m \<Rightarrow> m | _ \<Rightarrow> Msg ''preset'' [])), d1, w)
    | (Inr (chans, ws), d1) \<Rightarrow>
        if chans = [] then (Some (Invalid (Msg ''preset %q contains no usable [[channel]] table'' [AS name])), d1, w)
        else (case ps_write cd s name chans d1 of
            (Inl m, d2) \<Rightarrow> (Some (WriteFailed m), d2, w)
          | (Inr (raw, n), d2) \<Rightarrow> (case reload raw w of
              (Reloaded, w1) \<Rightarrow> (None, d2, w1)
            | (Restart, w1) \<Rightarrow> (Some RestartRequired, d2, w1)
            | (ReloadFailed e, w1) \<Rightarrow> (Some (ReloadError e), d2, w1))))"

definition ps_SaveChannels :: "'p codec \<Rightarrow> BuiltinPreset list \<Rightarrow> preset_store \<Rightarrow> string \<Rightarrow> Channel list \<Rightarrow> disk \<Rightarrow> preset_error option \<times> disk" where
  "ps_SaveChannels cd bs s name chans d =
     (if IsBuiltinPreset bs name then (Some Builtin, d)
      else if chans = [] then (Some (Other (Msg ''no channels to save'' [])), d)
      else SavePreset (cd_MarshalChannels cd) (ps_dir s) name chans d)"

definition ps_Save :: "'p codec \<Rightarrow> BuiltinPreset list \<Rightarrow> preset_store \<Rightarrow> string \<Rightarrow> disk \<Rightarrow> preset_error option \<times> disk" where
  "ps_Save cd bs s name d =
     (if IsBuiltinPreset bs name then (Some Builtin, d)
      else (case Load (cd_pe cd) (cd_dec cd) (ps_cfgPath s) d of
          ((cf, ws, Some e), d1) \<Rightarrow> (Some (Other (Msg ''current config: %w'' [AM e])), d1)
        | ((cf, ws, None), d1) \<Rightarrow>
            if c_Channels cf = [] then (Some (Other (Msg ''current config has no channels to save'' [])), d1)
            else SavePreset (cd_MarshalChannels cd) (ps_dir s) name (c_Channels cf) d1))"

definition ps_Delete :: "BuiltinPreset list \<Rightarrow> preset_store \<Rightarrow> string \<Rightarrow> disk \<Rightarrow> preset_error option \<times> disk" where
  "ps_Delete bs s name d =
     (if IsBuiltinPreset bs name then (Some Builtin, d) else DeletePreset (ps_dir s) name d)"

definition ps_Rename :: "BuiltinPreset list \<Rightarrow> preset_store \<Rightarrow> string \<Rightarrow> string \<Rightarrow> disk \<Rightarrow> preset_error option \<times> disk" where
  "ps_Rename bs s oldName newName d =
     (if \<not> ValidPresetName oldName \<or> \<not> ValidPresetName newName then (Some (Other (Msg ''preset: invalid name'' [])), d)
      else if IsBuiltinPreset bs oldName \<or> IsBuiltinPreset bs newName then (Some Builtin, d)
      else let src = presetPath (ps_dir s) oldName; dst = presetPath (ps_dir s) newName
           in (case os_Stat src d of
                 (Inl e, d1) \<Rightarrow> (Some (os_error e), d1)
               | (Inr i, d1) \<Rightarrow> (case os_Stat dst d1 of
                   (Inr j, d2) \<Rightarrow> (Some Exists, d2)
                 | (Inl e, d2) \<Rightarrow> (let (e3, d3) = os_Rename src dst d2 in (map_option os_error e3, d3)))))"

section \<open>What merging does\<close>

definition named :: "Channel list \<Rightarrow> Channel \<Rightarrow> Channel" where
  "named ps c = (case find (\<lambda>pc. ch_PWM pc = ch_PWM c) ps of None \<Rightarrow> c | Some pc \<Rightarrow> adopt c pc)"

lemma adopt_fields:
  "ch_Name (adopt c pc) = ch_Name c" "ch_PWM (adopt c pc) = ch_PWM pc" "ch_Sensor (adopt c pc) = ch_Sensor pc" "ch_Curve (adopt c pc) = ch_Curve pc"
  "ch_Critical (adopt c pc) = ch_Critical pc" "ch_Stop (adopt c pc) = ch_Stop pc"
  "ch_Hysteresis (adopt c pc) = (if ch_PostSet pc then ch_Hysteresis pc else ch_Hysteresis c)"
  "ch_MinOn (adopt c pc) = (if ch_PostSet pc then ch_MinOn pc else ch_MinOn c)"
  by (simp_all add: adopt_def Let_def)

lemma filter_single: "i < n \<Longrightarrow> filter (\<lambda>j. j = i) [0..<n] = [i]"
  by (induction n) (auto simp: less_Suc_eq)

lemma replace_at_map:
  assumes "distinct (map ch_PWM out)" "c \<in> set out" "ch_PWM c = ch_PWM pc"
  shows "replace_at pc out = map (\<lambda>c. if ch_PWM c = ch_PWM pc then adopt c pc else c) out"
proof -
  obtain i where i: "i < length out" "out ! i = c" using assms(2) by (metis in_set_conv_nth)
  have pi: "ch_PWM (out ! i) = ch_PWM pc" using i(2) assms(3) by simp
  have k: "(ch_PWM (out ! j) = ch_PWM pc) = (j = i)" if "j < length out" for j
    using that i(1) pi nth_eq_iff_index_eq [OF assms(1), of j i] by auto
  have "filter (\<lambda>j. ch_PWM (out ! j) = ch_PWM pc) [0..<length out] = filter (\<lambda>j. j = i) [0..<length out]"
    by (rule filter_cong [OF refl]) (use k in simp)
  also have "\<dots> = [i]" using i(1) by (rule filter_single)
  finally have "replace_at pc out = out[i := adopt c pc]" by (simp add: replace_at_def i(2))
  also have "\<dots> = map (\<lambda>c. if ch_PWM c = ch_PWM pc then adopt c pc else c) out"
  proof (rule nth_equalityI)
    fix j assume "j < length (out[i := adopt c pc])"
    then have j: "j < length out" by simp
    show "out[i := adopt c pc] ! j = map (\<lambda>c. if ch_PWM c = ch_PWM pc then adopt c pc else c) out ! j"
      unfolding nth_map [OF j] k [OF j] using i(2) j by (simp add: nth_list_update)
  qed simp
  finally show ?thesis .
qed

lemma merge_loop_named:
  assumes "distinct (map ch_PWM out)" "distinct (map ch_PWM ps)"
  shows "merge_loop out ps = (map (named ps) out, filter (\<lambda>pc. ch_PWM pc \<notin> ch_PWM ` set out) ps)"
  using assms
proof (induction ps arbitrary: out)
  case (Cons pc ps)
  show ?case
  proof (cases "ch_PWM pc \<in> ch_PWM ` set out")
    case True
    then obtain c where c: "c \<in> set out" "ch_PWM c = ch_PWM pc" by auto
    let ?out = "map (\<lambda>c. if ch_PWM c = ch_PWM pc then adopt c pc else c) out"
    have pw: "map ch_PWM ?out = map ch_PWM out" by (simp add: adopt_fields)
    then have pws: "ch_PWM ` set ?out = ch_PWM ` set out" by (metis list.set_map)
    have "merge_loop out (pc # ps) = merge_loop ?out ps"
      using True replace_at_map [OF Cons.prems(1) c] by (auto simp: list_ex_iff)
    also have "\<dots> = (map (named ps) ?out, filter (\<lambda>pc. ch_PWM pc \<notin> ch_PWM ` set out) ps)"
      using Cons.IH [of ?out, unfolded pw pws] Cons.prems by simp
    also have "map (named ps) ?out = map (named (pc # ps)) out"
    proof -
      have "find (\<lambda>q. ch_PWM q = ch_PWM pc) ps = None" using Cons.prems(2) by (auto simp: find_None_iff image_iff)
      then show ?thesis by (auto simp: named_def adopt_fields)
    qed
    finally show ?thesis using True by simp
  next
    case False
    then have "merge_loop out (pc # ps) = (map (named ps) out, pc # filter (\<lambda>pc. ch_PWM pc \<notin> ch_PWM ` set out) ps)"
      using Cons.IH [of out] Cons.prems by (auto simp: list_ex_iff image_iff)
    moreover have "map (named ps) out = map (named (pc # ps)) out" using False by (auto simp: named_def)
    ultimately show ?thesis using False by simp
  qed
qed (simp add: named_def map_idI)

lemma free_name_free: "free_name pwm names n \<notin> set names"
  by (induction pwm names n rule: free_name.induct) (simp add: free_name.simps)

lemma add_name_free: "add_name names pc \<notin> set names"
  using free_name_free by (simp add: add_name_def Let_def)

lemma add_loop_names: "distinct (map ch_Name (add_loop names ps))" "ch_Name ` set (add_loop names ps) \<inter> set names = {}"
proof -
  have "distinct (map ch_Name (add_loop names ps)) \<and> ch_Name ` set (add_loop names ps) \<inter> set names = {}"
    by (induction ps arbitrary: names) (use add_name_free in \<open>fastforce simp: Let_def\<close>)+
  then show "distinct (map ch_Name (add_loop names ps))" "ch_Name ` set (add_loop names ps) \<inter> set names = {}" by blast+
qed

lemma named_cases:
  "named ps c = c \<and> ch_PWM c \<notin> ch_PWM ` set ps \<or> (\<exists>pc \<in> set ps. ch_PWM pc = ch_PWM c \<and> named ps c = adopt c pc)"
proof (cases "find (\<lambda>pc. ch_PWM pc = ch_PWM c) ps")
  case None
  then have "ch_PWM c \<notin> ch_PWM ` set ps" by (auto simp: find_None_iff)
  then show ?thesis using None by (simp add: named_def)
next
  case (Some pc)
  then have "pc \<in> set ps" "ch_PWM pc = ch_PWM c" by (auto simp: find_Some_iff)
  then show ?thesis using Some by (auto simp: named_def)
qed

lemma named_fields: "ch_Name (named ps c) = ch_Name c" "ch_PWM (named ps c) = ch_PWM c"
  using named_cases [of ps c] adopt_fields(1,2) by metis+

lemma mergeChannelsByPWM_named:
  assumes "distinct (map ch_PWM cfg)" "distinct (map ch_PWM ps)"
  shows "mergeChannelsByPWM cfg ps =
    map (named ps) cfg @ add_loop (map ch_Name cfg) (filter (\<lambda>pc. ch_PWM pc \<notin> ch_PWM ` set cfg) ps)"
proof -
  have "map ch_Name (map (named ps) cfg) = map ch_Name cfg" by (simp add: named_fields)
  then show ?thesis unfolding mergeChannelsByPWM_def merge_loop_named [OF assms] Let_def prod.case by (simp only:)
qed

text \<open>Validity apart from the ceiling, and what a preset sets.\<close>

definition no_ceiling :: "Channel \<Rightarrow> Channel" where
  "no_ceiling c = c\<lparr>ch_Ceiling := 0\<rparr>"

definition settings :: "Channel \<Rightarrow> string \<times> curve \<times> int \<times> string" where
  "settings c = (ch_Sensor c, ch_Curve c, ch_Critical c, ch_Stop c)"

lemma adopt_ok: "channel_ok c \<Longrightarrow> channel_ok pc \<Longrightarrow> channel_ok (no_ceiling (adopt c pc))"
  by (simp add: channel_ok_def no_ceiling_def adopt_fields)

lemma channel_ok_no_ceiling: "channel_ok c \<Longrightarrow> channel_ok (no_ceiling c)"
  by (simp add: channel_ok_def no_ceiling_def)

lemma named_ok:
  assumes "channel_ok c" "list_all channel_ok ps"
  shows "channel_ok (no_ceiling (named ps c))"
  using named_cases [of ps c] assms channel_ok_no_ceiling adopt_ok by (metis list_all_iff)

lemma add_loop_ok:
  "map ch_PWM (add_loop names ps) = map ch_PWM ps" "list_all channel_ok ps \<Longrightarrow> list_all (\<lambda>c. channel_ok (no_ceiling c)) (add_loop names ps)"
  by (induction ps arbitrary: names) (simp_all add: Let_def channel_ok_def no_ceiling_def)


text \<open>The N5 Pro defaults with a preset for the disks and a fan more than the file has.\<close>

definition preset_demo :: "Channel list" where
  "preset_demo = [(N5ProChannels ! 2)\<lparr>ch_Name := ''disks'', ch_Stop := ''160''\<rparr>, (N5ProChannels ! 0)\<lparr>ch_PWM := 4\<rparr>]"

lemma demo_stops: "stop_ok ''auto''" "stop_ok ''140''" "stop_ok ''160''"
proof -
  have "''140'' = Itoa 140" "''160'' = Itoa 160" by code_simp+
  then show "stop_ok ''auto''" "stop_ok ''140''" "stop_ok ''160''" by (auto simp: stop_ok_def config_limits)
qed

lemmas demo_channel_simps = N5ProChannels_def channels_ok_def channel_ok_def curve_ok_def curve_shape_def point_le_def
  config_limits duration_units demo_stops

lemma demo_channels_ok: "channels_ok N5ProChannels" "channels_ok preset_demo"
  by (simp_all add: demo_channel_simps preset_demo_def)


text \<open>
  The exception for the ceilings is needed: a preset that moves a channel to another sensor keeps the configured ceiling,
  which can lie above what that sensor allows; the parser then rejects the value the merge wrote.
\<close>

lemma merge_keeps_high_ceiling:
  "let cfg = [(N5ProChannels ! 0)\<lparr>ch_Ceiling := 90\<rparr>]; preset = [(N5ProChannels ! 2)\<lparr>ch_PWM := 1\<rparr>]
   in channels_ok cfg \<and> channels_ok preset \<and> \<not> channels_ok (mergeChannelsByPWM cfg preset)"
proof -
  define cfg preset where "cfg = [(N5ProChannels ! 0)\<lparr>ch_Ceiling := 90\<rparr>]" and "preset = [(N5ProChannels ! 2)\<lparr>ch_PWM := 1\<rparr>]"
  have "map (\<lambda>c. (ch_Sensor c, ch_Ceiling c)) (mergeChannelsByPWM cfg preset) = [(''drivetemp:max'', 90)]"
    unfolding cfg_def preset_def by code_simp
  then obtain c where "mergeChannelsByPWM cfg preset = [c]" "ch_Sensor c = ''drivetemp:max''" "ch_Ceiling c = 90" by auto
  moreover have "BuiltinCeiling ''drivetemp:max'' None < 90" "BuiltinCeiling ''k10temp'' None \<ge> 90" "MinCeiling \<le> 90" by code_simp+
  ultimately show ?thesis unfolding Let_def cfg_def [symmetric] preset_def [symmetric]
    by (simp add: demo_channel_simps) (simp add: cfg_def preset_def demo_channel_simps)
qed

section \<open>Applying a preset\<close>

lemma os_ReadFile_files:
  assumes "os_ReadFile p d = (r, d')"
  shows "dk_files d' = dk_files d" "dk_past d' = dk_past d"
  using os_query_cases [OF assms [unfolded os_ReadFile_def]] by blast+

lemma ps_load_files:
  assumes "ps_load cd bs s name d = (r, d')"
  shows "dk_files d' = dk_files d"
  using assms os_ReadFile_files(1) [of "presetPath (ps_dir s) name" d]
  by (auto simp: ps_load_def LoadPreset_def split: option.splits if_splits prod.splits sum.splits)

lemma Save_target:
  assumes "list_all (is_dir (dk_files d)) (dir_chain (path_Dir path))" and "Save pe dec path raw d = (e, d')"
  shows "if e = None then \<exists>m. map_of (dk_files d') = (map_of (dk_files d))(path \<mapsto> new_file raw m) else map_of (dk_files d') path = map_of (dk_files d) path"
proof -
  from Save_cases [OF assms] obtain tmp m where t: "temp_of d path tmp"
    and r: "if e = None then map_of (dk_files d') = (map_of (dk_files d))(path \<mapsto> new_file raw m)
      else (map_of (dk_files d'))(tmp := None) = map_of (dk_files d) \<and> (map_of (dk_files d') = map_of (dk_files d) \<or> dk_errors d' \<ge> dk_errors d + 2)"
    by blast
  show ?thesis
  proof (cases "e = None")
    case True
    then show ?thesis using r by auto
  next
    case False
    then have "(map_of (dk_files d'))(tmp := None) = map_of (dk_files d)" using r by simp
    then have "map_of (dk_files d') path = map_of (dk_files d) path" using t fun_upd_other [of path tmp] by (metis temp_of_def)
    then show ?thesis using False by auto
  qed
qed

lemma ps_write_cases:
  assumes dirs: "list_all (is_dir (dk_files d)) (dir_chain (path_Dir (ps_cfgPath s)))" and run: "ps_write cd s name chans d = (r, d')"
  shows "(\<exists>m. r = Inl m \<and> map_of (dk_files d') (ps_cfgPath s) = map_of (dk_files d) (ps_cfgPath s)) \<or>
    (\<exists>raw n m. r = Inr (raw, n) \<and> map_of (dk_files d') = (map_of (dk_files d))(ps_cfgPath s \<mapsto> new_file raw m))"
proof -
  obtain r1 d1 where rf: "os_ReadFile (ps_cfgPath s) d = (r1, d1)" by (metis surj_pair)
  note f1 = os_ReadFile_files(1) [OF rf]
  define old where "old = (case r1 of Inr old \<Rightarrow> Inr old | Inl e \<Rightarrow> if errors_Is e ErrNotExist then Inr [] else Inl e)"
  note def = run [unfolded ps_write_def rf prod.case old_def [symmetric]]
  show ?thesis
  proof (cases old)
    case (Inl e)
    then show ?thesis using def f1 by auto
  next
    case (Inr t)
    obtain cf ws e where pc: "Parse_config (cd_pe cd) (cd_dec cd) t = (cf, ws, e)" by (metis prod_cases3)
    note def1 = def [unfolded Inr sum.case pc prod.case]
    show ?thesis
    proof (cases e)
      case (Some x)
      then show ?thesis using def1 f1 by auto
    next
      case None
      note def2 = def1 [unfolded None option.case Let_def]
      obtain raw e2 d2 k where sv: "Save (cd_pe cd) (cd_dec cd) (ps_cfgPath s) raw d1 = (e2, d2)"
        and res: "(r, d') = (case e2 of Some e \<Rightarrow> (Inl (Msg ''%w'' [AE e]), d2) | None \<Rightarrow> (Inr (raw, k), d2))"
        using def2 [symmetric] by (auto split: prod.splits)
      have "(if e2 = None then \<exists>m. map_of (dk_files d2) = (map_of (dk_files d))(ps_cfgPath s \<mapsto> new_file raw m)
         else map_of (dk_files d2) (ps_cfgPath s) = map_of (dk_files d) (ps_cfgPath s))"
        using Save_target [OF dirs [folded f1] sv] unfolding f1 .
      then show ?thesis using res by (cases e2) auto
    qed
  qed
qed

text \<open>The outcomes of an application that has written the file.\<close>

definition written :: "preset_error option \<Rightarrow> bool" where
  "written e = (case e of None \<Rightarrow> True | Some RestartRequired \<Rightarrow> True | Some (ReloadError x) \<Rightarrow> True | _ \<Rightarrow> False)"

text \<open>
  C34: applying a preset is all or nothing. Whatever the disk does, when \<^verbatim>\<open>Apply\<close> succeeds, asks for a restart
  or reports a failed reload, exactly the configuration file has changed, and the daemon was given the text
  that is now in it; with any other result the configuration file is as it was and the daemon was not told.
\<close>

theorem Apply_all_or_nothing:
  assumes dirs: "list_all (is_dir (dk_files d)) (dir_chain (path_Dir (ps_cfgPath s)))"
    and run: "ps_Apply cd bs reload s name d w = (e, d', w')"
  shows "if written e then \<exists>raw m. map_of (dk_files d') = (map_of (dk_files d))(ps_cfgPath s \<mapsto> new_file raw m) \<and> w' = snd (reload raw w)
    else map_of (dk_files d') (ps_cfgPath s) = map_of (dk_files d) (ps_cfgPath s) \<and> w' = w"
proof -
  obtain r1 d1 where ld: "ps_load cd bs s name d = (r1, d1)" by (metis surj_pair)
  note f1 = ps_load_files [OF ld]
  note def = run [unfolded ps_Apply_def ld prod.case]
  show ?thesis
  proof (cases r1)
    case (Inl x)
    then show ?thesis using def f1 by (cases x) (auto simp: written_def)
  next
    case (Inr cw)
    then obtain chans ws where cw: "r1 = Inr (chans, ws)" by (cases cw) auto
    show ?thesis
    proof (cases "chans = []")
      case True
      then show ?thesis using def f1 cw by (auto simp: written_def)
    next
      case False
      obtain r2 d2 where wr: "ps_write cd s name chans d1 = (r2, d2)" by (metis surj_pair)
      note def1 = def [unfolded cw sum.case prod.case if_not_P [OF False] wr]
      from ps_write_cases [OF dirs [folded f1] wr, unfolded f1] show ?thesis
      proof (elim disjE exE conjE)
        fix m assume "r2 = Inl m" "map_of (dk_files d2) (ps_cfgPath s) = map_of (dk_files d) (ps_cfgPath s)"
        then show ?thesis using def1 by (auto simp: written_def)
      next
        fix raw n m assume r2: "r2 = Inr (raw, n)" and f2: "map_of (dk_files d2) = (map_of (dk_files d))(ps_cfgPath s \<mapsto> new_file raw m)"
        obtain rr w1 where rl: "reload raw w = (rr, w1)" by (metis surj_pair)
        have "written e \<and> d' = d2 \<and> w' = w1" using def1 r2 rl by (cases rr) (auto simp: written_def)
        then show ?thesis using f2 rl by auto
      qed
    qed
  qed
qed

definition store_demo :: preset_store where
  "store_demo = \<lparr>ps_dir = ''/etc/presets'', ps_cfgPath = ''/etc/c'', ps_pin = None, ps_profile = ''n5pro''\<rparr>"

theorem Apply_all_or_nothing_witness:
  "let cd = \<lparr>cd_pe = \<lparr>pe_LogRoot = [], pe_url = \<lambda>_. None\<rparr>, cd_dec = (\<lambda>_. Inl ''bare keys'') :: tval decoder, cd_MarshalChannels = (\<lambda>_. []), cd_Marshal = (\<lambda>_. [])\<rparr>;
       (e, d', w') = ps_Apply cd [] (\<lambda>raw w. (Reloaded, raw # w)) store_demo ''quiet'' disk_demo []
   in list_all (is_dir (dk_files disk_demo)) (dir_chain (path_Dir (ps_cfgPath store_demo))) \<and> e = Some NotFound \<and>
      map_of (dk_files d') ''/etc/c'' = Some (new_file ''old'' 0x1A4) \<and> w' = []"
proof -
  define cd where "cd = \<lparr>cd_pe = \<lparr>pe_LogRoot = [], pe_url = \<lambda>_. None\<rparr>, cd_dec = (\<lambda>_. Inl ''bare keys'') :: tval decoder,
      cd_MarshalChannels = (\<lambda>_. []), cd_Marshal = (\<lambda>_. [])\<rparr>"
  have dirs: "list_all (is_dir (dk_files disk_demo)) (dir_chain (path_Dir (ps_cfgPath store_demo)))" by code_simp
  obtain e d' w' where run: "ps_Apply cd [] (\<lambda>raw w. (Reloaded, raw # w)) store_demo ''quiet'' disk_demo [] = (e, d', w')" by (metis prod_cases3)
  have v: "ValidPresetName ''quiet''" by code_simp
  have "map_of (dk_files disk_demo) (presetPath ''/etc/presets'' ''quiet'') = None" by code_simp
  then have "ps_load cd [] store_demo ''quiet'' disk_demo = (Inl NotFound, failed (snd (next_fault disk_demo)))"
    using v by (simp add: ps_load_def BuiltinPresetByName_def LoadPreset_def os_ReadFile_def os_query_def next_fault_def disk_demo_def
        store_demo_def os_error_def not_exist_def errors_Is_def)
  then have e: "e = Some NotFound" using run by (simp add: ps_Apply_def)
  moreover have "map_of (dk_files disk_demo) ''/etc/c'' = Some (new_file ''old'' 0x1A4)" by (simp add: disk_demo_def)
  moreover have "ps_cfgPath store_demo = ''/etc/c''" by (simp add: store_demo_def)
  ultimately show ?thesis using Apply_all_or_nothing [OF dirs run] run dirs unfolding Let_def cd_def [symmetric] by (simp add: written_def)
qed

end
