(* ===== verification/LogFile.thy ===== *)
theory LogFile
  imports FileStore
begin

text \<open>
  Package \<^verbatim>\<open>internal/logfile\<close>: the rotating log file, over the disk of \<open>FileStore\<close>. The open descriptor refers to the
  file of that path, since nothing but the writer renames it. Messages to standard error are left out.
\<close>

section \<open>The writer\<close>

definition DirMode :: FileMode where "DirMode = 0x1E8"
definition FileModeLog :: FileMode where "FileModeLog = 0x1A0"
definition TailLimit :: nat where "TailLimit = 2 ^ 20"

definition StripPrefix :: "string \<Rightarrow> string" where
  "StripPrefix p =
     (if length p \<ge> 3 \<and> p ! 0 = CHR ''<'' \<and> CHR ''0'' \<le> p ! 1 \<and> p ! 1 \<le> CHR ''7'' \<and> p ! 2 = CHR ''>'' then drop 3 p else p)"

record Writer =
  lw_path :: string
  lw_maxSize :: nat
  lw_maxFiles :: nat
  lw_open :: bool
  lw_closed :: bool
  lw_reopenErr :: "goerror option"

definition os_Lstat :: "string \<Rightarrow> disk \<Rightarrow> (goerror + inode) \<times> disk" where
  "os_Lstat = os_Stat"

definition checkTarget :: "string \<Rightarrow> disk \<Rightarrow> goerror option \<times> disk" where
  "checkTarget path d = (case os_Lstat path d of
      (Inl e, d1) \<Rightarrow> (if errors_Is e ErrNotExist then None else Some e, d1)
    | (Inr i, d1) \<Rightarrow> (case in_Kind i of
          Symlink \<Rightarrow> Some (file_error (''logfile: '' @ path @ '' is a symlink, refusing to follow it''))
        | Directory \<Rightarrow> Some (file_error (''logfile: '' @ path @ '' is a directory''))
        | Special \<Rightarrow> Some (file_error (''logfile: '' @ path @ '' is not a regular file''))
        | Regular \<Rightarrow> None, d1))"

definition os_OpenAppend :: "string \<Rightarrow> FileMode \<Rightarrow> disk \<Rightarrow> goerror option \<times> disk" where
  "os_OpenAppend p m = os_change (\<lambda>fs. case map_of fs p of
      Some i \<Rightarrow> if in_Kind i = Regular then Inr fs else Inl (file_error (p @ '': not a regular file''))
    | None \<Rightarrow> if is_dir fs (path_Dir p) then Inr (AList.update p (new_file [] m) fs) else Inl (not_exist p))"

definition lw_reopen :: "Writer \<Rightarrow> disk \<Rightarrow> goerror option \<times> Writer \<times> disk" where
  "lw_reopen w d = (case checkTarget (lw_path w) d of
      (Some e, d1) \<Rightarrow> (Some e, w, d1)
    | (None, d1) \<Rightarrow> (case os_OpenAppend (lw_path w) FileModeLog d1 of
        (Some e, d2) \<Rightarrow> (Some e, w, d2)
      | (None, d2) \<Rightarrow> (None, w\<lparr>lw_open := True\<rparr>, d2)))"

definition NewWriter :: "string \<Rightarrow> int \<Rightarrow> int \<Rightarrow> disk \<Rightarrow> (goerror + Writer) \<times> disk" where
  "NewWriter path maxSizeMB maxFiles d =
     (if path = [] then (Inl (file_error ''logfile: empty path''), d)
      else let mb = (if maxSizeMB < 1 then 1 else maxSizeMB); mf = (if maxFiles < 1 then 1 else maxFiles)
           in (case checkTarget path d of
                 (Some e, d1) \<Rightarrow> (Inl e, d1)
               | (None, d1) \<Rightarrow> (case os_MkdirAll (path_Dir path) DirMode d1 of
                   (Some e, d2) \<Rightarrow> (Inl e, d2)
                 | (None, d2) \<Rightarrow>
                     (case lw_reopen \<lparr>lw_path = path, lw_maxSize = nat mb * 2 ^ 20, lw_maxFiles = nat mf, lw_open = False, lw_closed = False, lw_reopenErr = None\<rparr> d2 of
                        (Some e, w, d3) \<Rightarrow> (Inl e, d3)
                      | (None, w, d3) \<Rightarrow> (Inr w, d3)))))"

definition ensureOpen :: "Writer \<Rightarrow> disk \<Rightarrow> goerror option \<times> Writer \<times> disk" where
  "ensureOpen w d =
     (if lw_closed w then (Some (file_error ''logfile: closed''), w, d)
      else if lw_open w then (None, w, d)
      else (case os_MkdirAll (path_Dir (lw_path w)) DirMode d of
          (Some e, d1) \<Rightarrow> (Some e, w\<lparr>lw_reopenErr := Some e\<rparr>, d1)
        | (None, d1) \<Rightarrow> (case lw_reopen w d1 of
            (Some e, w1, d2) \<Rightarrow> (Some e, w1\<lparr>lw_reopenErr := Some e\<rparr>, d2)
          | (None, w1, d2) \<Rightarrow> (None, w1\<lparr>lw_reopenErr := None\<rparr>, d2))))"

definition log_size :: "Writer \<Rightarrow> disk \<Rightarrow> nat \<times> disk" where
  "log_size w d = (case os_Stat (lw_path w) d of (Inl e, d1) \<Rightarrow> (0, d1) | (Inr i, d1) \<Rightarrow> (length (in_Data i), d1))"

text \<open>The rotated names; number 0 is the current file, whose rename the code writes after the loop.\<close>

definition rot_name :: "string \<Rightarrow> nat \<Rightarrow> string" where
  "rot_name path i = (if i = 0 then path else path @ ''.'' @ Itoa (int i))"

fun shift_loop :: "string \<Rightarrow> nat \<Rightarrow> disk \<Rightarrow> goerror option \<times> disk" where
  "shift_loop path i d =
     (case os_Rename (rot_name path i) (rot_name path (Suc i)) d of (e, d1) \<Rightarrow>
        if (case e of None \<Rightarrow> False | Some x \<Rightarrow> \<not> errors_Is x ErrNotExist) then (e, d1)
        else (case i of 0 \<Rightarrow> (None, d1) | Suc j \<Rightarrow> shift_loop path j d1))"

definition rotateLocked :: "Writer \<Rightarrow> disk \<Rightarrow> goerror option \<times> Writer \<times> disk" where
  "rotateLocked w d =
     (let d1 = snd (file_Close d); w1 = w\<lparr>lw_open := False\<rparr>;
          d2 = snd (os_Remove (rot_name (lw_path w) (lw_maxFiles w)) d1)
      in (case shift_loop (lw_path w) (lw_maxFiles w - 1) d2 of
            (Some e, d3) \<Rightarrow> (case lw_reopen w1 d3 of (e', w2, d4) \<Rightarrow> (Some e, w2, d4))
          | (None, d3) \<Rightarrow> lw_reopen w1 d3))"

definition lw_Write :: "string \<Rightarrow> Writer \<Rightarrow> disk \<Rightarrow> goerror option \<times> Writer \<times> disk" where
  "lw_Write p w d = (case ensureOpen w d of
      (Some e, w1, d1) \<Rightarrow> (Some e, w1, d1)
    | (None, w1, d1) \<Rightarrow> (case log_size w1 d1 of (sz, d2) \<Rightarrow>
        (case (if sz > 0 \<and> sz + length p > lw_maxSize w1
               then (case rotateLocked w1 d2 of
                   (None, w2, d3) \<Rightarrow> (None, w2, d3)
                 | (Some e, w2, d3) \<Rightarrow> if lw_open w2 then (None, w2, d3) else ensureOpen w2 d3)
               else (None, w1, d2)) of
           (Some e, w3, d3) \<Rightarrow> (Some e, w3, d3)
         | (None, w3, d3) \<Rightarrow> (let (e, d4) = file_Write (lw_path w3) p d3 in (e, w3, d4)))))"

definition lw_Close :: "Writer \<Rightarrow> disk \<Rightarrow> goerror option \<times> Writer \<times> disk" where
  "lw_Close w d = (let w1 = w\<lparr>lw_closed := True\<rparr>
     in if \<not> lw_open w then (None, w1, d) else let (e, d1) = file_Close d in (e, w1\<lparr>lw_open := False\<rparr>, d1))"

definition lw_Clear :: "Writer \<Rightarrow> disk \<Rightarrow> goerror option \<times> Writer \<times> disk" where
  "lw_Clear w d = (case ensureOpen w d of
      (Some e, w1, d1) \<Rightarrow> (Some e, w1, d1)
    | (None, w1, d1) \<Rightarrow>
        (let (e, d2) = os_change (\<lambda>fs. case map_of fs (lw_path w1) of None \<Rightarrow> Inr fs | Some i \<Rightarrow> Inr (AList.update (lw_path w1) (i\<lparr>in_Data := []\<rparr>) fs)) d1
         in (e, w1, d2)))"

section \<open>Reading\<close>

definition openSized :: "string \<Rightarrow> disk \<Rightarrow> (goerror + string option) \<times> disk" where
  "openSized path d = (case os_ReadFile path d of
      (Inl e, d1) \<Rightarrow> (if errors_Is e ErrNotExist then Inr None else Inl e, d1)
    | (Inr s, d1) \<Rightarrow> (Inr (Some s), d1))"

definition TrimRight_char :: "char \<Rightarrow> string \<Rightarrow> string" where
  "TrimRight_char c s = rev (dropWhile (\<lambda>x. x = c) (rev s))"

definition tailFrom :: "string \<Rightarrow> int \<Rightarrow> string list" where
  "tailFrom s n =
     (let cut = length s > TailLimit;
          buf = drop (length s - TailLimit) s;
          buf1 = (if \<not> cut then buf else case dropWhile (\<lambda>c. c \<noteq> NL) buf of [] \<Rightarrow> [] | _ # r \<Rightarrow> r);
          buf2 = TrimRight_char NL buf1
      in if buf2 = [] then []
         else let parts = Split buf2 NL
              in map (TrimRight_char (CHR 0x0D)) (if int (length parts) > n then drop (length parts - nat n) parts else parts))"

definition tail_of :: "string \<Rightarrow> int \<Rightarrow> disk \<Rightarrow> (goerror + string list) \<times> disk" where
  "tail_of path n d =
     (if n \<le> 0 then (Inr [], d)
      else (case openSized path d of
          (Inl e, d1) \<Rightarrow> (Inl e, d1)
        | (Inr None, d1) \<Rightarrow> (Inr [], d1)
        | (Inr (Some s), d1) \<Rightarrow> (Inr (tailFrom s n), d1)))"

definition Lines :: "Writer \<Rightarrow> int \<Rightarrow> disk \<Rightarrow> (goerror + string list) \<times> disk" where
  "Lines w = tail_of (lw_path w)"

definition Export :: "Writer \<Rightarrow> disk \<Rightarrow> (goerror + string) \<times> disk" where
  "Export w d = (case openSized (lw_path w) d of
      (Inl e, d1) \<Rightarrow> (Inl e, d1)
    | (Inr None, d1) \<Rightarrow> (Inr [], d1)
    | (Inr (Some s), d1) \<Rightarrow> (Inr s, d1))"

definition stamp_Write :: "string \<Rightarrow> string \<Rightarrow> Writer \<Rightarrow> disk \<Rightarrow> goerror option \<times> Writer \<times> disk" where
  "stamp_Write stamp p = lw_Write (stamp @ StripPrefix p)"

section \<open>Calls that succeed\<close>

abbreviation healthy :: "disk \<Rightarrow> bool" where
  "healthy d \<equiv> dk_faults d = []"

lemma healthy_change:
  assumes "healthy d"
  shows "os_change op d = (case op (dk_files d) of Inl e \<Rightarrow> (Some e, failed d) | Inr fs \<Rightarrow> (None, set_files fs d))"
  using assms by (simp add: os_change_def next_fault_def split: sum.splits)

lemma healthy_query:
  assumes "healthy d"
  shows "os_query op d = (case op (dk_files d) of Inl e \<Rightarrow> (Inl e, failed d) | Inr x \<Rightarrow> (Inr x, d))"
  using assms by (simp add: os_query_def next_fault_def split: sum.splits)

lemma healthy_kept [simp]: "healthy (failed d) = healthy d" "healthy (set_files fs d) = healthy d"
  by (simp_all add: failed_def set_files_def)

lemma healthy_Close: "healthy d \<Longrightarrow> healthy (snd (file_Close d)) \<and> dk_files (snd (file_Close d)) = dk_files d"
  by (simp add: file_Close_def healthy_change)

lemma rot_name_inj: "rot_name path i = rot_name path j \<Longrightarrow> i = j"
proof -
  assume e: "rot_name path i = rot_name path j"
  have "i = j" if "Itoa (int i) = Itoa (int j)"
  proof -
    have "digits_val (itoa_nonneg (int i)) = int i" "digits_val (itoa_nonneg (int j)) = int j" using itoa_nonneg_ok by simp_all
    moreover have "itoa_nonneg (int i) = itoa_nonneg (int j)" using that by (simp add: Itoa_def del: itoa_nonneg.simps)
    ultimately show "i = j" by (metis of_nat_eq_iff)
  qed
  then show "i = j" using e by (auto simp: rot_name_def split: if_splits)
qed

lemma rot_name_inj_iff [simp]: "rot_name path i = rot_name path j \<longleftrightarrow> i = j"
  using rot_name_inj by blast

lemma rot_name_plain: "path \<noteq> [] \<Longrightarrow> rot_name path (Suc i) \<noteq> ''/'' \<and> rot_name path (Suc i) \<noteq> ''.''"
proof -
  assume "path \<noteq> []"
  then have "length (rot_name path (Suc i)) > 1" by (cases path) (simp_all add: rot_name_def)
  then show "rot_name path (Suc i) \<noteq> ''/'' \<and> rot_name path (Suc i) \<noteq> ''.''" by auto
qed

lemma rename_vacant:
  assumes h: "healthy d" and p: "path \<noteq> []" and v: "map_of (dk_files d) (rot_name path (Suc i)) = None"
  obtains e d' where "os_Rename (rot_name path i) (rot_name path (Suc i)) d = (e, d')" "healthy d'"
    "case e of None \<Rightarrow> True | Some x \<Rightarrow> errors_Is x ErrNotExist"
    "map_of (dk_files d') = (map_of (dk_files d))(rot_name path i := None, rot_name path (Suc i) := map_of (dk_files d) (rot_name path i))"
proof -
  let ?s = "rot_name path i" and ?t = "rot_name path (Suc i)"
  have nd: "\<not> is_dir (dk_files d) ?t" using v rot_name_plain [OF p] by (simp add: is_dir_def)
  show ?thesis
  proof (cases "map_of (dk_files d) ?s")
    case None
    show ?thesis
      by (rule that [of "Some (not_exist ?s)" "failed d"])
        (use h None v in \<open>auto simp: os_Rename_def healthy_change not_exist_def errors_Is_def\<close>)
  next
    case (Some x)
    show ?thesis
      by (rule that [of None "set_files (AList.update ?t x (AList.delete ?s (dk_files d))) d"])
        (use h Some nd in \<open>auto simp: os_Rename_def healthy_change update_conv' delete_conv'\<close>)
  qed
qed

lemma shift_loop_moves:
  assumes "healthy d" "path \<noteq> []" "map_of (dk_files d) (rot_name path (Suc k)) = None"
  shows "\<exists>d'. shift_loop path k d = (None, d') \<and> healthy d' \<and> map_of (dk_files d') path = None \<and>
    (\<forall>j \<le> k. map_of (dk_files d') (rot_name path (Suc j)) = map_of (dk_files d) (rot_name path j)) \<and>
    (\<forall>p. (\<forall>j \<le> Suc k. p \<noteq> rot_name path j) \<longrightarrow> map_of (dk_files d') p = map_of (dk_files d) p)"
  using assms
proof (induction k arbitrary: d)
  case 0
  from rename_vacant [OF 0] obtain e d' where r: "os_Rename (rot_name path 0) (rot_name path (Suc 0)) d = (e, d')" "healthy d'"
    "case e of None \<Rightarrow> True | Some x \<Rightarrow> errors_Is x ErrNotExist"
    "map_of (dk_files d') = (map_of (dk_files d))(rot_name path 0 := None, rot_name path (Suc 0) := map_of (dk_files d) (rot_name path 0))" .
  have z: "rot_name path 0 = path" by (simp add: rot_name_def)
  have "shift_loop path 0 d = (None, d')" using r(1,3) by (cases e) simp_all
  moreover have "map_of (dk_files d') path = None" using r(4) rot_name_inj_iff [of path 0 "Suc 0"] by (simp add: z)
  ultimately show ?case using r(2,4) by (intro exI [of _ d']) auto
next
  case (Suc k)
  from rename_vacant [OF Suc.prems] obtain e d1 where r: "os_Rename (rot_name path (Suc k)) (rot_name path (Suc (Suc k))) d = (e, d1)" "healthy d1"
    "case e of None \<Rightarrow> True | Some x \<Rightarrow> errors_Is x ErrNotExist"
    "map_of (dk_files d1) = (map_of (dk_files d))(rot_name path (Suc k) := None, rot_name path (Suc (Suc k)) := map_of (dk_files d) (rot_name path (Suc k)))" .
  have sh: "shift_loop path (Suc k) d = shift_loop path k d1" using r(1,3) by (cases e) simp_all
  have "map_of (dk_files d1) (rot_name path (Suc k)) = None" using r(4) by simp
  from Suc.IH [OF r(2) Suc.prems(2) this] obtain d' where d': "shift_loop path k d1 = (None, d')" "healthy d'" "map_of (dk_files d') path = None"
    "\<forall>j \<le> k. map_of (dk_files d') (rot_name path (Suc j)) = map_of (dk_files d1) (rot_name path j)"
    "\<forall>p. (\<forall>j \<le> Suc k. p \<noteq> rot_name path j) \<longrightarrow> map_of (dk_files d') p = map_of (dk_files d1) p" by blast
  have "map_of (dk_files d') (rot_name path (Suc j)) = map_of (dk_files d) (rot_name path j)" if "j \<le> Suc k" for j
  proof (cases "j = Suc k")
    case True
    have "map_of (dk_files d') (rot_name path (Suc (Suc k))) = map_of (dk_files d1) (rot_name path (Suc (Suc k)))" using d'(5) by simp
    then show ?thesis using True r(4) by simp
  next
    case False
    then have "j \<le> k" using that by simp
    then show ?thesis using d'(4) r(4) by simp
  qed
  moreover have "map_of (dk_files d') p = map_of (dk_files d) p" if "\<forall>j \<le> Suc (Suc k). p \<noteq> rot_name path j" for p
    using d'(5) r(4) that by simp
  ultimately show ?case using sh d' by (intro exI [of _ d']) simp
qed

declare shift_loop.simps [simp del]

section \<open>The files of a log\<close>

text \<open>
  The texts of the current file and of the rotated ones, newest first; \<open>N\<close> is the number of rotated files kept.
\<close>

definition holds :: "string \<Rightarrow> nat \<Rightarrow> string list \<Rightarrow> disk \<Rightarrow> bool" where
  "holds path N L d \<longleftrightarrow> healthy d \<and> is_dir (dk_files d) (path_Dir path) \<and> L \<noteq> [] \<and> length L \<le> Suc N \<and>
     (\<forall>j \<le> N. if j < length L then \<exists>md. map_of (dk_files d) (rot_name path j) = Some (new_file (L ! j) md) else map_of (dk_files d) (rot_name path j) = None)"

definition log_write :: "nat \<Rightarrow> nat \<Rightarrow> string \<Rightarrow> string list \<Rightarrow> string list" where
  "log_write mx N p L = (if hd L \<noteq> [] \<and> length (hd L) + length p > mx then take (Suc N) (p # L) else (hd L @ p) # tl L)"

lemma holds_slot:
  assumes "holds path N L d" "j \<le> N"
  shows "j < length L \<Longrightarrow> \<exists>md. map_of (dk_files d) (rot_name path j) = Some (new_file (L ! j) md)"
    "\<not> j < length L \<Longrightarrow> map_of (dk_files d) (rot_name path j) = None"
  using assms unfolding holds_def by meson+

lemma holds_current:
  assumes "holds path N L d"
  shows "\<exists>md. map_of (dk_files d) path = Some (new_file (hd L) md)"
proof -
  have "L \<noteq> []" using assms by (simp add: holds_def)
  then show ?thesis using holds_slot(1) [OF assms, of 0] by (simp add: rot_name_def hd_conv_nth)
qed

lemma is_dir_cong:
  assumes "is_dir fs p" "\<And>i. map_of fs p = Some i \<Longrightarrow> in_Kind i = Directory \<Longrightarrow> map_of fs' p = map_of fs p"
  shows "is_dir fs' p"
  using assms by (auto simp: is_dir_def split: option.splits)

text \<open>The directory is none of the log files.\<close>

lemma dir_not_log:
  assumes "holds path N L d" "map_of (dk_files d) (path_Dir path) = Some i" "in_Kind i = Directory" "j \<le> N"
  shows "path_Dir path \<noteq> rot_name path j"
proof
  assume e: "path_Dir path = rot_name path j"
  show False using holds_slot [OF assms(1,4)] assms(2,3) e by (cases "j < length L") (auto simp: new_file_def)
qed

lemma reopen_fresh:
  assumes "healthy d" "map_of (dk_files d) (lw_path w) = None" "is_dir (dk_files d) (path_Dir (lw_path w))"
  shows "\<exists>d'. lw_reopen w d = (None, w\<lparr>lw_open := True\<rparr>, d') \<and> healthy d' \<and>
    map_of (dk_files d') = (map_of (dk_files d))(lw_path w \<mapsto> new_file [] FileModeLog)"
proof -
  have "checkTarget (lw_path w) d = (None, failed d)"
    using assms(1,2) by (simp add: checkTarget_def os_Lstat_def os_Stat_def healthy_query not_exist_def errors_Is_def)
  moreover have "os_OpenAppend (lw_path w) FileModeLog (failed d) =
      (None, set_files (AList.update (lw_path w) (new_file [] FileModeLog) (dk_files d)) (failed d))"
    using assms by (simp add: os_OpenAppend_def healthy_change)
  ultimately show ?thesis using assms(1) by (simp add: lw_reopen_def update_conv')
qed

lemma rotateLocked_holds:
  assumes h: "holds (lw_path w) (lw_maxFiles w) L d" and p: "lw_path w \<noteq> []" and N: "lw_maxFiles w \<ge> 1"
  shows "\<exists>d'. rotateLocked w d = (None, w\<lparr>lw_open := True\<rparr>, d') \<and> holds (lw_path w) (lw_maxFiles w) (take (Suc (lw_maxFiles w)) ([] # L)) d'"
proof -
  let ?path = "lw_path w" and ?N = "lw_maxFiles w"
  let ?nm = "rot_name ?path"
  define d1 where "d1 = snd (file_Close d)"
  have hd: "healthy d" and dir: "is_dir (dk_files d) (path_Dir ?path)" using h by (simp_all add: holds_def)
  have d1: "healthy d1" "dk_files d1 = dk_files d" using healthy_Close [OF hd] by (simp_all add: d1_def)
  define d2 where "d2 = snd (os_Remove (?nm ?N) d1)"
  have d2: "healthy d2" "map_of (dk_files d2) = (map_of (dk_files d))(?nm ?N := None)"
    using d1 by (auto simp: d2_def os_Remove_def healthy_change delete_conv' split: option.splits)
  have "map_of (dk_files d2) (?nm (Suc (?N - 1))) = None" using d2(2) N by simp
  from shift_loop_moves [OF d2(1) p this] N obtain d3 where d3: "shift_loop ?path (?N - 1) d2 = (None, d3)" "healthy d3" "map_of (dk_files d3) ?path = None"
    "\<forall>j \<le> ?N - 1. map_of (dk_files d3) (?nm (Suc j)) = map_of (dk_files d2) (?nm j)"
    "\<forall>q. (\<forall>j \<le> ?N. q \<noteq> ?nm j) \<longrightarrow> map_of (dk_files d3) q = map_of (dk_files d2) q" by auto
  have dir3: "is_dir (dk_files d3) (path_Dir ?path)"
  proof (rule is_dir_cong [OF dir])
    fix i assume "map_of (dk_files d) (path_Dir ?path) = Some i" "in_Kind i = Directory"
    from dir_not_log [OF h this] have "\<forall>j \<le> ?N. path_Dir ?path \<noteq> ?nm j" by blast
    then show "map_of (dk_files d3) (path_Dir ?path) = map_of (dk_files d) (path_Dir ?path)" using d3(5) d2(2) by simp
  qed
  from reopen_fresh [of d3 "w\<lparr>lw_open := False\<rparr>"] d3(2,3) dir3 obtain d4 where
    d4: "lw_reopen (w\<lparr>lw_open := False\<rparr>) d3 = (None, w\<lparr>lw_open := True\<rparr>, d4)" "healthy d4"
      "map_of (dk_files d4) = (map_of (dk_files d3))(?path \<mapsto> new_file [] FileModeLog)" by auto
  have rot: "rotateLocked w d = (None, w\<lparr>lw_open := True\<rparr>, d4)" using d3(1) d4(1) by (simp add: rotateLocked_def Let_def d1_def [symmetric] d2_def [symmetric])
  have dir4: "is_dir (dk_files d4) (path_Dir ?path)" by (rule is_dir_cong [OF dir3]) (use d4(3) d3(3) in auto)
  define L' where "L' = take (Suc ?N) ([] # L)"
  have "if j < length L' then \<exists>md. map_of (dk_files d4) (?nm j) = Some (new_file (L' ! j) md) else map_of (dk_files d4) (?nm j) = None" if j: "j \<le> ?N" for j
  proof (cases j)
    case 0
    then show ?thesis using d4(3) by (auto simp: rot_name_def L'_def)
  next
    case (Suc i)
    then have i: "i \<le> ?N - 1" "i < ?N" using j by simp_all
    have "?nm j \<noteq> ?path" using rot_name_inj_iff [of ?path j 0] Suc by (simp add: rot_name_def [of _ 0])
    then have "map_of (dk_files d4) (?nm j) = map_of (dk_files d) (?nm i)" using d4(3) d3(4) i d2(2) Suc by simp
    then show ?thesis using holds_slot [OF h, of i] i Suc by (simp add: L'_def)
  qed
  moreover have "L' \<noteq> []" "length L' \<le> Suc ?N" by (simp_all add: L'_def)
  ultimately have "holds ?path ?N L' d4" unfolding holds_def using d4(2) dir4 by blast
  then show ?thesis using rot unfolding L'_def by blast
qed

lemma holds_append:
  assumes h: "holds path N L d"
  shows "\<exists>d'. file_Write path p d = (None, d') \<and> holds path N ((hd L @ p) # tl L) d'"
proof -
  have hd: "healthy d" and dir: "is_dir (dk_files d) (path_Dir path)" and L: "L \<noteq> []" "length L \<le> Suc N" using h by (simp_all add: holds_def)
  obtain md where c: "map_of (dk_files d) path = Some (new_file (hd L) md)" using holds_current [OF h] by blast
  define d' where "d' = set_files (append_data path p (dk_files d)) d"
  have w: "file_Write path p d = (None, d')" using hd by (simp add: file_Write_def next_fault_def d'_def)
  have m: "map_of (dk_files d') = (map_of (dk_files d))(path \<mapsto> new_file (hd L @ p) md)"
    using c by (simp add: d'_def append_data_def update_conv' new_file_def)
  have "if j < length ((hd L @ p) # tl L) then \<exists>md. map_of (dk_files d') (rot_name path j) = Some (new_file (((hd L @ p) # tl L) ! j) md)
      else map_of (dk_files d') (rot_name path j) = None" if j: "j \<le> N" for j
  proof (cases j)
    case 0
    then show ?thesis using m by (auto simp: rot_name_def)
  next
    case (Suc i)
    have "rot_name path j \<noteq> path" using rot_name_inj_iff [of path j 0] Suc by (simp add: rot_name_def [of _ 0])
    moreover have "((hd L @ p) # tl L) ! j = L ! j" if "j < length L" using that Suc by (simp add: nth_tl)
    ultimately show ?thesis using m holds_slot [OF h j] L(1) by auto
  qed
  moreover have "is_dir (dk_files d') (path_Dir path)" by (rule is_dir_cong [OF dir]) (use m c in \<open>auto simp: new_file_def\<close>)
  moreover have "healthy d'" using hd by (simp add: d'_def)
  ultimately have "holds path N ((hd L @ p) # tl L) d'" unfolding holds_def using L by (intro conjI allI impI) simp_all
  then show ?thesis using w by blast
qed

lemma Write_refines:
  assumes h: "holds (lw_path w) (lw_maxFiles w) L d" and w: "lw_path w \<noteq> []" "lw_maxFiles w \<ge> 1" "lw_open w" "\<not> lw_closed w"
  shows "\<exists>d'. lw_Write p w d = (None, w, d') \<and> holds (lw_path w) (lw_maxFiles w) (log_write (lw_maxSize w) (lw_maxFiles w) p L) d'"
proof -
  have hd: "healthy d" and L: "L \<noteq> []" using h by (simp_all add: holds_def)
  obtain md where c: "map_of (dk_files d) (lw_path w) = Some (new_file (hd L) md)" using holds_current [OF h] by blast
  have sz: "log_size w d = (length (hd L), d)" using c hd by (simp add: log_size_def os_Stat_def healthy_query new_file_def)
  have eo: "ensureOpen w d = (None, w, d)" using w by (simp add: ensureOpen_def)
  have ow: "w\<lparr>lw_open := True\<rparr> = w" using w(3) by simp
  show ?thesis
  proof (cases "hd L \<noteq> [] \<and> length (hd L) + length p > lw_maxSize w")
    case True
    from rotateLocked_holds [OF h w(1,2)] obtain d1 where r: "rotateLocked w d = (None, w, d1)"
      "holds (lw_path w) (lw_maxFiles w) (take (Suc (lw_maxFiles w)) ([] # L)) d1" unfolding ow by blast
    from holds_append [OF r(2), of p] obtain d2 where a: "file_Write (lw_path w) p d1 = (None, d2)"
      "holds (lw_path w) (lw_maxFiles w) (p # take (lw_maxFiles w) L) d2" by auto
    have "lw_Write p w d = (None, w, d2)" using eo sz True r(1) a(1) by (simp add: lw_Write_def)
    then show ?thesis using a(2) True by (simp add: log_write_def)
  next
    case False
    from holds_append [OF h, of p] obtain d2 where a: "file_Write (lw_path w) p d = (None, d2)"
      "holds (lw_path w) (lw_maxFiles w) ((hd L @ p) # tl L) d2" by blast
    have "lw_Write p w d = (None, w, d2)" unfolding lw_Write_def eo option.case prod.case sz using False a(1) by auto
    then show ?thesis using a(2) False by (auto simp: log_write_def)
  qed
qed

section \<open>Nothing but the oldest files is lost\<close>

fun writes :: "string list \<Rightarrow> Writer \<Rightarrow> disk \<Rightarrow> goerror option list \<times> Writer \<times> disk" where
  "writes [] w d = ([], w, d)"
| "writes (p # ps) w d = (let (e, w1, d1) = lw_Write p w d; (es, w2, d2) = writes ps w1 d1 in (e # es, w2, d2))"

lemma concat_take: "concat (rev xs) = concat (rev (drop n xs)) @ concat (rev (take n xs))"
  by (metis append_take_drop_id concat_append rev_append)

lemma log_write_text:
  assumes "L \<noteq> []" "length L \<le> Suc N"
  shows "\<exists>lost. lost @ concat (rev (log_write mx N p L)) = concat (rev L) @ p \<and> (lost = [] \<or> length (log_write mx N p L) = Suc N)"
    "log_write mx N p L \<noteq> []" "length (log_write mx N p L) \<le> Suc N" "length (log_write mx N p L) \<ge> length L"
    "t \<in> set (log_write mx N p L) \<Longrightarrow> length t \<le> mx \<or> t = p \<or> t \<in> set L"
proof -
  let ?M = "log_write mx N p L"
  show "?M \<noteq> []" "length ?M \<le> Suc N" "length ?M \<ge> length L" using assms by (auto simp: log_write_def)
  show "\<exists>lost. lost @ concat (rev ?M) = concat (rev L) @ p \<and> (lost = [] \<or> length ?M = Suc N)"
  proof (cases "hd L \<noteq> [] \<and> length (hd L) + length p > mx")
    case True
    then have "concat (rev (drop (Suc N) (p # L))) @ concat (rev ?M) = concat (rev L) @ p"
      using concat_take [of "p # L" "Suc N"] by (simp add: log_write_def)
    moreover have "drop (Suc N) (p # L) = [] \<or> length ?M = Suc N" using True assms(2) by (auto simp: log_write_def)
    ultimately show ?thesis by (intro exI [of _ "concat (rev (drop (Suc N) (p # L)))"]) auto
  next
    case False
    then have "?M = (hd L @ p) # tl L" by (auto simp: log_write_def)
    moreover have "concat (rev (tl L)) @ hd L = concat (rev L)" using assms(1) by (cases L) simp_all
    ultimately show ?thesis by (intro exI [of _ "[]"]) (metis append_assoc append_Nil concat.simps concat_append append_Nil2 rev.simps(2))
  qed
  assume t: "t \<in> set ?M"
  show "length t \<le> mx \<or> t = p \<or> t \<in> set L"
  proof (cases "hd L \<noteq> [] \<and> length (hd L) + length p > mx")
    case True
    then show ?thesis using t by (auto simp: log_write_def dest: in_set_takeD)
  next
    case False
    then have "t = hd L @ p \<or> t \<in> set (tl L)" using t by (auto simp: log_write_def)
    then show ?thesis using False assms(1) by (cases L) auto
  qed
qed

lemma writes_keep:
  assumes "holds (lw_path w) (lw_maxFiles w) L d" "lw_path w \<noteq> []" "lw_maxFiles w \<ge> 1" "lw_open w" "\<not> lw_closed w"
  shows "\<exists>L' d' lost. writes ws w d = (replicate (length ws) None, w, d') \<and> holds (lw_path w) (lw_maxFiles w) L' d' \<and>
    lost @ concat (rev L') = concat (rev L) @ concat ws \<and> (lost = [] \<or> length L' = Suc (lw_maxFiles w)) \<and>
    list_all (\<lambda>t. length t \<le> lw_maxSize w \<or> t \<in> set ws \<or> t \<in> set L) L' \<and> length L \<le> length L'"
  using assms(1)
proof (induction ws arbitrary: L d)
  case Nil
  then show ?case by (intro exI [of _ L] exI [of _ d] exI [of _ "[]"]) (simp add: list_all_iff)
next
  case (Cons p ws)
  let ?mx = "lw_maxSize w" and ?N = "lw_maxFiles w"
  have L: "L \<noteq> []" "length L \<le> Suc ?N" using Cons.prems by (simp_all add: holds_def)
  define M where "M = log_write ?mx ?N p L"
  from Write_refines [OF Cons.prems assms(2-5), of p] obtain d1 where d1: "lw_Write p w d = (None, w, d1)" "holds (lw_path w) ?N M d1"
    unfolding M_def by blast
  from Cons.IH [OF d1(2)] obtain L' d' lost where r: "writes ws w d1 = (replicate (length ws) None, w, d')" "holds (lw_path w) ?N L' d'"
    "lost @ concat (rev L') = concat (rev M) @ concat ws" "lost = [] \<or> length L' = Suc ?N"
    "list_all (\<lambda>t. length t \<le> ?mx \<or> t \<in> set ws \<or> t \<in> set M) L'" "length M \<le> length L'" by blast
  from log_write_text(1) [OF L, of ?mx p, folded M_def] obtain l where l: "l @ concat (rev M) = concat (rev L) @ p" "l = [] \<or> length M = Suc ?N" by blast
  have e: "(l @ lost) @ concat (rev L') = concat (rev L) @ concat (p # ws)" using l(1) r(3) by (metis append.assoc concat.simps(2))
  have "length L' \<le> Suc ?N" using r(2) by (simp add: holds_def)
  then have "l @ lost = [] \<or> length L' = Suc ?N" using l(2) r(4,6) by auto
  moreover have "list_all (\<lambda>t. length t \<le> ?mx \<or> t \<in> set (p # ws) \<or> t \<in> set L) L'"
    using r(5) log_write_text(5) [OF L, of _ ?mx p, folded M_def] by (auto simp: list_all_iff)
  ultimately show ?case using d1(1) r(1,2,6) e log_write_text(4) [OF L, of ?mx p, folded M_def] by (intro exI [of _ L'] exI [of _ d'] exI [of _ "l @ lost"]) simp
qed


definition log_demo :: Writer where
  "log_demo = \<lparr>lw_path = ''/log'', lw_maxSize = 8, lw_maxFiles = 2, lw_open = True, lw_closed = False, lw_reopenErr = None\<rparr>"

definition log_disk_demo :: disk where
  "log_disk_demo = \<lparr>dk_files = [(''/log'', new_file ''one.'' FileModeLog)], dk_past = [], dk_faults = [], dk_random = [], dk_errors = 0, dk_log = []\<rparr>"


end
