(* ===== verification/ValEval.thy ===== *)
theory ValEval
  imports GoFloat
begin

text \<open>
  Package \<^verbatim>\<open>internal/validate\<close>, the verdict rules (\<^verbatim>\<open>eval.go\<close>): hand-back and settling of a sub-run, the
  registers of a channel, the aggregation over runs, the mapping test and the gate window. A
  \<^verbatim>\<open>float64\<close> that may be NaN is \<open>None\<close> for NaN; a text is its format with the arguments, and a text that is
  empty when there is nothing to say is an option. The fields of \<^verbatim>\<open>SubResult\<close> that describe one register
  are the record \<open>RegResult\<close>, which \<open>SubResult\<close> extends by the ones for several registers.
\<close>

section \<open>Data\<close>

datatype Verdict = Pass | Fail | Inconclusive | Reported | NotApplicable

type_synonym nfloat = "rat option"

datatype vtext = Txt string "textarg list"
  and textarg = TI int | TS string | TF rat | TV Verdict | TT vtext

definition PCIeChannel :: int where "PCIeChannel = 4"
definition HDDInputStepC :: rat where "HDDInputStepC = 34"
definition LeaveCounts :: int where "LeaveCounts = 16"
definition HoldCounts :: int where "HoldCounts = 2"
definition LeaveWithinS :: rat where "LeaveWithinS = 60"
definition ObserveS :: rat where "ObserveS = 900"
definition SettleBandC :: int where "SettleBandC = 2"
definition SettleHoldS :: rat where "SettleHoldS = 120"
definition T1OwnStepRPM :: rat where "T1OwnStepRPM = 200"
definition T1OtherRPM :: int where "T1OtherRPM = 50"
definition RunsRequired :: nat where "RunsRequired = 3"
definition MinDuty :: int where "MinDuty = 100"
definition MaxM :: int where "MaxM = 200"
definition MOffset :: int where "MOffset = 48"
definition LimitTctlC :: rat where "LimitTctlC = 85"
definition LimitNVMeC :: rat where "LimitNVMeC = 70"
definition LimitHDDC :: rat where "LimitHDDC = 50"
definition GateLoad1 :: rat where "GateLoad1 = 1"
definition GateTempDeltaC :: rat where "GateTempDeltaC = 1"
definition SettleWriteS :: int where "SettleWriteS = 10"
definition SettlePCIeS :: int where "SettlePCIeS = 1"
definition CrossMarginC :: rat where "CrossMarginC = 2"
definition GridTolerance :: duration where "GridTolerance = 500 * Millisecond"
definition T1Steps :: "int list" where "T1Steps = [255, 217, 179, 140]"

lemmas spec_numbers = LeaveCounts_def HoldCounts_def LeaveWithinS_def ObserveS_def SettleBandC_def SettleHoldS_def

record Sample =
  s_Time :: gotime
  s_TS :: rat
  s_OffGrid :: bool
  s_Phase :: string
  s_Ch :: int
  s_Written :: int
  s_DCR :: "int list"
  s_Fan :: "int list"
  s_ECCPU :: nfloat
  s_ECSys :: nfloat
  s_ECBoard :: nfloat
  s_ECAmb :: nfloat
  s_HDDMax :: nfloat
  s_NVMeMax :: nfloat
  s_Tctl :: nfloat
  s_Load1 :: nfloat

record DCRSample =
  d_T :: rat
  d_DCR :: int

record HandbackRun =
  hb_Label :: string
  hb_Reg :: string
  hb_Written :: int
  hb_Samples :: "DCRSample list"
  hb_TimingKnown :: bool
  hb_Auto :: int
  hb_AutoKnown :: bool
  hb_Hold :: "DCRSample list"
  hb_SettleS :: rat
  hb_InputCrossed :: "vtext option"

record RegResult =
  sr_Label :: string
  sr_Reg :: string
  sr_Written :: int
  sr_Left :: bool
  sr_LeftAtS :: "rat option"
  sr_MaxDev :: int
  sr_HeldS :: rat
  sr_ObservedS :: rat
  sr_T2 :: Verdict
  sr_T2Reason :: vtext
  sr_Settled :: bool
  sr_SettleAtS :: "rat option"
  sr_FinalValue :: "int option"
  sr_T3 :: Verdict
  sr_T3Reason :: vtext
  sr_HoldDeviations :: "vtext list"
  sr_held :: bool
  sr_InputCrossed :: "vtext option"

datatype regnote = Disagree string "(string \<times> Verdict) list" | FinalsDiffer "(string \<times> int option) list"

record SubResult = RegResult +
  sr_Others :: "RegResult list"
  sr_RegsAgree :: "bool option"
  sr_RegNotes :: "regnote list"

record Criterion =
  cr_Name :: string
  cr_Met :: "bool option"
  cr_Detail :: "vtext list"
  cr_Values :: "(string \<times> int) list"

record RunResult =
  rr_Run :: nat
  rr_Verdict :: Verdict
  rr_Reason :: "vtext option"
  rr_Subs :: "SubResult list"

record T1Step =
  st_Duty :: int
  st_DCR :: "int list"
  st_DCR4 :: "int list"
  st_Fans :: "int \<Rightarrow> int list"
  st_OwnRPM :: rat
  st_DueS :: "rat list"
  st_SettleS :: rat
  st_NotJudged :: "vtext list"
  st_Gaps :: int
  st_Inputs :: "int \<Rightarrow> nfloat list"

datatype testvalues = NoValues | Steps "T1Step list" | Numbers "(string \<times> int) list" | AmbMax rat nat

record Result =
  res_ID :: string
  res_Channel :: int
  res_Verdict :: Verdict
  res_Reasons :: "vtext list"
  res_Criteria :: "Criterion list"
  res_Runs :: "RunResult list"
  res_Values :: testvalues

section \<open>Tables and crossings\<close>

definition SettleTime :: "int \<Rightarrow> duration" where
  "SettleTime ch = (if ch = PCIeChannel then SettlePCIeS * Second else SettleWriteS * Second)"

definition TableSteps :: "int \<Rightarrow> rat list" where
  "TableSteps ch = (if ch = 1 then [25, 45, 55, 65, 75, 82, 87] else if ch = 2 then [60] else if ch = 3 then [HDDInputStepC] else [])"

definition TableInput :: "int \<Rightarrow> Sample \<Rightarrow> nfloat" where
  "TableInput ch s = (if ch = 1 then s_ECCPU s else if ch = 2 then s_ECBoard s else if ch = 3 then s_ECAmb s else None)"

definition InputName :: "int \<Rightarrow> string" where
  "InputName ch = (if ch = 1 then ''EC 0x09'' else if ch = 2 then ''EC 0x05'' else if ch = 3 then ''EC 0x06'' else ''none'')"

fun first_known :: "nfloat list \<Rightarrow> nfloat" where
  "first_known [] = None"
| "first_known (None # vs) = first_known vs"
| "first_known (Some v # vs) = Some v"

fun cross_values :: "rat \<Rightarrow> rat \<Rightarrow> nfloat list \<Rightarrow> vtext option" where
  "cross_values ref s [] = None"
| "cross_values ref s (None # vs) = cross_values ref s vs"
| "cross_values ref s (Some v # vs) =
     (if ref \<ge> s \<and> v \<le> f_sub s CrossMarginC then Some (Txt ''%.1f C below step %.0f C (reference %.1f C)'' [TF v, TF s, TF ref])
      else if \<not> ref \<ge> s \<and> v \<ge> f_add s CrossMarginC then Some (Txt ''%.1f C above step %.0f C (reference %.1f C)'' [TF v, TF s, TF ref])
      else cross_values ref s vs)"

fun cross_steps :: "rat \<Rightarrow> nfloat list \<Rightarrow> rat list \<Rightarrow> vtext option" where
  "cross_steps ref vals [] = None"
| "cross_steps ref vals (s # ss) = (case cross_values ref s vals of Some t \<Rightarrow> Some t | None \<Rightarrow> cross_steps ref vals ss)"

definition Crossing :: "nfloat \<Rightarrow> nfloat list \<Rightarrow> rat list \<Rightarrow> vtext option" where
  "Crossing ref vals steps =
     (case (case ref of None \<Rightarrow> first_known vals | Some r \<Rightarrow> Some r) of None \<Rightarrow> None | Some r \<Rightarrow> cross_steps r vals steps)"

fun sumF :: "rat \<Rightarrow> int \<Rightarrow> nfloat list \<Rightarrow> rat \<times> int" where
  "sumF t n [] = (t, n)"
| "sumF t n (None # vs) = sumF t n vs"
| "sumF t n (Some x # vs) = sumF (f_add t x) (n + 1) vs"

definition meanF :: "nfloat list \<Rightarrow> nfloat" where
  "meanF v = (let (t, n) = sumF 0 0 v in if n = 0 then None else Some (f_div t (f_int n)))"

definition JudgedRegs :: "int \<Rightarrow> int list" where
  "JudgedRegs ch = (if ch = 1 \<or> ch = 2 then [ch] else if ch = 3 then [3, 4] else if ch = 4 then [5] else [])"

definition regName :: "int \<Rightarrow> string" where
  "regName n = ''DCR'' @ Itoa n"

section \<open>One sub-run\<close>

definition absInt :: "int \<Rightarrow> int" where
  "absInt x = (if x < 0 then - x else x)"

text \<open>The loop over the samples in the order of time, with the flag \<^verbatim>\<open>allWithin2\<close>.\<close>

definition scan_sample :: "HandbackRun \<Rightarrow> DCRSample \<Rightarrow> RegResult \<times> bool \<Rightarrow> RegResult \<times> bool" where
  "scan_sample r x a =
     (let (s, w2) = a;
          d = absInt (d_DCR x - hb_Written r);
          s1 = (if d > sr_MaxDev s then s\<lparr>sr_MaxDev := d\<rparr> else s);
          s2 = (if d \<ge> LeaveCounts \<and> \<not> sr_Left s1
                then s1\<lparr>sr_Left := True, sr_LeftAtS := (if hb_TimingKnown r then Some (d_T x) else sr_LeftAtS s1)\<rparr> else s1)
      in (s2, if d > HoldCounts then False else w2))"

definition judge_T2 :: "HandbackRun \<Rightarrow> bool \<Rightarrow> RegResult \<Rightarrow> RegResult" where
  "judge_T2 r w2 s =
     (let w = TI (hb_Written r);
          s1 = (case (sr_Left s, sr_LeftAtS s) of
              (True, Some t) \<Rightarrow>
                if t \<le> LeaveWithinS
                then s\<lparr>sr_T2 := Pass, sr_T2Reason := Txt ''left the written value %d by >= %d counts after %.0f s'' [w, TI LeaveCounts, TF t]\<rparr>
                else s\<lparr>sr_T2Reason := Txt ''left the written value only after %.0f s (> %d s)'' [TF t, TF LeaveWithinS]\<rparr>
            | (True, None) \<Rightarrow>
                s\<lparr>sr_T2Reason := Txt ''left the written value %d (max deviation %d counts), time since the auto command not recorded'' [w, TI (sr_MaxDev s)]\<rparr>
            | (False, _) \<Rightarrow>
                if w2 \<and> hb_TimingKnown r \<and> sr_ObservedS s \<ge> ObserveS + SettleHoldS
                then s\<lparr>sr_T2 := Fail, sr_T2Reason := Txt ''DCR stayed within +-%d of %d for %.0f s'' [TI HoldCounts, w, TF (sr_ObservedS s)]\<rparr>
                else if w2
                then s\<lparr>sr_T2Reason := Txt ''DCR within +-%d of the written value, but observed for %.0f s only (need %d s after the auto command)''
                         [TI HoldCounts, TF (sr_ObservedS s), TF (ObserveS + SettleHoldS)]\<rparr>
                else s\<lparr>sr_T2Reason := Txt ''DCR moved by %d counts (between %d and %d)'' [TI (sr_MaxDev s), TI (HoldCounts + 1), TI (LeaveCounts - 1)]\<rparr>)
      in if hb_AutoKnown r \<and> absInt (hb_Written r - hb_Auto r) < LeaveCounts
         then s1\<lparr>sr_T2 := Inconclusive,
                 sr_T2Reason := Txt ''written value %d too close to the auto value A=%d (< %d counts): leaving it cannot be told from returning to A (%s)''
                   [w, TI (hb_Auto r), TI LeaveCounts, TT (sr_T2Reason s1)]\<rparr>
         else s1)"

text \<open>The first window of \<^verbatim>\<open>SettleHoldS\<close> seconds in which every sample is near the window's first one.\<close>

definition window_ok :: "DCRSample \<Rightarrow> rat \<Rightarrow> DCRSample list \<Rightarrow> bool" where
  "window_ok x e ys = list_all (\<lambda>y. absInt (d_DCR y - d_DCR x) \<le> SettleBandC) (takeWhile (\<lambda>y. d_T y \<le> e) ys)"

fun settle_loop :: "rat \<Rightarrow> DCRSample list \<Rightarrow> DCRSample option" where
  "settle_loop l [] = None"
| "settle_loop l (x # xs) =
     (let e = f_add (d_T x) SettleHoldS
      in if e > l then None else if window_ok x e (x # xs) then Some x else settle_loop l xs)"

definition judge_T3 :: "HandbackRun \<Rightarrow> rat \<Rightarrow> RegResult \<Rightarrow> RegResult" where
  "judge_T3 r l s =
     (case (sr_SettleAtS s, sr_FinalValue s) of
        (Some t, Some v) \<Rightarrow>
          if hb_TimingKnown r \<and> t \<le> ObserveS
          then s\<lparr>sr_T3 := Pass, sr_T3Reason := Txt ''steady at %d (+-%d for %d s) from %.0f s after the auto command'' [TI v, TI SettleBandC, TF SettleHoldS, TF t]\<rparr>
          else if hb_TimingKnown r
          then s\<lparr>sr_T3 := Fail, sr_T3Reason := Txt ''steady state only from %.0f s (> %d s)'' [TF t, TF ObserveS]\<rparr>
          else s\<lparr>sr_T3Reason := Txt ''steady at %d over the observed samples, time since the auto command not recorded'' [TI v]\<rparr>
      | _ \<Rightarrow>
          if hb_TimingKnown r \<and> l \<ge> ObserveS + SettleHoldS
          then s\<lparr>sr_T3 := Fail, sr_T3Reason := Txt ''no steady state within %d s'' [TF ObserveS]\<rparr>
          else s\<lparr>sr_T3Reason := Txt ''no steady window in %.0f s of data'' [TF (sr_ObservedS s)]\<rparr>)"

definition hold_deviations :: "HandbackRun \<Rightarrow> vtext list" where
  "hold_deviations r =
     map (\<lambda>x. Txt ''%s%.0f s after the write: %d (written %d)''
            [TS (if hb_Reg r = [] then [] else hb_Reg r @ '' ''), TF (d_T x), TI (d_DCR x), TI (hb_Written r)])
         (filter (\<lambda>x. f_add (d_T x) (rnd64 (1 / 10 ^ 9)) \<ge> hb_SettleS r \<and> d_DCR x \<noteq> hb_Written r) (hb_Hold r))"

definition crossed_result :: "HandbackRun \<Rightarrow> RegResult \<Rightarrow> RegResult" where
  "crossed_result r s = (case hb_InputCrossed r of
      None \<Rightarrow> s
    | Some c \<Rightarrow> s\<lparr>sr_InputCrossed := Some c,
                  sr_T2 := Inconclusive, sr_T2Reason := Txt ''table input crossed a step (%s); %s'' [TT c, TT (sr_T2Reason s)],
                  sr_T3 := Inconclusive, sr_T3Reason := Txt ''table input crossed a step (%s); %s'' [TT c, TT (sr_T3Reason s)]\<rparr>)"

definition blank_result :: "HandbackRun \<Rightarrow> vtext \<Rightarrow> RegResult" where
  "blank_result r why = \<lparr>sr_Label = hb_Label r, sr_Reg = hb_Reg r, sr_Written = hb_Written r, sr_Left = False, sr_LeftAtS = None,
     sr_MaxDev = 0, sr_HeldS = 0, sr_ObservedS = 0, sr_T2 = Inconclusive, sr_T2Reason = why, sr_Settled = False,
     sr_SettleAtS = None, sr_FinalValue = None, sr_T3 = Inconclusive, sr_T3Reason = why, sr_HoldDeviations = [],
     sr_held = False, sr_InputCrossed = None\<rparr>"

definition EvalHandback :: "HandbackRun \<Rightarrow> RegResult" where
  "EvalHandback r =
     (if hb_Samples r = [] then blank_result r (Txt ''no DCR samples'' [])
      else let smp = sort_key d_T (hb_Samples r);
               first = d_T (hd smp); l = d_T (last smp);
               s0 = (blank_result r (Txt [] []))\<lparr>sr_ObservedS := (if hb_TimingKnown r then l else f_sub l first)\<rparr>;
               (s1, w2) = fold (scan_sample r) smp (s0, True);
               s2 = (if w2 then s1\<lparr>sr_HeldS := sr_ObservedS s1\<rparr> else s1);
               s3 = judge_T2 r w2 s2;
               s4 = (case settle_loop l smp of
                   None \<Rightarrow> s3
                 | Some x \<Rightarrow> s3\<lparr>sr_Settled := True, sr_SettleAtS := Some (d_T x), sr_FinalValue := Some (d_DCR x)\<rparr>);
               s5 = judge_T3 r l s4;
               s6 = s5\<lparr>sr_held := hb_Hold r \<noteq> [], sr_HoldDeviations := hold_deviations r\<rparr>
           in crossed_result r s6)"

section \<open>Registers and runs\<close>

definition combine :: "Verdict list \<Rightarrow> Verdict" where
  "combine vs =
     (if vs = [] then Inconclusive
      else if list_all (\<lambda>x. x = Pass) vs then Pass
      else if list_all (\<lambda>x. x = Fail) vs then Fail else Inconclusive)"

definition reg_name :: "nat \<Rightarrow> RegResult \<Rightarrow> string" where
  "reg_name i x = (if sr_Reg x \<noteq> [] then sr_Reg x else ''register '' @ Itoa (int i + 1))"

text \<open>The closure \<^verbatim>\<open>merge\<close>: the verdict and reason of one test over the registers, the note of a disagreement.\<close>

definition merge_regs :: "string \<Rightarrow> (RegResult \<Rightarrow> Verdict \<times> vtext) \<Rightarrow> string list \<Rightarrow> RegResult list \<Rightarrow> Verdict \<times> vtext \<times> regnote list" where
  "merge_regs test get names all =
     (let vs = map (fst \<circ> get) all;
          parts = map2 (\<lambda>n x. TT (Txt ''%s %s (%s)'' [TS n, TV (fst (get x)), TT (snd (get x))])) names all
      in if list_all (\<lambda>x. x = hd vs) vs then (combine vs, Txt ''%s; ...'' parts, [])
         else (Inconclusive, Txt ''%s disagree: %s; ...'' (map TS names @ parts), [Disagree test (zip names vs)]))"

definition lift_result :: "RegResult \<Rightarrow> SubResult" where
  "lift_result s = RegResult.extend s \<lparr>sr_Others = [], sr_RegsAgree = None, sr_RegNotes = []\<rparr>"

definition EvalHandbackRegs :: "HandbackRun list \<Rightarrow> SubResult" where
  "EvalHandbackRegs runs =
     (if runs = [] then lift_result (blank_result
          \<lparr>hb_Label = [], hb_Reg = [], hb_Written = 0, hb_Samples = [], hb_TimingKnown = False, hb_Auto = 0, hb_AutoKnown = False,
           hb_Hold = [], hb_SettleS = 0, hb_InputCrossed = None\<rparr> (Txt ''no register'' []))
      else let all = map EvalHandback runs; s = lift_result (hd all)
           in if length all = 1 then s
              else let names = map2 reg_name [0..<length all] all;
                       (v2, why2, n2) = merge_regs ''T2'' (\<lambda>x. (sr_T2 x, sr_T2Reason x)) names all;
                       (v3, why3, n3) = merge_regs ''T3'' (\<lambda>x. (sr_T3 x, sr_T3Reason x)) names all;
                       differ = list_ex (\<lambda>x. case (sr_FinalValue x, sr_FinalValue (hd all)) of (Some v, Some u) \<Rightarrow> v \<noteq> u | _ \<Rightarrow> False) all;
                       n4 = (if differ then [FinalsDiffer (zip names (map sr_FinalValue all))] else [])
                   in s\<lparr>sr_Others := tl all, sr_T2 := v2, sr_T2Reason := why2, sr_T3 := v3, sr_T3Reason := why3,
                        sr_Left := sr_Left s \<and> list_all sr_Left (tl all), sr_RegNotes := n2 @ n3 @ n4,
                        sr_RegsAgree := Some (n2 = [] \<and> n3 = [])\<rparr>)"

text \<open>One repetition: the sub-runs with the labels that are missing.\<close>

definition run_results :: "string list \<Rightarrow> nat \<Rightarrow> SubResult list \<Rightarrow> RunResult \<times> RunResult" where
  "run_results want i subs =
     (let missing = filter (\<lambda>l. l \<notin> set (map sr_Label subs)) want;
          v2 = combine (map sr_T2 subs); v3 = combine (map sr_T3 subs)
      in if missing \<noteq> []
         then let why = Some (Txt ''sub-run %s missing (one direction only)'' (map TS missing))
              in (\<lparr>rr_Run = i + 1, rr_Verdict = Inconclusive, rr_Reason = why, rr_Subs = subs\<rparr>,
                  \<lparr>rr_Run = i + 1, rr_Verdict = Inconclusive, rr_Reason = why, rr_Subs = subs\<rparr>)
         else (\<lparr>rr_Run = i + 1, rr_Verdict = v2,
                rr_Reason = (if v2 = Inconclusive then Some (Txt ''mixed or undecided sub-runs'' []) else None), rr_Subs = subs\<rparr>,
               \<lparr>rr_Run = i + 1, rr_Verdict = v3, rr_Reason = None, rr_Subs = subs\<rparr>))"

definition run_reasons :: "(SubResult \<Rightarrow> vtext) \<Rightarrow> bool \<Rightarrow> RunResult \<Rightarrow> vtext list" where
  "run_reasons why own r =
     (case rr_Reason r of Some x \<Rightarrow> if own then [Txt ''run %d: %s'' [TI (int (rr_Run r)), TT x]] else [] | None \<Rightarrow> []) @
     map (\<lambda>s. Txt ''run %d %s: %s'' [TI (int (rr_Run r)), TS (sr_Label s), TT (why s)]) (rr_Subs r)"

definition crit :: "string \<Rightarrow> bool option \<Rightarrow> vtext list \<Rightarrow> (string \<times> int) list \<Rightarrow> Criterion" where
  "crit name met detail vals = \<lparr>cr_Name = name, cr_Met = met, cr_Detail = detail, cr_Values = vals\<rparr>"

definition hold_criteria :: "RunResult list \<Rightarrow> Criterion list \<times> Criterion list" where
  "hold_criteria rs =
     (let subs = concat (map (\<lambda>r. map (Pair r) (rr_Subs r)) rs);
          dev = concat (map (\<lambda>(r, s). map (\<lambda>d. Txt ''run %d %s: %s'' [TI (int (rr_Run r)), TS (sr_Label s), TT d])
                  (sr_HoldDeviations s @ concat (map sr_HoldDeviations (sr_Others s)))) subs);
          crossed = concat (map (\<lambda>(r, s). case sr_InputCrossed s of None \<Rightarrow> []
                  | Some c \<Rightarrow> [Txt ''run %d %s: %s'' [TI (int (rr_Run r)), TS (sr_Label s), TT c]]) subs);
          c = crit ''table input did not cross a step (write to end of log)'' (Some (crossed = [])) crossed []
      in if list_ex (\<lambda>(r, s). sr_held s) subs
         then ([crit ''hold phase: DCR equals the written value after the settle time (reported, not judged)'' None dev
                  [(''hold_deviations'', int (length dev))], c], [c])
         else ([], []))"

definition note_of_test :: "string \<Rightarrow> regnote \<Rightarrow> bool" where
  "note_of_test test n = (case n of Disagree t _ \<Rightarrow> t = test | FinalsDiffer _ \<Rightarrow> False)"

definition note_shown :: "string \<Rightarrow> regnote \<Rightarrow> bool" where
  "note_shown test n = (case n of Disagree t _ \<Rightarrow> t = test | FinalsDiffer _ \<Rightarrow> test = ''T3'')"

definition regsCrit :: "string \<Rightarrow> RunResult list \<Rightarrow> Criterion list" where
  "regsCrit test rs =
     (let subs = filter (\<lambda>(r, s). sr_RegsAgree s \<noteq> None) (concat (map (\<lambda>r. map (Pair r) (rr_Subs r)) rs));
          seen = length subs;
          agree = length (filter (\<lambda>(r, s). \<not> list_ex (note_of_test test) (sr_RegNotes s)) subs);
          notes = concat (map (\<lambda>(r, s). map (\<lambda>n. Txt ''run %d %s: note'' [TI (int (rr_Run r)), TS (sr_Label s)])
                    (filter (note_shown test) (sr_RegNotes s))) subs)
      in if seen > 0
         then [crit (''registers agree (DCR3 and DCR4: same '' @ test @ '' verdict per sub-run)'') (Some (agree = seen))
                 (Txt ''%d of %d sub-runs agree'' [TI (int agree), TI (int seen)] # notes) []]
         else [])"

definition AggregateHandback :: "int \<Rightarrow> SubResult list list \<Rightarrow> string list \<Rightarrow> Result \<times> Result" where
  "AggregateHandback ch runs want =
     (let rrs = map2 (run_results want) [0..<length runs] runs;
          r2 = map fst rrs; r3 = map snd rrs;
          few = length runs < RunsRequired;
          v2 = (if few then Inconclusive else combine (map rr_Verdict r2));
          v3 = (if few then Inconclusive else combine (map rr_Verdict r3));
          short = (if few then [Txt ''n=%d of %d runs'' [TI (int (length runs)), TI (int RunsRequired)]] else []);
          subs = concat runs; leftMet = length (filter sr_Left subs); leftSeen = length subs;
          left = (if leftSeen > 0 then [crit ''left written value (|DCR - written| >= 16)'' (Some (leftMet = leftSeen))
                    [Txt ''%d of %d sub-runs'' [TI (int leftMet), TI (int leftSeen)]] []] else []);
          (h2, h3) = hold_criteria r2
      in (\<lparr>res_ID = ''T2'', res_Channel = ch, res_Verdict = v2, res_Reasons = short @ concat (map (run_reasons sr_T2Reason True) r2),
           res_Criteria = left @ h2 @ regsCrit ''T2'' r2, res_Runs = r2, res_Values = NoValues\<rparr>,
          \<lparr>res_ID = ''T3'', res_Channel = ch, res_Verdict = v3, res_Reasons = short @ concat (map (run_reasons sr_T3Reason False) r2),
           res_Criteria = h3 @ regsCrit ''T3'' r2, res_Runs = r3, res_Values = NoValues\<rparr>))"

definition MValue :: "int \<Rightarrow> int" where
  "MValue a = (let m = a + MOffset; m1 = (if m > MaxM then MaxM else m) in if m1 < MinDuty then MinDuty else m1)"

section \<open>The mapping test\<close>

definition judged :: "T1Step \<Rightarrow> nat \<Rightarrow> bool" where
  "judged s i = (if i \<ge> length (st_DueS s) then True else f_add (st_DueS s ! i) (rnd64 (1 / 10 ^ 9)) \<ge> st_SettleS s)"

definition spread :: "int list \<Rightarrow> (int \<times> int) option" where
  "spread v = fold (\<lambda>x a. if x < 0 then a else
      (case a of None \<Rightarrow> Some (x, x) | Some (lo, hi) \<Rightarrow> Some (if x < lo then x else lo, if x > hi then x else hi))) v None"

fun sum_ints :: "int \<Rightarrow> int \<Rightarrow> int list \<Rightarrow> int \<times> int" where
  "sum_ints t n [] = (t, n)"
| "sum_ints t n (x # xs) = (if x \<ge> 0 then sum_ints (t + x) (n + 1) xs else sum_ints t n xs)"

definition mean_ints :: "int list \<Rightarrow> rat option" where
  "mean_ints v = (let (t, n) = sum_ints 0 0 v in if n = 0 then None else Some (f_div (f_int t) (f_int n)))"

text \<open>The samples of one register in one step: missing, judged, the first that differs, the texts of those not judged.\<close>

record series =
  sq_Miss :: int
  sq_Judged :: int
  sq_Differs :: "int option"
  sq_NotJudged :: "vtext list"

fun judge_series :: "string \<Rightarrow> T1Step \<Rightarrow> nat \<Rightarrow> int list \<Rightarrow> series \<Rightarrow> series" where
  "judge_series name st i [] q = q"
| "judge_series name st i (v # vs) q =
     judge_series name st (Suc i) vs
       (if \<not> judged st i
        then q\<lparr>sq_NotJudged := sq_NotJudged q @ [Txt ''%s %s at %.0f s (settle time %.0f s)''
                 [TS name, if v \<ge> 0 then TI v else TS ''-'', TF (st_DueS st ! i), TF (st_SettleS st)]]\<rparr>
        else let q1 = q\<lparr>sq_Judged := sq_Judged q + 1\<rparr>
             in if v < 0 then q1\<lparr>sq_Miss := sq_Miss q1 + 1\<rparr>
                else if v \<noteq> st_Duty st \<and> sq_Differs q1 = None then q1\<lparr>sq_Differs := Some v\<rparr> else q1)"

definition no_series :: series where
  "no_series = \<lparr>sq_Miss = 0, sq_Judged = 0, sq_Differs = None, sq_NotJudged = []\<rparr>"

record dcr_judgement =
  dj_Known :: bool
  dj_OK :: bool
  dj_Bad :: "vtext list"
  dj_Missing :: "vtext list"
  dj_NotJudged :: nat

definition judge_step :: "string \<Rightarrow> (T1Step \<Rightarrow> int list) \<Rightarrow> T1Step \<Rightarrow> dcr_judgement \<Rightarrow> T1Step \<times> dcr_judgement" where
  "judge_step name get st j =
     (if get st = []
      then (st, j\<lparr>dj_Known := False, dj_Missing := dj_Missing j @ [Txt ''step %d: no %s sample'' [TI (st_Duty st), TS name]]\<rparr>)
      else let q = judge_series name st 0 (get st) no_series;
               j1 = j\<lparr>dj_NotJudged := dj_NotJudged j + length (sq_NotJudged q)\<rparr>;
               j2 = (case sq_Differs q of None \<Rightarrow> j1
                 | Some v \<Rightarrow> j1\<lparr>dj_OK := False, dj_Bad := dj_Bad j1 @ [Txt ''step %d: %s %d'' [TI (st_Duty st), TS name, TI v]]\<rparr>);
               j3 = (if sq_Judged q = 0
                 then j2\<lparr>dj_Known := False, dj_Missing := dj_Missing j2 @ [Txt ''step %d: no judged %s sample'' [TI (st_Duty st), TS name]]\<rparr> else j2);
               j4 = (if sq_Miss q > 0
                 then j3\<lparr>dj_Known := False, dj_Missing := dj_Missing j3 @ [Txt ''step %d: %d of %d judged samples without %s''
                          [TI (st_Duty st), TI (sq_Miss q), TI (sq_Judged q), TS name]]\<rparr> else j3)
           in (st\<lparr>st_NotJudged := st_NotJudged st @ sq_NotJudged q\<rparr>, j4))"

definition t1_regs :: "int \<Rightarrow> (string \<times> (T1Step \<Rightarrow> int list)) list" where
  "t1_regs ch = (if ch = 3 then [(''DCR3'', st_DCR), (''DCR4'', st_DCR4)] else [(''DCR'', st_DCR)])"

definition judge_regs :: "(string \<times> (T1Step \<Rightarrow> int list)) list \<Rightarrow> T1Step list \<times> dcr_judgement \<Rightarrow> T1Step list \<times> dcr_judgement" where
  "judge_regs regs a = fold (\<lambda>(name, get) (steps, j). for_each (judge_step name get) steps j) regs a"

definition dcr_criterion :: "int \<Rightarrow> dcr_judgement \<Rightarrow> Criterion" where
  "dcr_criterion ch j =
     (let name = (if ch = 3 then ''DCR3 and DCR4 equal the written value in every judged sample of every step''
                  else ''DCR equals the written value in every judged sample of every step'');
          vals = (if dj_NotJudged j > 0 then [(''not_judged_samples'', int (dj_NotJudged j))] else [])
      in if \<not> dj_OK j then crit name (Some False) (dj_Bad j @ dj_Missing j) vals
         else if dj_Known j then crit name (Some True) [] vals
         else crit name None (Txt ''DCR not readable: %s; ...'' [] # dj_Missing j) vals)"

definition noisy_fans :: "(int \<Rightarrow> int list) \<Rightarrow> int list \<Rightarrow> (int \<times> int) list" where
  "noisy_fans rest fans = concat (map (\<lambda>f. case spread (rest f) of
      Some (lo, hi) \<Rightarrow> if hi - lo > T1OtherRPM then [(f, hi - lo)] else []
    | None \<Rightarrow> []) fans)"

text \<open>A tach that leaves its rest mean: the first such sample of every step.\<close>

definition follow_of :: "(int \<Rightarrow> int list) \<Rightarrow> T1Step list \<Rightarrow> int \<Rightarrow> (int \<times> int \<times> int \<times> rat) list" where
  "follow_of rest steps f = (case mean_ints (rest f) of
      None \<Rightarrow> []
    | Some base \<Rightarrow> concat (map (\<lambda>st. case find (\<lambda>v. v \<ge> 0 \<and> \<bar>f_sub (f_int v) base\<bar> > of_int T1OtherRPM) (st_Fans st f) of
          None \<Rightarrow> [] | Some v \<Rightarrow> [(f, v, st_Duty st, base)]) steps))"

definition follows_of :: "(int \<Rightarrow> int list) \<Rightarrow> T1Step list \<Rightarrow> int \<Rightarrow> int list \<Rightarrow> (int \<times> int \<times> int \<times> rat) list" where
  "follows_of rest steps own fans = concat (map (follow_of rest steps) (filter (\<lambda>f. f \<noteq> own) fans))"

definition step_inputs :: "T1Step list \<Rightarrow> int \<Rightarrow> nfloat list" where
  "step_inputs steps oc = concat (map (\<lambda>st. st_Inputs st oc) steps)"

definition crossed_inputs :: "int \<Rightarrow> (int \<Rightarrow> nfloat list) \<Rightarrow> T1Step list \<Rightarrow> (int \<times> vtext) list" where
  "crossed_inputs ch restIn steps = concat (map (\<lambda>oc.
      case Crossing (meanF (restIn oc)) (step_inputs steps oc) (TableSteps oc) of
        None \<Rightarrow> [] | Some x \<Rightarrow> [(oc, Txt ''pwm%d %s %s'' [TI oc, TS (InputName oc), TT x])])
      (filter (\<lambda>oc. oc \<noteq> ch) [1, 2, 3]))"

definition inputs_recorded :: "int \<Rightarrow> T1Step list \<Rightarrow> bool" where
  "inputs_recorded ch steps = list_ex (\<lambda>oc. meanF (step_inputs steps oc) \<noteq> None) (filter (\<lambda>oc. oc \<noteq> ch) [1, 2, 3])"

definition last3 :: "int list \<Rightarrow> int list" where
  "last3 s = (if length s > 3 then drop (length s - 3) s else s)"

text \<open>The loop over the steps with the mean of the step before, unless it is the first.\<close>

fun own_loop :: "int \<Rightarrow> (int \<times> rat option) option \<Rightarrow> T1Step list \<Rightarrow> T1Step list \<times> vtext list" where
  "own_loop own prev [] = ([], [])"
| "own_loop own prev (st # sts) =
     (let k = mean_ints (last3 (st_Fans st own));
          unread = (if k = None then [Txt ''step %d: own tach not readable'' [TI (st_Duty st)]] else []);
          short = (case (prev, k) of
              (Some (duty, Some p), Some m) \<Rightarrow>
                if f_sub p m < T1OwnStepRPM then [Txt ''%d->%d: %.0f rpm'' [TI duty, TI (st_Duty st), TF (f_sub p m)]] else []
            | _ \<Rightarrow> []);
          (sts', rest) = own_loop own (Some (st_Duty st, k)) sts
      in (st\<lparr>st_OwnRPM := (case k of None \<Rightarrow> 0 | Some m \<Rightarrow> m)\<rparr> # sts', unread @ short @ rest))"

definition compare_regs :: "T1Step list \<Rightarrow> vtext list \<times> nat" where
  "compare_regs steps =
     (let pairs = concat (map (\<lambda>st. map (\<lambda>(i, a, b). (st_Duty st, i, a, b))
            (filter (\<lambda>(i, a, b). \<not> (a < 0 \<or> b < 0)) (zip [0..<length (st_DCR st)] (zip (st_DCR st) (st_DCR4 st))))) steps)
      in (map (\<lambda>(duty, i, a, b). Txt ''step %d sample %d: DCR3 %d, DCR4 %d'' [TI duty, TI (int i + 1), TI a, TI b])
            (filter (\<lambda>(duty, i, a, b). a \<noteq> b) pairs), length pairs))"

definition cross_reasons :: "int list \<Rightarrow> (int \<times> int \<times> int \<times> rat) list \<Rightarrow> (int \<times> vtext) list \<Rightarrow> vtext list" where
  "cross_reasons fans follows crossed =
     (let own = concat (map (\<lambda>f. if f \<in> fst ` set follows
            then (case map_of crossed f of None \<Rightarrow> [] | Some x \<Rightarrow> [Txt ''table input of pwm%d crossed a step (%s)'' [TI f, TT x]]) else []) fans)
      in if own = [] \<and> follows \<noteq> [] \<and> crossed \<noteq> []
         then map (\<lambda>(oc, x). Txt ''another tach follows while the table input of pwm%d crossed a step (%s)'' [TI oc, TT x]) crossed
         else own)"

definition t1_verdict :: "int \<Rightarrow> int \<Rightarrow> dcr_judgement \<Rightarrow> bool \<Rightarrow> bool \<Rightarrow> bool \<Rightarrow> vtext list \<Rightarrow> bool \<Rightarrow> Verdict \<times> vtext list" where
  "t1_verdict ch own j follows noisy crossed crossWhy ownOK =
     (if \<not> dj_OK j then (Fail, [Txt (if ch = 3 then ''DCR3 or DCR4 differs from the written value in a judged sample''
            else ''DCR differs from the written value in a judged sample'') []])
      else if follows \<and> \<not> noisy \<and> \<not> crossed then (Fail, [Txt ''another tach follows the written channel'' []])
      else if follows \<and> crossWhy \<noteq> [] then (Inconclusive, crossWhy)
      else if \<not> dj_Known j then (Inconclusive, [Txt ''DCR not readable: the verdict needs the duty registers (driver 0.2.1+sr1, debug_regs=1)'' []])
      else if noisy then (Inconclusive, [Txt ''tach noise > 50 rpm at rest'' []])
      else if \<not> ownOK then (Inconclusive, [Txt ''own tach moved less than 200 rpm in a step, or was not readable at the end of a step'' []])
      else (Pass, [Txt (if ch = 3 then ''DCR3 and DCR4 equal to the written value in every judged sample, own tach moved >= 200 rpm per step, other tachs within +-50 rpm''
             else if own > 0 then ''DCR equal to the written value in every judged sample, own tach moved >= 200 rpm per step, other tachs within +-50 rpm''
             else ''DCR equal to the written value in every judged sample, all tachs within +-50 rpm (channel without tach)'') []]))"

definition EvalT1Inputs ::
  "int \<Rightarrow> int \<Rightarrow> (int \<Rightarrow> int list) \<Rightarrow> (int \<Rightarrow> nfloat list) \<Rightarrow> T1Step list \<Rightarrow> int list \<Rightarrow> Result" where
  "EvalT1Inputs ch own rest restIn steps0 fans =
     (let (steps1, j) = judge_regs (t1_regs ch) (steps0, \<lparr>dj_Known = True, dj_OK = True, dj_Bad = [], dj_Missing = [], dj_NotJudged = 0\<rparr>);
          noisy = noisy_fans rest fans;
          follows = follows_of rest steps1 own fans;
          crossed = crossed_inputs ch restIn steps1;
          (steps2, short) = (if own > 0 then own_loop own None steps1 else (steps1, []));
          (diff, compared) = compare_regs steps2;
          crossWhy = cross_reasons fans follows crossed;
          (verdict, reasons) = t1_verdict ch own j (follows \<noteq> []) (noisy \<noteq> []) (crossed \<noteq> []) crossWhy (short = [])
      in \<lparr>res_ID = ''T1'', res_Channel = ch, res_Verdict = verdict, res_Reasons = reasons,
          res_Criteria =
            [dcr_criterion ch j,
             crit ''tach noise at rest <= 50 rpm'' (Some (noisy = [])) (map (\<lambda>(f, d). Txt ''fan%d %d rpm'' [TI f, TI d]) noisy) [],
             crit ''other tachs within +-50 rpm'' (Some (follows = []))
               (map (\<lambda>(f, v, duty, base). Txt ''fan%d %d rpm at step %d (rest %.0f)'' [TI f, TI v, TI duty, TF base]) follows) [],
             (if inputs_recorded ch steps1 then crit ''table inputs of the other channels did not cross a step'' (Some (crossed = [])) (map snd crossed) []
              else crit ''table inputs of the other channels did not cross a step'' None [Txt ''table inputs not recorded'' []] [])] @
            (if own > 0 then [crit ''own tach changes >= 200 rpm per step (downwards)'' (Some (short = [])) short []] else []) @
            (if ch = 3 then [crit ''DCR3 and DCR4 equal in every sample (reported)'' (if compared > 0 then Some (diff = []) else None) diff []] else []),
          res_Runs = [], res_Values = Steps steps2\<rparr>)"

definition EvalT1 :: "int \<Rightarrow> int \<Rightarrow> (int \<Rightarrow> int list) \<Rightarrow> T1Step list \<Rightarrow> int list \<Rightarrow> Result" where
  "EvalT1 ch own rest steps fans = EvalT1Inputs ch own rest (\<lambda>_. []) steps fans"

section \<open>Results without a test, the gate window\<close>

definition NotImplemented :: "string \<Rightarrow> int \<Rightarrow> vtext \<Rightarrow> Result" where
  "NotImplemented ident ch reason = \<lparr>res_ID = ident, res_Channel = ch, res_Verdict = Inconclusive, res_Reasons = [reason], res_Criteria = [],
     res_Runs = [], res_Values = NoValues\<rparr>"

definition NotApplicableResult :: "string \<Rightarrow> int \<Rightarrow> vtext \<Rightarrow> Result" where
  "NotApplicableResult ident ch reason = (NotImplemented ident ch reason)\<lparr>res_Verdict := NotApplicable\<rparr>"

definition ReasonNoPCIeAuto :: vtext where
  "ReasonNoPCIeAuto = Txt ''no EC automatic on DCR5 (firmware 0.14)'' []"

definition known_values :: "nfloat list \<Rightarrow> rat list" where
  "known_values vs = concat (map (\<lambda>v. case v of None \<Rightarrow> [] | Some x \<Rightarrow> [x]) vs)"

definition T4T5Result :: "string \<Rightarrow> int \<Rightarrow> Sample list \<Rightarrow> Result" where
  "T4T5Result ident ch samples =
     (let amb = known_values (map s_ECAmb samples); hi = fold max (tl amb) (hd amb); manual = ''not evaluated by validate: TESTSPEC 0.4 evaluates T4/T5 with n5-ectest report from samples.csv''
      in if ch = PCIeChannel then NotApplicableResult ident ch ReasonNoPCIeAuto
         else if ch = 3 \<and> amb \<noteq> [] \<and> hi < HDDInputStepC
         then (NotImplemented ident ch (Txt ''HDD input EC 0x06 below 34 C (max %.1f C in %d samples of this run; table step at %.0f C, a crossing by 2 C needs >= %.0f C)''
                 [TF hi, TI (int (length amb)), TF HDDInputStepC, TF (HDDInputStepC + 2)]))\<lparr>res_Values := AmbMax hi (length amb)\<rparr>
         else if ch = 3 \<and> amb = [] then NotImplemented ident ch (Txt (manual @ '' (EC 0x06 not recorded in this run)'') [])
         else NotImplemented ident ch (Txt manual []))"

record G4Result =
  g4_Pass :: bool
  g4_Parts :: "vtext list"
  g4_Limit :: "string \<Rightarrow> bool"

definition limit_sensors :: "(string \<times> (Sample \<Rightarrow> nfloat)) list" where
  "limit_sensors = [(''tctl'', s_Tctl), (''nvme'', s_NVMeMax), (''hdd'', s_HDDMax)]"

definition gate_spans :: "(string \<times> rat \<times> (Sample \<Rightarrow> nfloat)) list" where
  "gate_spans = [(''system (ec 0x04)'', GateTempDeltaC, s_ECSys), (''ambient (ec 0x06)'', GateTempDeltaC, s_ECAmb),
     (''hdd'', GateTempDeltaC, s_HDDMax), (''tctl'', 0, s_Tctl)]"

definition limit_seen :: "Sample list \<Rightarrow> string \<times> (Sample \<Rightarrow> nfloat) \<Rightarrow> G4Result \<Rightarrow> G4Result" where
  "limit_seen rows ls g =
     (let (name, get) = ls; seen = list_ex (\<lambda>s. get s \<noteq> None) rows; g1 = g\<lparr>g4_Limit := (g4_Limit g)(name := seen)\<rparr>
      in if seen then g1 else g1\<lparr>g4_Parts := g4_Parts g1 @ [Txt ''limit sensor %s not available'' [TS name]], g4_Pass := False\<rparr>)"

definition gate_span :: "Sample list \<Rightarrow> string \<times> rat \<times> (Sample \<Rightarrow> nfloat) \<Rightarrow> G4Result \<Rightarrow> G4Result" where
  "gate_span rows c g =
     (let (name, mx, get) = c; vs = known_values (map get rows);
          lo = fold min (tl vs) (hd vs); hi = fold max (tl vs) (hd vs); d = f_sub hi lo
      in if mx = 0
         then if vs \<noteq> [] then g\<lparr>g4_Parts := g4_Parts g @ [Txt ''tctl %.1f C (not a stability criterion: limit %.0f C only)'' [TF d, TF LimitTctlC]]\<rparr> else g
         else if vs = []
         then g\<lparr>g4_Parts := g4_Parts g @ (if name \<noteq> ''hdd'' then [Txt ''%s not available'' [TS name]] else []), g4_Pass := False\<rparr>
         else g\<lparr>g4_Parts := g4_Parts g @ [Txt ''%s %.1f C (%s %.0f C)'' [TS name, TF d, TS (if d < mx then ''<'' else ''>=''), TF mx]],
                g4_Pass := g4_Pass g \<and> d < mx\<rparr>)"

definition EvalG4 :: "Sample list \<Rightarrow> G4Result" where
  "EvalG4 rows = fold (gate_span rows) gate_spans
     (fold (limit_seen rows) limit_sensors \<lparr>g4_Pass = True, g4_Parts = [], g4_Limit = (\<lambda>_. False)\<rparr>)"

end
