(* ===== verification/ValVerdict.thy ===== *)
theory ValVerdict
  imports ValEval
begin

text \<open>
  What the verdicts of the hardware validation mean: each verdict of a sub-run, of the aggregation, of the mapping
  test and of the gate window is equivalent to a condition on the recorded numbers.
\<close>

section \<open>A sub-run\<close>

definition dev :: "HandbackRun \<Rightarrow> DCRSample \<Rightarrow> int" where
  "dev r x = \<bar>d_DCR x - hb_Written r\<bar>"

lemma absInt_abs [simp]: "absInt x = \<bar>x\<bar>"
  by (simp add: absInt_def)

lemma scan_fold:
  assumes "fold (scan_sample r) smp (s, w2) = (s', w2')"
  shows "w2' \<longleftrightarrow> w2 \<and> (\<forall>x \<in> set smp. dev r x \<le> HoldCounts)"
    "sr_Left s' \<longleftrightarrow> sr_Left s \<or> (\<exists>x \<in> set smp. dev r x \<ge> LeaveCounts)"
    "sr_LeftAtS s' = (if sr_Left s \<or> \<not> hb_TimingKnown r then sr_LeftAtS s
       else case find (\<lambda>x. dev r x \<ge> LeaveCounts) smp of None \<Rightarrow> sr_LeftAtS s | Some x \<Rightarrow> Some (d_T x))"
    "sr_ObservedS s' = sr_ObservedS s" "sr_T2 s' = sr_T2 s" "sr_T3 s' = sr_T3 s" "sr_SettleAtS s' = sr_SettleAtS s"
    "sr_FinalValue s' = sr_FinalValue s"
proof -
  have "(w2' \<longleftrightarrow> w2 \<and> (\<forall>x \<in> set smp. dev r x \<le> HoldCounts)) \<and>
    (sr_Left s' \<longleftrightarrow> sr_Left s \<or> (\<exists>x \<in> set smp. dev r x \<ge> LeaveCounts)) \<and>
    sr_LeftAtS s' = (if sr_Left s \<or> \<not> hb_TimingKnown r then sr_LeftAtS s
       else case find (\<lambda>x. dev r x \<ge> LeaveCounts) smp of None \<Rightarrow> sr_LeftAtS s | Some x \<Rightarrow> Some (d_T x)) \<and>
    sr_ObservedS s' = sr_ObservedS s \<and> sr_T2 s' = sr_T2 s \<and> sr_T3 s' = sr_T3 s \<and> sr_SettleAtS s' = sr_SettleAtS s \<and>
    sr_FinalValue s' = sr_FinalValue s"
    using assms
  proof (induction smp arbitrary: s w2)
    case (Cons x smp)
    obtain s1 w1 where e: "scan_sample r x (s, w2) = (s1, w1)" by (cases "scan_sample r x (s, w2)")
    have f: "w1 \<longleftrightarrow> w2 \<and> dev r x \<le> HoldCounts" "sr_Left s1 \<longleftrightarrow> sr_Left s \<or> dev r x \<ge> LeaveCounts"
      "sr_LeftAtS s1 = (if \<not> sr_Left s \<and> hb_TimingKnown r \<and> dev r x \<ge> LeaveCounts then Some (d_T x) else sr_LeftAtS s)"
      "sr_ObservedS s1 = sr_ObservedS s" "sr_T2 s1 = sr_T2 s" "sr_T3 s1 = sr_T3 s" "sr_SettleAtS s1 = sr_SettleAtS s"
      "sr_FinalValue s1 = sr_FinalValue s"
      using e by (auto simp: scan_sample_def dev_def Let_def split: if_splits)
    have "fold (scan_sample r) smp (s1, w1) = (s', w2')" using Cons.prems e by simp
    from Cons.IH [OF this] f show ?case by (auto split: option.splits)
  qed simp
  then show "w2' \<longleftrightarrow> w2 \<and> (\<forall>x \<in> set smp. dev r x \<le> HoldCounts)"
    "sr_Left s' \<longleftrightarrow> sr_Left s \<or> (\<exists>x \<in> set smp. dev r x \<ge> LeaveCounts)"
    "sr_LeftAtS s' = (if sr_Left s \<or> \<not> hb_TimingKnown r then sr_LeftAtS s
       else case find (\<lambda>x. dev r x \<ge> LeaveCounts) smp of None \<Rightarrow> sr_LeftAtS s | Some x \<Rightarrow> Some (d_T x))"
    "sr_ObservedS s' = sr_ObservedS s" "sr_T2 s' = sr_T2 s" "sr_T3 s' = sr_T3 s" "sr_SettleAtS s' = sr_SettleAtS s"
    "sr_FinalValue s' = sr_FinalValue s"
    by blast+
qed

text \<open>In a list sorted by time the first hit is the earliest.\<close>

lemma find_sorted:
  assumes "sorted (map t xs)" "find P xs = Some x"
  shows "P x" "x \<in> set xs" "\<forall>y \<in> set xs. P y \<longrightarrow> t x \<le> t y"
  using assms by (induction xs) (auto split: if_splits)

lemma sorted_upto_last: "sorted (map t xs) \<Longrightarrow> y \<in> set xs \<Longrightarrow> t y \<le> t (last xs)"
  by (induction xs rule: rev_induct) (auto simp: sorted_append)

lemma find_early: "sorted (map t xs) \<Longrightarrow> (\<exists>x. find P xs = Some x \<and> t x \<le> c) \<longleftrightarrow> (\<exists>x \<in> set xs. P x \<and> t x \<le> c)"
proof (cases "find P xs")
  case None
  then have "\<forall>x \<in> set xs. \<not> P x" by (simp add: find_None_iff)
  then show ?thesis using None by simp
next
  case (Some x)
  assume "sorted (map t xs)"
  from find_sorted [OF this Some] Some show ?thesis by (auto intro: order_trans)
qed

lemma late_iff: "sorted (map t xs) \<Longrightarrow> xs \<noteq> [] \<Longrightarrow> (\<exists>x \<in> set xs. t x \<ge> c) \<longleftrightarrow> t (last xs) \<ge> c"
  using sorted_upto_last [of t xs] last_in_set [of xs] by (meson order_trans)

definition too_close :: "HandbackRun \<Rightarrow> bool" where
  "too_close r \<longleftrightarrow> hb_AutoKnown r \<and> \<bar>hb_Written r - hb_Auto r\<bar> < LeaveCounts"

lemma judge_T2_T2:
  assumes "sr_T2 s = Inconclusive" "s1 = judge_T2 r w2 s"
  shows "sr_T2 s1 = Pass \<longleftrightarrow> \<not> too_close r \<and> sr_Left s \<and> (\<exists>t. sr_LeftAtS s = Some t \<and> t \<le> LeaveWithinS)"
    "sr_T2 s1 = Fail \<longleftrightarrow> \<not> too_close r \<and> \<not> sr_Left s \<and> w2 \<and> hb_TimingKnown r \<and> sr_ObservedS s \<ge> ObserveS + SettleHoldS"
    "sr_T3 s1 = sr_T3 s" "sr_ObservedS s1 = sr_ObservedS s" "sr_SettleAtS s1 = sr_SettleAtS s" "sr_FinalValue s1 = sr_FinalValue s"
proof -
  consider t where "sr_Left s" "sr_LeftAtS s = Some t" | "sr_Left s" "sr_LeftAtS s = None" | "\<not> sr_Left s" by (cases "sr_LeftAtS s") auto
  then show "sr_T2 s1 = Pass \<longleftrightarrow> \<not> too_close r \<and> sr_Left s \<and> (\<exists>t. sr_LeftAtS s = Some t \<and> t \<le> LeaveWithinS)"
    "sr_T2 s1 = Fail \<longleftrightarrow> \<not> too_close r \<and> \<not> sr_Left s \<and> w2 \<and> hb_TimingKnown r \<and> sr_ObservedS s \<ge> ObserveS + SettleHoldS"
    "sr_T3 s1 = sr_T3 s" "sr_ObservedS s1 = sr_ObservedS s" "sr_SettleAtS s1 = sr_SettleAtS s" "sr_FinalValue s1 = sr_FinalValue s"
    using assms by (cases; simp add: judge_T2_def Let_def too_close_def)+
qed

lemma judge_T3_T3:
  assumes "sr_T3 s = Inconclusive" "s1 = judge_T3 r l s" "sr_SettleAtS s = None \<longleftrightarrow> sr_FinalValue s = None"
  shows "sr_T3 s1 = Pass \<longleftrightarrow> hb_TimingKnown r \<and> (\<exists>t. sr_SettleAtS s = Some t \<and> t \<le> ObserveS)"
    "sr_T3 s1 = Fail \<longleftrightarrow> hb_TimingKnown r \<and> (case sr_SettleAtS s of Some t \<Rightarrow> t > ObserveS | None \<Rightarrow> l \<ge> ObserveS + SettleHoldS)"
    "sr_T2 s1 = sr_T2 s"
proof -
  consider t v where "sr_SettleAtS s = Some t" "sr_FinalValue s = Some v" | "sr_SettleAtS s = None" "sr_FinalValue s = None"
    using assms(3) by (cases "sr_SettleAtS s"; cases "sr_FinalValue s") auto
  then show "sr_T3 s1 = Pass \<longleftrightarrow> hb_TimingKnown r \<and> (\<exists>t. sr_SettleAtS s = Some t \<and> t \<le> ObserveS)"
    "sr_T3 s1 = Fail \<longleftrightarrow> hb_TimingKnown r \<and> (case sr_SettleAtS s of Some t \<Rightarrow> t > ObserveS | None \<Rightarrow> l \<ge> ObserveS + SettleHoldS)"
    "sr_T2 s1 = sr_T2 s"
    using assms(1,2) by (cases; auto simp: judge_T3_def)+
qed

text \<open>A steady window: it ends within the data and every sample in it is near its first.\<close>

definition steady :: "DCRSample set \<Rightarrow> DCRSample \<Rightarrow> bool" where
  "steady X x \<longleftrightarrow> x \<in> X \<and> (\<exists>z \<in> X. f_add (d_T x) SettleHoldS \<le> d_T z) \<and>
     (\<forall>y \<in> X. d_T x \<le> d_T y \<and> d_T y \<le> f_add (d_T x) SettleHoldS \<longrightarrow> \<bar>d_DCR y - d_DCR x\<bar> \<le> SettleBandC)"

lemma f_add_mono: "x \<le> y \<Longrightarrow> f_add x c \<le> f_add y c"
  by (simp add: f_add_def rnd64_mono)

lemma takeWhile_sorted: "sorted (map t xs) \<Longrightarrow> set (takeWhile (\<lambda>y. t y \<le> e) xs) = {y \<in> set xs. t y \<le> e}"
  by (induction xs) (auto simp: order_trans)

lemma settle_loop_first:
  assumes "sorted (map d_T (pre @ xs))" "distinct (map d_T (pre @ xs))" "pre @ xs \<noteq> []" "l = d_T (last (pre @ xs))"
    and "\<forall>x \<in> set pre. \<not> steady (set (pre @ xs)) x"
  shows "case settle_loop l xs of
      None \<Rightarrow> \<forall>x. \<not> steady (set (pre @ xs)) x
    | Some x \<Rightarrow> steady (set (pre @ xs)) x \<and> (\<forall>y. steady (set (pre @ xs)) y \<longrightarrow> d_T x \<le> d_T y)"
  using assms
proof (induction xs arbitrary: pre)
  case Nil
  then show ?case by (auto simp: steady_def)
next
  case (Cons x xs)
  let ?all = "pre @ x # xs" and ?e = "f_add (d_T x) SettleHoldS"
  have last_max: "\<forall>z \<in> set ?all. d_T z \<le> l"
    using sorted_upto_last [OF Cons.prems(1)] Cons.prems(4) by blast
  have after: "{y \<in> set ?all. d_T x \<le> d_T y} = set (x # xs)"
    using Cons.prems(1,2) by (fastforce simp: sorted_append)
  have win: "window_ok x ?e (x # xs) \<longleftrightarrow> (\<forall>y \<in> set ?all. d_T x \<le> d_T y \<and> d_T y \<le> ?e \<longrightarrow> \<bar>d_DCR y - d_DCR x\<bar> \<le> SettleBandC)"
  proof -
    have "sorted (map d_T (x # xs))" using Cons.prems(1) by (simp add: sorted_append)
    from takeWhile_sorted [OF this, of ?e] show ?thesis unfolding window_ok_def list_all_iff absInt_abs using after by blast
  qed
  have mem: "last ?all \<in> set ?all" by (rule last_in_set) simp
  have st: "steady (set ?all) x \<longleftrightarrow> ?e \<le> l \<and> window_ok x ?e (x # xs)"
    unfolding steady_def win using last_max mem Cons.prems(4) by (auto intro: order_trans)
  have pre_le: "\<forall>y \<in> set pre. d_T y \<le> d_T x" and xs_ge: "\<forall>y \<in> set xs. d_T x \<le> d_T y" using Cons.prems(1) by (auto simp: sorted_append)
  consider "?e > l" | "?e \<le> l" "window_ok x ?e (x # xs)" | "?e \<le> l" "\<not> window_ok x ?e (x # xs)" by linarith
  then show ?case
  proof cases
    case 1
    have "\<not> steady (set ?all) y" if "y \<in> set (x # xs)" for y
    proof
      assume s: "steady (set ?all) y"
      have "?e \<le> f_add (d_T y) SettleHoldS" using that xs_ge by (intro f_add_mono) auto
      moreover obtain z where "z \<in> set ?all" "f_add (d_T y) SettleHoldS \<le> d_T z" using s by (auto simp: steady_def)
      moreover have "d_T z \<le> l" using calculation(2) last_max by blast
      ultimately show False using 1 by linarith
    qed
    then show ?thesis using 1 Cons.prems(5) by (auto simp: steady_def)
  next
    case 2
    then have "steady (set ?all) x" by (simp only: st)
    moreover have "d_T x \<le> d_T y" if "steady (set ?all) y" for y
    proof -
      have "y \<in> set ?all" "y \<notin> set pre" using that Cons.prems(5) by (auto simp: steady_def)
      then show ?thesis using xs_ge by auto
    qed
    ultimately show ?thesis using 2 by (auto simp: Let_def)
  next
    case 3
    have "\<forall>y \<in> set (pre @ [x]). \<not> steady (set ((pre @ [x]) @ xs)) y" using 3 st Cons.prems(5) by auto
    from Cons.IH [of "pre @ [x]", OF _ _ _ _ this] Cons.prems(1-4) 3 show ?thesis by (auto simp: Let_def split: option.splits)
  qed
qed

text \<open>
  C29: the verdicts of a hand-back sub-run say what the specification says, for samples at distinct times in any
  order. Hand-back (T2) passes exactly when the register was seen at least 16 counts off the written value
  within 60 s of the auto command, and fails exactly when it stayed within 2 counts over a complete
  log; neither holds when the written value is too close to the automatic one. Settling (T3) passes exactly
  when a steady window of 120 s starts within 900 s and fails exactly when the first one starts later or, in a complete
  log, there is none. No verdict is given without samples, without the time of the auto command, or after the
  table input crossed a step.
\<close>

theorem EvalHandback_verdicts:
  assumes "distinct (map d_T (hb_Samples r))"
  shows "let X = set (hb_Samples r); usable = (X \<noteq> {} \<and> hb_TimingKnown r \<and> hb_InputCrossed r = None); s = EvalHandback r
    in (sr_T2 s = Pass \<longleftrightarrow> usable \<and> \<not> too_close r \<and> (\<exists>x \<in> X. dev r x \<ge> 16 \<and> d_T x \<le> 60)) \<and>
       (sr_T2 s = Fail \<longleftrightarrow> usable \<and> \<not> too_close r \<and> (\<forall>x \<in> X. dev r x \<le> 2) \<and> (\<exists>x \<in> X. d_T x \<ge> 1020)) \<and>
       (sr_T3 s = Pass \<longleftrightarrow> usable \<and> (\<exists>x. steady X x \<and> d_T x \<le> 900)) \<and>
       (sr_T3 s = Fail \<longleftrightarrow> usable \<and> (\<forall>x. steady X x \<longrightarrow> d_T x > 900) \<and> ((\<exists>x. steady X x) \<or> (\<exists>x \<in> X. d_T x \<ge> 1020)))"
proof (cases "hb_Samples r = []")
  case True
  then show ?thesis by (simp add: EvalHandback_def blank_result_def)
next
  case False
  define smp where "smp = sort_key d_T (hb_Samples r)"
  let ?l = "d_T (last smp)"
  have smp: "set smp = set (hb_Samples r)" "sorted (map d_T smp)" "distinct (map d_T smp)" "smp \<noteq> []"
    using assms False by (auto simp: smp_def distinct_map distinct_sort) (metis set_empty set_sort)
  have late: "(\<exists>x \<in> set smp. d_T x \<ge> c) \<longleftrightarrow> ?l \<ge> c" for c
    using smp(2,4) by (rule late_iff)
  define s0 where "s0 = (blank_result r (Txt [] []))\<lparr>sr_ObservedS := (if hb_TimingKnown r then ?l else f_sub ?l (d_T (hd smp)))\<rparr>"
  obtain s1 w2 where scan: "fold (scan_sample r) smp (s0, True) = (s1, w2)" by (cases "fold (scan_sample r) smp (s0, True)")
  note f = scan_fold [OF scan]
  define s2 where "s2 = (if w2 then s1\<lparr>sr_HeldS := sr_ObservedS s1\<rparr> else s1)"
  define s4 where "s4 = (case settle_loop ?l smp of None \<Rightarrow> judge_T2 r w2 s2
      | Some x \<Rightarrow> (judge_T2 r w2 s2)\<lparr>sr_Settled := True, sr_SettleAtS := Some (d_T x), sr_FinalValue := Some (d_DCR x)\<rparr>)"
  have eval: "EvalHandback r = crossed_result r ((judge_T3 r ?l s4)\<lparr>sr_held := hb_Hold r \<noteq> [], sr_HoldDeviations := hold_deviations r\<rparr>)"
    using False scan unfolding EvalHandback_def Let_def smp_def [symmetric] s0_def [symmetric] s4_def s2_def by simp
  have blank: "sr_T2 s0 = Inconclusive" "sr_T3 s0 = Inconclusive" "\<not> sr_Left s0" "sr_LeftAtS s0 = None" "sr_SettleAtS s0 = None" "sr_FinalValue s0 = None"
    "hb_TimingKnown r \<Longrightarrow> sr_ObservedS s0 = ?l"
    by (simp_all add: s0_def blank_result_def)
  have s2: "sr_T2 s2 = Inconclusive" "sr_T3 s2 = Inconclusive" "sr_SettleAtS s2 = None" "sr_FinalValue s2 = None"
    "sr_Left s2 \<longleftrightarrow> (\<exists>x \<in> set smp. dev r x \<ge> LeaveCounts)" "hb_TimingKnown r \<Longrightarrow> sr_ObservedS s2 = ?l"
    "sr_LeftAtS s2 = (if hb_TimingKnown r then map_option d_T (find (\<lambda>x. dev r x \<ge> LeaveCounts) smp) else None)"
    using f blank by (auto simp: s2_def split: option.splits)
  have left: "(sr_Left s2 \<and> (\<exists>t. sr_LeftAtS s2 = Some t \<and> t \<le> c)) \<longleftrightarrow> hb_TimingKnown r \<and> (\<exists>x \<in> set smp. dev r x \<ge> LeaveCounts \<and> d_T x \<le> c)" for c
    using find_early [OF smp(2), of "\<lambda>x. dev r x \<ge> LeaveCounts" c] s2(5,7) by auto
  note j2 = judge_T2_T2 [OF s2(1) refl, of r w2]
  have s4: "sr_T2 s4 = sr_T2 (judge_T2 r w2 s2)" "sr_T3 s4 = Inconclusive" "sr_SettleAtS s4 = map_option d_T (settle_loop ?l smp)"
    "sr_SettleAtS s4 = None \<longleftrightarrow> sr_FinalValue s4 = None"
    using j2(3,5,6) s2 by (auto simp: s4_def split: option.splits)
  note j3 = judge_T3_T3 [OF s4(2) refl s4(4), of r ?l]
  have res: "sr_T2 (EvalHandback r) = (if hb_InputCrossed r = None then sr_T2 (judge_T2 r w2 s2) else Inconclusive)"
    "sr_T3 (EvalHandback r) = (if hb_InputCrossed r = None then sr_T3 (judge_T3 r ?l s4) else Inconclusive)"
    using j3(3) s4(1) by (auto simp: eval crossed_result_def split: option.splits)
  have first: "case settle_loop ?l smp of None \<Rightarrow> \<forall>x. \<not> steady (set smp) x
      | Some x \<Rightarrow> steady (set smp) x \<and> (\<forall>y. steady (set smp) y \<longrightarrow> d_T x \<le> d_T y)"
    using settle_loop_first [of "[]" smp ?l, unfolded append_Nil] smp by simp
  have T2P: "sr_T2 (judge_T2 r w2 s2) = Pass \<longleftrightarrow> hb_TimingKnown r \<and> \<not> too_close r \<and> (\<exists>x \<in> set smp. dev r x \<ge> 16 \<and> d_T x \<le> 60)"
    unfolding j2(1) using left [of LeaveWithinS] by (auto simp: spec_numbers)
  have T2F: "sr_T2 (judge_T2 r w2 s2) = Fail \<longleftrightarrow> hb_TimingKnown r \<and> \<not> too_close r \<and> (\<forall>x \<in> set smp. dev r x \<le> 2) \<and> (\<exists>x \<in> set smp. d_T x \<ge> 1020)"
    unfolding j2(2) late using f(1) s2(5,6) by (fastforce simp: spec_numbers)
  have T3P: "sr_T3 (judge_T3 r ?l s4) = Pass \<longleftrightarrow> hb_TimingKnown r \<and> (\<exists>x. steady (set smp) x \<and> d_T x \<le> 900)"
    unfolding j3(1) s4(3) using first by (cases "settle_loop ?l smp") (auto simp: spec_numbers intro: order_trans)
  have T3F: "sr_T3 (judge_T3 r ?l s4) = Fail \<longleftrightarrow> hb_TimingKnown r \<and> (\<forall>x. steady (set smp) x \<longrightarrow> d_T x > 900) \<and>
      ((\<exists>x. steady (set smp) x) \<or> (\<exists>x \<in> set smp. d_T x \<ge> 1020))"
    unfolding j3(2) s4(3) late using first by (cases "settle_loop ?l smp") (auto simp: spec_numbers intro: less_le_trans)
  show ?thesis unfolding Let_def res using T2P T2F T3P T3F False smp(1) by auto
qed

definition handback_demo :: HandbackRun where
  "handback_demo = \<lparr>hb_Label = ''H'', hb_Reg = [], hb_Written = 255, hb_Samples = [\<lparr>d_T = 30, d_DCR = 85\<rparr>, \<lparr>d_T = 5, d_DCR = 255\<rparr>],
     hb_TimingKnown = True, hb_Auto = 85, hb_AutoKnown = True, hb_Hold = [], hb_SettleS = 10, hb_InputCrossed = None\<rparr>"

theorem EvalHandback_verdicts_witness: "sr_T2 (EvalHandback handback_demo) = Pass"
proof -
  have "distinct (map d_T (hb_Samples handback_demo))" by (simp add: handback_demo_def)
  from EvalHandback_verdicts [OF this] show ?thesis unfolding Let_def
    by (simp add: handback_demo_def too_close_def dev_def LeaveCounts_def)
qed

section \<open>Registers and runs\<close>

lemma combine_iff:
  "combine vs = Pass \<longleftrightarrow> vs \<noteq> [] \<and> list_all (\<lambda>v. v = Pass) vs" "combine vs = Fail \<longleftrightarrow> vs \<noteq> [] \<and> list_all (\<lambda>v. v = Fail) vs"
  by (cases vs; auto simp: combine_def)+

lemma merge_regs_iff:
  assumes "all \<noteq> []" "v = Pass \<or> v = Fail"
  shows "fst (merge_regs test get names all) = v \<longleftrightarrow> list_all (\<lambda>x. fst (get x) = v) all"
proof -
  obtain x xs where all: "all = x # xs" using assms(1) by (cases all) auto
  show ?thesis using assms(2) by (auto simp: merge_regs_def Let_def combine_iff all list_all_iff)
qed

text \<open>The verdict of a sub-run over its registers, and its label.\<close>

lemma regs_single:
  "sr_T2 (EvalHandbackRegs []) = Inconclusive" "sr_T3 (EvalHandbackRegs []) = Inconclusive"
  "sr_T2 (EvalHandbackRegs [r]) = sr_T2 (EvalHandback r)" "sr_T3 (EvalHandbackRegs [r]) = sr_T3 (EvalHandback r)"
  "sr_Label (EvalHandbackRegs [r]) = sr_Label (EvalHandback r)"
  by (simp_all add: EvalHandbackRegs_def lift_result_def RegResult.defs blank_result_def)

lemma regs_several:
  assumes "rs = r # r' # rs'"
  shows "\<exists>names. sr_T2 (EvalHandbackRegs rs) = fst (merge_regs ''T2'' (\<lambda>x. (sr_T2 x, sr_T2Reason x)) names (map EvalHandback rs)) \<and>
     sr_T3 (EvalHandbackRegs rs) = fst (merge_regs ''T3'' (\<lambda>x. (sr_T3 x, sr_T3Reason x)) names (map EvalHandback rs))"
    "sr_Label (EvalHandbackRegs rs) = sr_Label (EvalHandback r)"
proof -
  let ?all = "map EvalHandback rs"
  define names where "names = map2 reg_name [0..<length ?all] ?all"
  obtain v2 why2 n2 where m2: "merge_regs ''T2'' (\<lambda>x. (sr_T2 x, sr_T2Reason x)) names ?all = (v2, why2, n2)" by (metis prod_cases3)
  obtain v3 why3 n3 where m3: "merge_regs ''T3'' (\<lambda>x. (sr_T3 x, sr_T3Reason x)) names ?all = (v3, why3, n3)" by (metis prod_cases3)
  have ne: "rs \<noteq> []" "length ?all \<noteq> 1" using assms by auto
  have "sr_T2 (EvalHandbackRegs rs) = v2 \<and> sr_T3 (EvalHandbackRegs rs) = v3 \<and> sr_Label (EvalHandbackRegs rs) = sr_Label (EvalHandback r)"
    unfolding EvalHandbackRegs_def Let_def names_def [symmetric] m2 m3 if_not_P [OF ne(1)] if_not_P [OF ne(2)]
    using assms by (simp add: lift_result_def RegResult.defs)
  then show "\<exists>names. sr_T2 (EvalHandbackRegs rs) = fst (merge_regs ''T2'' (\<lambda>x. (sr_T2 x, sr_T2Reason x)) names (map EvalHandback rs)) \<and>
     sr_T3 (EvalHandbackRegs rs) = fst (merge_regs ''T3'' (\<lambda>x. (sr_T3 x, sr_T3Reason x)) names (map EvalHandback rs))"
    "sr_Label (EvalHandbackRegs rs) = sr_Label (EvalHandback r)"
    using m2 m3 by (auto intro!: exI [of _ names])
qed

lemma regs_verdict:
  assumes "v = Pass \<or> v = Fail"
  shows "sr_T2 (EvalHandbackRegs rs) = v \<longleftrightarrow> rs \<noteq> [] \<and> list_all (\<lambda>r. sr_T2 (EvalHandback r) = v) rs"
    "sr_T3 (EvalHandbackRegs rs) = v \<longleftrightarrow> rs \<noteq> [] \<and> list_all (\<lambda>r. sr_T3 (EvalHandback r) = v) rs"
    "rs \<noteq> [] \<Longrightarrow> sr_Label (EvalHandbackRegs rs) = sr_Label (EvalHandback (hd rs))"
proof -
  consider "rs = []" | r where "rs = [r]" | r r' rs' where "rs = r # r' # rs'" by (metis neq_Nil_conv)
  then have "(sr_T2 (EvalHandbackRegs rs) = v \<longleftrightarrow> rs \<noteq> [] \<and> list_all (\<lambda>r. sr_T2 (EvalHandback r) = v) rs) \<and>
    (sr_T3 (EvalHandbackRegs rs) = v \<longleftrightarrow> rs \<noteq> [] \<and> list_all (\<lambda>r. sr_T3 (EvalHandback r) = v) rs) \<and>
    (rs \<noteq> [] \<longrightarrow> sr_Label (EvalHandbackRegs rs) = sr_Label (EvalHandback (hd rs)))"
  proof cases
    case (3 r r' rs')
    obtain names where "sr_T2 (EvalHandbackRegs rs) = fst (merge_regs ''T2'' (\<lambda>x. (sr_T2 x, sr_T2Reason x)) names (map EvalHandback rs))"
      "sr_T3 (EvalHandbackRegs rs) = fst (merge_regs ''T3'' (\<lambda>x. (sr_T3 x, sr_T3Reason x)) names (map EvalHandback rs))"
      using regs_several(1) [OF 3] by blast
    moreover have "map EvalHandback rs \<noteq> []" using 3 by simp
    ultimately show ?thesis using regs_several(2) [OF 3] 3 merge_regs_iff [OF _ assms] by (simp add: list_all_iff)
  qed (use assms regs_single in auto)
  then show "sr_T2 (EvalHandbackRegs rs) = v \<longleftrightarrow> rs \<noteq> [] \<and> list_all (\<lambda>r. sr_T2 (EvalHandback r) = v) rs"
    "sr_T3 (EvalHandbackRegs rs) = v \<longleftrightarrow> rs \<noteq> [] \<and> list_all (\<lambda>r. sr_T3 (EvalHandback r) = v) rs"
    "rs \<noteq> [] \<Longrightarrow> sr_Label (EvalHandbackRegs rs) = sr_Label (EvalHandback (hd rs))"
    by blast+
qed

lemma EvalHandback_label: "sr_Label (EvalHandback r) = hb_Label r"
proof -
  have scan: "sr_Label (fst (fold (scan_sample r) xs a)) = sr_Label (fst a)" for xs and a :: "RegResult \<times> bool"
    by (induction xs arbitrary: a) (auto simp: scan_sample_def Let_def split: prod.splits)
  have j: "sr_Label (judge_T2 r w s) = sr_Label s" "sr_Label (judge_T3 r l s) = sr_Label s" "sr_Label (crossed_result r s) = sr_Label s" for w l s
    by (auto simp: judge_T2_def judge_T3_def crossed_result_def Let_def split: option.splits bool.splits)
  obtain s1 w2 where f: "fold (scan_sample r) (sort_key d_T (hb_Samples r))
     ((blank_result r (Txt [] []))\<lparr>sr_ObservedS := (if hb_TimingKnown r then d_T (last (sort_key d_T (hb_Samples r)))
        else f_sub (d_T (last (sort_key d_T (hb_Samples r)))) (d_T (hd (sort_key d_T (hb_Samples r)))))\<rparr>, True) = (s1, w2)"
    by (metis surj_pair)
  have "sr_Label s1 = hb_Label r" using arg_cong [OF f, of "\<lambda>a. sr_Label (fst a)"] unfolding scan by (simp add: blank_result_def)
  then show ?thesis unfolding EvalHandback_def Let_def f by (simp add: j blank_result_def split: option.splits)
qed

definition all_say :: "(RegResult \<Rightarrow> Verdict) \<Rightarrow> Verdict \<Rightarrow> string list \<Rightarrow> HandbackRun list list \<Rightarrow> bool" where
  "all_say get v want subs \<longleftrightarrow> subs \<noteq> [] \<and> list_all (\<lambda>l. list_ex (\<lambda>rs. hb_Label (hd rs) = l) subs) want \<and>
     list_all (\<lambda>rs. rs \<noteq> [] \<and> list_all (\<lambda>r. get (EvalHandback r) = v) rs) subs"

lemma run_results_iff:
  assumes "v = Pass \<or> v = Fail"
  shows "rr_Verdict (fst (run_results want i (map EvalHandbackRegs subs))) = v \<longleftrightarrow> all_say sr_T2 v want subs"
    "rr_Verdict (snd (run_results want i (map EvalHandbackRegs subs))) = v \<longleftrightarrow> all_say sr_T3 v want subs"
proof -
  let ?missing = "filter (\<lambda>l. l \<notin> set (map sr_Label (map EvalHandbackRegs subs))) want"
  have label: "?missing = [] \<longleftrightarrow> list_all (\<lambda>l. list_ex (\<lambda>rs. hb_Label (hd rs) = l) subs) want" if "list_all (\<lambda>rs. rs \<noteq> []) subs"
    using that regs_verdict(3) [of Pass] EvalHandback_label by (auto simp: filter_empty_conv list_all_iff list_ex_iff)
  have c: "combine (map sr_T2 (map EvalHandbackRegs subs)) = v \<longleftrightarrow> subs \<noteq> [] \<and> list_all (\<lambda>rs. rs \<noteq> [] \<and> list_all (\<lambda>r. sr_T2 (EvalHandback r) = v) rs) subs"
    "combine (map sr_T3 (map EvalHandbackRegs subs)) = v \<longleftrightarrow> subs \<noteq> [] \<and> list_all (\<lambda>rs. rs \<noteq> [] \<and> list_all (\<lambda>r. sr_T3 (EvalHandback r) = v) rs) subs"
    using assms regs_verdict [of v] by (auto simp: combine_iff list_all_iff)
  have ne: "list_all (\<lambda>rs. rs \<noteq> [] \<and> P rs) subs \<Longrightarrow> list_all (\<lambda>rs. rs \<noteq> []) subs" for P by (simp add: list_all_iff)
  show "rr_Verdict (fst (run_results want i (map EvalHandbackRegs subs))) = v \<longleftrightarrow> all_say sr_T2 v want subs"
    using c(1) ne label assms unfolding all_say_def run_results_def Let_def by (cases "?missing = []") auto
  show "rr_Verdict (snd (run_results want i (map EvalHandbackRegs subs))) = v \<longleftrightarrow> all_say sr_T3 v want subs"
    using c(2) ne label assms unfolding all_say_def run_results_def Let_def by (cases "?missing = []") auto
qed

lemma list_all_map2_nth: "length xs = length ys \<Longrightarrow> (\<And>x y. P (f x y) \<longleftrightarrow> Q y) \<Longrightarrow> list_all P (map2 f xs ys) \<longleftrightarrow> list_all Q ys"
  by (induction xs ys rule: list_induct2) auto

text \<open>
  A channel passes (or fails) the hand-back and settling tests only on full evidence: at least three
  repetitions, in each of them a sub-run of every direction asked for, and in every sub-run that verdict for every
  judged register. Anything else is inconclusive.
\<close>

theorem aggregate_needs_all:
  "let (t2, t3) = AggregateHandback ch (map (map EvalHandbackRegs) hs) want
   in (res_Verdict t2 = Pass \<longleftrightarrow> length hs \<ge> 3 \<and> list_all (all_say sr_T2 Pass want) hs) \<and>
      (res_Verdict t2 = Fail \<longleftrightarrow> length hs \<ge> 3 \<and> list_all (all_say sr_T2 Fail want) hs) \<and>
      (res_Verdict t3 = Pass \<longleftrightarrow> length hs \<ge> 3 \<and> list_all (all_say sr_T3 Pass want) hs) \<and>
      (res_Verdict t3 = Fail \<longleftrightarrow> length hs \<ge> 3 \<and> list_all (all_say sr_T3 Fail want) hs) \<and>
      {res_Verdict t2, res_Verdict t3} \<subseteq> {Pass, Fail, Inconclusive}"
proof -
  let ?runs = "map (map EvalHandbackRegs) hs"
  let ?rrs = "map2 (run_results want) [0..<length ?runs] ?runs"
  obtain h2 h3 where h: "hold_criteria (map fst ?rrs) = (h2, h3)" by (metis surj_pair)
  have v: "res_Verdict (fst (AggregateHandback ch ?runs want)) = (if length hs < 3 then Inconclusive else combine (map rr_Verdict (map fst ?rrs)))"
    "res_Verdict (snd (AggregateHandback ch ?runs want)) = (if length hs < 3 then Inconclusive else combine (map rr_Verdict (map snd ?rrs)))"
    unfolding AggregateHandback_def Let_def h RunsRequired_def by (simp_all del: upt_Suc)
  have rr: "?rrs = map2 (\<lambda>i subs. run_results want i (map EvalHandbackRegs subs)) [0..<length hs] hs"
    by (auto simp: zip_map2 simp del: upt_Suc)
  have len: "length [0..<length hs] = length hs" by simp
  have c: "list_all (\<lambda>x. rr_Verdict (fst x) = w) ?rrs \<longleftrightarrow> list_all (all_say sr_T2 w want) hs"
    "list_all (\<lambda>x. rr_Verdict (snd x) = w) ?rrs \<longleftrightarrow> list_all (all_say sr_T3 w want) hs" if "w = Pass \<or> w = Fail" for w
    unfolding rr using run_results_iff [OF that] by (intro list_all_map2_nth [OF len]; simp)+
  have ne: "?rrs = [] \<longleftrightarrow> hs = []" by (cases hs) (simp_all del: upt_Suc)
  have "combine vs \<in> {Pass, Fail, Inconclusive}" for vs by (simp add: combine_def)
  then have ran: "res_Verdict (fst (AggregateHandback ch ?runs want)) \<in> {Pass, Fail, Inconclusive}"
    "res_Verdict (snd (AggregateHandback ch ?runs want)) \<in> {Pass, Fail, Inconclusive}" unfolding v by simp_all
  have c2: "combine (map rr_Verdict (map fst ?rrs)) = w \<longleftrightarrow> hs \<noteq> [] \<and> list_all (all_say sr_T2 w want) hs"
    "combine (map rr_Verdict (map snd ?rrs)) = w \<longleftrightarrow> hs \<noteq> [] \<and> list_all (all_say sr_T3 w want) hs" if "w = Pass \<or> w = Fail" for w
    using that c [OF that] ne by (auto simp: combine_iff list.pred_map comp_def simp del: upt_Suc)
  have V: "res_Verdict (fst (AggregateHandback ch ?runs want)) = w \<longleftrightarrow> length hs \<ge> 3 \<and> list_all (all_say sr_T2 w want) hs"
    "res_Verdict (snd (AggregateHandback ch ?runs want)) = w \<longleftrightarrow> length hs \<ge> 3 \<and> list_all (all_say sr_T3 w want) hs" if "w = Pass \<or> w = Fail" for w
  proof -
    show "res_Verdict (fst (AggregateHandback ch ?runs want)) = w \<longleftrightarrow> length hs \<ge> 3 \<and> list_all (all_say sr_T2 w want) hs"
      using that c2(1) [OF that] unfolding v by (cases "length hs < 3") auto
    show "res_Verdict (snd (AggregateHandback ch ?runs want)) = w \<longleftrightarrow> length hs \<ge> 3 \<and> list_all (all_say sr_T3 w want) hs"
      using that c2(2) [OF that] unfolding v by (cases "length hs < 3") auto
  qed
  show ?thesis unfolding case_prod_beta Let_def using V [of Pass] V [of Fail] ran by blast
qed

section \<open>The mapping test\<close>

definition judged_from :: "T1Step \<Rightarrow> nat \<Rightarrow> int list \<Rightarrow> int list" where
  "judged_from st i vs = map snd (filter (\<lambda>(k, v). judged st k) (enumerate i vs))"

definition reg_values :: "(T1Step \<Rightarrow> int list) \<Rightarrow> T1Step \<Rightarrow> int list" where
  "reg_values get st = judged_from st 0 (get st)"

lemma judge_series_iff:
  "sq_Judged (judge_series name st i vs q) = sq_Judged q + int (length (judged_from st i vs))"
  "sq_Miss (judge_series name st i vs q) = sq_Miss q + int (length (filter (\<lambda>v. v < 0) (judged_from st i vs)))"
  "sq_Differs (judge_series name st i vs q) = None \<longleftrightarrow> sq_Differs q = None \<and> list_all (\<lambda>v. v < 0 \<or> v = st_Duty st) (judged_from st i vs)"
proof -
  have "sq_Judged (judge_series name st i vs q) = sq_Judged q + int (length (judged_from st i vs)) \<and>
    sq_Miss (judge_series name st i vs q) = sq_Miss q + int (length (filter (\<lambda>v. v < 0) (judged_from st i vs))) \<and>
    (sq_Differs (judge_series name st i vs q) = None \<longleftrightarrow> sq_Differs q = None \<and> list_all (\<lambda>v. v < 0 \<or> v = st_Duty st) (judged_from st i vs))"
    by (induction vs arbitrary: i q) (auto simp: Let_def judged_from_def)
  then show "sq_Judged (judge_series name st i vs q) = sq_Judged q + int (length (judged_from st i vs))"
    "sq_Miss (judge_series name st i vs q) = sq_Miss q + int (length (filter (\<lambda>v. v < 0) (judged_from st i vs)))"
    "sq_Differs (judge_series name st i vs q) = None \<longleftrightarrow> sq_Differs q = None \<and> list_all (\<lambda>v. v < 0 \<or> v = st_Duty st) (judged_from st i vs)"
    by blast+
qed

text \<open>What the later parts of the test read of a step; marking samples as not judged leaves it alone.\<close>

definition data_of :: "T1Step \<Rightarrow> int \<times> int list \<times> int list \<times> (int \<Rightarrow> int list) \<times> rat list \<times> rat \<times> (int \<Rightarrow> nfloat list)" where
  "data_of st = (st_Duty st, st_DCR st, st_DCR4 st, st_Fans st, st_DueS st, st_SettleS st, st_Inputs st)"

lemma data_ofD:
  assumes "data_of a = data_of b"
  shows "st_Duty a = st_Duty b" "st_DCR a = st_DCR b" "st_DCR4 a = st_DCR4 b" "st_Fans a = st_Fans b" "judged a = judged b" "st_Inputs a = st_Inputs b"
  using assms by (auto simp: data_of_def judged_def fun_eq_iff)

definition step_complete :: "(T1Step \<Rightarrow> int list) \<Rightarrow> T1Step \<Rightarrow> bool" where
  "step_complete get st \<longleftrightarrow> reg_values get st \<noteq> [] \<and> list_all (\<lambda>v. v \<ge> 0) (reg_values get st)"

definition step_agrees :: "(T1Step \<Rightarrow> int list) \<Rightarrow> T1Step \<Rightarrow> bool" where
  "step_agrees get st \<longleftrightarrow> list_all (\<lambda>v. v < 0 \<or> v = st_Duty st) (reg_values get st)"

lemma judge_step_iff:
  assumes "judge_step name get st j = (st', j')"
  shows "dj_OK j' \<longleftrightarrow> dj_OK j \<and> step_agrees get st" "dj_Known j' \<longleftrightarrow> dj_Known j \<and> step_complete get st" "data_of st' = data_of st"
proof -
  let ?q = "judge_series name st 0 (get st) no_series"
  have q: "sq_Judged ?q = int (length (reg_values get st))" "sq_Miss ?q = int (length (filter (\<lambda>v. v < 0) (reg_values get st)))"
    "sq_Differs ?q = None \<longleftrightarrow> step_agrees get st"
    by (simp_all add: judge_series_iff reg_values_def step_agrees_def no_series_def)
  have miss: "sq_Miss ?q > 0 \<longleftrightarrow> \<not> list_all (\<lambda>v. v \<ge> 0) (reg_values get st)"
    unfolding q(2) by (force simp: list_all_iff filter_empty_conv)
  have nil: "get st = [] \<Longrightarrow> reg_values get st = []" by (simp add: reg_values_def judged_from_def)
  show "dj_OK j' \<longleftrightarrow> dj_OK j \<and> step_agrees get st" "data_of st' = data_of st"
    using assms q(3) nil by (auto simp: judge_step_def Let_def data_of_def step_agrees_def split: if_splits option.splits)
  show "dj_Known j' \<longleftrightarrow> dj_Known j \<and> step_complete get st"
    using assms q(1) miss nil by (auto simp: judge_step_def Let_def step_complete_def split: if_splits option.splits)
qed

definition reads_data :: "(T1Step \<Rightarrow> int list) \<Rightarrow> bool" where
  "reads_data get \<longleftrightarrow> (\<forall>a b. data_of a = data_of b \<longrightarrow> get a = get b)"

lemma step_cong:
  assumes "reads_data get" "data_of a = data_of b"
  shows "step_agrees get a = step_agrees get b" "step_complete get a = step_complete get b"
proof -
  have "get a = get b" using assms unfolding reads_data_def by blast
  then have "reg_values get a = reg_values get b" by (simp only: reg_values_def judged_from_def data_ofD(5) [OF assms(2)])
  then show "step_agrees get a = step_agrees get b" "step_complete get a = step_complete get b"
    by (simp_all only: step_agrees_def step_complete_def data_ofD(1) [OF assms(2)])
qed

lemma judge_steps_iff:
  assumes "for_each (judge_step name get) steps j = (steps', j')"
  shows "dj_OK j' \<longleftrightarrow> dj_OK j \<and> list_all (step_agrees get) steps" "dj_Known j' \<longleftrightarrow> dj_Known j \<and> list_all (step_complete get) steps"
    "map data_of steps' = map data_of steps"
proof -
  have "(dj_OK j' \<longleftrightarrow> dj_OK j \<and> list_all (step_agrees get) steps) \<and> (dj_Known j' \<longleftrightarrow> dj_Known j \<and> list_all (step_complete get) steps) \<and>
    map data_of steps' = map data_of steps"
    using assms
  proof (induction steps arbitrary: j steps' j')
    case (Cons st steps)
    obtain st1 j1 where s: "judge_step name get st j = (st1, j1)" by (metis surj_pair)
    obtain steps1 j2 where r: "for_each (judge_step name get) steps j1 = (steps1, j2)" by (metis surj_pair)
    have e: "steps' = st1 # steps1" "j' = j2" using Cons.prems s r by simp_all
    show ?case using judge_step_iff [OF s] Cons.IH [OF r] e by auto
  qed simp
  then show "dj_OK j' \<longleftrightarrow> dj_OK j \<and> list_all (step_agrees get) steps" "dj_Known j' \<longleftrightarrow> dj_Known j \<and> list_all (step_complete get) steps"
    "map data_of steps' = map data_of steps" by blast+
qed

lemma list_all_data:
  assumes "map data_of xs = map data_of ys" "\<And>a b. data_of a = data_of b \<Longrightarrow> P a = P b"
  shows "list_all P xs = list_all P ys"
proof -
  have "length xs = length ys" using assms(1) by (rule map_eq_imp_length_eq)
  then show ?thesis using assms(1)
  proof (induction xs ys rule: list_induct2)
    case (Cons x xs y ys)
    then have "P x = P y" by (intro assms(2)) simp
    then show ?case using Cons by simp
  qed simp
qed

lemma judge_regs_iff:
  assumes "judge_regs regs (steps, j) = (steps', j')" "\<forall>(name, get) \<in> set regs. reads_data get"
  shows "dj_OK j' \<longleftrightarrow> dj_OK j \<and> list_all (\<lambda>(name, get). list_all (step_agrees get) steps) regs"
    "dj_Known j' \<longleftrightarrow> dj_Known j \<and> list_all (\<lambda>(name, get). list_all (step_complete get) steps) regs"
    "map data_of steps' = map data_of steps"
proof -
  have "(dj_OK j' \<longleftrightarrow> dj_OK j \<and> list_all (\<lambda>(name, get). list_all (step_agrees get) steps) regs) \<and>
    (dj_Known j' \<longleftrightarrow> dj_Known j \<and> list_all (\<lambda>(name, get). list_all (step_complete get) steps) regs) \<and> map data_of steps' = map data_of steps"
    using assms
  proof (induction regs arbitrary: steps j)
    case (Cons reg regs)
    obtain name get where g: "reg = (name, get)" by (metis surj_pair)
    obtain steps1 j1 where s: "for_each (judge_step name get) steps j = (steps1, j1)" by (metis surj_pair)
    have r: "judge_regs regs (steps1, j1) = (steps', j')" using Cons.prems(1) g s by (simp add: judge_regs_def)
    note f = judge_steps_iff [OF s]
    have eq: "list_all (step_agrees get') steps1 = list_all (step_agrees get') steps"
      "list_all (step_complete get') steps1 = list_all (step_complete get') steps" if "reads_data get'" for get'
      using list_all_data [OF f(3)] step_cong [OF that] by blast+
    have rd: "reads_data (snd x)" if "x \<in> set regs" for x using Cons.prems(2) that by auto
    have "list_all (\<lambda>(name, get). list_all (step_agrees get) steps1) regs = list_all (\<lambda>(name, get). list_all (step_agrees get) steps) regs"
      "list_all (\<lambda>(name, get). list_all (step_complete get) steps1) regs = list_all (\<lambda>(name, get). list_all (step_complete get) steps) regs"
      using eq [OF rd] by (auto intro!: list.pred_cong [OF refl])
    then show ?case using Cons.IH [OF r] Cons.prems(2) f g by auto
  qed (simp add: judge_regs_def)
  then show "dj_OK j' \<longleftrightarrow> dj_OK j \<and> list_all (\<lambda>(name, get). list_all (step_agrees get) steps) regs"
    "dj_Known j' \<longleftrightarrow> dj_Known j \<and> list_all (\<lambda>(name, get). list_all (step_complete get) steps) regs"
    "map data_of steps' = map data_of steps" by blast+
qed

text \<open>Noise, following tachs and the own tach, as conditions on the numbers.\<close>

definition quiet :: "(int \<Rightarrow> int list) \<Rightarrow> int \<Rightarrow> bool" where
  "quiet rest f \<longleftrightarrow> (\<forall>x \<in> set (rest f). \<forall>y \<in> set (rest f). 0 \<le> x \<and> 0 \<le> y \<longrightarrow> x - y \<le> 50)"

definition stays :: "(int \<Rightarrow> int list) \<Rightarrow> T1Step list \<Rightarrow> int \<Rightarrow> bool" where
  "stays rest steps f \<longleftrightarrow> (\<forall>base st v. mean_ints (rest f) = Some base \<and> st \<in> set steps \<and> v \<in> set (st_Fans st f) \<and> 0 \<le> v \<longrightarrow>
     \<bar>f_sub (f_int v) base\<bar> \<le> 50)"

fun drops :: "rat option list \<Rightarrow> bool" where
  "drops [] = True"
| "drops [m] = (m \<noteq> None)"
| "drops (m # n # ms) = (m \<noteq> None \<and> (\<forall>p q. m = Some p \<and> n = Some q \<longrightarrow> f_sub p q \<ge> 200) \<and> drops (n # ms))"

definition own_means :: "int \<Rightarrow> T1Step list \<Rightarrow> rat option list" where
  "own_means own steps = map (\<lambda>st. mean_ints (last3 (st_Fans st own))) steps"

lemma spread_snoc: "spread (v @ [x]) = (if x < 0 then spread v else
    (case spread v of None \<Rightarrow> Some (x, x) | Some (lo, hi) \<Rightarrow> Some (if x < lo then x else lo, if x > hi then x else hi)))"
  by (simp add: spread_def)

lemma spread_bounds:
  "spread v = None \<Longrightarrow> x \<in> set v \<Longrightarrow> x < 0"
  "spread v = Some (lo, hi) \<Longrightarrow> lo \<in> set v \<and> hi \<in> set v \<and> 0 \<le> lo \<and> lo \<le> hi"
  "spread v = Some (lo, hi) \<Longrightarrow> x \<in> set v \<Longrightarrow> x < 0 \<or> lo \<le> x \<and> x \<le> hi"
proof -
  show "spread v = None \<Longrightarrow> x \<in> set v \<Longrightarrow> x < 0" for x
    by (induction v rule: rev_induct) (auto simp: spread_snoc split: if_splits option.splits)
  show "spread v = Some (lo, hi) \<Longrightarrow> lo \<in> set v \<and> hi \<in> set v \<and> 0 \<le> lo \<and> lo \<le> hi" for lo hi
  proof (induction v arbitrary: lo hi rule: rev_induct)
    case (snoc y v)
    then show ?case by (cases "spread v") (auto simp: spread_snoc split: if_splits)
  qed (simp add: spread_def)
  show "spread v = Some (lo, hi) \<Longrightarrow> x \<in> set v \<Longrightarrow> x < 0 \<or> lo \<le> x \<and> x \<le> hi" for lo hi x
  proof (induction v arbitrary: lo hi rule: rev_induct)
    case (snoc y v)
    show ?case
    proof (cases "spread v")
      case None
      then have "x \<in> set v \<Longrightarrow> x < 0" for x
        by (induction v arbitrary: x rule: rev_induct) (auto simp: spread_snoc split: if_splits option.splits)
      then show ?thesis using snoc.prems None by (auto simp: spread_snoc split: if_splits)
    next
      case (Some a)
      then show ?thesis using snoc.IH [of "fst a" "snd a"] snoc.prems by (cases a) (auto simp: spread_snoc split: if_splits)
    qed
  qed simp
qed

lemma quiet_iff: "(case spread (rest f) of Some (lo, hi) \<Rightarrow> hi - lo \<le> 50 | None \<Rightarrow> True) \<longleftrightarrow> quiet rest f"
proof (cases "spread (rest f)")
  case None
  then show ?thesis using spread_bounds(1) [OF None] by (auto simp: quiet_def) (metis linorder_not_less)
next
  case (Some a)
  obtain lo hi where a: "spread (rest f) = Some (lo, hi)" using Some by (cases a) auto
  have "quiet rest f \<longleftrightarrow> hi - lo \<le> 50"
  proof
    assume "quiet rest f"
    then show "hi - lo \<le> 50" using spread_bounds(2) [OF a] unfolding quiet_def by fastforce
  next
    assume h: "hi - lo \<le> 50"
    show "quiet rest f" unfolding quiet_def
    proof (intro ballI impI)
      fix x y assume "x \<in> set (rest f)" "y \<in> set (rest f)" "0 \<le> x \<and> 0 \<le> y"
      then show "x - y \<le> 50" using h spread_bounds(3) [OF a, of x] spread_bounds(3) [OF a, of y] by linarith
    qed
  qed
  then show ?thesis using a by simp
qed

lemma noisy_iff: "noisy_fans rest fans = [] \<longleftrightarrow> list_all (quiet rest) fans"
proof -
  have "quiet rest f \<longleftrightarrow> (case spread (rest f) of Some (lo, hi) \<Rightarrow> if hi - lo > T1OtherRPM then [(f, hi - lo)] else [] | None \<Rightarrow> []) = []" for f
    unfolding quiet_iff [symmetric] T1OtherRPM_def by (auto split: option.splits prod.splits)
  then show ?thesis by (simp add: noisy_fans_def list_all_iff)
qed

lemma follows_iff: "follows_of rest steps own fans = [] \<longleftrightarrow> list_all (stays rest steps) (filter (\<lambda>f. f \<noteq> own) fans)"
proof -
  have "follow_of rest steps f = [] \<longleftrightarrow> stays rest steps f" for f
  proof (cases "mean_ints (rest f)")
    case (Some base)
    have "(case find (\<lambda>v. v \<ge> 0 \<and> \<bar>f_sub (f_int v) base\<bar> > of_int T1OtherRPM) (st_Fans st f) of None \<Rightarrow> [] | Some v \<Rightarrow> [(f, v, st_Duty st, base)]) = []
        \<longleftrightarrow> (\<forall>v \<in> set (st_Fans st f). 0 \<le> v \<longrightarrow> \<bar>f_sub (f_int v) base\<bar> \<le> 50)" for st
      by (auto simp: find_None_iff T1OtherRPM_def not_less split: option.splits) (auto simp: find_Some_iff)
    then show ?thesis using Some by (auto simp: follow_of_def stays_def)
  qed (simp add: follow_of_def stays_def)
  then show ?thesis by (simp add: follows_of_def list_all_iff)
qed

lemma own_loop_iff: "snd (own_loop own prev steps) = [] \<longleftrightarrow> (case prev of
    Some (d, Some p) \<Rightarrow> drops (Some p # own_means own steps)
  | Some (d, None) \<Rightarrow> drops (own_means own steps) | None \<Rightarrow> drops (own_means own steps))"
proof (induction steps arbitrary: prev)
  case Nil
  show ?case by (auto simp: own_means_def split: option.splits)
next
  case (Cons st steps)
  let ?k = "mean_ints (last3 (st_Fans st own))"
  obtain sts' rest where r: "own_loop own (Some (st_Duty st, ?k)) steps = (sts', rest)" by (metis surj_pair)
  have IH: "rest = [] \<longleftrightarrow> (case ?k of Some p \<Rightarrow> drops (Some p # own_means own steps) | None \<Rightarrow> drops (own_means own steps))"
    using Cons.IH [of "Some (st_Duty st, ?k)"] r by (simp split: option.splits)
  have m: "own_means own (st # steps) = ?k # own_means own steps" by (simp add: own_means_def)
  show ?case
  proof (cases ?k)
    case None
    then have "\<not> drops (?k # own_means own steps)" by (cases "own_means own steps") auto
    then show ?thesis using None r m by (auto simp: Let_def split: option.splits)
  next
    case (Some p)
    then show ?thesis using IH r m by (auto simp: Let_def T1OwnStepRPM_def split: option.splits)
  qed
qed

lemma concat_map_data:
  assumes "map data_of xs = map data_of ys" "\<And>a b. data_of a = data_of b \<Longrightarrow> F a = F b"
  shows "map F xs = map F ys"
proof -
  have "length xs = length ys" using assms(1) by (rule map_eq_imp_length_eq)
  then show ?thesis using assms(1)
  proof (induction xs ys rule: list_induct2)
    case (Cons x xs y ys)
    then have "F x = F y" by (intro assms(2)) simp
    then show ?case using Cons by simp
  qed simp
qed

lemma later_parts_cong:
  assumes "map data_of xs = map data_of ys"
  shows "stays rest xs = stays rest ys" "crossed_inputs ch restIn xs = crossed_inputs ch restIn ys" "own_means own xs = own_means own ys"
proof -
  have f: "map st_Fans xs = map st_Fans ys" "map st_Inputs xs = map st_Inputs ys"
    using assms by (auto intro!: concat_map_data [OF assms] data_ofD)
  have "st_Fans ` set xs = st_Fans ` set ys" using f(1) by (metis list.set_map)
  moreover have "stays rest zs f \<longleftrightarrow> (\<forall>base g v. mean_ints (rest f) = Some base \<and> g \<in> st_Fans ` set zs \<and> v \<in> set (g f) \<and> 0 \<le> v \<longrightarrow> \<bar>f_sub (f_int v) base\<bar> \<le> 50)" for zs f
    unfolding stays_def by blast
  ultimately show "stays rest xs = stays rest ys" by (intro ext) simp
  have "step_inputs xs oc = step_inputs ys oc" for oc
    using arg_cong [OF f(2), of "\<lambda>gs. concat (map (\<lambda>g. g oc) gs)"] by (simp add: step_inputs_def comp_def)
  then show "crossed_inputs ch restIn xs = crossed_inputs ch restIn ys" by (simp add: crossed_inputs_def)
  show "own_means own xs = own_means own ys"
    using arg_cong [OF f(1), of "map (\<lambda>g. mean_ints (last3 (g own)))"] by (simp add: own_means_def comp_def)
qed

lemma cross_reasons_ne: "follows \<noteq> [] \<Longrightarrow> crossed \<noteq> [] \<Longrightarrow> cross_reasons fans follows crossed \<noteq> []"
  unfolding cross_reasons_def Let_def by (auto simp del: concat_eq_Nil_conv)

lemma t1_regs_reads: "\<forall>(name, get) \<in> set (t1_regs ch). reads_data get"
  by (auto simp: t1_regs_def reads_data_def data_of_def)

text \<open>
  C30: the verdict of the mapping test. A channel passes exactly when every judged register sample of every step
  was read and equals the written duty (with at least one such sample per step and register), every tach is
  quiet at rest, every other tach stays within 50 rpm of its rest mean, and the own tach falls by at least 200 rpm from
  step to step. It fails exactly when a judged sample differs, or when another tach follows although no
  tach was noisy and no table input crossed a step. Anything else is inconclusive.
\<close>

theorem T1_verdicts:
  "let v = res_Verdict (EvalT1Inputs ch own rest restIn steps fans);
       agree = list_all (\<lambda>(name, get). list_all (step_agrees get) steps) (t1_regs ch);
       complete = list_all (\<lambda>(name, get). list_all (step_complete get) steps) (t1_regs ch);
       others_stay = list_all (stays rest steps) (filter (\<lambda>f. f \<noteq> own) fans)
   in (v = Pass \<longleftrightarrow> agree \<and> complete \<and> list_all (quiet rest) fans \<and> others_stay \<and> (own \<le> 0 \<or> drops (own_means own steps))) \<and>
      (v = Fail \<longleftrightarrow> \<not> agree \<or> \<not> others_stay \<and> list_all (quiet rest) fans \<and> crossed_inputs ch restIn steps = []) \<and>
      v \<in> {Pass, Fail, Inconclusive}"
proof -
  let ?j0 = "\<lparr>dj_Known = True, dj_OK = True, dj_Bad = [], dj_Missing = [], dj_NotJudged = 0\<rparr>"
  obtain steps1 j where reg: "judge_regs (t1_regs ch) (steps, ?j0) = (steps1, j)" by (metis surj_pair)
  note f = judge_regs_iff [OF reg t1_regs_reads]
  note same = later_parts_cong [OF f(3)]
  obtain steps2 short where own: "(if own > 0 then own_loop own None steps1 else (steps1, [])) = (steps2, short)" by (metis surj_pair)
  have short: "short = [] \<longleftrightarrow> own \<le> 0 \<or> drops (own_means own steps)"
    using own own_loop_iff [of own None steps1] same(3) [of own] by (cases "own > 0") auto
  obtain diff compared where cmp: "compare_regs steps2 = (diff, compared)" by (metis surj_pair)
  let ?follows = "follows_of rest steps1 own fans" and ?crossed = "crossed_inputs ch restIn steps1"
  obtain verdict reasons where tv: "t1_verdict ch own j (?follows \<noteq> []) (noisy_fans rest fans \<noteq> []) (?crossed \<noteq> [])
      (cross_reasons fans ?follows ?crossed) (short = []) = (verdict, reasons)" by (metis surj_pair)
  have v: "res_Verdict (EvalT1Inputs ch own rest restIn steps fans) = verdict"
    unfolding EvalT1Inputs_def Let_def reg own cmp prod.case tv by simp
  have cw: "?follows \<noteq> [] \<and> ?crossed \<noteq> [] \<longrightarrow> cross_reasons fans ?follows ?crossed \<noteq> []" using cross_reasons_ne by blast
  have V: "(verdict = Pass \<longleftrightarrow> dj_OK j \<and> dj_Known j \<and> noisy_fans rest fans = [] \<and> ?follows = [] \<and> short = []) \<and>
      (verdict = Fail \<longleftrightarrow> \<not> dj_OK j \<or> ?follows \<noteq> [] \<and> noisy_fans rest fans = [] \<and> ?crossed = []) \<and> verdict \<in> {Pass, Fail, Inconclusive}"
    using tv cw unfolding t1_verdict_def by (auto split: if_splits)
  have ok: "dj_OK j \<longleftrightarrow> list_all (\<lambda>(name, get). list_all (step_agrees get) steps) (t1_regs ch)"
    "dj_Known j \<longleftrightarrow> list_all (\<lambda>(name, get). list_all (step_complete get) steps) (t1_regs ch)" using f(1,2) by simp_all
  show ?thesis using V unfolding Let_def v ok noisy_iff follows_iff short same by blast
qed

definition t1_demo :: T1Step where
  "t1_demo = \<lparr>st_Duty = 140, st_DCR = [140, 140], st_DCR4 = [], st_Fans = (\<lambda>_. []), st_OwnRPM = 0, st_DueS = [], st_SettleS = 1,
     st_NotJudged = [], st_Gaps = 0, st_Inputs = (\<lambda>_. [])\<rparr>"

theorem T1_verdicts_witness: "res_Verdict (EvalT1Inputs 4 0 (\<lambda>_. []) (\<lambda>_. []) [t1_demo] [1, 2, 3]) = Pass"
proof -
  have d: "st_DueS t1_demo = []" "st_DCR t1_demo = [140, 140]" "st_Duty t1_demo = 140" by (simp_all add: t1_demo_def)
  have "judged t1_demo i" for i unfolding judged_def d(1) by (simp only: list.size le0 if_True)
  then have "reg_values st_DCR t1_demo = [140, 140]" by (simp add: reg_values_def judged_from_def d(2))
  then have "step_agrees st_DCR t1_demo" "step_complete st_DCR t1_demo" by (simp_all add: step_agrees_def step_complete_def d(3))
  moreover have "quiet (\<lambda>_. []) f" "stays (\<lambda>_. []) [t1_demo] f" for f by (simp_all add: quiet_def stays_def mean_ints_def)
  ultimately show ?thesis using T1_verdicts [of 4 0 "\<lambda>_. []" "\<lambda>_. []" "[t1_demo]" "[1, 2, 3]"]
    by (simp add: Let_def t1_regs_def)
qed

section \<open>The gate window\<close>

lemma fold_min_max:
  fixes vs :: "rat list"
  assumes "vs \<noteq> []"
  shows "fold min (tl vs) (hd vs) = Min (set vs)" "fold max (tl vs) (hd vs) = Max (set vs)"
proof -
  obtain x xs where "vs = x # xs" using assms by (cases vs) auto
  then show "fold min (tl vs) (hd vs) = Min (set vs)" "fold max (tl vs) (hd vs) = Max (set vs)"
    by (simp_all only: Min.set_eq_fold Max.set_eq_fold list.sel)
qed

definition all_below :: "rat \<Rightarrow> rat list \<Rightarrow> bool" where
  "all_below c vs \<longleftrightarrow> vs \<noteq> [] \<and> (\<forall>x \<in> set vs. \<forall>y \<in> set vs. f_sub x y < c)"

lemma span_below: "vs \<noteq> [] \<Longrightarrow> f_sub (fold max (tl vs) (hd vs)) (fold min (tl vs) (hd vs)) < c \<longleftrightarrow> all_below c vs"
proof -
  assume ne: "vs \<noteq> []"
  have "f_sub x y \<le> f_sub (Max (set vs)) (Min (set vs))" if "x \<in> set vs" "y \<in> set vs" for x y
    unfolding f_sub_def using that by (intro rnd64_mono diff_mono) auto
  moreover have "Max (set vs) \<in> set vs" "Min (set vs) \<in> set vs" using ne by auto
  ultimately show ?thesis unfolding fold_min_max [OF ne] all_below_def using ne by (meson order_le_less_trans)
qed

text \<open>
  The gate before the writing tests passes exactly when every sensor an abort limit depends on had a value in the
  window, and the system, ambient and disk temperatures each had values and no two of them differ by a
  degree; and it records for every limit sensor whether it had a value.
\<close>

theorem EvalG4_pass:
  "(g4_Pass (EvalG4 rows) \<longleftrightarrow>
      list_all (\<lambda>get. list_ex (\<lambda>s. get s \<noteq> None) rows) [s_Tctl, s_NVMeMax, s_HDDMax] \<and>
      list_all (\<lambda>get. all_below 1 (known_values (map get rows))) [s_ECSys, s_ECAmb, s_HDDMax]) \<and>
   list_all (\<lambda>(name, get). g4_Limit (EvalG4 rows) name = list_ex (\<lambda>s. get s \<noteq> None) rows) limit_sensors"
proof -
  have lim: "g4_Pass (limit_seen rows (n, get) g) \<longleftrightarrow> g4_Pass g \<and> list_ex (\<lambda>s. get s \<noteq> None) rows"
    "g4_Limit (limit_seen rows (n, get) g) = (g4_Limit g)(n := list_ex (\<lambda>s. get s \<noteq> None) rows)" for n get g
    by (simp_all add: limit_seen_def Let_def)
  have span: "g4_Limit (gate_span rows c g) = g4_Limit g" for c g by (cases c) (simp add: gate_span_def Let_def)
  have pass: "g4_Pass (gate_span rows (n, m, get) g) \<longleftrightarrow> g4_Pass g \<and> (m = 0 \<or> all_below m (known_values (map get rows)))" for n m get g
    using span_below [of "known_values (map get rows)" m]
    by (cases "known_values (map get rows) = []") (auto simp: gate_span_def Let_def all_below_def)
  show ?thesis
    unfolding EvalG4_def gate_spans_def limit_sensors_def by (simp add: pass lim span GateTempDeltaC_def)
qed

end
