(* ===== verification/ValRunner.thy ===== *)
theory ValRunner
  imports ValEval
begin

text \<open>
  Package \<^verbatim>\<open>internal/validate\<close>, the run procedure (\<^verbatim>\<open>runner.go\<close>) with the register map of
  \<^verbatim>\<open>n5driver.go\<close>. The machine is the record \<open>venv\<close>, the interface \<^verbatim>\<open>Env\<close> over an arbitrary world; the
  context's state is part of the world. A callback \<^verbatim>\<open>each\<close> of \<^verbatim>\<open>hold\<close> only collects, so \<open>hold\<close> returns the list of
  what it is given. The error of \<^verbatim>\<open>Restore\<close> is split by \<^verbatim>\<open>errors.Is(err, ErrRestoreUnverified)\<close>.
\<close>

section \<open>Environment and state\<close>

type_synonym DCR = "int list"

definition dcr_Reg :: "DCR \<Rightarrow> int \<Rightarrow> int" where
  "dcr_Reg d n = d ! nat (2 + n)"

definition ChannelDCR :: "int \<Rightarrow> int option" where
  "ChannelDCR pwm = (if pwm = 1 \<or> pwm = 2 \<or> pwm = 3 then Some pwm else if pwm = 4 then Some 5 else None)"

definition dcr_Channel :: "DCR \<Rightarrow> int \<Rightarrow> int option" where
  "dcr_Channel d pwm = map_option (dcr_Reg d) (ChannelDCR pwm)"

record Readings =
  rd_Fan :: "int \<rightharpoonup> int"
  rd_Tctl :: nfloat
  rd_NVMeMax :: nfloat
  rd_HDDMax :: nfloat
  rd_ECCPU :: nfloat
  rd_ECSys :: nfloat
  rd_ECBoard :: nfloat
  rd_ECAmb :: nfloat
  rd_Load1 :: nfloat

datatype restored = Restored | Unverified goerror | NotRestored goerror

record 'w venv =
  ve_Now :: "'w \<Rightarrow> gotime \<times> 'w"
  ve_Sleep :: "duration \<Rightarrow> 'w \<Rightarrow> bool \<times> 'w"
  ve_Done :: "'w \<Rightarrow> bool \<times> 'w"
  ve_EnterManual :: "int \<Rightarrow> 'w \<Rightarrow> goerror option \<times> 'w"
  ve_WriteDuty :: "int \<Rightarrow> int \<Rightarrow> 'w \<Rightarrow> goerror option \<times> 'w"
  ve_Auto :: "int \<Rightarrow> 'w \<Rightarrow> goerror option \<times> 'w"
  ve_Restore :: "int \<Rightarrow> 'w \<Rightarrow> restored \<times> 'w"
  ve_DCR :: "'w \<Rightarrow> (goerror + DCR) \<times> 'w"
  ve_Read :: "'w \<Rightarrow> Readings \<times> 'w"
  ve_Guard :: "'w \<Rightarrow> string \<times> 'w"

record RunConfig =
  rc_Channel :: int
  rc_OwnTach :: int
  rc_Tachs :: "int list"
  rc_Hold :: duration
  rc_Sample :: duration
  rc_Observe :: duration
  rc_Window :: duration
  rc_Repeat :: nat
  rc_Settle :: duration
  rc_Tolerance :: duration

definition HandbackObserve :: "RunConfig \<Rightarrow> duration" where
  "HandbackObserve c = rc_Observe c + 120 * Second"

definition SettleFor :: "RunConfig \<Rightarrow> duration" where
  "SettleFor c = (if rc_Settle c > 0 then rc_Settle c else SettleTime (rc_Channel c))"

definition tolerance :: "RunConfig \<Rightarrow> duration" where
  "tolerance c = (if rc_Tolerance c > 0 then rc_Tolerance c else GridTolerance)"

definition lostAfter :: int where "lostAfter = 3"

definition SpecConfig :: "int \<Rightarrow> int \<Rightarrow> int list \<Rightarrow> RunConfig" where
  "SpecConfig ch ownTach tachs = \<lparr>rc_Channel = ch, rc_OwnTach = ownTach, rc_Tachs = tachs, rc_Hold = 60 * Second, rc_Sample = 5 * Second,
     rc_Observe = 900 * Second, rc_Window = 300 * Second, rc_Repeat = RunsRequired, rc_Settle = SettleTime ch, rc_Tolerance = GridTolerance\<rparr>"

record 'w Runner =
  rn_world :: 'w
  rn_Samples :: "Sample list"
  rn_Events :: "(gotime \<times> vtext) list"
  rn_Abort :: "vtext option"
  rn_LimitSensors :: "string \<Rightarrow> bool"
  rn_RestoreWarnings :: "(int \<times> goerror) list"
  rn_RestoreOverrides :: "int \<rightharpoonup> vtext"
  rn_Gaps :: int
  rn_start :: gotime
  rn_touched :: "int \<Rightarrow> bool"
  rn_wrote :: bool
  rn_restoreErr :: "int \<rightharpoonup> goerror"
  rn_nanRun :: "string \<Rightarrow> int"
  rn_dcrOK :: bool
  rn_dcrErr :: "goerror option"
  rn_hot :: int
  rn_hotWhy :: vtext

definition NewRunner :: "'w venv \<Rightarrow> 'w \<Rightarrow> 'w Runner" where
  "NewRunner env w0 =
     (let (t, w1) = ve_Now env w0; (d, w2) = ve_DCR env w1
      in \<lparr>rn_world = w2, rn_Samples = [], rn_Events = [], rn_Abort = None, rn_LimitSensors = (\<lambda>_. False), rn_RestoreWarnings = [],
          rn_RestoreOverrides = Map.empty, rn_Gaps = 0, rn_start = t, rn_touched = (\<lambda>_. False), rn_wrote = False,
          rn_restoreErr = Map.empty, rn_nanRun = (\<lambda>_. 0), rn_dcrOK = (case d of Inl _ \<Rightarrow> False | Inr _ \<Rightarrow> True),
          rn_dcrErr = (case d of Inl e \<Rightarrow> Some e | Inr _ \<Rightarrow> None), rn_hot = 0, rn_hotWhy = Txt [] []\<rparr>)"

section \<open>Events and samples\<close>

definition event :: "'w venv \<Rightarrow> vtext \<Rightarrow> 'w Runner \<Rightarrow> 'w Runner" where
  "event env m r = (let (t, w) = ve_Now env (rn_world r) in r\<lparr>rn_world := w, rn_Events := rn_Events r @ [(t, m)]\<rparr>)"

definition run_stop :: "'w venv \<Rightarrow> vtext \<Rightarrow> 'w Runner \<Rightarrow> 'w Runner" where
  "run_stop env reason r =
     (if rn_Abort r = None then event env (Txt ''ABORT %s'' [TT reason]) (r\<lparr>rn_Abort := Some reason\<rparr>) else r)"

fun lost_loop :: "(string \<Rightarrow> bool) \<Rightarrow> (string \<times> nfloat) list \<Rightarrow> (string \<Rightarrow> int) \<Rightarrow> vtext option \<times> (string \<Rightarrow> int)" where
  "lost_loop lims [] nan = (None, nan)"
| "lost_loop lims ((name, v) # rest) nan =
     (if \<not> lims name then lost_loop lims rest nan
      else if v \<noteq> None then lost_loop lims rest (nan(name := 0))
      else let nan1 = nan(name := nan name + 1)
           in if nan1 name \<ge> lostAfter
              then (Some (Txt ''limit sensor %s unreadable in %d consecutive samples (its limit cannot be enforced)'' [TS name, TI lostAfter]), nan1)
              else lost_loop lims rest nan1)"

definition over :: "nfloat \<Rightarrow> rat \<Rightarrow> bool" where
  "over v c = (case v of None \<Rightarrow> False | Some x \<Rightarrow> x \<ge> c)"

definition limit_hit :: "Readings \<Rightarrow> (int \<times> vtext) option" where
  "limit_hit rd =
     (if over (rd_Tctl rd) LimitTctlC then Some (1, Txt ''CPU Tctl %.1f C >= %.0f C'' [TF (the (rd_Tctl rd)), TF LimitTctlC])
      else if over (rd_NVMeMax rd) LimitNVMeC then Some (2, Txt ''NVMe %.1f C >= %.0f C'' [TF (the (rd_NVMeMax rd)), TF LimitNVMeC])
      else if over (rd_HDDMax rd) LimitHDDC then Some (3, Txt ''HDD %.1f C >= %.0f C'' [TF (the (rd_HDDMax rd)), TF LimitHDDC])
      else None)"

definition fan_stopped :: "Readings \<Rightarrow> DCR option \<Rightarrow> int \<Rightarrow> bool" where
  "fan_stopped rd dcr n \<longleftrightarrow> rd_Fan rd n = Some 0 \<and>
     \<not> (case dcr of None \<Rightarrow> False | Some d \<Rightarrow> dcr_Channel d n = Some 0)"

text \<open>The row of one sample: when it was due and whether it was read off the grid.\<close>

definition sample_row :: "'w venv \<Rightarrow> RunConfig \<Rightarrow> string \<Rightarrow> int \<Rightarrow> gotime option \<Rightarrow> gotime \<Rightarrow> Readings \<Rightarrow> 'w Runner \<Rightarrow> Sample \<times> 'w Runner" where
  "sample_row env c phase written due now rd r =
     (let s = \<lparr>s_Time = now, s_TS = dur_Seconds (Sub now (rn_start r)), s_OffGrid = False, s_Phase = phase, s_Ch = rc_Channel c,
               s_Written = written, s_DCR = [-1, -1, -1, -1, -1], s_Fan = [-1, -1, -1], s_ECCPU = rd_ECCPU rd, s_ECSys = rd_ECSys rd,
               s_ECBoard = rd_ECBoard rd, s_ECAmb = rd_ECAmb rd, s_HDDMax = rd_HDDMax rd, s_NVMeMax = rd_NVMeMax rd,
               s_Tctl = rd_Tctl rd, s_Load1 = rd_Load1 rd\<rparr>
      in case due of
           None \<Rightarrow> (s, r)
         | Some d \<Rightarrow>
             if \<bar>Sub now d\<bar> \<le> tolerance c then (s\<lparr>s_TS := dur_Seconds (Sub d (rn_start r))\<rparr>, r)
             else (s\<lparr>s_OffGrid := True\<rparr>,
                   event env (Txt ''gap: %s sample due off: recorded, not judged'' [TS phase, TF (dur_Seconds (Sub now d))]) (r\<lparr>rn_Gaps := rn_Gaps r + 1\<rparr>)))"

definition sample :: "'w venv \<Rightarrow> RunConfig \<Rightarrow> string \<Rightarrow> int \<Rightarrow> gotime option \<Rightarrow> 'w Runner \<Rightarrow> (Sample \<times> vtext option) \<times> 'w Runner" where
  "sample env c phase written due r0 =
     (let (now, w1) = ve_Now env (rn_world r0);
          (rd, w2) = ve_Read env w1;
          (s0, r1) = sample_row env c phase written due now rd (r0\<lparr>rn_world := w2\<rparr>);
          (dcr, r2) = (if rn_dcrOK r1
             then (let (d, w3) = ve_DCR env (rn_world r1) in ((case d of Inl _ \<Rightarrow> None | Inr x \<Rightarrow> Some x), r1\<lparr>rn_world := w3\<rparr>))
             else (None, r1));
          s1 = (case dcr of None \<Rightarrow> s0 | Some d \<Rightarrow> s0\<lparr>s_DCR := map (dcr_Reg d) [1, 2, 3, 4, 5]\<rparr>);
          s = s1\<lparr>s_Fan := map (\<lambda>n. case rd_Fan rd n of None \<Rightarrow> - 1 | Some v \<Rightarrow> v) [1, 2, 3]\<rparr>;
          r3 = r2\<lparr>rn_Samples := rn_Samples r2 @ [s]\<rparr>;
          (why, w4) = ve_Guard env (rn_world r3);
          r4 = r3\<lparr>rn_world := w4\<rparr>
      in if why \<noteq> [] then ((s, Some (Txt ''another pwm writer became active: %s'' [TS why])), r4)
         else case lost_loop (rn_LimitSensors r4) [(''tctl'', rd_Tctl rd), (''nvme'', rd_NVMeMax rd), (''hdd'', rd_HDDMax rd)] (rn_nanRun r4) of
             (Some lost, nan) \<Rightarrow> ((s, Some lost), r4\<lparr>rn_nanRun := nan\<rparr>)
           | (None, nan) \<Rightarrow>
               (let r5 = r4\<lparr>rn_nanRun := nan\<rparr>
                in case limit_hit rd of
                     Some (ch, hit) \<Rightarrow> ((s, Some hit), if rn_hot r5 = 0 then r5\<lparr>rn_hot := ch, rn_hotWhy := hit\<rparr> else r5)
                   | None \<Rightarrow> ((s, case filter (fan_stopped rd dcr) (rc_Tachs c) of
                         [] \<Rightarrow> None | n # _ \<Rightarrow> Some (Txt ''fan%d reports 0 rpm while its duty is > 0'' [TI n])), r5)))"

fun hold_loop :: "'w venv \<Rightarrow> RunConfig \<Rightarrow> string \<Rightarrow> int \<Rightarrow> gotime \<Rightarrow> int list \<Rightarrow> 'w Runner \<Rightarrow> bool \<times> (Sample \<times> rat) list \<times> 'w Runner" where
  "hold_loop env c phase written anchor [] r = (True, [], r)"
| "hold_loop env c phase written anchor (k # ks) r =
     (let due = Add anchor (k * rc_Sample c);
          (now, w1) = ve_Now env (rn_world r); r1 = r\<lparr>rn_world := w1\<rparr>
      in if Sub now due > tolerance c
         then hold_loop env c phase written anchor ks
                (event env (Txt ''gap: %s slot skipped (the previous sample overran it by %.2f s)'' [TS phase, TF (dur_Seconds (Sub now due))])
                   (r1\<lparr>rn_Gaps := rn_Gaps r1 + 1\<rparr>))
         else let (go, w2) = (if Sub due now > 0 then ve_Sleep env (Sub due now) w1
                              else (let (d, w) = ve_Done env w1 in (\<not> d, w)));
                  r2 = r1\<lparr>rn_world := w2\<rparr>
              in if \<not> go then (False, [], run_stop env (Txt ''cancelled (signal)'' []) r2)
                 else let ((s, abort), r3) = sample env c phase written (Some due) r2; row = (s, dur_Seconds (k * rc_Sample c))
                      in case abort of
                           Some why \<Rightarrow> (False, [row], run_stop env why r3)
                         | None \<Rightarrow> (let (ok, rows, r4) = hold_loop env c phase written anchor ks r3 in (ok, row # rows, r4)))"

definition hold :: "'w venv \<Rightarrow> RunConfig \<Rightarrow> string \<Rightarrow> int \<Rightarrow> duration \<Rightarrow> 'w Runner \<Rightarrow> bool \<times> (Sample \<times> rat) list \<times> 'w Runner" where
  "hold env c phase written d r =
     (let n = tquot d (rc_Sample c); n1 = (if n < 1 then 1 else n);
          (anchor, w) = ve_Now env (rn_world r)
      in hold_loop env c phase written anchor [1..n1] (r\<lparr>rn_world := w\<rparr>))"

section \<open>Writing and restoring\<close>

definition run_write :: "'w venv \<Rightarrow> int \<Rightarrow> int \<Rightarrow> 'w Runner \<Rightarrow> goerror option \<times> 'w Runner" where
  "run_write env ch duty r =
     (if duty < MinDuty \<or> duty > 255 then (Some (mk_err ''validate: duty below 100 is never written (TESTSPEC)''), r)
      else let (e, w) = ve_WriteDuty env ch duty (rn_world r);
               r1 = r\<lparr>rn_touched := (rn_touched r)(ch := True), rn_wrote := True, rn_world := w\<rparr>
           in case e of
                Some x \<Rightarrow> (Some x, event env (Txt ''write pwm%d=%d FAILED: %v'' [TI ch, TI duty, TS (err_text x)]) r1)
              | None \<Rightarrow> (None, event env (Txt ''write pwm%d=%d'' [TI ch, TI duty]) r1))"

definition run_manual :: "'w venv \<Rightarrow> int \<Rightarrow> 'w Runner \<Rightarrow> goerror option \<times> 'w Runner" where
  "run_manual env ch r =
     (let (e, w) = ve_EnterManual env ch (rn_world r);
          r1 = r\<lparr>rn_touched := (rn_touched r)(ch := True), rn_wrote := True, rn_world := w\<rparr>
      in case e of
           Some x \<Rightarrow> (Some x, event env (Txt ''pwm%d manual FAILED: %v'' [TI ch, TS (err_text x)]) r1)
         | None \<Rightarrow> (None, event env (Txt ''pwm%d manual (driver sets 255)'' [TI ch]) r1))"

definition run_auto :: "'w venv \<Rightarrow> int \<Rightarrow> 'w Runner \<Rightarrow> goerror option \<times> 'w Runner" where
  "run_auto env ch r =
     (let (e, w) = ve_Auto env ch (rn_world r);
          r1 = r\<lparr>rn_touched := (rn_touched r)(ch := True), rn_world := w\<rparr>
      in case e of
           Some x \<Rightarrow> (Some x, event env (Txt ''pwm%d auto FAILED: %v'' [TI ch, TS (err_text x)]) r1)
         | None \<Rightarrow> (None, event env (Txt ''pwm%d auto (EC automatic command)'' [TI ch]) r1))"

definition hotChannel :: "'w Runner \<Rightarrow> int" where
  "hotChannel r = (if rn_hot r = 0 \<or> \<not> rn_wrote r then 0 else rn_hot r)"

definition restore_hot :: "'w venv \<Rightarrow> int \<Rightarrow> 'w Runner \<Rightarrow> bool \<times> 'w Runner" where
  "restore_hot env ch r =
     (let (e1, w1) = ve_EnterManual env ch (rn_world r);
          (e, w2) = (case e1 of None \<Rightarrow> ve_WriteDuty env ch 255 w1 | Some _ \<Rightarrow> (e1, w1));
          r1 = r\<lparr>rn_world := w2\<rparr>; why = Txt ''255 (temperature abort: %s; TESTSPEC)'' [TT (rn_hotWhy r)]
      in case e of
           Some x \<Rightarrow> (let r2 = event env (Txt ''restore pwm%d=255 after a temperature abort FAILED: %v - set it by hand'' [TI ch, TS (err_text x)]) r1
                     in (False, r2\<lparr>rn_restoreErr := (rn_restoreErr r2)(ch \<mapsto> x)\<rparr>))
         | None \<Rightarrow> (let r2 = event env (Txt ''restore pwm%d=255 ok: %s'' [TI ch, TT why]) (r1\<lparr>rn_RestoreOverrides := (rn_RestoreOverrides r1)(ch \<mapsto> why)\<rparr>)
                   in (True, r2\<lparr>rn_restoreErr := (rn_restoreErr r2)(ch := None)\<rparr>)))"

definition run_restore :: "'w venv \<Rightarrow> int \<Rightarrow> 'w Runner \<Rightarrow> bool \<times> 'w Runner" where
  "run_restore env ch r =
     (if ch = hotChannel r then restore_hot env ch r
      else let (e, w) = ve_Restore env ch (rn_world r); r1 = r\<lparr>rn_world := w\<rparr>
           in case e of
                Restored \<Rightarrow>
                  (let r2 = event env (Txt ''restore pwm%d ok'' [TI ch]) r1 in (True, r2\<lparr>rn_restoreErr := (rn_restoreErr r2)(ch := None)\<rparr>))
              | Unverified x \<Rightarrow>
                  (let r2 = event env (Txt ''restore pwm%d WRITTEN, REGISTER DIFFERS: %v'' [TI ch, TS (err_text x)]) r1
                   in (True, r2\<lparr>rn_RestoreWarnings := rn_RestoreWarnings r2 @ [(ch, x)], rn_restoreErr := (rn_restoreErr r2)(ch := None)\<rparr>))
              | NotRestored x \<Rightarrow>
                  (let r2 = event env (Txt ''restore pwm%d FAILED: %v - set it by hand'' [TI ch, TS (err_text x)]) r1
                   in (False, r2\<lparr>rn_restoreErr := (rn_restoreErr r2)(ch \<mapsto> x)\<rparr>)))"

text \<open>Restore and, on success, forget the channel.\<close>

definition restore_done :: "'w venv \<Rightarrow> int \<Rightarrow> 'w Runner \<Rightarrow> 'w Runner" where
  "restore_done env ch r =
     (let (ok, r1) = run_restore env ch r in if ok then r1\<lparr>rn_touched := (rn_touched r1)(ch := False)\<rparr> else r1)"

definition run_Close :: "'w venv \<Rightarrow> 'w Runner \<Rightarrow> 'w Runner" where
  "run_Close env r0 =
     (let h = hotChannel r0; r = (if h > 0 then r0\<lparr>rn_touched := (rn_touched r0)(h := True)\<rparr> else r0)
      in fold (\<lambda>ch r. if rn_touched r ch then restore_done env ch r else r) [1, 2, 3, 4] r)"

definition Unrestored :: "'w Runner \<Rightarrow> (int \<times> goerror option) list" where
  "Unrestored r = map (\<lambda>ch. (ch, rn_restoreErr r ch)) (filter (rn_touched r) [1, 2, 3, 4])"

section \<open>The gate window\<close>

record Gate =
  gt_ID :: string
  gt_Result :: string
  gt_Detail :: vtext

definition on_grid :: "(Sample \<times> rat) list \<Rightarrow> (Sample \<times> rat) list" where
  "on_grid rows = filter (\<lambda>(s, due). \<not> s_OffGrid s) rows"

definition load_gate :: "nfloat \<Rightarrow> Gate" where
  "load_gate l = (case l of
      None \<Rightarrow> \<lparr>gt_ID = ''G3'', gt_Result = ''FAIL'', gt_Detail = Txt ''load average not readable'' []\<rparr>
    | Some x \<Rightarrow> \<lparr>gt_ID = ''G3'', gt_Result = (if x < GateLoad1 then ''PASS'' else ''FAIL''), gt_Detail = Txt ''load1 %.2f'' [TF x]\<rparr>)"

definition Gates :: "'w venv \<Rightarrow> RunConfig \<Rightarrow> 'w Runner \<Rightarrow> (Gate \<times> Gate) \<times> 'w Runner" where
  "Gates env c r = (case rn_Abort r of
      Some a \<Rightarrow>
        ((\<lparr>gt_ID = ''G3'', gt_Result = ''FAIL'', gt_Detail = Txt ''not sampled: %s'' [TT a]\<rparr>,
          \<lparr>gt_ID = ''G4'', gt_Result = ''FAIL'', gt_Detail = Txt ''not sampled: %s'' [TT a]\<rparr>), r)
    | None \<Rightarrow>
        (let ((first, abort), r1) = sample env c ''gate'' (- 1) None r;
             (ok, rows, r2) = (case abort of
                 Some why \<Rightarrow> (False, [], run_stop env why r1)
               | None \<Rightarrow> hold env c ''gate'' (- 1) (rc_Window c) r1);
             g3 = load_gate (s_Load1 first)
         in if \<not> ok
            then ((g3, \<lparr>gt_ID = ''G4'', gt_Result = ''FAIL'',
                     gt_Detail = Txt ''window not completed: %s'' [TT (case rn_Abort r2 of None \<Rightarrow> Txt [] [] | Some a \<Rightarrow> a)]\<rparr>), r2)
            else let ev = EvalG4 (first # map fst (on_grid rows))
                 in ((g3, \<lparr>gt_ID = ''G4'', gt_Result = (if g4_Pass ev then ''PASS'' else ''FAIL''),
                        gt_Detail = Txt ''over window: %v'' (map TT (g4_Parts ev))\<rparr>),
                     r2\<lparr>rn_LimitSensors := g4_Limit ev\<rparr>)))"

section \<open>The mapping test\<close>

definition regDCR :: "Sample \<Rightarrow> int \<Rightarrow> int" where
  "regDCR s n = (if n < 1 \<or> n > int (length (s_DCR s)) \<or> s_DCR s ! nat (n - 1) < 0 then - 1 else s_DCR s ! nat (n - 1))"

definition chDCR :: "RunConfig \<Rightarrow> Sample \<Rightarrow> int" where
  "chDCR c s = (case ChannelDCR (rc_Channel c) of None \<Rightarrow> - 1 | Some n \<Rightarrow> regDCR s n)"

definition fan_series :: "(Sample \<times> rat) list \<Rightarrow> int \<Rightarrow> int list" where
  "fan_series rows f = (if 1 \<le> f \<and> f \<le> 3 then map (\<lambda>(s, due). s_Fan s ! nat (f - 1)) rows else [])"

definition input_series :: "(Sample \<times> rat) list \<Rightarrow> int \<Rightarrow> nfloat list" where
  "input_series rows ch = (if 1 \<le> ch \<and> ch \<le> 3 then map (\<lambda>(s, due). TableInput ch s) rows else [])"

definition lastInput :: "int \<Rightarrow> 'w Runner \<Rightarrow> nfloat" where
  "lastInput ch r = (if rn_Samples r = [] then None else TableInput ch (last (rn_Samples r)))"

definition abort_text :: "'w Runner \<Rightarrow> vtext" where
  "abort_text r = Txt ''aborted: %s'' [TT (case rn_Abort r of None \<Rightarrow> Txt [] [] | Some a \<Rightarrow> a)]"

definition t1_step :: "RunConfig \<Rightarrow> int \<Rightarrow> rat \<Rightarrow> (Sample \<times> rat) list \<Rightarrow> T1Step" where
  "t1_step c duty settle rows =
     (let g = on_grid rows
      in \<lparr>st_Duty = duty, st_DCR = map (\<lambda>(s, due). chDCR c s) g, st_DCR4 = (if rc_Channel c = 3 then map (\<lambda>(s, due). regDCR s 4) g else []),
          st_Fans = fan_series g, st_OwnRPM = 0, st_DueS = map snd g, st_SettleS = settle, st_NotJudged = [],
          st_Gaps = int (length rows - length g), st_Inputs = input_series g\<rparr>)"

fun t1_loop :: "'w venv \<Rightarrow> RunConfig \<Rightarrow> int list \<Rightarrow> T1Step list \<Rightarrow> 'w Runner \<Rightarrow> (vtext + T1Step list) \<times> 'w Runner" where
  "t1_loop env c [] steps r = (Inr steps, r)"
| "t1_loop env c (duty # duties) steps r =
     (let (e, r1) = run_write env (rc_Channel c) duty r
      in case e of
           Some x \<Rightarrow> (let r2 = run_stop env (Txt ''write failed: %s'' [TS (err_text x)]) r1 in (Inl (abort_text r2), r2))
         | None \<Rightarrow>
             (let (ok, rows, r2) = hold env c (''t1-'' @ Itoa duty) duty (rc_Hold c) r1;
                  st = t1_step c duty (dur_Seconds (SettleFor c)) rows
              in if \<not> ok then (Inl (abort_text r2), r2) else t1_loop env c duties (steps @ [st]) r2))"

definition dcr_missing :: "'w Runner \<Rightarrow> vtext" where
  "dcr_missing r = Txt ''not run: duty registers not readable (%s); a verdict needs them, so nothing was written''
     [TS (case rn_dcrErr r of None \<Rightarrow> ''unknown'' | Some e \<Rightarrow> err_text e)]"

definition RunT1 :: "'w venv \<Rightarrow> RunConfig \<Rightarrow> 'w Runner \<Rightarrow> Result \<times> 'w Runner" where
  "RunT1 env c r =
     (let ch = rc_Channel c
      in if \<not> rn_dcrOK r then (NotImplemented ''T1'' ch (dcr_missing r), r)
         else case rn_Abort r of
           Some a \<Rightarrow> (NotImplemented ''T1'' ch (Txt ''not run: %s'' [TT a]), r)
         | None \<Rightarrow>
             (let r0 = event env (Txt ''T1 pwm%d: rest reference'' [TI ch]) r;
                  (ok, rows, r1) = hold env c ''t1-rest'' (- 1) (rc_Hold c) r0
              in if \<not> ok then (NotImplemented ''T1'' ch (abort_text r1), r1)
                 else let (e, r2) = run_manual env ch r1
                      in case e of
                           Some x \<Rightarrow> (NotImplemented ''T1'' ch (Txt ''aborted: manual mode failed: %s'' [TS (err_text x)]), r2)
                         | None \<Rightarrow>
                             (case t1_loop env c T1Steps [] r2 of
                                (Inl why, r3) \<Rightarrow> (NotImplemented ''T1'' ch why, r3)
                              | (Inr steps, r3) \<Rightarrow>
                                  (EvalT1Inputs ch (rc_OwnTach c) (fan_series (on_grid rows)) (input_series (on_grid rows)) steps (rc_Tachs c),
                                   restore_done env ch r3))))"

section \<open>Hand-back and settling\<close>

definition reg_series :: "(Sample \<times> rat) list \<Rightarrow> int \<Rightarrow> DCRSample list" where
  "reg_series rows n = map (\<lambda>(s, due). \<lparr>d_T = due, d_DCR = regDCR s n\<rparr>) (filter (\<lambda>(s, due). regDCR s n \<ge> 0) (on_grid rows))"

definition observe :: "'w venv \<Rightarrow> RunConfig \<Rightarrow> string \<Rightarrow> duration \<Rightarrow> 'w Runner \<Rightarrow> bool \<times> (int \<Rightarrow> DCRSample list) \<times> nfloat list \<times> 'w Runner" where
  "observe env c phase d r =
     (let (ok, rows, r1) = hold env c phase (- 1) d r
      in (ok, (\<lambda>n. if n \<in> set (JudgedRegs (rc_Channel c)) then reg_series rows n else []), map (\<lambda>(s, due). TableInput (rc_Channel c) s) rows, r1))"

definition handback_run :: "RunConfig \<Rightarrow> string \<Rightarrow> int \<Rightarrow> (int \<Rightarrow> DCRSample list) \<Rightarrow> (int \<Rightarrow> DCRSample list) \<Rightarrow> (int \<rightharpoonup> int) \<Rightarrow> vtext option \<Rightarrow> int \<Rightarrow> HandbackRun" where
  "handback_run c label duty smp held autoA cross n =
     \<lparr>hb_Label = label, hb_Reg = (if length (JudgedRegs (rc_Channel c)) > 1 then regName n else []), hb_Written = duty, hb_Samples = smp n,
      hb_TimingKnown = True, hb_Auto = (case autoA n of None \<Rightarrow> 0 | Some a \<Rightarrow> a), hb_AutoKnown = autoA n \<noteq> None, hb_Hold = held n,
      hb_SettleS = dur_Seconds (SettleFor c), hb_InputCrossed = cross\<rparr>"

text \<open>One sub-run: its result when it got that far, and whether the next one runs.\<close>

definition handback_sub ::
  "'w venv \<Rightarrow> RunConfig \<Rightarrow> nat \<Rightarrow> vtext option \<Rightarrow> (int \<rightharpoonup> int) \<Rightarrow> string \<times> int \<Rightarrow> 'w Runner \<Rightarrow> SubResult option \<times> bool \<times> 'w Runner" where
  "handback_sub env c rep crossA autoA sub r =
     (let ch = rc_Channel c; (label, duty) = sub; pre = ''t2-r'' @ Itoa (int rep) @ ''-'' @ label;
          (e, r1) = run_manual env ch r
      in case e of
           Some x \<Rightarrow> (None, False, run_stop env (Txt ''manual mode failed: %s'' [TS (err_text x)]) r1)
         | None \<Rightarrow>
             (let ref = lastInput ch r1; (e, r2) = run_write env ch duty r1
              in case e of
                   Some x \<Rightarrow> (None, False, run_stop env (Txt ''write failed: %s'' [TS (err_text x)]) r2)
                 | None \<Rightarrow>
                     (let (ok, rows, r3) = hold env c (pre @ ''-hold'') duty (rc_Hold c) r2
                      in if \<not> ok then (None, False, r3)
                         else let (e, r4) = run_auto env ch r3
                              in case e of
                                   Some x \<Rightarrow> (None, False, run_stop env (Txt ''auto command failed: %s'' [TS (err_text x)]) r4)
                                 | None \<Rightarrow>
                                     (let (ok, smp, obsIn, r5) = observe env c (pre @ ''-auto'') (HandbackObserve c) r4;
                                          cross = (case crossA of
                                              Some x \<Rightarrow> Some x
                                            | None \<Rightarrow> map_option (\<lambda>x. Txt ''%s: %s'' [TS (InputName ch), TT x])
                                                (Crossing ref (map (\<lambda>(s, due). TableInput ch s) rows @ obsIn) (TableSteps ch)));
                                          hr = map (handback_run c label duty smp (reg_series rows) autoA cross) (JudgedRegs ch)
                                      in (Some (EvalHandbackRegs hr), ok, r5)))))"

fun sub_loop ::
  "'w venv \<Rightarrow> RunConfig \<Rightarrow> nat \<Rightarrow> vtext option \<Rightarrow> (int \<rightharpoonup> int) \<Rightarrow> (string \<times> int) list \<Rightarrow> 'w Runner \<Rightarrow> SubResult list \<times> 'w Runner" where
  "sub_loop env c rep crossA autoA [] r = ([], r)"
| "sub_loop env c rep crossA autoA (s # ss) r =
     (let (res, go, r1) = handback_sub env c rep crossA autoA s r;
          (rest, r2) = (if go then sub_loop env c rep crossA autoA ss r1 else ([], r1))
      in ((case res of None \<Rightarrow> [] | Some x \<Rightarrow> [x]) @ rest, r2))"

fun rep_loop ::
  "'w venv \<Rightarrow> RunConfig \<Rightarrow> vtext option \<Rightarrow> (int \<rightharpoonup> int) \<Rightarrow> (string \<times> int) list \<Rightarrow> nat list \<Rightarrow> 'w Runner \<Rightarrow> SubResult list list \<times> 'w Runner" where
  "rep_loop env c crossA autoA subs [] r = ([], r)"
| "rep_loop env c crossA autoA subs (rep # reps) r =
     (let (res, r1) = sub_loop env c rep crossA autoA subs r;
          (rest, r2) = (if rn_Abort r1 \<noteq> None then ([], r1) else rep_loop env c crossA autoA subs reps r1)
      in ((if res = [] then [] else [res]) @ rest, r2))"

definition last_dcr :: "DCRSample list \<Rightarrow> int option" where
  "last_dcr xs = (if xs = [] then None else Some (d_DCR (last xs)))"

definition not_run2 :: "int \<Rightarrow> vtext \<Rightarrow> Result \<times> Result" where
  "not_run2 ch why = (NotImplemented ''T2'' ch why, NotImplemented ''T3'' ch why)"

text \<open>The repetitions once A is known, with the verdicts.\<close>

definition handback_rest :: "'w venv \<Rightarrow> RunConfig \<Rightarrow> (int \<Rightarrow> DCRSample list) \<Rightarrow> vtext option \<Rightarrow> 'w Runner \<Rightarrow> (Result \<times> Result) \<times> 'w Runner" where
  "handback_rest env c pre crossA r =
     (let ch = rc_Channel c; regs = JudgedRegs ch;
          autoA = (\<lambda>n. if n \<in> set regs then last_dcr (pre n) else None);
          a = (case autoA (hd regs) of None \<Rightarrow> 0 | Some v \<Rightarrow> v); m = MValue a;
          r1 = event env (Txt ''T2 pwm%d: A, H=255, M=%d'' [TI ch, TI m]) r;
          (runs, r2) = rep_loop env c crossA autoA [(''H'', 255), (''M'', m)] [1..<Suc (rc_Repeat c)] r1;
          (t2, t3) = AggregateHandback ch runs [''H'', ''M''];
          (t2, t3) = (case rn_Abort r2 of
              None \<Rightarrow> (t2, t3)
            | Some w \<Rightarrow> (t2\<lparr>res_Verdict := Inconclusive, res_Reasons := Txt ''aborted: %s'' [TT w] # res_Reasons t2\<rparr>,
                        t3\<lparr>res_Verdict := Inconclusive, res_Reasons := Txt ''aborted: %s'' [TT w] # res_Reasons t3\<rparr>));
          vals = [(''A'', a), (''M'', m)] @ (if length regs > 1
              then concat (map (\<lambda>n. case autoA n of None \<Rightarrow> [] | Some v \<Rightarrow> [(''A_'' @ regName n, v)]) regs) else [])
      in ((t2\<lparr>res_Values := Numbers vals\<rparr>, t3), restore_done env ch r2))"

definition RunHandback :: "'w venv \<Rightarrow> RunConfig \<Rightarrow> 'w Runner \<Rightarrow> (Result \<times> Result) \<times> 'w Runner" where
  "RunHandback env c r =
     (let ch = rc_Channel c
      in if ch = PCIeChannel then ((NotApplicableResult ''T2'' ch ReasonNoPCIeAuto, NotApplicableResult ''T3'' ch ReasonNoPCIeAuto), r)
         else if \<not> rn_dcrOK r then (not_run2 ch (dcr_missing r), r)
         else case rn_Abort r of
           Some a \<Rightarrow> (not_run2 ch (Txt ''not run: %s'' [TT a]), r)
         | None \<Rightarrow>
             (let r0 = event env (Txt ''T2 pwm%d: auto value A'' [TI ch]) r;
                  refA = lastInput ch r0;
                  (e, r1) = run_auto env ch r0
              in case e of
                   Some x \<Rightarrow> (let r2 = run_stop env (Txt ''auto command failed: %s'' [TS (err_text x)]) r1 in (not_run2 ch (abort_text r2), r2))
                 | None \<Rightarrow>
                     (let (ok, pre, preIn, r2) = observe env c ''t2-pre'' (rc_Observe c) r1
                      in if \<not> ok \<or> pre (hd (JudgedRegs ch)) = []
                         then (not_run2 ch (if rn_Abort r2 = None then Txt ''aborted: no DCR sample'' [] else abort_text r2), r2)
                         else let crossA = map_option (\<lambda>x. Txt ''%s in the window of A: %s'' [TS (InputName ch), TT x]) (Crossing refA preIn (TableSteps ch));
                                  r3 = (if crossA = None then r2
                                        else event env (Txt ''T2 pwm%d: table input crossed a step in the window of A'' [TI ch]) r2)
                              in handback_rest env c pre crossA r3)))"

end
