(* ===== verification/ValSafety.thy ===== *)
theory ValSafety
  imports ValRunner
begin

text \<open>
  What a validation run does to the machine. \<open>recording\<close> adds to an environment the list of the calls it gets;
  the invariant \<open>live\<close> of the runner relates that list to the runner's own book-keeping, and every operation
  keeps it.
\<close>

section \<open>Recorded calls\<close>

datatype call = CManual int bool | CWrite int int bool | CAuto int bool | CRestore int bool | CRead bool

definition recording :: "'w venv \<Rightarrow> ('w \<times> call list) venv" where
  "recording env = \<lparr>
     ve_Now = (\<lambda>(w, l). let (t, w') = ve_Now env w in (t, (w', l))),
     ve_Sleep = (\<lambda>d (w, l). let (b, w') = ve_Sleep env d w in (b, (w', l))),
     ve_Done = (\<lambda>(w, l). let (b, w') = ve_Done env w in (b, (w', l))),
     ve_EnterManual = (\<lambda>ch (w, l). let (e, w') = ve_EnterManual env ch w in (e, (w', l @ [CManual ch (e = None)]))),
     ve_WriteDuty = (\<lambda>ch d (w, l). let (e, w') = ve_WriteDuty env ch d w in (e, (w', l @ [CWrite ch d (e = None)]))),
     ve_Auto = (\<lambda>ch (w, l). let (e, w') = ve_Auto env ch w in (e, (w', l @ [CAuto ch (e = None)]))),
     ve_Restore = (\<lambda>ch (w, l). let (e, w') = ve_Restore env ch w in (e, (w', l @ [CRestore ch (case e of NotRestored _ \<Rightarrow> False | _ \<Rightarrow> True)]))),
     ve_DCR = (\<lambda>(w, l). let (d, w') = ve_DCR env w in (d, (w', l))),
     ve_Read = (\<lambda>(w, l). let (rd, w') = ve_Read env w in (rd, (w', l @ [CRead (limit_hit rd \<noteq> None)]))),
     ve_Guard = (\<lambda>(w, l). let (s, w') = ve_Guard env w in (s, (w', l)))\<rparr>"

lemma recording_log:
  "snd (snd (ve_Now (recording env) w)) = snd w" "snd (snd (ve_Sleep (recording env) d w)) = snd w"
  "snd (snd (ve_Done (recording env) w)) = snd w" "snd (snd (ve_DCR (recording env) w)) = snd w" "snd (snd (ve_Guard (recording env) w)) = snd w"
  "snd (snd (ve_EnterManual (recording env) ch w)) = snd w @ [CManual ch (fst (ve_EnterManual (recording env) ch w) = None)]"
  "snd (snd (ve_WriteDuty (recording env) ch du w)) = snd w @ [CWrite ch du (fst (ve_WriteDuty (recording env) ch du w) = None)]"
  "snd (snd (ve_Auto (recording env) ch w)) = snd w @ [CAuto ch (fst (ve_Auto (recording env) ch w) = None)]"
  "snd (snd (ve_Restore (recording env) ch w)) = snd w @ [CRestore ch (case fst (ve_Restore (recording env) ch w) of NotRestored _ \<Rightarrow> False | _ \<Rightarrow> True)]"
  "snd (snd (ve_Read (recording env) w)) = snd w @ [CRead (limit_hit (fst (ve_Read (recording env) w)) \<noteq> None)]"
  by (simp_all add: recording_def case_prod_beta Let_def)

fun call_channel :: "call \<Rightarrow> int option" where
  "call_channel (CManual ch _) = Some ch"
| "call_channel (CWrite ch _ _) = Some ch"
| "call_channel (CAuto ch _) = Some ch"
| "call_channel (CRestore ch _) = Some ch"
| "call_channel (CRead _) = None"

definition calls_on :: "int \<Rightarrow> call list \<Rightarrow> call list" where
  "calls_on ch l = filter (\<lambda>c. call_channel c = Some ch) l"

definition left_full :: "int \<Rightarrow> call list \<Rightarrow> bool" where
  "left_full ch l \<longleftrightarrow> calls_on ch l \<noteq> [] \<and> last (calls_on ch l) = CWrite ch 255 True"

definition at_rest :: "int \<Rightarrow> call list \<Rightarrow> bool" where
  "at_rest ch l \<longleftrightarrow> calls_on ch l = [] \<or> last (calls_on ch l) = CRestore ch True \<or> left_full ch l"

definition overheated :: "call list \<Rightarrow> bool" where
  "overheated l \<longleftrightarrow> CRead True \<in> set l"

fun call_ok :: "call list \<Rightarrow> call \<Rightarrow> bool" where
  "call_ok l (CWrite ch d _) = (100 \<le> d \<and> d \<le> 255 \<and> (d = 255 \<or> \<not> overheated l))"
| "call_ok l (CAuto ch _) = (\<not> overheated l)"
| "call_ok l _ = True"

definition log_ok :: "call list \<Rightarrow> bool" where
  "log_ok l \<longleftrightarrow> (\<forall>i < length l. call_ok (take i l) (l ! i))"

lemma log_ok_Nil [simp]: "log_ok []"
  by (simp add: log_ok_def)

lemma log_ok_snoc [simp]: "log_ok (l @ [c]) \<longleftrightarrow> log_ok l \<and> call_ok l c"
  by (auto simp: log_ok_def nth_append less_Suc_eq)

lemma calls_on_snoc: "calls_on ch (l @ [c]) = calls_on ch l @ (if call_channel c = Some ch then [c] else [])"
  by (simp add: calls_on_def)

lemma at_rest_other: "call_channel c \<noteq> Some ch \<Longrightarrow> at_rest ch (l @ [c]) = at_rest ch l" "call_channel c \<noteq> Some ch \<Longrightarrow> left_full ch (l @ [c]) = left_full ch l"
  by (simp_all add: at_rest_def left_full_def calls_on_snoc)

lemma at_rest_restored: "at_rest ch (l @ [CRestore ch True])" "at_rest ch (l @ [CWrite ch 255 True])" "left_full ch (l @ [CWrite ch 255 True])"
  by (simp_all add: at_rest_def left_full_def calls_on_snoc)

lemma overheated_snoc [simp]: "overheated (l @ [c]) \<longleftrightarrow> overheated l \<or> c = CRead True"
  by (auto simp: overheated_def)

declare lost_loop.simps [simp del]

section \<open>The invariant\<close>

type_synonym 'w recorder = "('w \<times> call list) Runner"

abbreviation calls :: "'w recorder \<Rightarrow> call list" where
  "calls r \<equiv> snd (rn_world r)"

definition safe :: "'w recorder \<Rightarrow> bool" where
  "safe r \<longleftrightarrow> log_ok (calls r) \<and> (\<forall>ch. \<not> rn_touched r ch \<longrightarrow> at_rest ch (calls r)) \<and> rn_hot r \<in> {0, 1, 2, 3}"

definition live :: "'w recorder \<Rightarrow> bool" where
  "live r \<longleftrightarrow> safe r \<and> (overheated (calls r) \<longrightarrow> rn_Abort r \<noteq> None)"

lemma NewRunner_live: "live (NewRunner (recording env) (w, []))"
proof -
  obtain t w1 where n: "ve_Now (recording env) (w, []) = (t, w1)" by (metis surj_pair)
  obtain d w2 where d: "ve_DCR (recording env) w1 = (d, w2)" by (metis surj_pair)
  have "snd w1 = []" using recording_log(1) [of env "(w, [])"] n by simp
  then have "snd w2 = []" using recording_log(4) [of env w1] d by simp
  then obtain w' where w2: "w2 = (w', [])" by (cases w2) simp
  show ?thesis unfolding NewRunner_def Let_def n prod.case d w2
      live_def safe_def Runner.simps overheated_def at_rest_def calls_on_def by simp
qed

text \<open>Operations that only log, count or look at the clock.\<close>

definition aside :: "'w recorder \<Rightarrow> 'w recorder \<Rightarrow> bool" where
  "aside r r' \<longleftrightarrow> calls r' = calls r \<and> rn_touched r' = rn_touched r \<and> rn_Abort r' = rn_Abort r \<and> rn_hot r' = rn_hot r \<and> rn_wrote r' = rn_wrote r"

lemma aside_refl: "aside r r"
  by (simp add: aside_def)

lemma aside_trans: "aside r r' \<Longrightarrow> aside r' r'' \<Longrightarrow> aside r r''"
  by (simp add: aside_def)

lemma aside_live: "aside r r' \<Longrightarrow> live r' = live r" "aside r r' \<Longrightarrow> safe r' = safe r"
  by (auto simp: aside_def live_def safe_def)

lemma event_aside: "aside r (event (recording env) m r)"
  using recording_log(1) [of env "rn_world r"] by (auto simp: aside_def event_def Let_def split: prod.splits)

lemma event_fields:
  "calls (event (recording env) m r) = calls r" "rn_touched (event (recording env) m r) = rn_touched r" "rn_Abort (event (recording env) m r) = rn_Abort r"
  "rn_hot (event (recording env) m r) = rn_hot r" "rn_wrote (event (recording env) m r) = rn_wrote r"
  using event_aside [of r env m] by (simp_all add: aside_def)

lemma event_live: "live (event (recording env) m r) = live r"
  by (rule aside_live(1) [OF event_aside])

lemma event_restoreErr: "rn_restoreErr (event env m r) = rn_restoreErr r"
  by (simp add: event_def Let_def split: prod.splits)

lemma run_stop_live: "safe r \<Longrightarrow> live (run_stop (recording env) m r)" "rn_touched (run_stop (recording env) m r) = rn_touched r"
  by (auto simp: run_stop_def live_def safe_def event_fields)

definition sampled :: "'w recorder \<Rightarrow> vtext option \<Rightarrow> 'w recorder \<Rightarrow> bool" where
  "sampled r abort r' \<longleftrightarrow> (\<exists>h. calls r' = calls r @ [CRead h] \<and> (h \<longrightarrow> abort \<noteq> None)) \<and> rn_touched r' = rn_touched r \<and>
     rn_Abort r' = rn_Abort r \<and> (rn_hot r' = rn_hot r \<or> rn_hot r' \<in> {1, 2, 3})"

lemma limit_hit_channel: "limit_hit rd = Some (ch, why) \<Longrightarrow> ch \<in> {1, 2, 3}"
  by (auto simp: limit_hit_def split: if_splits)

lemma sample_row_aside: "sample_row (recording env) c phase written due now rd r = (s, r') \<Longrightarrow> aside r r'"
  by (auto simp: sample_row_def Let_def aside_def event_fields split: option.splits if_splits)

lemma sample_sampled:
  assumes "sample (recording env) c phase written due r = ((s, abort), r')"
  shows "sampled r abort r'"
proof -
  let ?E = "recording env"
  obtain now w1 where 1: "ve_Now ?E (rn_world r) = (now, w1)" by (metis surj_pair)
  obtain rd w2 where 2: "ve_Read ?E w1 = (rd, w2)" by (metis surj_pair)
  obtain s0 r1 where 3: "sample_row ?E c phase written due now rd (r\<lparr>rn_world := w2\<rparr>) = (s0, r1)" by (metis surj_pair)
  obtain dcr r2 where 4: "(if rn_dcrOK r1 then (case ve_DCR ?E (rn_world r1) of (d, w3) \<Rightarrow> ((case d of Inl _ \<Rightarrow> None | Inr x \<Rightarrow> Some x), r1\<lparr>rn_world := w3\<rparr>))
      else (None, r1)) = (dcr, r2)" by (metis surj_pair)
  obtain why w4 where 5: "ve_Guard ?E (rn_world r2) = (why, w4)" by (metis surj_pair)
  have a: "aside (r\<lparr>rn_world := w2\<rparr>) r1" by (rule sample_row_aside [OF 3])
  have b: "aside r1 r2" using 4 recording_log(4) [of env "rn_world r1"] by (auto simp: aside_def split: if_splits prod.splits)
  have w: "snd w2 = calls r @ [CRead (limit_hit rd \<noteq> None)]"
    using recording_log(1) [of env "rn_world r"] recording_log(10) [of env w1] 1 2 by simp
  have "snd w4 = calls r2" using recording_log(5) [of env "rn_world r2"] 5 by simp
  then have f: "snd w4 = calls r @ [CRead (limit_hit rd \<noteq> None)]" "rn_touched r2 = rn_touched r" "rn_Abort r2 = rn_Abort r" "rn_hot r2 = rn_hot r"
    using a b w by (auto simp: aside_def)
  obtain lost nan where l: "lost_loop (rn_LimitSensors r2) [(''tctl'', rd_Tctl rd), (''nvme'', rd_NVMeMax rd), (''hdd'', rd_HDDMax rd)] (rn_nanRun r2) = (lost, nan)"
    by (metis surj_pair)
  note def = assms [unfolded sample_def Let_def 1 2 3 prod.case 4]
  have keep: "sampled r abort r'" if "calls r' = snd w4" "rn_touched r' = rn_touched r2" "rn_Abort r' = rn_Abort r2" "rn_hot r' = rn_hot r2 \<or> rn_hot r' \<in> {1, 2, 3}"
    "limit_hit rd \<noteq> None \<longrightarrow> abort \<noteq> None"
    using that f unfolding sampled_def by simp
  consider "why \<noteq> []" | "why = []" "lost \<noteq> None" | ch hit where "why = []" "lost = None" "limit_hit rd = Some (ch, hit)" | "why = []" "lost = None" "limit_hit rd = None"
    by (metis option.exhaust surj_pair)
  then show ?thesis
  proof cases
    case 1
    then show ?thesis using def 5 by (intro keep) auto
  next
    case 2
    then show ?thesis using def 5 l by (intro keep) auto
  next
    case 3
    then show ?thesis using def 5 l limit_hit_channel [OF 3(3)] by (intro keep) (auto split: if_splits)
  next
    case 4
    then show ?thesis using def 5 l by (intro keep) auto
  qed
qed

lemma sampled_safe: "sampled r abort r' \<Longrightarrow> safe r \<Longrightarrow> safe r'" "sampled r None r' \<Longrightarrow> live r \<Longrightarrow> live r'"
  by (auto simp: sampled_def safe_def live_def at_rest_other)

section \<open>Every operation keeps it\<close>

definition kept :: "'w recorder \<Rightarrow> bool \<Rightarrow> 'w recorder \<Rightarrow> bool" where
  "kept r ok r' \<longleftrightarrow> live r' \<and> rn_touched r' = rn_touched r \<and> (ok \<longrightarrow> rn_Abort r' = rn_Abort r)"

lemma kept_aside: "live r \<Longrightarrow> aside r r' \<Longrightarrow> kept r ok r'"
  using aside_live [of r r'] by (simp add: kept_def aside_def)

lemma kept_trans: "kept r True r' \<Longrightarrow> kept r' ok r'' \<Longrightarrow> kept r ok r''"
  by (simp add: kept_def)

lemma world_aside:
  assumes "snd w = calls r"
  shows "aside r (r\<lparr>rn_world := w\<rparr>)" "aside r (r\<lparr>rn_world := w, rn_Gaps := g\<rparr>)"
  using assms by (simp_all add: aside_def)

lemma hold_loop_kept:
  "live r \<Longrightarrow> hold_loop (recording env) c phase written anchor ks r = (ok, rows, r') \<Longrightarrow> kept r ok r'"
proof (induction ks arbitrary: r ok rows r')
  case Nil
  then show ?case by (simp add: kept_def)
next
  case (Cons k ks)
  let ?E = "recording env" and ?due = "Add anchor (k * rc_Sample c)"
  obtain now w1 where now: "ve_Now ?E (rn_world r) = (now, w1)" by (metis surj_pair)
  let ?r1 = "r\<lparr>rn_world := w1\<rparr>"
  have w1: "snd w1 = calls r" using recording_log(1) [of env "rn_world r"] now by simp
  have k1: "kept r True ?r1" using Cons.prems(1) world_aside(1) [OF w1] by (rule kept_aside)
  show ?case
  proof (cases "Sub now ?due > tolerance c")
    case True
    let ?m = "Txt ''gap: %s slot skipped (the previous sample overran it by %.2f s)'' [TS phase, TF (dur_Seconds (Sub now ?due))]"
    let ?r2 = "event ?E ?m (?r1\<lparr>rn_Gaps := rn_Gaps ?r1 + 1\<rparr>)"
    have "aside r (?r1\<lparr>rn_Gaps := rn_Gaps ?r1 + 1\<rparr>)" using world_aside(2) [OF w1] by simp
    from aside_trans [OF this event_aside] have k2: "kept r True ?r2" using Cons.prems(1) by (intro kept_aside) blast
    have "hold_loop ?E c phase written anchor ks ?r2 = (ok, rows, r')" using Cons.prems(2) True now by (simp add: Let_def)
    from Cons.IH [OF _ this] k2 show ?thesis using kept_trans [OF k2] by (simp add: kept_def)
  next
    case False
    obtain go w2 where go: "(if Sub ?due now > 0 then ve_Sleep ?E (Sub ?due now) w1 else (case ve_Done ?E w1 of (d, w) \<Rightarrow> (\<not> d, w))) = (go, w2)"
      by (metis surj_pair)
    have "snd w2 = snd w1" using go recording_log(2) [of env "Sub ?due now" w1] recording_log(3) [of env w1] by (auto split: if_splits prod.splits)
    then have w2: "snd w2 = calls r" using w1 by simp
    let ?r2 = "?r1\<lparr>rn_world := w2\<rparr>"
    have k2: "kept r True ?r2" using kept_aside [OF Cons.prems(1) world_aside(1) [OF w2]] by simp
    note def = Cons.prems(2) [unfolded hold_loop.simps Let_def now prod.case if_not_P [OF False] go]
    show ?thesis
    proof (cases go)
      case False
      then have "ok = False" "r' = run_stop ?E (Txt ''cancelled (signal)'' []) ?r2" using def by auto
      then show ?thesis using k2 run_stop_live(1) [of ?r2 env] by (simp add: kept_def live_def run_stop_live(2))
    next
      case True
      obtain s abort r3 where smp: "sample ?E c phase written (Some ?due) ?r2 = ((s, abort), r3)" by (metis surj_pair)
      note sm = sample_sampled [OF smp]
      show ?thesis
      proof (cases abort)
        case None
        then have k3: "kept r True r3" using k2 sm sampled_safe(2) [of ?r2 r3] unfolding kept_def sampled_def by metis
        obtain ok' rows' r4 where l: "hold_loop ?E c phase written anchor ks r3 = (ok', rows', r4)" by (metis surj_pair)
        have "ok = ok'" "r' = r4" using def True smp None l by auto
        then show ?thesis using Cons.IH [OF _ l] k3 kept_trans [OF k3] by (simp add: kept_def)
      next
        case (Some why)
        then have "ok = False" "r' = run_stop ?E why r3" using def True smp by auto
        moreover have "safe r3" using sampled_safe(1) [OF sm] k2 by (simp add: kept_def live_def)
        ultimately show ?thesis using run_stop_live(1) [of r3 env why] k2 sm by (simp add: kept_def sampled_def run_stop_live(2))
      qed
    qed
  qed
qed

lemma hold_kept: "live r \<Longrightarrow> hold (recording env) c phase written d r = (ok, rows, r') \<Longrightarrow> kept r ok r'"
proof -
  assume a: "live r" "hold (recording env) c phase written d r = (ok, rows, r')"
  obtain t w where n: "ve_Now (recording env) (rn_world r) = (t, w)" by (metis surj_pair)
  have w: "snd w = calls r" using recording_log(1) [of env "rn_world r"] n by simp
  have k: "kept r True (r\<lparr>rn_world := w\<rparr>)" by (rule kept_aside [OF a(1) world_aside(1) [OF w]])
  have "kept (r\<lparr>rn_world := w\<rparr>) ok r'" using a(2) k n by (intro hold_loop_kept) (auto simp: hold_def Let_def kept_def)
  then show ?thesis by (rule kept_trans [OF k])
qed

text \<open>Commands: allowed while the run is not aborted; they mark the channel.\<close>

definition commanded :: "int \<Rightarrow> 'w recorder \<Rightarrow> goerror option \<Rightarrow> 'w recorder \<Rightarrow> bool" where
  "commanded ch r e r' \<longleftrightarrow> live r' \<and> rn_Abort r' = rn_Abort r \<and> (\<forall>x. rn_touched r x \<longrightarrow> rn_touched r' x) \<and> (e = None \<longrightarrow> rn_touched r' ch)"

lemma command_live:
  assumes "live r" "call_channel c = Some ch" "call_ok (calls r) c"
    and "calls r' = calls r @ [c]" "rn_touched r' = (rn_touched r)(ch := True)" "rn_Abort r' = rn_Abort r" "rn_hot r' = rn_hot r"
  shows "commanded ch r e r'"
proof -
  have "c \<noteq> CRead True" using assms(2) by auto
  then have "live r'" using assms at_rest_other(1) [of c _ "calls r"] by (auto simp: live_def safe_def)
  then show ?thesis using assms(5,6) by (simp add: commanded_def)
qed

lemma not_overheated: "live r \<Longrightarrow> rn_Abort r = None \<Longrightarrow> \<not> overheated (calls r)"
  by (auto simp: live_def)

lemma run_write_commanded:
  assumes "live r" "rn_Abort r = None" "run_write (recording env) ch duty r = (e, r')"
  shows "commanded ch r e r'"
proof (cases "duty < MinDuty \<or> duty > 255")
  case True
  then show ?thesis using assms by (auto simp: run_write_def commanded_def)
next
  case False
  obtain e1 w where d: "ve_WriteDuty (recording env) ch duty (rn_world r) = (e1, w)" by (metis surj_pair)
  have w: "snd w = calls r @ [CWrite ch duty (e1 = None)]" using recording_log(7) [of env ch duty "rn_world r"] d by simp
  have ok: "call_ok (calls r) (CWrite ch duty (e1 = None))" using False not_overheated [OF assms(1,2)] by (auto simp: MinDuty_def)
  show ?thesis using assms(3) False d w
    by (intro command_live [OF assms(1) _ ok]) (auto simp: run_write_def Let_def event_fields split: option.splits)
qed

lemma run_manual_commanded:
  assumes "live r" "run_manual (recording env) ch r = (e, r')"
  shows "commanded ch r e r'"
proof -
  obtain e1 w where d: "ve_EnterManual (recording env) ch (rn_world r) = (e1, w)" by (metis surj_pair)
  have w: "snd w = calls r @ [CManual ch (e1 = None)]" using recording_log(6) [of env ch "rn_world r"] d by simp
  show ?thesis using assms(2) d w
    by (intro command_live [OF assms(1), of "CManual ch (e1 = None)"]) (auto simp: run_manual_def Let_def event_fields split: option.splits)
qed

lemma run_auto_commanded:
  assumes "live r" "rn_Abort r = None" "run_auto (recording env) ch r = (e, r')"
  shows "commanded ch r e r'"
proof -
  obtain e1 w where d: "ve_Auto (recording env) ch (rn_world r) = (e1, w)" by (metis surj_pair)
  have w: "snd w = calls r @ [CAuto ch (e1 = None)]" using recording_log(8) [of env ch "rn_world r"] d by simp
  show ?thesis using assms(3) d w not_overheated [OF assms(1,2)]
    by (intro command_live [OF assms(1), of "CAuto ch (e1 = None)"]) (auto simp: run_auto_def Let_def event_fields split: option.splits)
qed

text \<open>Restoring a marked channel.\<close>

definition restoring :: "int \<Rightarrow> 'w recorder \<Rightarrow> bool \<Rightarrow> 'w recorder \<Rightarrow> bool" where
  "restoring ch r ok r' \<longleftrightarrow> live r' \<and> rn_Abort r' = rn_Abort r \<and> rn_touched r' = rn_touched r \<and> rn_hot r' = rn_hot r \<and> rn_wrote r' = rn_wrote r \<and>
     (ok \<longrightarrow> at_rest ch (calls r')) \<and> (ok \<and> ch = hotChannel r \<longrightarrow> left_full ch (calls r')) \<and> (\<not> ok \<longrightarrow> rn_restoreErr r' ch \<noteq> None) \<and>
     (\<forall>x. x \<noteq> ch \<longrightarrow> at_rest x (calls r') = at_rest x (calls r) \<and> left_full x (calls r') = left_full x (calls r) \<and> rn_restoreErr r' x = rn_restoreErr r x)"

lemma restoring_call:
  assumes "live r" "rn_touched r ch" "log_ok l" "overheated l = overheated (calls r)"
    and "calls r' = l" "rn_touched r' = rn_touched r" "rn_Abort r' = rn_Abort r" "rn_hot r' = rn_hot r" "rn_wrote r' = rn_wrote r"
    and "\<forall>x. x \<noteq> ch \<longrightarrow> calls_on x l = calls_on x (calls r)" "\<forall>x. x \<noteq> ch \<longrightarrow> rn_restoreErr r' x = rn_restoreErr r x"
    and "ok \<longrightarrow> at_rest ch l" "ok \<and> ch = hotChannel r \<longrightarrow> left_full ch l" "\<not> ok \<longrightarrow> rn_restoreErr r' ch \<noteq> None"
  shows "restoring ch r ok r'"
proof -
  have same: "x \<noteq> ch \<Longrightarrow> at_rest x l = at_rest x (calls r) \<and> left_full x l = left_full x (calls r)" for x
    using assms(10) by (simp add: at_rest_def left_full_def)
  have "live r'" unfolding live_def safe_def assms(5-8)
  proof (intro conjI allI impI)
    fix x assume "\<not> rn_touched r x"
    moreover have "x \<noteq> ch" using assms(2) calculation by auto
    ultimately show "at_rest x l" using assms(1) same by (auto simp: live_def safe_def)
  qed (use assms(1,3,4) in \<open>auto simp: live_def safe_def\<close>)
  then show ?thesis using assms same by (auto simp: restoring_def)
qed

lemma restore_hot_restoring:
  assumes "live r" "rn_touched r ch" "ch = hotChannel r" "restore_hot (recording env) ch r = (ok, r')"
  shows "restoring ch r ok r'"
proof -
  let ?E = "recording env"
  obtain e1 w1 where m: "ve_EnterManual ?E ch (rn_world r) = (e1, w1)" by (metis surj_pair)
  have l1: "snd w1 = calls r @ [CManual ch (e1 = None)]" using recording_log(6) [of env ch "rn_world r"] m by simp
  have ok: "log_ok (calls r)" using assms(1) by (simp add: live_def safe_def)
  show ?thesis
  proof (cases e1)
    case (Some x)
    then show ?thesis using assms(4) m l1 ok
      by (intro restoring_call [OF assms(1,2), of "snd w1"]) (auto simp: restore_hot_def Let_def event_fields event_restoreErr calls_on_snoc)
  next
    case None
    obtain e w2 where wr: "ve_WriteDuty ?E ch 255 w1 = (e, w2)" by (metis surj_pair)
    have l2: "snd w2 = (calls r @ [CManual ch True]) @ [CWrite ch 255 (e = None)]" using recording_log(7) [of env ch 255 w1] wr l1 None by simp
    have other: "calls_on x (snd w2) = calls_on x (calls r)" if "x \<noteq> ch" for x using that unfolding l2 calls_on_snoc by simp
    have lo: "log_ok (snd w2)" "overheated (snd w2) = overheated (calls r)" using ok unfolding l2 log_ok_snoc overheated_snoc by simp_all
    show ?thesis
    proof (cases e)
      case (Some x)
      then show ?thesis using assms(4) m None wr lo other
        by (intro restoring_call [OF assms(1,2), of "snd w2"]) (auto simp: restore_hot_def Let_def event_fields event_restoreErr)
    next
      case e: None
      have "at_rest ch (snd w2)" "left_full ch (snd w2)" unfolding l2 using at_rest_restored(2,3) [of ch "calls r @ [CManual ch True]"] e by simp_all
      then show ?thesis using assms(4) m None e wr lo other
        by (intro restoring_call [OF assms(1,2), of "snd w2"]) (auto simp: restore_hot_def Let_def event_fields event_restoreErr)
    qed
  qed
qed

lemma run_restore_restoring:
  assumes "live r" "rn_touched r ch" "run_restore (recording env) ch r = (ok, r')"
  shows "restoring ch r ok r'"
proof (cases "ch = hotChannel r")
  case True
  then show ?thesis using restore_hot_restoring [OF assms(1,2) True] assms(3) by (simp add: run_restore_def)
next
  case False
  obtain e w where d: "ve_Restore (recording env) ch (rn_world r) = (e, w)" by (metis surj_pair)
  have l: "snd w = calls r @ [CRestore ch (case e of NotRestored _ \<Rightarrow> False | _ \<Rightarrow> True)]"
    using recording_log(9) [of env ch "rn_world r"] d by simp
  have lo: "log_ok (snd w)" "overheated (snd w) = overheated (calls r)" using assms(1) unfolding l by (simp_all add: live_def safe_def)
  have other: "calls_on x (snd w) = calls_on x (calls r)" if "x \<noteq> ch" for x using that unfolding l calls_on_snoc by simp
  have rest: "at_rest ch (snd w)" if "\<forall>x. e \<noteq> NotRestored x" using that at_rest_restored(1) [of ch "calls r"] unfolding l by (cases e) auto
  show ?thesis using assms(3) False d lo other rest
    by (intro restoring_call [OF assms(1,2), of "snd w"]) (auto simp: run_restore_def Let_def event_fields event_restoreErr split: restored.splits)
qed

lemma restore_done_kept:
  assumes "live r" "rn_touched r ch"
  shows "live (restore_done (recording env) ch r)" "rn_Abort (restore_done (recording env) ch r) = rn_Abort r"
    "hotChannel (restore_done (recording env) ch r) = hotChannel r"
    "rn_touched (restore_done (recording env) ch r) ch \<Longrightarrow> rn_restoreErr (restore_done (recording env) ch r) ch \<noteq> None"
    "\<not> rn_touched (restore_done (recording env) ch r) ch \<Longrightarrow> ch = hotChannel r \<Longrightarrow> left_full ch (calls (restore_done (recording env) ch r))"
    "x \<noteq> ch \<Longrightarrow> rn_touched (restore_done (recording env) ch r) x = rn_touched r x \<and> rn_restoreErr (restore_done (recording env) ch r) x = rn_restoreErr r x \<and>
       left_full x (calls (restore_done (recording env) ch r)) = left_full x (calls r)"
proof -
  obtain ok r1 where d: "run_restore (recording env) ch r = (ok, r1)" by (metis surj_pair)
  note f = run_restore_restoring [OF assms d, unfolded restoring_def]
  have e: "restore_done (recording env) ch r = (if ok then r1\<lparr>rn_touched := (rn_touched r1)(ch := False)\<rparr> else r1)"
    using d by (simp add: restore_done_def)
  have "live r1" "ok \<longrightarrow> at_rest ch (calls r1)" using f by blast+
  then have "live (r1\<lparr>rn_touched := (rn_touched r1)(ch := False)\<rparr>)" if ok using that by (simp add: live_def safe_def)
  then show "live (restore_done (recording env) ch r)" unfolding e using \<open>live r1\<close> by simp
qed (insert run_restore_restoring [OF assms, of env "fst (run_restore (recording env) ch r)" "snd (run_restore (recording env) ch r)"] assms(2),
  auto simp: restore_done_def restoring_def hotChannel_def case_prod_beta Let_def)

lemma t1_loop_live:
  assumes "live r" "rn_Abort r = None" "rn_touched r (rc_Channel c)" "t1_loop (recording env) c duties steps r = (res, r')"
  shows "live r' \<and> rn_touched r' (rc_Channel c)"
  using assms
proof (induction duties arbitrary: steps r)
  case (Cons duty duties)
  let ?E = "recording env" and ?ch = "rc_Channel c"
  obtain e r1 where w: "run_write ?E ?ch duty r = (e, r1)" by (metis surj_pair)
  note cw = run_write_commanded [OF Cons.prems(1,2) w, unfolded commanded_def]
  show ?case
  proof (cases e)
    case (Some x)
    then have "r' = run_stop ?E (Txt ''write failed: %s'' [TS (err_text x)]) r1" using Cons.prems(4) w by (simp add: Let_def)
    then show ?thesis using cw run_stop_live(1) [of r1 env] Cons.prems(3) by (simp add: run_stop_live(2) live_def)
  next
    case None
    obtain ok rows r2 where h: "hold ?E c (''t1-'' @ Itoa duty) duty (rc_Hold c) r1 = (ok, rows, r2)" by (metis surj_pair)
    have k: "kept r1 ok r2" using cw by (intro hold_kept [OF _ h]) blast
    show ?thesis
    proof (cases ok)
      case False
      then have "r' = r2" using Cons.prems(4) w None h by simp
      then show ?thesis using k cw Cons.prems(3) by (auto simp: kept_def)
    next
      case True
      then show ?thesis using Cons.IH [of r2] k cw Cons.prems w None h by (auto simp: kept_def Let_def)
    qed
  qed
qed simp

lemma RunT1_live:
  assumes "live r"
  shows "live (snd (RunT1 (recording env) c r))"
proof (cases "rn_dcrOK r \<and> rn_Abort r = None")
  case False
  then show ?thesis using assms by (auto simp: RunT1_def Let_def split: option.splits)
next
  case True
  let ?E = "recording env" and ?ch = "rc_Channel c"
  let ?r0 = "event ?E (Txt ''T1 pwm%d: rest reference'' [TI ?ch]) r"
  have l0: "live ?r0" "rn_Abort ?r0 = None" using assms True by (simp_all add: event_fields event_live)
  obtain ok rows r1 where h: "hold ?E c ''t1-rest'' (- 1) (rc_Hold c) ?r0 = (ok, rows, r1)" by (metis surj_pair)
  note k = hold_kept [OF l0(1) h, unfolded kept_def]
  obtain e r2 where m: "run_manual ?E ?ch r1 = (e, r2)" by (metis surj_pair)
  have c2: "commanded ?ch r1 e r2" using k by (intro run_manual_commanded [OF _ m]) blast
  obtain res r3 where t: "t1_loop ?E c T1Steps [] r2 = (res, r3)" by (metis surj_pair)
  have t3: "live r3 \<and> rn_touched r3 ?ch" if "ok" "e = None"
    using that k c2 l0(2) by (intro t1_loop_live [OF _ _ _ t]) (auto simp: commanded_def)
  show ?thesis
  proof (cases "ok \<and> e = None")
    case False
    then show ?thesis using True k c2 h m by (cases e) (auto simp: RunT1_def Let_def commanded_def)
  next
    case b: True
    have "snd (RunT1 ?E c r) = (case res of Inl _ \<Rightarrow> r3 | Inr _ \<Rightarrow> restore_done ?E ?ch r3)"
      using True b h m t by (auto simp: RunT1_def Let_def split: sum.splits)
    then show ?thesis using t3 b restore_done_kept(1) [of r3 ?ch env] by (auto split: sum.splits)
  qed
qed

lemma observe_kept: "live r \<Longrightarrow> observe (recording env) c phase d r = (ok, smp, ins, r') \<Longrightarrow> kept r ok r'"
  by (auto simp: observe_def Let_def split: prod.splits intro: hold_kept)

definition going :: "'w recorder \<Rightarrow> bool \<Rightarrow> 'w recorder \<Rightarrow> bool" where
  "going r go r' \<longleftrightarrow> live r' \<and> (go \<longrightarrow> rn_Abort r' = rn_Abort r) \<and> (\<forall>x. rn_touched r x \<longrightarrow> rn_touched r' x)"

lemma going_intros:
  "kept r ok r' \<Longrightarrow> going r ok r'" "commanded ch r e r' \<Longrightarrow> going r True r'" "going r True r' \<Longrightarrow> going r' go r'' \<Longrightarrow> going r go r''"
  "going r True r' \<Longrightarrow> going r False (run_stop (recording env) m r')"
proof -
  show "kept r ok r' \<Longrightarrow> going r ok r'" "commanded ch r e r' \<Longrightarrow> going r True r'" "going r True r' \<Longrightarrow> going r' go r'' \<Longrightarrow> going r go r''"
    by (auto simp: going_def kept_def commanded_def)
  show "going r True r' \<Longrightarrow> going r False (run_stop (recording env) m r')"
    using run_stop_live(1) [of r' env m] by (auto simp: going_def run_stop_live(2) live_def)
qed

lemma handback_sub_going:
  assumes "live r" "rn_Abort r = None" "handback_sub (recording env) c rep crossA autoA sub r = (res, go, r')"
  shows "going r go r'"
proof -
  let ?E = "recording env" and ?ch = "rc_Channel c"
  obtain label duty where sub: "sub = (label, duty)" by (cases sub)
  let ?pre = "''t2-r'' @ Itoa (int rep) @ ''-'' @ label"
  obtain e1 r1 where m: "run_manual ?E ?ch r = (e1, r1)" by (metis surj_pair)
  have g1: "going r True r1" using run_manual_commanded [OF assms(1) m] by (rule going_intros)
  obtain e2 r2 where w: "run_write ?E ?ch duty r1 = (e2, r2)" by (metis surj_pair)
  have "commanded ?ch r1 e2 r2" using g1 assms(2) by (intro run_write_commanded [OF _ _ w]) (auto simp: going_def)
  then have g2: "going r True r2" using going_intros(2,3) g1 by blast
  obtain ok3 rows r3 where h: "hold ?E c (?pre @ ''-hold'') duty (rc_Hold c) r2 = (ok3, rows, r3)" by (metis prod_cases3)
  have "kept r2 ok3 r3" using g2 by (intro hold_kept [OF _ h]) (simp add: going_def)
  then have g3: "going r ok3 r3" using going_intros(1,3) g2 by blast
  obtain e4 r4 where a: "run_auto ?E ?ch r3 = (e4, r4)" by (metis surj_pair)
  have g4: "going r True r4" if ok3
  proof -
    have "commanded ?ch r3 e4 r4" using g3 that assms(2) by (intro run_auto_commanded [OF _ _ a]) (auto simp: going_def)
    then have "going r3 True r4" by (rule going_intros(2))
    then show ?thesis using going_intros(3) g3 that by simp
  qed
  obtain ok5 smp ins r5 where o: "observe ?E c (?pre @ ''-auto'') (HandbackObserve c) r4 = (ok5, smp, ins, r5)" by (metis prod_cases4)
  have g5: "going r ok5 r5" if ok3
  proof -
    have "kept r4 ok5 r5" using g4 [OF that] by (intro observe_kept [OF _ o]) (simp add: going_def)
    then show ?thesis using going_intros(1,3) g4 [OF that] by blast
  qed
  note def = assms(3) [unfolded handback_sub_def Let_def sub prod.case m w h a o]
  have "(go = False \<and> (\<exists>m. r' = run_stop ?E m r1 \<or> r' = run_stop ?E m r2 \<or> (ok3 \<and> r' = run_stop ?E m r4))) \<or>
    (go = ok3 \<and> r' = r3 \<and> \<not> ok3) \<or> (ok3 \<and> go = ok5 \<and> r' = r5)"
    using def by (auto split: option.splits if_splits)
  then show ?thesis using g1 g2 g3 g4 g5 going_intros(4) by metis
qed

lemma sub_loop_going:
  assumes "live r" "rn_Abort r = None" "sub_loop (recording env) c rep crossA autoA subs r = (res, r')"
  shows "going r False r'"
  using assms
proof (induction subs arbitrary: r res r')
  case (Cons s ss)
  obtain x go r1 where h: "handback_sub (recording env) c rep crossA autoA s r = (x, go, r1)" by (metis prod_cases3)
  have g: "going r go r1" by (rule handback_sub_going [OF Cons.prems(1,2) h])
  obtain rest r2 where l: "(if go then sub_loop (recording env) c rep crossA autoA ss r1 else ([], r1)) = (rest, r2)" by (metis surj_pair)
  have "r' = r2" using Cons.prems(3) h l by simp
  moreover have "going r1 False r2"
  proof (cases go)
    case True
    then show ?thesis using Cons.IH [of r1 rest r2] Cons.prems(2) g l by (auto simp: going_def)
  next
    case False
    then show ?thesis using l g by (simp add: going_def)
  qed
  ultimately show ?case using g by (auto simp: going_def)
qed (simp add: going_def)

lemma rep_loop_going:
  assumes "live r" "rn_Abort r = None" "rep_loop (recording env) c crossA autoA subs reps r = (res, r')"
  shows "going r False r'"
  using assms
proof (induction reps arbitrary: r res r')
  case (Cons rep reps)
  obtain x r1 where h: "sub_loop (recording env) c rep crossA autoA subs r = (x, r1)" by (metis surj_pair)
  have g: "going r False r1" by (rule sub_loop_going [OF Cons.prems(1,2) h])
  obtain rest r2 where l: "(if rn_Abort r1 \<noteq> None then ([], r1) else rep_loop (recording env) c crossA autoA subs reps r1) = (rest, r2)" by (metis surj_pair)
  have "r' = r2" using Cons.prems(3) h l by simp
  moreover have "going r1 False r2"
  proof (cases "rn_Abort r1 = None")
    case True
    then show ?thesis using Cons.IH [of r1 rest r2] g l by (auto simp: going_def)
  next
    case False
    then show ?thesis using l g by (simp add: going_def)
  qed
  ultimately show ?case using g by (auto simp: going_def)
qed (simp add: going_def)

lemma handback_rest_live:
  assumes "live r" "rn_Abort r = None" "rn_touched r (rc_Channel c)"
  shows "live (snd (handback_rest (recording env) c pre crossA r))"
proof -
  let ?E = "recording env" and ?ch = "rc_Channel c"
  have "live (restore_done ?E ?ch (snd (rep_loop ?E c crossA autoA subs reps (event ?E m r))))" for autoA subs reps m
  proof -
    obtain runs r2 where l: "rep_loop ?E c crossA autoA subs reps (event ?E m r) = (runs, r2)" by (metis surj_pair)
    have "going (event ?E m r) False r2" using assms by (intro rep_loop_going [OF _ _ l]) (simp_all add: event_fields event_live)
    then have "live r2" "rn_touched r2 ?ch" using assms(3) by (auto simp: going_def event_fields)
    then show ?thesis using l restore_done_kept(1) by simp
  qed
  then show ?thesis unfolding handback_rest_def Let_def case_prod_beta snd_conv .
qed

lemma RunHandback_live:
  assumes "live r"
  shows "live (snd (RunHandback (recording env) c r))"
proof (cases "rc_Channel c \<noteq> PCIeChannel \<and> rn_dcrOK r \<and> rn_Abort r = None")
  case False
  then show ?thesis using assms by (auto simp: RunHandback_def Let_def split: option.splits)
next
  case True
  let ?E = "recording env" and ?ch = "rc_Channel c"
  let ?r0 = "event ?E (Txt ''T2 pwm%d: auto value A'' [TI ?ch]) r"
  obtain e r1 where a: "run_auto ?E ?ch ?r0 = (e, r1)" by (metis surj_pair)
  have c1: "commanded ?ch ?r0 e r1" using assms True by (intro run_auto_commanded [OF _ _ a]) (simp_all add: event_fields event_live)
  obtain ok pre ins r2 where o: "observe ?E c ''t2-pre'' (rc_Observe c) r1 = (ok, pre, ins, r2)" by (metis prod_cases4)
  have k: "kept r1 ok r2" using c1 by (intro observe_kept [OF _ o]) (simp add: commanded_def)
  note def = RunHandback_def [of ?E c r, unfolded Let_def a prod.case o]
  show ?thesis
  proof (cases "e = None \<and> ok \<and> pre (hd (JudgedRegs ?ch)) \<noteq> []")
    case False
    then show ?thesis using True c1 k run_stop_live(1) [of r1 env] unfolding def
      by (cases e) (auto simp: commanded_def kept_def live_def)
  next
    case b: True
    have r2: "live r2" "rn_Abort r2 = None" "rn_touched r2 ?ch" using b k c1 True by (auto simp: kept_def commanded_def event_fields)
    have "live (snd (handback_rest ?E c pre x r2))" "live (snd (handback_rest ?E c pre x (event ?E mm r2)))" for x mm
      using r2 by (auto intro!: handback_rest_live simp: event_fields event_live)
    then show ?thesis unfolding def using True b by simp
  qed
qed

lemma Gates_live:
  assumes "live r"
  shows "live (snd (Gates (recording env) c r))"
proof (cases "rn_Abort r")
  case (Some a)
  then show ?thesis using assms by (simp add: Gates_def)
next
  case None
  let ?E = "recording env"
  obtain s abort r1 where smp: "sample ?E c ''gate'' (- 1) None r = ((s, abort), r1)" by (metis surj_pair)
  note sm = sample_sampled [OF smp]
  obtain ok rows r2 where h: "(case abort of Some why \<Rightarrow> (False, [], run_stop ?E why r1) | None \<Rightarrow> hold ?E c ''gate'' (- 1) (rc_Window c) r1) = (ok, rows, r2)"
    by (metis prod_cases3)
  have l2: "live r2"
  proof (cases abort)
    case None
    then show ?thesis using h sm sampled_safe(2) [of r r1] assms hold_kept [of r1 env c "''gate''" "- 1"] by (auto simp: kept_def)
  next
    case (Some why)
    then show ?thesis using h run_stop_live(1) [of r1 env] sampled_safe(1) [OF sm] assms by (auto simp: live_def)
  qed
  then have "live (r2\<lparr>rn_LimitSensors := g\<rparr>)" for g by (simp add: live_def safe_def)
  with l2 show ?thesis unfolding Gates_def None option.case Let_def smp prod.case h by simp
qed

text \<open>What a caller does with a runner, as \<^verbatim>\<open>cmd/n5-fangov/validate.go\<close> does; a sample that hits a limit stops the run.\<close>

datatype vop = OpSample string | OpGates | OpT1 | OpHandback | OpClose

definition stop_on :: "'w venv \<Rightarrow> (Sample \<times> vtext option) \<times> 'w Runner \<Rightarrow> 'w Runner" where
  "stop_on env x = (case snd (fst x) of None \<Rightarrow> snd x | Some why \<Rightarrow> run_stop env why (snd x))"

fun perform :: "'w venv \<Rightarrow> RunConfig \<Rightarrow> vop \<Rightarrow> 'w Runner \<Rightarrow> 'w Runner" where
  "perform env c (OpSample phase) r = stop_on env (sample env c phase (- 1) None r)"
| "perform env c OpGates r = snd (Gates env c r)"
| "perform env c OpT1 r = snd (RunT1 env c r)"
| "perform env c OpHandback r = snd (RunHandback env c r)"
| "perform env c OpClose r = run_Close env r"

text \<open>The channels of \<^verbatim>\<open>Close\<close>, one after the other.\<close>

definition closed :: "int set \<Rightarrow> int \<Rightarrow> 'w recorder \<Rightarrow> bool" where
  "closed done h r \<longleftrightarrow> live r \<and> hotChannel r = h \<and> (h > 0 \<and> h \<notin> done \<longrightarrow> rn_touched r h) \<and>
     (\<forall>ch \<in> done. rn_touched r ch \<longrightarrow> rn_restoreErr r ch \<noteq> None) \<and>
     (h > 0 \<and> h \<in> done \<longrightarrow> rn_touched r h \<or> left_full h (calls r))"

lemma close_channel:
  assumes "closed done h r" "ch \<notin> done" "r' = (if rn_touched r ch then restore_done (recording env) ch r else r)"
  shows "closed (insert ch done) h r'"
proof (cases "rn_touched r ch")
  case False
  then show ?thesis using assms by (auto simp: closed_def)
next
  case True
  have live: "live r" "hotChannel r = h" using assms(1) by (auto simp: closed_def)
  note f = restore_done_kept [OF live(1) True, where env = env]
  show ?thesis unfolding closed_def
  proof (intro conjI impI ballI)
    fix x assume x: "x \<in> insert ch done" "rn_touched r' x"
    show "rn_restoreErr r' x \<noteq> None"
    proof (cases "x = ch")
      case True
      then show ?thesis using f(4) x(2) \<open>rn_touched r ch\<close> assms(3) by simp
    next
      case False
      then show ?thesis using f(6) [OF False] x \<open>rn_touched r ch\<close> assms(1,3) by (auto simp: closed_def)
    qed
  next
    assume h: "0 < h \<and> h \<notin> insert ch done"
    then show "rn_touched r' h" using f(6) [where x = h] assms(1,3) True by (auto simp: closed_def)
  next
    assume h: "0 < h \<and> h \<in> insert ch done"
    show "rn_touched r' h \<or> left_full h (calls r')"
    proof (cases "h = ch")
      case b: True
      have "r' = restore_done (recording env) ch r" using assms(3) True by simp
      then show ?thesis using f(5) live(2) b by metis
    next
      case False
      have "rn_touched r' h = rn_touched r h" "left_full h (calls r') = left_full h (calls r)"
        using f(6) [OF False] assms(3) True by simp_all
      moreover have "h \<in> done" using h False by simp
      ultimately show ?thesis using h assms(1) unfolding closed_def by metis
    qed
  qed (use f(1,3) True assms(3) live(2) in auto)
qed

lemma Close_closed:
  assumes "live r"
  shows "closed {1, 2, 3, 4} (hotChannel r) (run_Close (recording env) r)"
proof -
  let ?E = "recording env"
  let ?f = "\<lambda>ch r. if rn_touched r ch then restore_done ?E ch r else r"
  define r0 where "r0 = (if hotChannel r > 0 then r\<lparr>rn_touched := (rn_touched r)(hotChannel r := True)\<rparr> else r)"
  have "closed {} (hotChannel r) r0" using assms by (auto simp: closed_def r0_def live_def safe_def hotChannel_def)
  then have "closed {1} (hotChannel r) (?f 1 r0)" using close_channel [of "{}" _ r0 1] by simp
  then have "closed {2, 1} (hotChannel r) (?f 2 (?f 1 r0))" using close_channel [of "{1}" _ "?f 1 r0" 2, OF _ _ refl] by simp
  then have "closed {3, 2, 1} (hotChannel r) (?f 3 (?f 2 (?f 1 r0)))" using close_channel [of "{2, 1}" _ "?f 2 (?f 1 r0)" 3, OF _ _ refl] by simp
  then have "closed {4, 3, 2, 1} (hotChannel r) (?f 4 (?f 3 (?f 2 (?f 1 r0))))" using close_channel [of "{3, 2, 1}" _ "?f 3 (?f 2 (?f 1 r0))" 4, OF _ _ refl] by simp
  moreover have "{4, 3, 2, 1 :: int} = {1, 2, 3, 4}" by auto
  moreover have "run_Close ?E r = ?f 4 (?f 3 (?f 2 (?f 1 r0)))" unfolding run_Close_def Let_def r0_def [symmetric] by simp
  ultimately show ?thesis by simp
qed

lemma perform_live: "live r \<Longrightarrow> live (perform (recording env) c op r)"
proof (cases op)
  case (OpSample phase)
  assume l: "live r"
  obtain s abort r1 where smp: "sample (recording env) c phase (- 1) None r = ((s, abort), r1)" by (metis surj_pair)
  note sm = sample_sampled [OF smp]
  show ?thesis using OpSample smp l sampled_safe(2) [of r r1] sampled_safe(1) [OF sm] sm run_stop_live(1) [of r1 env]
    by (cases abort) (auto simp: stop_on_def live_def)
qed (auto intro: Gates_live RunT1_live RunHandback_live dest: Close_closed simp: closed_def)

lemma performs_live: "live q \<Longrightarrow> live (fold (perform (recording env) c) ops q)"
proof (induction ops arbitrary: q)
  case (Cons op ops)
  show ?case unfolding fold.simps comp_apply by (rule Cons.IH [OF perform_live [OF Cons.prems]])
qed simp


end
