(* ===== verification/Spec2Isabelle.thy ===== *)
theory Spec2Isabelle
  imports FailsafeCmd ScheduleEval WebGuard DebVer AlertRing History Presets LogFile ValVerdict ValSafety
begin

text \<open>
  A verification development for n5-fangov, a fan governor daemon for small servers written in Go.
  File and function names are those under \<^verbatim>\<open>src/\<close>.

  \<^bold>\<open>The program.\<close> The daemon reads temperatures (\<^verbatim>\<open>internal/sensor\<close>) from sysfs
  (\<^verbatim>\<open>internal/hwmon\<close>), turns them into fan duties by configured curves, limits, ceilings and stall
  checks (\<^verbatim>\<open>internal/control\<close>) and writes them through a verified PWM device
  (\<^verbatim>\<open>internal/profile\<close>). It is driven by a TOML file (\<^verbatim>\<open>internal/config\<close>), weekly schedules
  of presets (\<^verbatim>\<open>internal/schedule\<close>, \<^verbatim>\<open>cmd/n5-fangov/scheduler.go\<close>,
  \<^verbatim>\<open>wiring_presets.go\<close>) and a web API with password, session and token authentication
  (\<^verbatim>\<open>internal/web\<close>). Alerts are kept in a ring (\<^verbatim>\<open>internal/alert\<close>), measurements in a tiered
  history (\<^verbatim>\<open>internal/history\<close>). The command \<^verbatim>\<open>validate\<close> (\<^verbatim>\<open>internal/validate\<close>) runs a
  written test specification on the real fans and judges what it recorded.

  \<^bold>\<open>Prelude.\<close> \<open>GoBase\<close>: 64-bit integers with wrap-around, \<^verbatim>\<open>time.Time\<close>, strings and
  \<^verbatim>\<open>strconv\<close>, association lists as maps, loops over lists with a state. \<open>GoFloat\<close>: binary64
  arithmetic as rational numbers rounded to nearest, ties to even; the locale \<open>go_rounding\<close> states what
  the interpolation needs of the rounding and is interpreted on \<open>rnd64\<close>. \<open>GoNet\<close> and \<open>GoText\<close>:
  addresses, paths, durations, clock times, white space.

  \<^bold>\<open>Regulation.\<close>
  \<^item> \<open>Hwmon\<close>, \<open>SensorSrc\<close>: \<^verbatim>\<open>sysfs.go\<close>, \<^verbatim>\<open>ceiling.go\<close>, \<^verbatim>\<open>sensor.go\<close>: reads, write with read
    back, plausibility, sensor ids and their ceilings.
  \<^item> \<open>Profile\<close>: \<^verbatim>\<open>device.go\<close>, \<^verbatim>\<open>n5pro.go\<close> and the other profiles. The locale \<open>fan_device\<close> is the
    contract of a device (a duty out of range or an unknown channel is refused before any access);
    it is interpreted on the sysfs device and on the monitor device.
  \<^item> \<open>ConfigTypes\<close>, \<open>ControlTypes\<close>, \<open>Curve\<close>, \<open>Controller\<close>, \<open>Service\<close>: \<^verbatim>\<open>types.go\<close>,
    \<^verbatim>\<open>controller.go\<close>, \<^verbatim>\<open>dcr.go\<close>, \<^verbatim>\<open>readerr.go\<close>, \<^verbatim>\<open>watched.go\<close>. The record \<open>Controller\<close> is
    the struct, a step of the code is a function on it; the outside (device, sensors, clock, run
    directory, alert sink, goroutines) is the record \<open>env\<close> over an arbitrary world. A phase of a cycle
    that holds the mutex is one definition.
  \<^item> \<open>Frames\<close>, \<open>Targets\<close>, \<open>Safety\<close>, \<open>Sanitize\<close>, \<open>Invariant\<close>, \<open>Faults\<close>, \<open>FailsafeCmd\<close>: what the
    operations leave alone; that an overheated, stalled or unreadable channel gets its safe duty; that
    nothing is written after a stop or in a dry run; the corrected N5 Pro channel list; the invariant of
    every state reachable under the step relation \<open>step\<close>, which interleaves the phases of a cycle with
    service calls, reloads, \<^verbatim>\<open>Stop\<close> and goroutines; ceiling episodes, stalls, lost devices; the safe
    state \<^verbatim>\<open>Stop\<close> and the \<^verbatim>\<open>failsafe\<close> command leave.
  \<^item> \<open>Demo\<close>: the environment the witnesses run in.

  \<^bold>\<open>Configuration.\<close> \<open>ConfigParse\<close> translates the parser of \<^verbatim>\<open>config.go\<close> in the state monad over the
  warnings; \<open>ConfigOk\<close> shows that its result is valid whatever the file and the decoder, that the web
  section does not fail open, and that written channels are read back. \<open>ConfigEdit\<close> is the editing of
  the text in place (\<^verbatim>\<open>file.go\<close>). \<open>FileStore\<close> is the atomic file writer (\<^verbatim>\<open>fsutil.go\<close>) with the
  loading and saving of the file, over a disk with the files, the file maps of earlier moments and the
  outcome of the calls to come; \<open>Presets\<close> is the preset files and the store of \<^verbatim>\<open>wiring_presets.go\<close>
  with the merge by pwm. \<open>ScheduleEval\<close> is \<^verbatim>\<open>schedule.go\<close> and the scheduler; the locale
  \<open>steady_zone\<close> holds what the search for the next change needs of a time zone and is interpreted on
  every fixed offset.

  \<^bold>\<open>Web.\<close> \<open>WebLimit\<close> (\<^verbatim>\<open>ratelimit.go\<close>, the request limiter of \<^verbatim>\<open>token.go\<close>; \<open>lstep\<close>
  interleaves the attempts), \<open>WebStores\<close> (\<^verbatim>\<open>session.go\<close>, \<^verbatim>\<open>token.go\<close>; the locale
  \<open>credential_store\<close> proves once that a lookup needs a grant not revoked since, and is interpreted on
  both stores), \<open>WebRoutes\<close> (the route table of \<^verbatim>\<open>openapi.go\<close> and \<^verbatim>\<open>http.ServeMux\<close>),
  \<open>WebGuard\<close> (the guard of \<^verbatim>\<open>web.go\<close>; \<^verbatim>\<open>session_api.go\<close>, \<^verbatim>\<open>account_api.go\<close>,
  \<^verbatim>\<open>token_api.go\<close>).

  \<^bold>\<open>Hardware validation.\<close> \<open>ValEval\<close> is \<^verbatim>\<open>eval.go\<close>: the judgement of a hand-back sub-run (T2, T3), of
  the registers of a channel, of the repetitions, of the mapping test (T1), of T4/T5 and of the gate window;
  times and temperatures are binary64 numbers, NaN is \<open>None\<close>, a text is its format with the arguments.
  \<open>ValVerdict\<close> shows that the verdicts are those of the test specification, stated over the set of
  recorded samples. \<open>ValRunner\<close> is \<^verbatim>\<open>runner.go\<close>: the record \<open>Runner\<close> is the struct, the machine with
  its clock and the cancellation is the record \<open>venv\<close> over an arbitrary world. \<open>ValSafety\<close> records the calls the
  machine gets and shows the invariant \<open>live\<close> of every run, with the state in which \<^verbatim>\<open>Close\<close> leaves the fans.

  \<^bold>\<open>Others.\<close> \<open>DebVer\<close> (\<^verbatim>\<open>debver.go\<close>), \<open>AlertRing\<close> (\<^verbatim>\<open>ring.go\<close>), \<open>History\<close>
  (\<^verbatim>\<open>history.go\<close>), \<open>LogFile\<close> (\<^verbatim>\<open>logfile.go\<close>, over the disk of \<open>FileStore\<close>: the rotation refines a list of
  texts of which only the oldest is dropped).

  \<^bold>\<open>Loops.\<close> Loops over data are structural recursion or have a termination proof. \<open>run_loop\<close> and
  \<open>WaitRegister\<close> may run for ever and are partial functions with \<open>None\<close> for not returning; that they
  return is proved (\<open>dead_device_ends_Run\<close>, \<open>Failsafe_stops_every_channel\<close>). \<open>drop_rounds\<close> takes the
  number of rounds: the number of sessions is enough, since each round removes one.

  \<^bold>\<open>Parameters.\<close> The TOML decoder and encoder, \<^verbatim>\<open>url.Parse\<close>, the JSON files, hashes, PBKDF2, random
  bytes, the operating system behind \<^verbatim>\<open>os\<close> and the account store are arguments; the theorems that
  rely on something of them say so in their hypotheses, and their witnesses instantiate it.

  \<^bold>\<open>Not modelled.\<close> Text and JSON rendering (the data handlers of the web API, the CSV export, the
  command line output), network and process I/O (mail and webhook delivery, the ipc socket,
  \<^verbatim>\<open>sd_notify\<close>, driver probing, system information), certificates (\<^verbatim>\<open>internal/tlscert\<close>, over
  \<^verbatim>\<open>crypto/x509\<close>), the simulator, replay and bundle files of the hardware
  validation, argument parsing. Within the modelled parts: the
  recovery of a panic in \<^verbatim>\<open>Run\<close>, interleavings finer than the sections under the mutex, nil checks of
  optional dependencies, the wording of log lines (kept as format and arguments where code depends on
  them); a request is handled at one instant of the clock.
\<close>

section \<open>From the file to the running controller\<close>



end
